(* ===== verification/Tss_Prelude.thy ===== *)
theory Tss_Prelude
  imports Main "HOL-Library.Word" "HOL-Library.Multiset" "HOL-Library.AList"
    "HOL-Library.List_Lexorder" "HOL-Library.Char_ord"
begin

text \<open>
  Shared vocabulary of the go-tss development: Go strings and byte slices, Go maps, error
  values, panics, the decimal rendering of strconv, and the three interface locales
  (key/value store, codec, invariant of a step function) that the components instantiate.

  A Go map is an association list with distinct keys.  The order of the list stands for one
  order in which a \<open>range\<close> may yield the entries; Go leaves that order open, so a theorem
  about an operation that ranges over a map is stated for every list, or on the set of the
  results.
\<close>

section \<open>Types\<close>

type_synonym byte = "8 word"
type_synonym bytes = "byte list"
type_synonym ('k, 'v) gomap = "('k \<times> 'v) list"

text \<open>
  Error values.  \<open>ErrText\<close> is \<open>errors.New\<close> (or \<open>fmt.Errorf\<close> with no wrapped error) with the
  constant part of its text, \<open>ErrWrap\<close> is \<open>fmt.Errorf\<close> with a \<open>%w\<close>, \<open>ErrExt\<close> an error made by
  code that is not in the repository, the rest are the package level sentinels of
  \<open>blame/types.go\<close>, \<open>p2p/party_coordinator.go\<close> and \<open>network/http/keygen_block.go\<close>.
\<close>

datatype goerr =
    ErrText string
  | ErrWrap string goerr
  | ErrExt string
  | ErrHashFromOwner
  | ErrNotEnoughPeer
  | ErrNotMajority
  | ErrTssTimeOut
  | ErrHashCheck
  | ErrHashInconsistency
  | ErrJoinPartyTimeout
  | ErrLeaderNotReady
  | ErrSignReceived
  | ErrNotActiveSigner
  | ErrSigGenerated
  | ErrNotFoundRegisterKeyGen
  | ErrNotFoundKeyGenBlock
  | ErrConnectionRefused

type_synonym 'a res = "goerr + 'a"

text \<open>\<open>errors.Is\<close>: the error itself or an error it wraps.\<close>

fun errors_is :: "goerr \<Rightarrow> goerr \<Rightarrow> bool" where
  "errors_is (ErrWrap s e) t = (ErrWrap s e = t \<or> errors_is e t)"
| "errors_is e t = (e = t)"

text \<open>The outcome of code that may panic.\<close>

datatype 'a outcome = Ret 'a | Panic string

section \<open>Automation\<close>

named_theorems tss_defs \<open>definitions of small operations, unfolded by the component proofs\<close>
named_theorems tss_inv \<open>preservation of component invariants\<close>

lemma Inr_bind_case:
  "(case r of Inl e \<Rightarrow> Inl e | Inr v \<Rightarrow> f v) = Inr w \<longleftrightarrow> (\<exists>v. r = Inr v \<and> f v = Inr w)"
  by (cases r) auto

lemma Inl_bind_case:
  "(case r of Inl e \<Rightarrow> Inl e | Inr v \<Rightarrow> f v) = Inl d \<longleftrightarrow>
     r = Inl d \<or> (\<exists>v. r = Inr v \<and> f v = Inl d)"
  by (cases r) auto

lemmas res_bind_simps = Inr_bind_case Inl_bind_case

text \<open>Sequencing of code that may panic, and the dereference of a pointer.\<close>

definition out_bind :: "'a outcome \<Rightarrow> ('a \<Rightarrow> 'b outcome) \<Rightarrow> 'b outcome" where
  "out_bind r f = (case r of Panic s \<Rightarrow> Panic s | Ret a \<Rightarrow> f a)"

definition deref :: "'a option \<Rightarrow> 'a outcome" where
  "deref p = (case p of None \<Rightarrow> Panic ''nil pointer dereference'' | Some a \<Rightarrow> Ret a)"

lemma out_bind_simps [simp]: "out_bind (Ret a) f = f a" "out_bind (Panic s) f = Panic s"
  by (simp_all add: out_bind_def)

lemma out_bind_Ret_iff: "out_bind r f = Ret b \<longleftrightarrow> (\<exists>a. r = Ret a \<and> f a = Ret b)"
  by (cases r) auto

lemma deref_simps [simp]: "deref (Some a) = Ret a" "deref None = Panic ''nil pointer dereference''"
  by (simp_all add: deref_def)

lemma deref_Ret_iff: "deref p = Ret a \<longleftrightarrow> p = Some a"
  by (cases p) auto

text \<open>A computation does not panic and its result satisfies \<open>P\<close>.\<close>

definition ret_ok :: "('a \<Rightarrow> bool) \<Rightarrow> 'a outcome \<Rightarrow> bool" where
  "ret_ok P r = (case r of Ret a \<Rightarrow> P a | Panic s \<Rightarrow> False)"

lemma ret_ok_simps [simp]: "ret_ok P (Ret a) = P a" "\<not> ret_ok P (Panic s)"
  by (simp_all add: ret_ok_def)

lemma ret_ok_iff: "ret_ok P r \<longleftrightarrow> (\<exists>a. r = Ret a \<and> P a)"
  by (cases r) auto

lemma ret_ok_bind: "ret_ok Q r \<Longrightarrow> (\<And>a. r = Ret a \<Longrightarrow> Q a \<Longrightarrow> ret_ok P (f a)) \<Longrightarrow> ret_ok P (out_bind r f)"
  by (cases r) auto

lemma ret_ok_mono: "ret_ok Q r \<Longrightarrow> (\<And>a. Q a \<Longrightarrow> P a) \<Longrightarrow> ret_ok P r"
  by (cases r) auto

text \<open>The result satisfies \<open>P\<close>, or the program panicked with a value that satisfies \<open>C\<close>.\<close>

definition ret_or :: "(string \<Rightarrow> bool) \<Rightarrow> ('a \<Rightarrow> bool) \<Rightarrow> 'a outcome \<Rightarrow> bool" where
  "ret_or C P r = (case r of Ret a \<Rightarrow> P a | Panic s \<Rightarrow> C s)"

lemma ret_or_simps [simp]: "ret_or C P (Ret a) = P a" "ret_or C P (Panic s) = C s"
  by (simp_all add: ret_or_def)

lemma ret_or_bind: "ret_or C Q r \<Longrightarrow> (\<And>a. r = Ret a \<Longrightarrow> Q a \<Longrightarrow> ret_or C P (f a)) \<Longrightarrow>
    ret_or C P (out_bind r f)"
  by (cases r) auto

lemma ret_or_bind_ok: "ret_ok Q r \<Longrightarrow> (\<And>a. r = Ret a \<Longrightarrow> Q a \<Longrightarrow> ret_or C P (f a)) \<Longrightarrow>
    ret_or C P (out_bind r f)"
  by (cases r) auto

lemma ret_or_Ret: "ret_or C P r \<Longrightarrow> r = Ret a \<Longrightarrow> P a"
  by simp

section \<open>Go maps\<close>

definition mput :: "'k \<Rightarrow> 'v \<Rightarrow> ('k, 'v) gomap \<Rightarrow> ('k, 'v) gomap" where
  "mput k v m = AList.update k v m"

definition mdel :: "'k \<Rightarrow> ('k, 'v) gomap \<Rightarrow> ('k, 'v) gomap" where
  "mdel k m = AList.delete k m"

abbreviation mget :: "('k, 'v) gomap \<Rightarrow> 'k \<Rightarrow> 'v option" where
  "mget \<equiv> map_of"

definition wf_map :: "('k, 'v) gomap \<Rightarrow> bool" where
  "wf_map m \<longleftrightarrow> distinct (map fst m)"

lemma mget_mput [simp]: "mget (mput k v m) = (mget m)(k \<mapsto> v)"
  by (simp add: mput_def update_conv')

lemma mget_mdel [simp]: "mget (mdel k m) = (mget m)(k := None)"
  by (simp add: mdel_def delete_conv')

lemma wf_map_Nil [simp, tss_inv]: "wf_map []"
  by (simp add: wf_map_def)

lemma wf_map_mput [simp, tss_inv]: "wf_map m \<Longrightarrow> wf_map (mput k v m)"
  by (simp add: wf_map_def mput_def distinct_update)

lemma wf_map_mdel [simp, tss_inv]: "wf_map m \<Longrightarrow> wf_map (mdel k m)"
  by (simp add: wf_map_def mdel_def distinct_delete)

lemma fst_set_mput [simp]: "fst ` set (mput k v m) = insert k (fst ` set m)"
  by (auto simp: mput_def dom_update)

lemma fst_set_mdel [simp]: "fst ` set (mdel k m) = fst ` set m - {k}"
  by (auto simp: mdel_def AList.delete_eq)

lemma wf_map_set_iff: "wf_map m \<Longrightarrow> (k, v) \<in> set m \<longleftrightarrow> mget m k = Some v"
  by (auto simp: wf_map_def intro: map_of_is_SomeI dest: map_of_SomeD)

lemma mget_None_iff: "mget m k = None \<longleftrightarrow> k \<notin> fst ` set m"
  by (simp add: map_of_eq_None_iff)

lemma length_wf_map: "wf_map m \<Longrightarrow> length m = card (fst ` set m)"
  unfolding wf_map_def by (metis distinct_card length_map list.set_map)

lemma length_mput:
  assumes "wf_map m"
  shows "length (mput k v m) = (if mget m k = None then Suc (length m) else length m)"
  using assms length_wf_map [OF assms] length_wf_map [OF wf_map_mput [OF assms, of k v]]
  by (auto simp: mget_None_iff insert_absorb card_insert_if)

lemma length_mdel:
  assumes "wf_map m"
  shows "length (mdel k m) = (if mget m k = None then length m else length m - 1)"
  using assms length_wf_map [OF assms] length_wf_map [OF wf_map_mdel [OF assms, of k]]
  by (auto simp: mget_None_iff card_Diff_singleton_if)

text \<open>Two association lists that hold the same Go map, in two range orders.\<close>

definition same_map :: "('k, 'v) gomap \<Rightarrow> ('k, 'v) gomap \<Rightarrow> bool" where
  "same_map m m' \<longleftrightarrow> wf_map m \<and> wf_map m' \<and> mset m = mset m'"

lemma same_map_mget: "same_map m m' \<Longrightarrow> mget m = mget m'"
  unfolding same_map_def wf_map_def
  by (metis map_of_inject_set set_mset_mset)

lemma same_map_set: "same_map m m' \<Longrightarrow> set m = set m'"
  unfolding same_map_def by (metis set_mset_mset)

lemma same_map_length: "same_map m m' \<Longrightarrow> length m = length m'"
  unfolding same_map_def by (metis size_mset)

section \<open>Strings\<close>

text \<open>\<open>strconv.Itoa\<close> and \<open>strconv.FormatInt(_, 10)\<close>.\<close>

definition digit_char :: "nat \<Rightarrow> char" where
  "digit_char d = char_of (48 + d)"

fun nat_digits :: "nat \<Rightarrow> string" where
  "nat_digits n = (if n < 10 then [digit_char n] else nat_digits (n div 10) @ [digit_char (n mod 10)])"

declare nat_digits.simps [simp del]

definition itoa :: "int \<Rightarrow> string" where
  "itoa i = (if i < 0 then CHR ''-'' # nat_digits (nat (- i)) else nat_digits (nat i))"

definition undigits :: "string \<Rightarrow> nat" where
  "undigits s = foldl (\<lambda>a c. 10 * a + (of_char c - 48)) 0 s"

lemma of_digit_char: "d < 10 \<Longrightarrow> of_char (digit_char d) = 48 + d"
  by (simp add: digit_char_def)

lemma undigits_nat_digits [simp]: "undigits (nat_digits n) = n"
proof (induction n rule: nat_digits.induct)
  case (1 n)
  show ?case
  proof (cases "n < 10")
    case True
    then show ?thesis by (simp add: nat_digits.simps [of n] undigits_def of_digit_char)
  next
    case False
    with 1 have "undigits (nat_digits (n div 10)) = n div 10" by simp
    with False show ?thesis
      by (simp add: nat_digits.simps [of n] undigits_def of_digit_char)
  qed
qed

lemma nat_digits_inject [simp]: "nat_digits m = nat_digits n \<longleftrightarrow> m = n"
  by (metis undigits_nat_digits)

lemma nat_digits_chars: "c \<in> set (nat_digits n) \<Longrightarrow> \<exists>d<10. c = digit_char d"
proof (induction n rule: nat_digits.induct)
  case (1 n)
  show ?case
  proof (cases "n < 10")
    case True
    with "1.prems" show ?thesis by (auto simp: nat_digits.simps [of n])
  next
    case False
    from "1.prems" False consider "c \<in> set (nat_digits (n div 10))" | "c = digit_char (n mod 10)"
      by (auto simp: nat_digits.simps [of n])
    then show ?thesis
    proof cases
      case 1
      with "1.IH" False show ?thesis by blast
    next
      case 2
      have "n mod 10 < 10" by simp
      with 2 show ?thesis by blast
    qed
  qed
qed

lemma minus_not_digit: "CHR ''-'' \<notin> set (nat_digits n)"
proof
  assume "CHR ''-'' \<in> set (nat_digits n)"
  then obtain d where d: "d < 10" "CHR ''-'' = digit_char d" using nat_digits_chars by blast
  then have "(of_char CHR ''-'' :: nat) = 48 + d" by (simp add: of_digit_char)
  then show False by simp
qed

lemma itoa_inject [simp]: "itoa i = itoa j \<longleftrightarrow> i = j"
proof
  assume eq: "itoa i = itoa j"
  have neg: "\<And>n s. CHR ''-'' # s \<noteq> nat_digits n"
    using minus_not_digit by (metis list.set_intros(1))
  show "i = j"
    using eq neg neg [symmetric] by (auto simp: itoa_def split: if_splits)
qed simp

text \<open>\<open>strings.HasSuffix\<close>, \<open>strings.Contains\<close>, \<open>strings.Join\<close> and \<open>strings.Split\<close> on a one
  byte separator.\<close>

definition has_suffix :: "string \<Rightarrow> string \<Rightarrow> bool" where
  "has_suffix s suf \<longleftrightarrow> length suf \<le> length s \<and> drop (length s - length suf) s = suf"

fun has_prefix :: "string \<Rightarrow> string \<Rightarrow> bool" where
  "has_prefix s [] = True"
| "has_prefix [] (p # ps) = False"
| "has_prefix (c # cs) (p # ps) = (c = p \<and> has_prefix cs ps)"

fun str_contains :: "string \<Rightarrow> string \<Rightarrow> bool" where
  "str_contains [] sub = (sub = [])"
| "str_contains (c # cs) sub = (has_prefix (c # cs) sub \<or> str_contains cs sub)"

fun str_join :: "string \<Rightarrow> string list \<Rightarrow> string" where
  "str_join sep [] = []"
| "str_join sep [s] = s"
| "str_join sep (s # t # ts) = s @ sep @ str_join sep (t # ts)"

fun split_on :: "char \<Rightarrow> string \<Rightarrow> string list" where
  "split_on c [] = [[]]"
| "split_on c (x # xs) =
     (if x = c then [] # split_on c xs
      else (case split_on c xs of [] \<Rightarrow> [[x]] | w # ws \<Rightarrow> (x # w) # ws))"

lemma has_suffix_append [simp]: "has_suffix (s @ suf) suf"
  by (simp add: has_suffix_def)

lemma has_suffix_iff: "has_suffix s suf \<longleftrightarrow> (\<exists>p. s = p @ suf)"
  by (metis append_eq_conv_conj append_take_drop_id has_suffix_append has_suffix_def)

lemma has_prefix_iff: "has_prefix s p \<longleftrightarrow> (\<exists>r. s = p @ r)"
  by (induction s p rule: has_prefix.induct) auto

lemma str_contains_iff: "str_contains s sub \<longleftrightarrow> (\<exists>a b. s = a @ sub @ b)"
proof (induction s)
  case Nil
  then show ?case by auto
next
  case (Cons c cs)
  show ?case (is "?l = ?r")
  proof
    assume ?l
    then show ?r
      using Cons.IH by (auto simp: has_prefix_iff intro: exI [of _ "[]"] dest: arg_cong [of _ _ "(#) c"])
        (metis append_Cons append_Nil has_prefix_iff)+
  next
    assume ?r
    then obtain a b where ab: "c # cs = a @ sub @ b" by blast
    show ?l
    proof (cases a)
      case Nil
      with ab have "has_prefix (c # cs) sub" by (metis append_Nil has_prefix_iff)
      then show ?thesis by simp
    next
      case (Cons x xs)
      with ab have "cs = xs @ sub @ b" by simp
      with Cons.IH show ?thesis by auto
    qed
  qed
qed

lemma split_on_not_Nil [simp]: "split_on c s \<noteq> []"
  by (induction s) (auto split: list.splits)

lemma split_on_append_sep:
  "c \<notin> set s \<Longrightarrow> split_on c (s @ c # t) = s # split_on c t"
  by (induction s) auto

lemma split_on_no_sep: "c \<notin> set s \<Longrightarrow> split_on c s = [s]"
  by (induction s) auto

text \<open>The bytes of a string: \<open>[]byte(s)\<close> and \<open>string(b)\<close>.\<close>

definition str_bytes :: "string \<Rightarrow> bytes" where
  "str_bytes s = map of_char s"

definition bytes_str :: "bytes \<Rightarrow> string" where
  "bytes_str b = map (\<lambda>w. char_of (unat w)) b"

lemma bytes_str_bytes [simp]: "bytes_str (str_bytes s) = s"
proof -
  have "char_of (unat (of_char c :: byte)) = c" for c
  proof -
    have "(of_char c :: nat) mod 256 < 256" by simp
    then have "(of_char c :: nat) < 2 ^ LENGTH(8)" by simp
    then have "unat (of_nat (of_char c) :: byte) = of_char c" by (simp add: unat_of_nat)
    then have "unat (of_char c :: byte) = of_char c" by (simp add: of_nat_of_char)
    then show ?thesis by simp
  qed
  then show ?thesis by (simp add: bytes_str_def str_bytes_def comp_def)
qed

lemma str_bytes_inject [simp]: "str_bytes s = str_bytes t \<longleftrightarrow> s = t"
  by (metis bytes_str_bytes)

lemma str_bytes_append [simp]: "str_bytes (s @ t) = str_bytes s @ str_bytes t"
  by (simp add: str_bytes_def)

lemma str_bytes_Nil [simp]: "str_bytes [] = []"
  by (simp add: str_bytes_def)

end
