(* ===== verification/Tss_Interfaces.thy ===== *)
theory Tss_Interfaces
  imports Tss_Prelude
begin

text \<open>
  The interfaces the components rely on, as locales: a keyed store with lookup, insertion and
  deletion; an encoder with its decoder; a step function and a step relation with an invariant; a
  quorum function.
  The lemmas a client needs are proved once here; each component interprets the locale on its
  own operations in its own theory.
\<close>

section \<open>Keyed stores\<close>

locale kv_store =
  fixes get :: "'s \<Rightarrow> 'k \<Rightarrow> 'v option"
    and put :: "'k \<Rightarrow> 'v \<Rightarrow> 's \<Rightarrow> 's"
    and inv :: "'s \<Rightarrow> bool"
  assumes get_put: "inv s \<Longrightarrow> get (put k v s) = (get s)(k \<mapsto> v)"
    and inv_put: "inv s \<Longrightarrow> inv (put k v s)"
begin

lemma get_put_same: "inv s \<Longrightarrow> get (put k v s) k = Some v"
  by (simp add: get_put)

lemma get_put_other: "inv s \<Longrightarrow> k \<noteq> k' \<Longrightarrow> get (put k v s) k' = get s k'"
  by (simp add: get_put)

lemma get_put_overwrite: "inv s \<Longrightarrow> get (put k v (put k w s)) = get (put k v s)"
  by (simp add: get_put inv_put)

lemma get_put_commute:
  "inv s \<Longrightarrow> k \<noteq> k' \<Longrightarrow> get (put k v (put k' v' s)) = get (put k' v' (put k v s))"
  by (simp add: get_put inv_put fun_upd_twist)

lemma inv_puts: "inv s \<Longrightarrow> inv (fold (\<lambda>(k, v). put k v) kvs s)"
  by (induction kvs arbitrary: s) (auto simp: inv_put)

lemma get_puts: "inv s \<Longrightarrow> get (fold (\<lambda>(k, v). put k v) kvs s) = get s ++ map_of (rev kvs)"
proof (induction kvs arbitrary: s)
  case Nil
  then show ?case by simp
next
  case (Cons kv kvs)
  obtain k v where "kv = (k, v)" by fastforce
  with Cons show ?case
    by (auto simp: inv_put get_put map_add_def fun_eq_iff split: option.splits)
qed

end

locale kv_store_del = kv_store +
  fixes del :: "'k \<Rightarrow> 's \<Rightarrow> 's"
  assumes get_del: "inv s \<Longrightarrow> get (del k s) = (get s)(k := None)"
    and inv_del: "inv s \<Longrightarrow> inv (del k s)"
begin

lemma get_del_same: "inv s \<Longrightarrow> get (del k s) k = None"
  by (simp add: get_del)

lemma get_del_other: "inv s \<Longrightarrow> k \<noteq> k' \<Longrightarrow> get (del k s) k' = get s k'"
  by (simp add: get_del)

lemma get_del_put: "inv s \<Longrightarrow> get (del k (put k v s)) = get (del k s)"
  by (simp add: get_del get_put inv_put)

lemma get_del_absent: "inv s \<Longrightarrow> get s k = None \<Longrightarrow> get (del k s) = get s"
  by (auto simp: get_del)

end

section \<open>Codecs\<close>

locale codec =
  fixes enc :: "'a \<Rightarrow> 'b"
    and dec :: "'b \<Rightarrow> 'a option"
    and valid :: "'a \<Rightarrow> bool"
  assumes dec_enc: "valid a \<Longrightarrow> dec (enc a) = Some a"
begin

lemma enc_inject: "valid a \<Longrightarrow> valid b \<Longrightarrow> enc a = enc b \<Longrightarrow> a = b"
  by (metis dec_enc option.inject)

lemma inj_on_enc: "inj_on enc {a. valid a}"
  by (rule inj_onI) (auto intro: enc_inject)

lemma dec_all: "list_all valid as \<Longrightarrow> map (dec \<circ> enc) as = map Some as"
  by (induction as) (auto simp: dec_enc)

end

section \<open>Step functions with an invariant\<close>

locale step_inv =
  fixes step :: "'s \<Rightarrow> 'e \<Rightarrow> 's"
    and inv :: "'s \<Rightarrow> bool"
    and event :: "'e \<Rightarrow> bool"
  assumes inv_step: "inv s \<Longrightarrow> event e \<Longrightarrow> inv (step s e)"
begin

lemma inv_run: "inv s \<Longrightarrow> (\<And>e. e \<in> set es \<Longrightarrow> event e) \<Longrightarrow> inv (foldl step s es)"
  by (induction es arbitrary: s) (auto intro: inv_step)

lemma inv_run_prefix: "inv s \<Longrightarrow> (\<And>e. e \<in> set es \<Longrightarrow> event e) \<Longrightarrow> inv (foldl step s (take n es))"
  by (rule inv_run) (auto dest: in_set_takeD)

end

text \<open>A step function with a number that never falls.\<close>

locale step_mono = step_inv +
  fixes meas :: "'s \<Rightarrow> nat"
  assumes meas_step: "inv s \<Longrightarrow> event e \<Longrightarrow> meas s \<le> meas (step s e)"
begin

lemma meas_run: "inv s \<Longrightarrow> (\<And>e. e \<in> set es \<Longrightarrow> event e) \<Longrightarrow> meas s \<le> meas (foldl step s es)"
proof (induction es arbitrary: s)
  case Nil
  then show ?case by simp
next
  case (Cons e es)
  have e: "event e" by (rule Cons.prems(2)) simp
  have "meas s \<le> meas (step s e)" using Cons.prems(1) e by (rule meas_step)
  also have "\<dots> \<le> meas (foldl step (step s e) es)"
    using Cons.prems e by (intro Cons.IH inv_step) auto
  finally show ?case by simp
qed

end

section \<open>Step relations\<close>

text \<open>A step relation with an invariant that may count the steps.\<close>

locale counted_steps =
  fixes step :: "'s \<Rightarrow> 's \<Rightarrow> bool"
    and inv :: "nat \<Rightarrow> 's \<Rightarrow> bool"
  assumes step_inv: "inv n s \<Longrightarrow> step s s' \<Longrightarrow> inv (Suc n) s'"
begin

lemma inv_steps: "(step ^^ k) s s' \<Longrightarrow> inv n s \<Longrightarrow> inv (n + k) s'"
  by (induction k arbitrary: s') (auto intro: step_inv)

lemma inv_reach: "step\<^sup>*\<^sup>* s s' \<Longrightarrow> inv n s \<Longrightarrow> \<exists>k. inv (n + k) s'"
  by (auto simp: rtranclp_power intro: inv_steps)

end

locale step_rel =
  fixes step :: "'s \<Rightarrow> 's \<Rightarrow> bool"
    and inv :: "'s \<Rightarrow> bool"
  assumes keeps_inv: "inv s \<Longrightarrow> step s s' \<Longrightarrow> inv s'"

sublocale step_rel \<subseteq> counted: counted_steps step "\<lambda>_. inv"
  by unfold_locales (rule keeps_inv)

context step_rel
begin

lemma reach_inv: "step\<^sup>*\<^sup>* s s' \<Longrightarrow> inv s \<Longrightarrow> inv s'"
  using counted.inv_reach by blast

end

section \<open>Quorums\<close>

text \<open>A quorum function that asks for at least two thirds of the parties.\<close>

locale two_thirds =
  fixes quorum :: "nat \<Rightarrow> nat"
    and dom :: "nat \<Rightarrow> bool"
  assumes two_thirds: "dom n \<Longrightarrow> 2 * n \<le> 3 * quorum n"
    and quorum_le: "dom n \<Longrightarrow> quorum n \<le> n"
begin

lemma quorum_overlap:
  assumes "dom (card P)" "finite P" "A \<subseteq> P" "B \<subseteq> P"
    and "quorum (card P) \<le> card A" "quorum (card P) \<le> card B"
  shows "card P \<le> 3 * card (A \<inter> B)"
proof -
  have fin: "finite A" "finite B" using assms finite_subset by auto
  have "card A + card B = card (A \<union> B) + card (A \<inter> B)" using fin by (rule card_Un_Int)
  moreover have "card (A \<union> B) \<le> card P" using assms by (intro card_mono) auto
  moreover have "2 * card P \<le> 3 * quorum (card P)" using assms(1) by (rule two_thirds)
  ultimately show ?thesis using assms(5,6) by linarith
qed

lemma quorum_honest:
  assumes "dom (card P)" "finite P" "A \<subseteq> P" "B \<subseteq> P" "F \<subseteq> P"
    and "quorum (card P) \<le> card A" "quorum (card P) \<le> card B" "3 * card F < card P"
  shows "\<exists>p. p \<in> A \<and> p \<in> B \<and> p \<notin> F"
proof (rule ccontr)
  assume "\<not> ?thesis"
  then have "A \<inter> B \<subseteq> F" by auto
  moreover have "finite F" using assms(2,5) by (rule rev_finite_subset)
  ultimately have "card (A \<inter> B) \<le> card F" by (intro card_mono)
  with quorum_overlap [OF assms(1-4) assms(6,7)] assms(8) show False by simp
qed

end

end
