(* ===== verification/Go_Std.thy ===== *)
theory Go_Std
  imports Tss_Interfaces
begin

text \<open>
  The parts of Go's standard library the source computes with: \<open>encoding/hex\<close>,
  \<open>encoding/base64\<close> (StdEncoding), \<open>math/big\<close> bytes, \<open>encoding/binary\<close> little endian, and
  the \<open>float64\<close> arithmetic of \<open>GetThreshold\<close>.  Each encoder is shown to be undone by its
  decoder through an interpretation of the locale \<open>codec\<close>.
\<close>

section \<open>encoding/hex\<close>

definition hex_char :: "nat \<Rightarrow> char" where
  "hex_char d = (if d < 10 then char_of (48 + d) else char_of (87 + d))"

definition hex_val :: "char \<Rightarrow> nat option" where
  "hex_val c =
     (let n = of_char c in
      if 48 \<le> n \<and> n \<le> 57 then Some (n - 48)
      else if 97 \<le> n \<and> n \<le> 102 then Some (n - 87)
      else if 65 \<le> n \<and> n \<le> 70 then Some (n - 55)
      else None)"

fun hex_encode :: "bytes \<Rightarrow> string" where
  "hex_encode [] = []"
| "hex_encode (b # bs) = hex_char (unat b div 16) # hex_char (unat b mod 16) # hex_encode bs"

fun hex_decode :: "string \<Rightarrow> bytes option" where
  "hex_decode [] = Some []"
| "hex_decode [c] = None"
| "hex_decode (c # d # cs) =
     (case (hex_val c, hex_val d, hex_decode cs) of
        (Some h, Some l, Some bs) \<Rightarrow> Some (of_nat (16 * h + l) # bs)
      | _ \<Rightarrow> None)"

lemma hex_val_char: "d < 16 \<Longrightarrow> hex_val (hex_char d) = Some d"
  by (auto simp: hex_val_def hex_char_def)

lemma byte_less: "unat (b :: byte) < 256"
  using unsigned_less [of b, where ?'a = nat] by simp

lemma hex_decode_encode: "hex_decode (hex_encode bs) = Some bs"
proof (induction bs)
  case Nil
  then show ?case by simp
next
  case (Cons b bs)
  have "unat b div 16 < 16" using byte_less [of b] by simp
  moreover have "of_nat (16 * (unat b div 16) + unat b mod 16) = b" by simp
  ultimately show ?case using Cons by (simp add: hex_val_char del: of_nat_add of_nat_mult)
qed

interpretation hex: codec hex_encode hex_decode "\<lambda>_. True"
  by unfold_locales (rule hex_decode_encode)

lemma length_hex_encode [simp]: "length (hex_encode bs) = 2 * length bs"
  by (induction bs) auto

section \<open>encoding/base64, StdEncoding\<close>

definition b64_char :: "nat \<Rightarrow> char" where
  "b64_char d =
     (if d < 26 then char_of (65 + d) else if d < 52 then char_of (71 + d)
      else if d < 62 then char_of (d - 4) else if d = 62 then CHR ''+'' else CHR ''/'')"

definition b64_val :: "char \<Rightarrow> nat option" where
  "b64_val c =
     (let n = of_char c in
      if 65 \<le> n \<and> n \<le> 90 then Some (n - 65)
      else if 97 \<le> n \<and> n \<le> 122 then Some (n - 71)
      else if 48 \<le> n \<and> n \<le> 57 then Some (n + 4)
      else if n = 43 then Some 62
      else if n = 47 then Some 63
      else None)"

fun b64_encode :: "bytes \<Rightarrow> string" where
  "b64_encode [] = []"
| "b64_encode [a] =
     [b64_char (unat a div 4), b64_char (unat a mod 4 * 16), CHR ''='', CHR ''='']"
| "b64_encode [a, b] =
     [b64_char (unat a div 4), b64_char (unat a mod 4 * 16 + unat b div 16),
      b64_char (unat b mod 16 * 4), CHR ''='']"
| "b64_encode (a # b # c # bs) =
     b64_char (unat a div 4) # b64_char (unat a mod 4 * 16 + unat b div 16) #
     b64_char (unat b mod 16 * 4 + unat c div 64) # b64_char (unat c mod 64) # b64_encode bs"

text \<open>Quads, after the line breaks have been dropped; only the last quad may be padded.  As in
  StdEncoding (which is not strict), the unused low bits of a padded quad are not checked.\<close>

fun b64_quads :: "string \<Rightarrow> bytes option" where
  "b64_quads [] = Some []"
| "b64_quads (a # b # c # d # cs) =
     (case (b64_val a, b64_val b) of
        (Some p, Some q) \<Rightarrow>
          (if c = CHR ''='' \<and> d = CHR ''='' \<and> cs = [] then Some [of_nat (p * 4 + q div 16)]
           else (case b64_val c of
               None \<Rightarrow> None
             | Some r \<Rightarrow>
                 (if d = CHR ''='' \<and> cs = [] then
                    Some [of_nat (p * 4 + q div 16), of_nat (q mod 16 * 16 + r div 4)]
                  else (case (b64_val d, b64_quads cs) of
                      (Some s, Some bs) \<Rightarrow>
                        Some (of_nat (p * 4 + q div 16) # of_nat (q mod 16 * 16 + r div 4)
                              # of_nat (r mod 4 * 64 + s) # bs)
                    | _ \<Rightarrow> None))))
      | _ \<Rightarrow> None)"
| "b64_quads _ = None"

definition b64_decode :: "string \<Rightarrow> bytes option" where
  "b64_decode s = b64_quads (filter (\<lambda>c. c \<noteq> CHR 0x0A \<and> c \<noteq> CHR 0x0D) s)"

lemma b64_val_char: "d < 64 \<Longrightarrow> b64_val (b64_char d) = Some d"
  by (auto simp: b64_val_def b64_char_def Let_def)

lemma of_char_b64: "d < 64 \<Longrightarrow> of_char (b64_char d) =
    (if d < 26 then 65 + d else if d < 52 then 71 + d else if d < 62 then d - 4
     else if d = 62 then 43 else (47::nat))"
  by (auto simp: b64_char_def)

lemma b64_char_neq:
  assumes "d < 64"
  shows "b64_char d \<noteq> CHR ''=''" "b64_char d \<noteq> CHR 0x0A" "b64_char d \<noteq> CHR 0x0D"
proof -
  have "(of_char (b64_char d) :: nat) \<notin> {61, 10, 13}"
    using assms by (auto simp: of_char_b64)
  then show "b64_char d \<noteq> CHR ''=''" "b64_char d \<noteq> CHR 0x0A" "b64_char d \<noteq> CHR 0x0D"
    by auto
qed

lemma b64_bounds:
  "unat (a::byte) div 4 < 64" "unat a mod 4 * 16 < 64" "unat a mod 4 * 16 + unat (b::byte) div 16 < 64"
  "unat b mod 16 * 4 < 64" "unat b mod 16 * 4 + unat (c::byte) div 64 < 64" "unat c mod 64 < 64"
proof -
  have "unat a < 256" "unat b < 256" "unat c < 256" by (rule byte_less)+
  then have "unat a div 4 < 64" "unat b div 16 < 16" "unat c div 64 < 4" by auto
  moreover have "unat a mod 4 < 4" "unat b mod 16 < 16" "unat c mod 64 < 64" by simp_all
  ultimately show "unat a div 4 < 64" "unat a mod 4 * 16 < 64"
    "unat a mod 4 * 16 + unat b div 16 < 64" "unat b mod 16 * 4 < 64"
    "unat b mod 16 * 4 + unat c div 64 < 64" "unat c mod 64 < 64"
    by linarith+
qed

lemma base_split: "y < k \<Longrightarrow> (x * k + y) div k = x" "y < k \<Longrightarrow> (x * k + y) mod k = (y::nat)"
  by auto

lemma b64_join:
  "unat (a::byte) div 4 * 4 + (unat a mod 4 * 16 + unat (b::byte) div 16) div 16 = unat a"
  "(unat a mod 4 * 16 + unat b div 16) mod 16 * 16 + (unat b mod 16 * 4 + unat (c::byte) div 64) div 4
     = unat b"
  "(unat a mod 4 * 16 + unat b div 16) mod 16 * 16 + unat b mod 16 = unat b"
  "(unat b mod 16 * 4 + unat c div 64) mod 4 * 64 + unat c mod 64 = unat c"
proof -
  have "unat a < 256" "unat b < 256" "unat c < 256" by (rule byte_less)+
  then have lt: "unat b div 16 < 16" "unat c div 64 < 4" by auto
  show "unat a div 4 * 4 + (unat a mod 4 * 16 + unat b div 16) div 16 = unat a"
    "(unat a mod 4 * 16 + unat b div 16) mod 16 * 16 + (unat b mod 16 * 4 + unat c div 64) div 4
       = unat b"
    "(unat a mod 4 * 16 + unat b div 16) mod 16 * 16 + unat b mod 16 = unat b"
    "(unat b mod 16 * 4 + unat c div 64) mod 4 * 64 + unat c mod 64 = unat c"
    unfolding base_split [OF lt(1)] base_split [OF lt(2)] by (rule div_mult_mod_eq)+
qed

lemma filter_b64_encode:
  "filter (\<lambda>c. c \<noteq> CHR 0x0A \<and> c \<noteq> CHR 0x0D) (b64_encode bs) = b64_encode bs"
  by (induction bs rule: b64_encode.induct) (auto simp: b64_char_neq b64_bounds)

lemma b64_quads_encode: "b64_quads (b64_encode bs) = Some bs"
  by (induction bs rule: b64_encode.induct)
    (simp_all add: b64_val_char b64_char_neq b64_bounds b64_join
      del: of_nat_add of_nat_mult div_mult_mod_eq mod_mult_self3 div_mult_self4 div_mult_self3)

lemma b64_decode_encode: "b64_decode (b64_encode bs) = Some bs"
  by (simp add: b64_decode_def filter_b64_encode b64_quads_encode)

interpretation b64: codec b64_encode b64_decode "\<lambda>_. True"
  by unfold_locales (rule b64_decode_encode)

lemma b64_encode_inject: "b64_encode a = b64_encode b \<longleftrightarrow> a = b"
  using b64.enc_inject by auto

section \<open>math/big: SetBytes and Bytes\<close>

definition be_nat :: "bytes \<Rightarrow> nat" where
  "be_nat bs = foldl (\<lambda>a b. 256 * a + unat b) 0 bs"

fun nat_be :: "nat \<Rightarrow> bytes" where
  "nat_be n = (if n = 0 then [] else nat_be (n div 256) @ [of_nat (n mod 256)])"

declare nat_be.simps [simp del]

lemma be_nat_snoc [simp]: "be_nat (bs @ [b]) = 256 * be_nat bs + unat b"
  by (simp add: be_nat_def)

lemma be_nat_Nil [simp]: "be_nat [] = 0"
  by (simp add: be_nat_def)

lemma unat_of_nat_byte: "n < 256 \<Longrightarrow> unat (of_nat n :: byte) = n"
  by (simp add: unat_of_nat)

lemma be_nat_nat_be [simp]: "be_nat (nat_be n) = n"
proof (induction n rule: nat_be.induct)
  case (1 n)
  then show ?case
    by (cases "n = 0") (simp_all add: nat_be.simps [of n] nat_be.simps [of 0] unat_of_nat_byte)
qed

interpretation bigint: codec nat_be "\<lambda>b. Some (be_nat b)" "\<lambda>_. True"
  by unfold_locales simp

lemma be_nat_less: "be_nat bs < 256 ^ length bs"
proof (induction bs rule: rev_induct)
  case Nil
  then show ?case by simp
next
  case (snoc b bs)
  have "256 * be_nat bs + unat b < 256 * be_nat bs + 256" using byte_less by simp
  also have "\<dots> \<le> 256 * 256 ^ length bs" using snoc by simp
  finally show ?case by simp
qed

lemma length_nat_be: "n < 256 ^ k \<Longrightarrow> length (nat_be n) \<le> k"
proof (induction n arbitrary: k rule: nat_be.induct)
  case (1 n)
  show ?case
  proof (cases "n = 0")
    case True
    then show ?thesis by (simp add: nat_be.simps [of 0])
  next
    case False
    with "1.prems" obtain j where k: "k = Suc j" by (cases k) auto
    with "1.prems" have "n div 256 < 256 ^ j" by (simp add: less_mult_imp_div_less)
    with "1.IH" [OF False] show ?thesis
      using False k by (simp add: nat_be.simps [of n])
  qed
qed

lemma be_nat_replicate_zero: "be_nat (replicate k 0 @ bs) = be_nat bs"
proof -
  have "foldl (\<lambda>a b. 256 * a + unat (b::byte)) 0 (replicate k 0) = 0"
    by (induction k) auto
  then show ?thesis by (simp add: be_nat_def)
qed

section \<open>encoding/binary: LittleEndian uint32\<close>

definition put_le32 :: "32 word \<Rightarrow> bytes" where
  "put_le32 w = [ucast w, ucast (drop_bit 8 w), ucast (drop_bit 16 w), ucast (drop_bit 24 w)]"

definition get_le32 :: "byte \<Rightarrow> byte \<Rightarrow> byte \<Rightarrow> byte \<Rightarrow> 32 word" where
  "get_le32 a b c d = of_nat (unat a + 256 * unat b + 65536 * unat c + 16777216 * unat d)"

fun dec_le32 :: "bytes \<Rightarrow> 32 word option" where
  "dec_le32 [a, b, c, d] = Some (get_le32 a b c d)"
| "dec_le32 _ = None"

lemma length_put_le32 [simp]: "length (put_le32 w) = 4"
  by (simp add: put_le32_def)

lemma unat_ucast_byte: "unat (ucast (drop_bit k w :: 32 word) :: byte) = unat w div 2 ^ k mod 256"
  by (simp only: unsigned_ucast_eq unat_drop_bit_eq) (simp add: drop_bit_eq_div take_bit_eq_mod)

lemma unat_ucast_byte0: "unat (ucast (w :: 32 word) :: byte) = unat w mod 256"
  using unat_ucast_byte [of 0 w] by simp

lemma dec_put_le32: "dec_le32 (put_le32 w) = Some w"
proof -
  let ?n = "unat w"
  have "?n < 4294967296" using unsigned_less [of w, where ?'a = nat] by simp
  then have "?n = ?n mod (256 * 256 * 256 * 256)" by simp
  also have "\<dots> = ?n mod 256 + 256 * (?n div 256 mod 256) + 65536 * (?n div 65536 mod 256)
      + 16777216 * (?n div 16777216 mod 256)"
    unfolding mod_mult2_eq div_mult2_eq [symmetric] by simp
  finally have eq: "?n mod 256 + 256 * (?n div 256 mod 256) + 65536 * (?n div 65536 mod 256)
      + 16777216 * (?n div 16777216 mod 256) = ?n"
    by (rule sym)
  have pow: "(2::nat) ^ 8 = 256" "(2::nat) ^ 16 = 65536" "(2::nat) ^ 24 = 16777216" by simp_all
  have "get_le32 (ucast w) (ucast (drop_bit 8 w)) (ucast (drop_bit 16 w)) (ucast (drop_bit 24 w)) = w"
    by (simp only: get_le32_def unat_ucast_byte)
      (simp only: unat_ucast_byte0 pow eq of_nat_unat ucast_id)
  then show ?thesis by (simp add: put_le32_def)
qed

interpretation le32: codec put_le32 dec_le32 "\<lambda>_. True"
  by unfold_locales (rule dec_put_le32)

section \<open>float64\<close>

text \<open>
  A non negative IEEE 754 binary64 value is a quotient \<open>num / den\<close> with \<open>den\<close> a power of two.
  \<open>f64_round p q\<close> is the binary64 value nearest to \<open>p / q\<close>, ties to even: the quotient is scaled
  so that the significand has 53 bits (denormals and infinities do not arise from 64 bit
  integers).
\<close>

type_synonym f64 = "nat \<times> nat"

definition round_quot :: "nat \<Rightarrow> nat \<Rightarrow> nat" where
  "round_quot p q =
     (let d = p div q; r = p mod q in
      if 2 * r < q then d else if 2 * r > q then d + 1 else if even d then d else d + 1)"

fun scale_up :: "nat \<Rightarrow> nat \<Rightarrow> nat \<Rightarrow> nat" where
  \<comment> \<open>the least \<open>k\<close> with \<open>2 ^ 52 * q \<le> p * 2 ^ k\<close>, searched up to the given bound\<close>
  "scale_up 0 p q = 0"
| "scale_up (Suc b) p q = (if 2 ^ 52 * q \<le> p then 0 else Suc (scale_up b (2 * p) q))"

fun scale_down :: "nat \<Rightarrow> nat \<Rightarrow> nat \<Rightarrow> nat" where
  \<comment> \<open>the least \<open>k\<close> with \<open>p < 2 ^ 53 * q * 2 ^ k\<close>, searched up to the given bound\<close>
  "scale_down 0 p q = 0"
| "scale_down (Suc b) p q = (if p < 2 ^ 53 * q then 0 else Suc (scale_down b p (2 * q)))"

definition f64_round :: "nat \<Rightarrow> nat \<Rightarrow> f64" where
  "f64_round p q =
     (if p = 0 then (0, 1)
      else if p < 2 ^ 53 * q then
        (let k = scale_up 1100 p q in (round_quot (p * 2 ^ k) q, 2 ^ k))
      else
        (let k = scale_down 1100 p q in (round_quot p (q * 2 ^ k) * 2 ^ k, 1)))"

definition f64_of_nat :: "nat \<Rightarrow> f64" where
  "f64_of_nat n = f64_round n 1"

definition f64_mul_nat :: "f64 \<Rightarrow> nat \<Rightarrow> f64" where
  "f64_mul_nat x n = f64_round (fst x * n) (snd x)"

definition f64_div_nat :: "f64 \<Rightarrow> nat \<Rightarrow> f64" where
  "f64_div_nat x n = f64_round (fst x) (snd x * n)"

text \<open>\<open>int(math.Ceil(x))\<close>.\<close>

definition f64_ceil :: "f64 \<Rightarrow> nat" where
  "f64_ceil x = (fst x + snd x - 1) div snd x"

lemma round_quot_exact: "0 < q \<Longrightarrow> round_quot (m * q) q = m"
  by (simp add: round_quot_def)

lemma round_quot_bounds:
  assumes "0 < q"
  shows "2 * p \<le> 2 * (round_quot p q * q) + q" "2 * (round_quot p q * q) \<le> 2 * p + q"
proof -
  define d r where "d = p div q" and "r = p mod q"
  have p: "p = d * q + r" and r: "r < q" using assms by (simp_all add: d_def r_def)
  have "round_quot p q = d \<and> 2 * r \<le> q \<or> round_quot p q = d + 1 \<and> q \<le> 2 * r"
    by (auto simp: round_quot_def d_def r_def Let_def)
  then show "2 * p \<le> 2 * (round_quot p q * q) + q" "2 * (round_quot p q * q) \<le> 2 * p + q"
    using p r by (auto simp: algebra_simps)
qed

lemma scale_up_pos: "0 < b \<Longrightarrow> p < 2 ^ 52 * q \<Longrightarrow> 0 < scale_up b p q"
  by (cases b) auto

text \<open>An integer of at most 53 bits is its own nearest value.\<close>

lemma f64_round_int:
  assumes "n < 2 ^ 53" "0 < d"
  obtains k where "f64_round (n * d) d = (n * k, k)" "0 < k"
proof (cases "n = 0")
  case True
  then have "f64_round (n * d) d = (n * 1, 1)" by (simp add: f64_round_def)
  then show ?thesis using that by (metis zero_less_one)
next
  case False
  define k where "k = scale_up 1100 (n * d) d"
  have "n * d < 2 ^ 53 * d" using assms by simp
  moreover have "round_quot (n * d * 2 ^ k) d = n * 2 ^ k"
    using round_quot_exact [of d "n * 2 ^ k"] assms(2) by (simp add: ac_simps)
  ultimately have "f64_round (n * d) d = (n * 2 ^ k, 2 ^ k)"
    using False assms(2) by (simp add: f64_round_def k_def Let_def)
  then show ?thesis using that [of "2 ^ k"] by simp
qed

text \<open>A third of an integer below \<open>3 * 2 ^ 52\<close> keeps its ceiling when it is rounded.\<close>

lemma f64_ceil_third:
  assumes n: "n < 3 * 2 ^ 52" and d: "0 < d"
  shows "f64_ceil (f64_round (n * d) (d * 3)) = (n + 2) div 3"
proof (cases "n = 0")
  case True
  then show ?thesis by (simp add: f64_round_def f64_ceil_def)
next
  case False
  define k where "k = scale_up 1100 (n * d) (d * 3)"
  define m where "m = round_quot (n * d * 2 ^ k) (d * 3)"
  have lt: "n * d < 2 ^ 52 * (d * 3)" using n d by simp
  then have "n * d < 2 ^ 53 * (d * 3)" by simp
  with False d have res: "f64_round (n * d) (d * 3) = (m, 2 ^ k)"
    by (simp add: f64_round_def m_def k_def Let_def)
  have "0 < k" unfolding k_def by (rule scale_up_pos) (use lt in simp_all)
  then obtain j where "k = Suc j" by (cases k) auto
  then have K2: "2 \<le> (2::nat) ^ k" by simp
  define K where "K = (2::nat) ^ k"
  have K: "2 \<le> K" using K2 by (simp add: K_def)
  have "0 < d * 3" using d by simp
  note b = round_quot_bounds [OF this, of "n * d * 2 ^ k", folded m_def K_def]
  have "d * (2 * (n * K)) \<le> d * (6 * m + 3)" "d * (6 * m) \<le> d * (2 * (n * K) + 3)"
    using b by (simp_all add: algebra_simps)
  then have lo: "2 * (n * K) \<le> 6 * m + 3" and hi: "6 * m \<le> 2 * (n * K) + 3"
    using d by (metis mult_le_cancel1)+
  obtain q r where q: "n = 3 * q + r" and r: "r < 3" by (metis mod_less_divisor mult_div_mod_eq zero_less_numeral)
  have nK: "n * K = 3 * (q * K) + r * K" by (simp add: q algebra_simps)
  have ceil: "(m + K - 1) div K = c" if "c * K < m + K" "m \<le> c * K" for c
  proof (rule div_nat_eqI)
    show "K * c \<le> m + K - 1" using that by (simp add: ac_simps)
    show "m + K - 1 < K * Suc c" using that K by (simp add: ac_simps)
  qed
  consider "r = 0" | "r = 1" | "r = 2" using r by linarith
  then have "(m + K - 1) div K = (n + 2) div 3"
  proof cases
    case 1
    then have "m = q * K" using lo hi nK by simp
    then have "(m + K - 1) div K = q" using K by (intro ceil) auto
    then show ?thesis using 1 q by simp
  next
    case 2
    then have "q * K < m" "m \<le> q * K + K" using lo hi nK K by auto
    then have "(m + K - 1) div K = q + 1" by (intro ceil) (simp_all add: algebra_simps)
    then show ?thesis using 2 q by simp
  next
    case 3
    then have "q * K < m" "m \<le> q * K + K" using lo hi nK K by auto
    then have "(m + K - 1) div K = q + 1" by (intro ceil) (simp_all add: algebra_simps)
    then show ?thesis using 3 q by simp
  qed
  then show ?thesis by (simp add: res f64_ceil_def K_def)
qed

end
