(* ===== verification/Messages.thy ===== *)
theory Messages
  imports Go_Std
begin

text \<open>
  Package \<open>messages\<close>: the message types and round names of \<open>messages/p2p_message.go\<close> and
  \<open>messages/TssPhaseMessages.go\<close>.  The party and routing records are the fields of tss-lib's
  \<open>PartyID\<close> and \<open>MessageRouting\<close> that the source reads; \<open>pid_ref\<close> is the identity of the object
  behind a \<open>*PartyID\<close>, which Go's \<open>==\<close> on pointers compares.
\<close>

type_synonym peer_id = string

record party_id =
  pid_ref :: nat
  pid_id :: string
  pid_moniker :: string
  pid_key :: bytes
  pid_index :: int

record routing =
  r_from :: "party_id option"
  r_to :: "party_id list"
  r_broadcast :: bool

text \<open>What the source asks of a tss-lib \<open>Message\<close>: its type, whether it is a broadcast, the
  moniker of its sender, and its bytes with their routing.\<close>

record btss_message =
  bm_type :: string
  bm_broadcast :: bool
  bm_moniker :: string
  bm_wire :: "goerr + (bytes \<times> routing)"

text \<open>A tss-lib \<open>Party\<close>: the object and its party id.\<close>

record party =
  pt_ref :: nat
  pt_id :: party_id

section \<open>Message types\<close>

type_synonym msg_type = "8 word"

definition TSSKeyGenMsg :: msg_type where [tss_defs]: "TSSKeyGenMsg = 0"
definition TSSKeySignMsg :: msg_type where [tss_defs]: "TSSKeySignMsg = 1"
definition TSSKeyGenVerMsg :: msg_type where [tss_defs]: "TSSKeyGenVerMsg = 2"
definition TSSKeySignVerMsg :: msg_type where [tss_defs]: "TSSKeySignVerMsg = 3"
definition TSSControlMsg :: msg_type where [tss_defs]: "TSSControlMsg = 4"
definition TSSTaskDone :: msg_type where [tss_defs]: "TSSTaskDone = 5"
definition UnknownMsg :: msg_type where [tss_defs]: "UnknownMsg = 6"

lemmas msg_type_defs = TSSKeyGenMsg_def TSSKeySignMsg_def TSSKeyGenVerMsg_def
  TSSKeySignVerMsg_def TSSControlMsg_def TSSTaskDone_def UnknownMsg_def

lemma msg_types_distinct [simp]:
  "distinct [TSSKeyGenMsg, TSSKeySignMsg, TSSKeyGenVerMsg, TSSKeySignVerMsg, TSSControlMsg,
     TSSTaskDone, UnknownMsg]"
  by (simp add: msg_type_defs)

definition msg_type_String :: "msg_type \<Rightarrow> string" where
  "msg_type_String t =
     (if t = TSSKeyGenMsg then ''TSSKeyGenMsg''
      else if t = TSSKeySignMsg then ''TSSKeySignMsg''
      else if t = TSSKeyGenVerMsg then ''TSSKeyGenVerMsg''
      else if t = TSSKeySignVerMsg then ''TSSKeySignVerMsg''
      else ''Unknown'')"

section \<open>Messages on the wire\<close>

record wrapped_message =
  w_type :: msg_type
  w_msgid :: string
  w_payload :: bytes

record broadcast_msg =
  b_wrapped :: wrapped_message
  b_peers :: "peer_id list"

record confirm_message =
  c_p2pid :: string
  c_key :: string
  c_hash :: string

record wire_message =
  wm_routing :: "routing option"
  wm_round :: string
  wm_msg :: bytes
  wm_sig :: bytes

text \<open>\<open>GetCacheKey\<close> dereferences the routing and its sender.\<close>

definition cache_key :: "string \<Rightarrow> string \<Rightarrow> string" where
  "cache_key pid rnd = pid @ ''-'' @ rnd"

definition getCacheKey :: "wire_message \<Rightarrow> string outcome" where
  "getCacheKey m =
     (case wm_routing m of
        None \<Rightarrow> Panic ''nil pointer dereference''
      | Some r \<Rightarrow>
         (case r_from r of
            None \<Rightarrow> Panic ''nil pointer dereference''
          | Some p \<Rightarrow> Ret (cache_key (pid_id p) (wm_round m))))"

record tss_control =
  tc_req_hash :: string
  tc_req_key :: string
  tc_req_type :: msg_type
  tc_msg :: "wire_message option"

record task_notifier =
  tn_done :: bool

section \<open>Round names\<close>

definition KEYGEN1 :: string where [tss_defs]: "KEYGEN1 = ''KGRound1Message''"
definition KEYGEN2aUnicast :: string where [tss_defs]: "KEYGEN2aUnicast = ''KGRound2Message1''"
definition KEYGEN2b :: string where [tss_defs]: "KEYGEN2b = ''KGRound2Message2''"
definition KEYGEN3 :: string where [tss_defs]: "KEYGEN3 = ''KGRound3Message''"
definition KEYSIGN1aUnicast :: string where [tss_defs]: "KEYSIGN1aUnicast = ''SignRound1Message1''"
definition KEYSIGN1b :: string where [tss_defs]: "KEYSIGN1b = ''SignRound1Message2''"
definition KEYSIGN2Unicast :: string where [tss_defs]: "KEYSIGN2Unicast = ''SignRound2Message''"
definition KEYSIGN3 :: string where [tss_defs]: "KEYSIGN3 = ''SignRound3Message''"
definition KEYSIGN4 :: string where [tss_defs]: "KEYSIGN4 = ''SignRound4Message''"
definition KEYSIGN5 :: string where [tss_defs]: "KEYSIGN5 = ''SignRound5Message''"
definition KEYSIGN6 :: string where [tss_defs]: "KEYSIGN6 = ''SignRound6Message''"
definition KEYSIGN7 :: string where [tss_defs]: "KEYSIGN7 = ''SignRound7Message''"
definition TSSKEYGENROUNDS :: nat where [tss_defs]: "TSSKEYGENROUNDS = 4"
definition TSSKEYSIGNROUNDS :: nat where [tss_defs]: "TSSKEYSIGNROUNDS = 8"
definition NEWJOINPARTYVERSION :: string where [tss_defs]: "NEWJOINPARTYVERSION = ''0.14.0''"

text \<open>The cache key determines sender and round as long as no party id holds a dash.\<close>

lemma cache_key_inject:
  assumes "CHR ''-'' \<notin> set p" "CHR ''-'' \<notin> set q"
  shows "cache_key p r = cache_key q s \<longleftrightarrow> p = q \<and> r = s"
proof
  assume eq: "cache_key p r = cache_key q s"
  have "split_on (CHR ''-'') (cache_key p r) = p # split_on (CHR ''-'') r"
    "split_on (CHR ''-'') (cache_key q s) = q # split_on (CHR ''-'') s"
    using assms by (simp_all add: cache_key_def split_on_append_sep)
  with eq have "p = q" by simp
  with eq show "p = q \<and> r = s" by (simp add: cache_key_def)
qed simp

lemma itoa_no_dash: "0 \<le> i \<Longrightarrow> CHR ''-'' \<notin> set (itoa i)"
  by (simp add: itoa_def minus_not_digit)

text \<open>\<open>GetCacheKey\<close> files every broadcast share under a key of its own: with the party ids
  that \<open>GetParties\<close> gives (the decimal indices), two messages have the same cache key exactly
  when they come from the same party in the same round.\<close>

lemma getCacheKey_injective:
  assumes "wm_routing m = Some r" "r_from r = Some p" "pid_id p = itoa (int i)"
    and "wm_routing m' = Some r'" "r_from r' = Some p'" "pid_id p' = itoa (int j)"
  shows "getCacheKey m = getCacheKey m' \<longleftrightarrow> i = j \<and> wm_round m = wm_round m'"
  using assms by (simp add: getCacheKey_def cache_key_inject itoa_no_dash)

lemma getCacheKey_injective_sample:
  "\<exists>m m'. (getCacheKey m = getCacheKey m') = (((1::nat) = 12) \<and> wm_round m = wm_round m')"
proof -
  define p where "p i = \<lparr>pid_ref = i, pid_id = itoa (int i), pid_moniker = [], pid_key = [], pid_index = 0\<rparr>" for i
  define m where "m i = \<lparr>wm_routing = Some \<lparr>r_from = Some (p i), r_to = [], r_broadcast = True\<rparr>,
      wm_round = KEYGEN1, wm_msg = [], wm_sig = []\<rparr>" for i
  have "(getCacheKey (m 1) = getCacheKey (m 12)) = ((1::nat) = 12 \<and> wm_round (m 1) = wm_round (m 12))"
    by (rule getCacheKey_injective [where p = "p 1" and p' = "p 12"
          and r = "\<lparr>r_from = Some (p 1), r_to = [], r_broadcast = True\<rparr>"
          and r' = "\<lparr>r_from = Some (p 12), r_to = [], r_broadcast = True\<rparr>"])
      (simp_all add: m_def p_def)
  then show ?thesis by blast
qed

end
