(* ===== verification/Conversion.thy ===== *)
theory Conversion
  imports Messages
begin

text \<open>
  Package \<open>conversion\<close>: party identifiers, their maps, the conversions between public keys and
  peer ids, and the threshold.  Cosmos SDK, libp2p, btcec, semver and tss-lib are third party;
  what the source calls of them are the fields of the record \<open>conv_ext\<close>.
\<close>

record conv_ext =
  x_unmarshal_acc_pk :: "string \<Rightarrow> bytes res"
    \<comment> \<open>\<open>sdk.UnmarshalPubKey(sdk.AccPK, s)\<close> and the key's \<open>Bytes()\<close>\<close>
  x_marshal_acc_pk :: "bytes \<Rightarrow> string res"
    \<comment> \<open>\<open>sdk.MarshalPubKey(sdk.AccPK, &coskey.PubKey{Key: b})\<close>\<close>
  x_secp_pub :: "bytes \<Rightarrow> bytes res"
    \<comment> \<open>\<open>crypto.UnmarshalSecp256k1PublicKey\<close>; a libp2p key is named by bytes\<close>
  x_peer_of_pub :: "bytes \<Rightarrow> peer_id res" \<comment> \<open>\<open>peer.IDFromPublicKey\<close>\<close>
  x_peer_decode :: "string \<Rightarrow> peer_id res" \<comment> \<open>\<open>peer.Decode\<close>\<close>
  x_peer_string :: "peer_id \<Rightarrow> string" \<comment> \<open>\<open>peer.ID.String\<close>\<close>
  x_extract_pub :: "peer_id \<Rightarrow> bytes res" \<comment> \<open>\<open>peer.ID.ExtractPublicKey\<close>\<close>
  x_pub_raw :: "bytes \<Rightarrow> bytes res" \<comment> \<open>the libp2p key's \<open>Raw()\<close>\<close>
  x_new_party :: "nat \<Rightarrow> string \<Rightarrow> string \<Rightarrow> nat \<Rightarrow> party_id"
    \<comment> \<open>\<open>btss.NewPartyID(id, moniker, key)\<close>, the object with the given identity\<close>
  x_sort_parties :: "party_id list \<Rightarrow> party_id list" \<comment> \<open>\<open>btss.SortPartyIDs\<close>\<close>
  x_validate_basic :: "party_id \<Rightarrow> bool" \<comment> \<open>\<open>PartyID.ValidateBasic\<close>\<close>
  x_parse_pub :: "bytes \<Rightarrow> (nat \<times> nat) res" \<comment> \<open>\<open>btcec.ParsePubKey\<close> on S256\<close>
  x_on_curve :: "nat \<Rightarrow> nat \<Rightarrow> bool" \<comment> \<open>\<open>btcec.S256().IsOnCurve\<close>\<close>
  x_compress :: "nat \<times> nat \<Rightarrow> bytes" \<comment> \<open>\<open>SerializeCompressed\<close>\<close>
  x_address :: "bytes \<Rightarrow> bytes" \<comment> \<open>\<open>PubKey.Address().Bytes()\<close>\<close>
  x_semver_ok :: "string \<Rightarrow> bool" \<comment> \<open>\<open>semver.Make\<close> gives no error\<close>
  x_semver_lt :: "string \<Rightarrow> string \<Rightarrow> bool" \<comment> \<open>\<open>LT\<close> of two versions that parse\<close>
  x_sha256 :: "bytes \<Rightarrow> bytes" \<comment> \<open>\<open>sha256.New\<close>, \<open>Write\<close>, \<open>Sum\<close>\<close>

text \<open>What the documentation of tss-lib says of party ids: a new party id carries the id and
  the key it is given, and sorting rearranges the same objects in the order of their keys.\<close>

definition party_lib :: "'e conv_ext_scheme \<Rightarrow> bool" where
  "party_lib x \<longleftrightarrow>
     (\<forall>r i m k. pid_id (x_new_party x r i m k) = i \<and> be_nat (pid_key (x_new_party x r i m k)) = k
        \<and> pid_ref (x_new_party x r i m k) = r) \<and>
     (\<forall>ps. mset (map pid_id (x_sort_parties x ps)) = mset (map pid_id ps)
        \<and> mset (map pid_ref (x_sort_parties x ps)) = mset (map pid_ref ps)
        \<and> length (x_sort_parties x ps) = length ps)"

section \<open>Peer ids and public keys\<close>

definition getPeerIDFromSecp256PubKey :: "'e conv_ext_scheme \<Rightarrow> bytes \<Rightarrow> peer_id res" where
  "getPeerIDFromSecp256PubKey x pk =
     (if pk = [] then Inl (ErrText ''empty public key raw bytes'')
      else (case x_secp_pub x pk of
          Inl e \<Rightarrow> Inl (ErrWrap ''fail to convert pubkey to the crypto pubkey used in libp2p'' e)
        | Inr ppk \<Rightarrow> x_peer_of_pub x ppk))"

definition getPeerIDFromPartyID :: "'e conv_ext_scheme \<Rightarrow> party_id option \<Rightarrow> peer_id res" where
  "getPeerIDFromPartyID x p =
     (case p of
        None \<Rightarrow> Inl (ErrText ''invalid partyID'')
      | Some q \<Rightarrow>
         (if \<not> x_validate_basic x q then Inl (ErrText ''invalid partyID'')
          else getPeerIDFromSecp256PubKey x (nat_be (be_nat (pid_key q)))))"

definition partyIDtoPubKey :: "'e conv_ext_scheme \<Rightarrow> party_id option \<Rightarrow> string res" where
  "partyIDtoPubKey x p =
     (case p of
        None \<Rightarrow> Inl (ErrText ''invalid party'')
      | Some q \<Rightarrow>
         (if \<not> x_validate_basic x q then Inl (ErrText ''invalid party'')
          else x_marshal_acc_pk x (pid_key q)))"

fun accPubKeysFromPartyIDs ::
  "'e conv_ext_scheme \<Rightarrow> string list \<Rightarrow> (string, party_id) gomap \<Rightarrow> string list res" where
  "accPubKeysFromPartyIDs x [] m = Inr []"
| "accPubKeysFromPartyIDs x (i # is) m =
     (case mget m i of
        None \<Rightarrow> Inl (ErrText ''cannot find the blame party'')
      | Some p \<Rightarrow>
         (case partyIDtoPubKey x (Some p) of
            Inl e \<Rightarrow> Inl e
          | Inr k \<Rightarrow>
             (case accPubKeysFromPartyIDs x is m of Inl e \<Rightarrow> Inl e | Inr ks \<Rightarrow> Inr (k # ks))))"

fun setupPartyIDMap_loop ::
  "party_id list \<Rightarrow> (string, party_id) gomap \<Rightarrow> (string, party_id) gomap" where
  "setupPartyIDMap_loop [] m = m"
| "setupPartyIDMap_loop (p # ps) m = setupPartyIDMap_loop ps (mput (pid_id p) p m)"

definition setupPartyIDMap :: "party_id list \<Rightarrow> (string, party_id) gomap" where
  "setupPartyIDMap ps = setupPartyIDMap_loop ps []"

text \<open>\<open>GetPeersID\<close>: a nil map gives nil, an empty map makes a slice of capacity -1, which
  panics.\<close>

definition getPeersID ::
  "'e conv_ext_scheme \<Rightarrow> (string, peer_id) gomap option \<Rightarrow> string \<Rightarrow> peer_id list outcome" where
  "getPeersID x m localPeerID =
     (case m of
        None \<Rightarrow> Ret []
      | Some es \<Rightarrow>
         (if es = [] then Panic ''makeslice: cap out of range''
          else Ret (filter (\<lambda>v. x_peer_string x v \<noteq> localPeerID) (map snd es))))"

text \<open>\<open>SetupIDMaps\<close> stores into the map it is given until the first failure.\<close>

fun setupIDMaps ::
  "'e conv_ext_scheme \<Rightarrow> (string, party_id) gomap \<Rightarrow> (string, peer_id) gomap
     \<Rightarrow> goerr option \<times> (string, peer_id) gomap" where
  "setupIDMaps x [] out = (None, out)"
| "setupIDMaps x ((i, p) # ps) out =
     (case getPeerIDFromPartyID x (Some p) of
        Inl e \<Rightarrow> (Some e, out)
      | Inr pid \<Rightarrow> setupIDMaps x ps (mput i pid out))"

text \<open>\<open>GetParties\<close>: the keys are sorted in place, the party ids are the indices.  \<open>fresh\<close> is the
  identity of the first object the loop creates.\<close>

fun getParties_loop ::
  "'e conv_ext_scheme \<Rightarrow> nat \<Rightarrow> string \<Rightarrow> nat \<Rightarrow> string list \<Rightarrow> party_id option \<Rightarrow> party_id list
     \<Rightarrow> (party_id option \<times> party_id list) res" where
  "getParties_loop x fresh localKey idx [] loc ps = Inr (loc, ps)"
| "getParties_loop x fresh localKey idx (item # items) loc ps =
     (case x_unmarshal_acc_pk x item of
        Inl e \<Rightarrow> Inl (ErrWrap ''fail to get account pub key address'' e)
      | Inr b \<Rightarrow>
         (let p = x_new_party x (fresh + idx) (itoa (int idx)) [] (be_nat b) in
          getParties_loop x fresh localKey (Suc idx) items
            (if item = localKey then Some p else loc) (ps @ [p])))"

definition getParties ::
  "'e conv_ext_scheme \<Rightarrow> nat \<Rightarrow> string list \<Rightarrow> string \<Rightarrow> (party_id list \<times> party_id) res" where
  "getParties x fresh keys localKey =
     (case getParties_loop x fresh localKey 0 (sort keys) None [] of
        Inl e \<Rightarrow> Inl e
      | Inr (None, ps) \<Rightarrow> Inl (ErrText ''local party is not in the list'')
      | Inr (Some loc, ps) \<Rightarrow> Inr (x_sort_parties x ps, loc))"

definition getPreviousKeySignUicast :: "string \<Rightarrow> string" where
  "getPreviousKeySignUicast current =
     (if has_suffix current KEYSIGN1b then KEYSIGN1aUnicast else KEYSIGN2Unicast)"

definition getTssPubKey ::
  "'e conv_ext_scheme \<Rightarrow> (nat \<times> nat) option \<Rightarrow> (string \<times> bytes) res" where
  "getTssPubKey x pt =
     (case pt of
        None \<Rightarrow> Inl (ErrText ''invalid points'')
      | Some (px, py) \<Rightarrow>
         (if \<not> x_on_curve x px py then Inl (ErrText ''invalid points'')
          else (case x_marshal_acc_pk x (x_compress x (px, py)) of
              Inl e \<Rightarrow> Inl e
            | Inr s \<Rightarrow> Inr (s, x_address x (x_compress x (px, py))))))"

text \<open>\<open>hash.Hash.Write\<close> never returns an error.\<close>

definition bytesToHashString :: "'e conv_ext_scheme \<Rightarrow> bytes \<Rightarrow> string" where
  "bytesToHashString x msg = hex_encode (x_sha256 x msg)"

text \<open>\<open>GetThreshold\<close> computes in \<open>float64\<close>.\<close>

definition getThreshold :: "int \<Rightarrow> int res" where
  "getThreshold value =
     (if value < 0 then Inl (ErrText ''negative input'')
      else Inr (int (f64_ceil (f64_div_nat (f64_mul_nat (f64_of_nat (nat value)) 2) 3)) - 1))"

section \<open>key_provider.go\<close>

definition getPeerIDFromPubKey :: "'e conv_ext_scheme \<Rightarrow> string \<Rightarrow> peer_id res" where
  "getPeerIDFromPubKey x pubkey =
     (case x_unmarshal_acc_pk x pubkey of
        Inl e \<Rightarrow> Inl (ErrWrap ''fail to parse account pub key'' e)
      | Inr b \<Rightarrow>
         (case x_secp_pub x b of
            Inl e \<Rightarrow> Inl (ErrWrap ''fail to convert pubkey to the crypto pubkey used in libp2p'' e)
          | Inr ppk \<Rightarrow> x_peer_of_pub x ppk))"

fun getPeerIDsFromPubKeys :: "'e conv_ext_scheme \<Rightarrow> string list \<Rightarrow> peer_id list res" where
  "getPeerIDsFromPubKeys x [] = Inr []"
| "getPeerIDsFromPubKeys x (k # ks) =
     (case getPeerIDFromPubKey x k of
        Inl e \<Rightarrow> Inl e
      | Inr p \<Rightarrow> (case getPeerIDsFromPubKeys x ks of Inl e \<Rightarrow> Inl e | Inr ps \<Rightarrow> Inr (p # ps)))"

fun getPeerIDs :: "'e conv_ext_scheme \<Rightarrow> string list \<Rightarrow> peer_id list res" where
  "getPeerIDs x [] = Inr []"
| "getPeerIDs x (k # ks) =
     (case getPeerIDFromPubKey x k of
        Inl e \<Rightarrow> Inl (ErrWrap ''fail to get peer id from pubkey'' e)
      | Inr p \<Rightarrow> (case getPeerIDs x ks of Inl e \<Rightarrow> Inl e | Inr ps \<Rightarrow> Inr (p # ps)))"

definition getPubKeyFromPeerID :: "'e conv_ext_scheme \<Rightarrow> string \<Rightarrow> string res" where
  "getPubKeyFromPeerID x pID =
     (case x_peer_decode x pID of
        Inl e \<Rightarrow> Inl (ErrWrap ''fail to decode peer id'' e)
      | Inr peerID \<Rightarrow>
         (case x_extract_pub x peerID of
            Inl e \<Rightarrow> Inl (ErrWrap ''fail to extract pub key from peer id'' e)
          | Inr pk \<Rightarrow>
             (case x_pub_raw x pk of
                Inl e \<Rightarrow> Inl (ErrWrap ''faail to get pub key raw bytes'' e)
              | Inr raw \<Rightarrow> x_marshal_acc_pk x raw)))"

fun getPubKeysFromPeerIDs :: "'e conv_ext_scheme \<Rightarrow> string list \<Rightarrow> string list res" where
  "getPubKeysFromPeerIDs x [] = Inr []"
| "getPubKeysFromPeerIDs x (p # ps) =
     (case getPubKeyFromPeerID x p of
        Inl e \<Rightarrow> Inl (ErrWrap ''fail to get pubkey from peerID'' e)
      | Inr k \<Rightarrow> (case getPubKeysFromPeerIDs x ps of Inl e \<Rightarrow> Inl e | Inr ks \<Rightarrow> Inr (k # ks)))"

text \<open>\<open>GetPriKey\<close> reslices the decoded bytes to 32.  A Go reslice may reach into the capacity
  of the slice: \<open>spare\<close> are the bytes that \<open>hex.DecodeString\<close> leaves in its buffer behind the
  decoded ones.  The reslice panics when even the capacity is below 32.\<close>

definition getPriKey :: "bytes \<Rightarrow> string \<Rightarrow> bytes res outcome" where
  "getPriKey spare s =
     (case b64_decode s of
        None \<Rightarrow> Ret (Inl (ErrText ''fail to decode private key''))
      | Some h \<Rightarrow>
         (case hex_decode (bytes_str h) of
            None \<Rightarrow> Ret (Inl (ErrText ''fail to hex decode private key''))
          | Some raw \<Rightarrow>
             (if length raw + length spare < 32 then Panic ''slice bounds out of range''
              else Ret (Inr (take 32 (raw @ spare))))))"

text \<open>\<open>copy\<close> into a 32 byte array: longer keys are cut, shorter ones padded with zeros.  A key
  of another type is \<open>None\<close>.\<close>

definition getPriKeyRawBytes :: "bytes option \<Rightarrow> bytes res" where
  "getPriKeyRawBytes k =
     (case k of
        None \<Rightarrow> Inl (ErrText ''private key is not secp256p1.PrivKey'')
      | Some pk \<Rightarrow> Inr (take 32 pk @ replicate (32 - length pk) 0))"

definition checkKeyOnCurve :: "'e conv_ext_scheme \<Rightarrow> string \<Rightarrow> bool res" where
  "checkKeyOnCurve x pk =
     (case x_unmarshal_acc_pk x pk of
        Inl e \<Rightarrow> Inl (ErrWrap ''fail to parse pub key'' e)
      | Inr b \<Rightarrow>
         (case x_parse_pub x b of Inl e \<Rightarrow> Inl e | Inr (px, py) \<Rightarrow> Inr (x_on_curve x px py)))"

section \<open>tss_helper.go\<close>

definition versionLTCheck :: "'e conv_ext_scheme \<Rightarrow> string \<Rightarrow> string \<Rightarrow> bool res" where
  "versionLTCheck x currentVer expectedVer =
     (if \<not> x_semver_ok x expectedVer then Inl (ErrText ''fail to parse the expected version'')
      else if \<not> x_semver_ok x currentVer then Inl (ErrText ''fail to parse the current version'')
      else Inr (x_semver_lt x currentVer expectedVer))"

definition letterBytes :: string where
  "letterBytes = ''abcdefghijklmnopqrstuvwxyzABCDEFGHIJKLMNOPQRSTUVWXYZ''"

text \<open>\<open>RandStringBytesMask\<close> draws from the random source until it has \<open>n\<close> letters: a draw is used
  when its low six bits index a letter.  The draws are an argument; \<open>None\<close> when they run out
  before the string is complete.\<close>

fun randStringBytesMask :: "nat \<Rightarrow> int list \<Rightarrow> string option" where
  "randStringBytesMask 0 ds = Some []"
| "randStringBytesMask (Suc n) [] = None"
| "randStringBytesMask (Suc n) (d # ds) =
     (let idx = d mod 64 in
      if idx < int (length letterBytes)
      then map_option ((#) (letterBytes ! nat idx)) (randStringBytesMask n ds)
      else randStringBytesMask (Suc n) ds)"

section \<open>The threshold\<close>

lemma f64_two_times:
  assumes "v < 2 ^ 51"
  obtains d where "f64_mul_nat (f64_of_nat v) 2 = (2 * v * d, d)" "0 < d"
proof -
  have "v < 2 ^ 53" using assms by simp
  then obtain d where d: "f64_round v 1 = (v * d, d)" "0 < d"
    using f64_round_int [of v 1] by auto
  have "2 * v < 2 ^ 53" using assms by simp
  then obtain e where "f64_round (2 * v * d) d = (2 * v * e, e)" "0 < e"
    using f64_round_int [of "2 * v" d] d(2) by blast
  with d that show ?thesis by (simp add: f64_mul_nat_def f64_of_nat_def ac_simps)
qed

lemma getThreshold_int:
  assumes "v < 2 ^ 51"
  shows "getThreshold (int v) = Inr (int ((2 * v + 2) div 3) - 1)"
proof -
  obtain d where d: "f64_mul_nat (f64_of_nat v) 2 = (2 * v * d, d)" "0 < d"
    using f64_two_times [OF assms] by blast
  have "2 * v < 3 * 2 ^ 52" using assms by simp
  then have "f64_ceil (f64_round (2 * v * d) (d * 3)) = (2 * v + 2) div 3"
    using d(2) by (rule f64_ceil_third)
  with d(1) show ?thesis by (simp add: getThreshold_def f64_div_nat_def)
qed

text \<open>The number of signers \<open>threshold + 1\<close> as a function of the number of parties.\<close>

definition signers_needed :: "nat \<Rightarrow> nat" where
  "signers_needed n = (case getThreshold (int n) of Inl _ \<Rightarrow> 0 | Inr t \<Rightarrow> nat (t + 1))"

lemma signers_needed_eq: "v < 2 ^ 51 \<Longrightarrow> signers_needed v = (2 * v + 2) div 3"
  by (simp add: signers_needed_def getThreshold_int)

interpretation thr: two_thirds signers_needed "\<lambda>n. n < 2 ^ 51"
  by unfold_locales (simp_all add: signers_needed_eq)

text \<open>\<open>GetThreshold\<close>, which computes \<open>int(math.Ceil(float64(v)*2.0/3.0)) - 1\<close> in binary64
  arithmetic, is the exact integer \<open>\<lceil>2v/3\<rceil> - 1\<close> for every party count below \<open>2 ^ 51\<close>, and it
  rejects negative counts.\<close>

lemma getThreshold_exact:
  assumes "v < 2 ^ 51"
  shows "getThreshold v =
    (if v < 0 then Inl (ErrText ''negative input'') else Inr ((2 * v + 2) div 3 - 1))"
proof (cases "v < 0")
  case True
  then show ?thesis by (simp add: getThreshold_def)
next
  case False
  then obtain n where n: "v = int n" by (metis nonneg_int_cases not_less)
  with assms have "n < 2 ^ 51" by simp
  then show ?thesis by (simp add: n getThreshold_int zdiv_int)
qed

lemma getThreshold_exact_sample:
  "getThreshold 4 = Inr 2 \<and> getThreshold 1000 = Inr 666 \<and> getThreshold (- 3) = Inl (ErrText ''negative input'')"
  using getThreshold_exact [of 4] getThreshold_exact [of 1000] getThreshold_exact [of "- 3"] by simp

text \<open>The threshold gives intersecting quorums: of \<open>n\<close> parties of which fewer than a third are
  faulty, any two signing committees that each have more than \<open>GetThreshold n\<close> members share a
  party that is not faulty.\<close>

lemma threshold_quorums_intersect:
  assumes "finite P" "card P < 2 ^ 51" "getThreshold (int (card P)) = Inr t"
    and "A \<subseteq> P" "B \<subseteq> P" "t < int (card A)" "t < int (card B)"
    and "F \<subseteq> P" "3 * card F < card P"
  shows "\<exists>p. p \<in> A \<and> p \<in> B \<and> p \<notin> F"
proof -
  have "signers_needed (card P) \<le> card A" "signers_needed (card P) \<le> card B"
    using assms by (simp_all add: signers_needed_def)
  then show ?thesis using assms by (intro thr.quorum_honest) auto
qed

lemma threshold_quorums_intersect_sample:
  "\<exists>p. p \<in> {1, 2, 3 :: nat} \<and> p \<in> {2, 3, 4} \<and> p \<notin> {2}"
proof (rule threshold_quorums_intersect [where P = "{1, 2, 3, 4}" and t = 2])
  show "getThreshold (int (card {1, 2, 3, 4 :: nat})) = Inr 2"
    using getThreshold_int [of 4] by simp
qed simp_all

section \<open>Party ids\<close>

lemma getParties_loop_Inr:
  assumes "getParties_loop x f lk i items loc ps = Inr (loc', ps')"
  shows "\<exists>bs. map (x_unmarshal_acc_pk x) items = map Inr bs \<and>
    ps' = ps @ map (\<lambda>(j, b). x_new_party x (f + j) (itoa (int j)) [] (be_nat b)) (zip [i..<i + length items] bs)"
  using assms
proof (induction x f lk i items loc ps rule: getParties_loop.induct)
  case (1 x fresh localKey idx loc ps)
  then show ?case by simp
next
  case (2 x fresh localKey idx item items loc ps)
  from "2.prems" obtain b where b: "x_unmarshal_acc_pk x item = Inr b"
    by (auto split: sum.splits)
  let ?p = "x_new_party x (fresh + idx) (itoa (int idx)) [] (be_nat b)"
  from "2.prems" b obtain bs where
    "map (x_unmarshal_acc_pk x) items = map Inr bs"
    "ps' = (ps @ [?p]) @ map (\<lambda>(j, b). x_new_party x (fresh + j) (itoa (int j)) [] (be_nat b))
        (zip [Suc idx..<Suc idx + length items] bs)"
    using "2.IH" [OF b refl] by (auto simp: Let_def)
  then show ?case using b
    by (intro exI [of _ "b # bs"]) (simp add: upt_conv_Cons del: upt_Suc)
qed

lemma getParties_loop_local:
  assumes "getParties_loop x f lk i items loc ps = Inr (loc', ps')"
  shows "loc' = loc \<and> lk \<notin> set items \<or>
    lk \<in> set items \<and> (\<exists>p j b. loc' = Some p \<and> p \<in> set ps' \<and> x_unmarshal_acc_pk x lk = Inr b \<and>
      p = x_new_party x (f + j) (itoa (int j)) [] (be_nat b) \<and> j < i + length items)"
  using assms
proof (induction x f lk i items loc ps rule: getParties_loop.induct)
  case (1 x fresh localKey idx loc ps)
  then show ?case by simp
next
  case (2 x fresh localKey idx item items loc ps)
  from "2.prems" obtain b where b: "x_unmarshal_acc_pk x item = Inr b"
    by (auto split: sum.splits)
  let ?p = "x_new_party x (fresh + idx) (itoa (int idx)) [] (be_nat b)"
  from "2.prems" b have rec: "getParties_loop x fresh localKey (Suc idx) items
      (if item = localKey then Some ?p else loc) (ps @ [?p]) = Inr (loc', ps')"
    by (simp add: Let_def)
  from getParties_loop_Inr [OF rec] have mem: "?p \<in> set ps'" by auto
  note IH = "2.IH" [OF b refl rec]
  show ?case
  proof (cases "localKey \<in> set items")
    case True
    with IH show ?thesis by fastforce
  next
    case False
    with IH have loc': "loc' = (if item = localKey then Some ?p else loc)" by simp
    show ?thesis
    proof (cases "item = localKey")
      case True
      with loc' mem b show ?thesis by fastforce
    qed (use loc' False in simp)
  qed
qed

lemma split_first_Cons:
  "(\<exists>pre k post. x # xs = pre @ k # post \<and> (\<forall>j\<in>set pre. Q j) \<and> P k) \<longleftrightarrow>
     P x \<or> Q x \<and> (\<exists>pre k post. xs = pre @ k # post \<and> (\<forall>j\<in>set pre. Q j) \<and> P k)" (is "?l \<longleftrightarrow> ?r")
proof
  assume ?l
  then obtain pre k post where k: "x # xs = pre @ k # post" "\<forall>j\<in>set pre. Q j" "P k" by blast
  show ?r
  proof (cases pre)
    case (Cons y ys)
    then have "Q x" "xs = ys @ k # post" "\<forall>j\<in>set ys. Q j" using k by auto
    with k(3) show ?thesis by blast
  qed (use k in simp)
next
  assume ?r
  then consider "P x" | pre k post where "Q x" "xs = pre @ k # post" "\<forall>j\<in>set pre. Q j" "P k" by blast
  then show ?l
  proof cases
    case 1
    then show ?thesis by (intro exI [of _ "[]"]) simp
  next
    case 2
    then show ?thesis by (intro exI [of _ "x # pre"]) simp
  qed
qed

lemma getParties_loop_error:
  "getParties_loop x f lk i items loc ps = Inl e \<longleftrightarrow>
     (\<exists>pre k post. items = pre @ k # post \<and> (\<forall>j\<in>set pre. \<exists>b. x_unmarshal_acc_pk x j = Inr b) \<and>
       (\<exists>d. x_unmarshal_acc_pk x k = Inl d \<and> e = ErrWrap ''fail to get account pub key address'' d))"
proof (induction x f lk i items loc ps rule: getParties_loop.induct)
  case (2 x fresh localKey idx item items loc ps)
  show ?case
  proof (cases "x_unmarshal_acc_pk x item")
    case (Inl d)
    then show ?thesis unfolding split_first_Cons by auto
  next
    case (Inr b)
    then show ?thesis using "2.IH" [OF Inr refl] unfolding split_first_Cons by (simp add: Let_def)
  qed
qed simp

text \<open>Every node numbers the parties alike: whatever the order in which the keys of a ceremony
  arrive and whoever the local party is, two successful calls of \<open>GetParties\<close> on the same keys
  return the same party list, their local parties hold the keys the callers named, and the party
  ids are exactly the decimal indices \<open>0, \<dots>, n - 1\<close>, each once.\<close>

lemma getParties_agree:
  assumes "party_lib x" "mset keys = mset keys'"
    and "getParties x f keys lk = Inr (ps, p)" "getParties x f keys' lk' = Inr (ps', p')"
  shows "ps = ps' \<and> mset (map pid_id ps) = mset (map (itoa \<circ> int) [0..<length keys]) \<and>
    lk \<in> set keys \<and> pid_ref p \<in> set (map pid_ref ps) \<and>
    (\<exists>b. x_unmarshal_acc_pk x lk = Inr b \<and> be_nat (pid_key p) = be_nat b)"
proof -
  have sorted: "sort keys = sort keys'" using assms(2) by (metis mset_sort properties_for_sort sorted_sort)
  from assms(3) obtain qs where q: "getParties_loop x f lk 0 (sort keys) None [] = Inr (Some p, qs)"
    "ps = x_sort_parties x qs" by (auto simp: getParties_def split: sum.splits option.splits)
  from assms(4) obtain qs' where q': "getParties_loop x f lk' 0 (sort keys) None [] = Inr (Some p', qs')"
    "ps' = x_sort_parties x qs'" by (auto simp: getParties_def sorted split: sum.splits option.splits)
  obtain bs where bs: "map (x_unmarshal_acc_pk x) (sort keys) = map Inr bs"
    "qs = map (\<lambda>(j, b). x_new_party x (f + j) (itoa (int j)) [] (be_nat b)) (zip [0..<length keys] bs)"
    using getParties_loop_Inr [OF q(1)] by auto
  obtain bs' where bs': "map (x_unmarshal_acc_pk x) (sort keys) = map Inr bs'"
    "qs' = map (\<lambda>(j, b). x_new_party x (f + j) (itoa (int j)) [] (be_nat b)) (zip [0..<length keys] bs')"
    using getParties_loop_Inr [OF q'(1)] by auto
  have "bs = bs'" using bs(1) bs'(1) by (metis inj_Inr inj_map_eq_map)
  then have "qs = qs'" using bs(2) bs'(2) by simp
  have len: "length bs = length keys" using arg_cong [OF bs(1), of length] by simp
  have "map pid_id qs = map (itoa \<circ> int) (map fst (zip [0..<length keys] bs))"
    using assms(1) by (simp add: bs(2) party_lib_def case_prod_beta comp_def)
  also have "\<dots> = map (itoa \<circ> int) [0..<length keys]" using len by simp
  finally have ids: "map pid_id qs = map (itoa \<circ> int) [0..<length keys]" .
  have sp: "mset (map pid_id ps) = mset (map pid_id qs)" "mset (map pid_ref ps) = mset (map pid_ref qs)"
    using assms(1) q(2) by (simp_all add: party_lib_def)
  obtain j b where p: "lk \<in> set (sort keys)" "p \<in> set qs" "x_unmarshal_acc_pk x lk = Inr b"
    "p = x_new_party x (f + j) (itoa (int j)) [] (be_nat b)"
    using getParties_loop_local [OF q(1)] by auto
  from p(2) have "pid_ref p \<in> set (map pid_ref qs)" by simp
  then have "pid_ref p \<in> set (map pid_ref ps)" using sp(2) by (metis set_mset_mset)
  moreover have "be_nat (pid_key p) = be_nat b" using assms(1) p(4) by (simp add: party_lib_def)
  moreover have "mset (map pid_id ps) = mset (map (itoa \<circ> int) [0..<length keys])"
    using sp(1) ids by metis
  ultimately show ?thesis using \<open>qs = qs'\<close> q(2) q'(2) p by auto
qed

text \<open>A sample of the third party functions that satisfies \<open>party_lib\<close>: keys, peer ids and
  their encodings are all the same bytes.  The witnesses evaluate at it.\<close>

definition sample_conv :: conv_ext where
  "sample_conv = \<lparr>
     x_unmarshal_acc_pk = (\<lambda>s. if s = [] then Inl (ErrExt ''empty address string is not allowed'') else Inr (str_bytes s)),
     x_marshal_acc_pk = (\<lambda>b. Inr (bytes_str b)),
     x_secp_pub = (\<lambda>b. Inr b),
     x_peer_of_pub = (\<lambda>b. Inr (bytes_str b)),
     x_peer_decode = (\<lambda>s. Inr s),
     x_peer_string = (\<lambda>p. p),
     x_extract_pub = (\<lambda>p. Inr (str_bytes p)),
     x_pub_raw = (\<lambda>b. Inr b),
     x_new_party = (\<lambda>r i m k. \<lparr>pid_ref = r, pid_id = i, pid_moniker = m, pid_key = nat_be k, pid_index = -1\<rparr>),
     x_sort_parties = sort_key (\<lambda>p. be_nat (pid_key p)),
     x_validate_basic = (\<lambda>p. pid_key p \<noteq> []),
     x_parse_pub = (\<lambda>b. Inl (ErrExt ''unsupported'')),
     x_on_curve = (\<lambda>px py. py ^ 2 mod 23 = (px ^ 3 + 7) mod 23),
     x_compress = (\<lambda>(px, py). [of_nat (2 + py mod 2), of_nat px]),
     x_address = (\<lambda>b. b),
     x_semver_ok = (\<lambda>s. s \<noteq> []),
     x_semver_lt = (\<lambda>a b. a < b),
     x_sha256 = (\<lambda>b. b)\<rparr>"

lemma party_lib_sample: "party_lib sample_conv"
  by (simp add: party_lib_def sample_conv_def)

lemma itoa_0: "itoa 0 = ''0''" and itoa_1: "itoa 1 = ''1''"
  by code_simp+

lemma getParties_agree_sample:
  "\<exists>ps p p'. getParties sample_conv 0 [''b'', ''a''] ''a'' = Inr (ps, p) \<and>
     getParties sample_conv 0 [''a'', ''b''] ''b'' = Inr (ps, p') \<and>
     mset (map pid_id ps) = mset [''0'', ''1'']"
proof -
  obtain ps p where a: "getParties sample_conv 0 [''b'', ''a''] ''a'' = Inr (ps, p)"
    by (simp add: getParties_def sample_conv_def Let_def)
  obtain ps' p' where b: "getParties sample_conv 0 [''a'', ''b''] ''b'' = Inr (ps', p')"
    by (simp add: getParties_def sample_conv_def Let_def)
  with getParties_agree [OF party_lib_sample _ a b] a b show ?thesis
    by (simp add: itoa_0 itoa_1 add_mset_commute) blast
qed

text \<open>\<open>GetPriKey\<close> recovers every node key: the base64 of the hex text of a 32 byte key, the
  form in which operators hand it over, gives back exactly those 32 bytes whatever the decoder's
  buffer holds, and \<open>GetPriKeyRawBytes\<close> returns them unchanged.\<close>

lemma getPriKey_roundtrip:
  assumes "length key = 32"
  shows "getPriKey spare (b64_encode (str_bytes (hex_encode key))) = Ret (Inr key) \<and>
    getPriKeyRawBytes (Some key) = Inr key"
  using assms by (simp add: getPriKey_def getPriKeyRawBytes_def b64_decode_encode hex_decode_encode)

lemma getPriKey_roundtrip_sample:
  "getPriKey [] (b64_encode (str_bytes (hex_encode (replicate 32 7)))) = Ret (Inr (replicate 32 7))"
  using getPriKey_roundtrip [of "replicate 32 7" "[]"] by simp

section \<open>Lemmas for the clients\<close>

lemma accPubKeysFromPartyIDs_Inr:
  "accPubKeysFromPartyIDs x is m = Inr ks \<longleftrightarrow>
     list_all2 (\<lambda>i k. \<exists>p. mget m i = Some p \<and> partyIDtoPubKey x (Some p) = Inr k) is ks"
proof (induction "is" arbitrary: ks)
  case (Cons i "is")
  show ?case
    by (simp add: list_all2_Cons1 Cons.IH [symmetric] split: option.splits sum.splits) auto
qed auto

lemma getPeersID_Ret:
  "getPeersID x m lk = Ret ps \<Longrightarrow> p \<in> set ps \<longleftrightarrow>
     x_peer_string x p \<noteq> lk \<and> (\<exists>es. m = Some es \<and> p \<in> snd ` set es)"
  by (cases m) (force simp: getPeersID_def split: if_splits)+

lemma setupIDMaps_Inr:
  assumes "setupIDMaps x ps out = (None, out')" "distinct (map fst ps)"
  shows "mget out' i = (case mget ps i of
      Some p \<Rightarrow> (case getPeerIDFromPartyID x (Some p) of Inl e \<Rightarrow> None | Inr q \<Rightarrow> Some q)
    | None \<Rightarrow> mget out i)"
  using assms
proof (induction x ps out rule: setupIDMaps.induct)
  case (1 x out)
  then show ?case by simp
next
  case (2 x j p ps out)
  from "2.prems" obtain q where q: "getPeerIDFromPartyID x (Some p) = Inr q"
    by (auto split: sum.splits)
  have "mget ps j = None" using "2.prems"(2) by (simp add: mget_None_iff)
  then show ?case using "2.IH" [OF q] "2.prems" q by (auto split: option.splits)
qed

lemma setupPartyIDMap_loop_get:
  "mget (setupPartyIDMap_loop ps m) = mget m ++ map_of (rev (map (\<lambda>p. (pid_id p, p)) ps))"
  by (induction ps m rule: setupPartyIDMap_loop.induct) (simp_all add: map_add_def fun_eq_iff split: option.splits)

lemma setupPartyIDMap_get:
  "distinct (map pid_id ps) \<Longrightarrow> p \<in> set ps \<Longrightarrow> mget (setupPartyIDMap ps) (pid_id p) = Some p"
  by (simp add: setupPartyIDMap_def setupPartyIDMap_loop_get comp_def rev_map [symmetric])

end
