(* ===== verification/Blame.thy ===== *)
theory Blame
  imports Conversion Tss_Interfaces
begin

text \<open>
  Package \<open>blame\<close>: the blame record (\<open>blame.go\<close>, \<open>types.go\<close>), the share and round managers
  (\<open>share_mgr.go\<close>, \<open>round_mgr.go\<close>), the manager (\<open>manager.go\<close>) and the policies that name the
  nodes to blame (\<open>policy.go\<close>, \<open>policy_helper.go\<close>).  Locks are left out: every operation holds
  the one lock of the map it touches for its whole body.  Maps are ranged over in list order; a
  map that an operation builds itself and then ranges over is passed through \<open>rng\<close>, the order
  the runtime chooses.
\<close>

section \<open>types.go and blame.go\<close>

record blame_node =
  n_pubkey :: string
  n_data :: bytes
  n_sig :: bytes

record blame_info =
  bl_reason :: string
  bl_unicast :: bool
  bl_nodes :: "blame_node list"

definition HashCheckFail :: string where [tss_defs]: "HashCheckFail = ''hash check failed''"
definition TssTimeout :: string where [tss_defs]: "TssTimeout = ''Tss timeout''"
definition TssSyncFail :: string where
  [tss_defs]: "TssSyncFail = ''signers fail to sync before keygen/keysign''"
definition TssBrokenMsg :: string where [tss_defs]: "TssBrokenMsg = ''tss share verification failed''"
definition InternalError :: string where [tss_defs]: "InternalError = ''fail to start the join party ''"

definition newNode :: "string \<Rightarrow> bytes \<Rightarrow> bytes \<Rightarrow> blame_node" where
  [tss_defs]: "newNode pk d s = \<lparr>n_pubkey = pk, n_data = d, n_sig = s\<rparr>"

definition node_Equal :: "blame_node \<Rightarrow> blame_node \<Rightarrow> bool" where
  "node_Equal bn nd \<longleftrightarrow> n_pubkey bn = n_pubkey nd \<and> n_sig bn = n_sig nd"

definition newBlame :: "string \<Rightarrow> blame_node list \<Rightarrow> blame_info" where
  [tss_defs]: "newBlame reason nodes = \<lparr>bl_reason = reason, bl_unicast = False, bl_nodes = nodes\<rparr>"

definition setBlame :: "string \<Rightarrow> blame_node list \<Rightarrow> bool \<Rightarrow> blame_info \<Rightarrow> blame_info" where
  "setBlame reason nodes isUnicast b =
     b\<lparr>bl_reason := reason, bl_unicast := isUnicast, bl_nodes := bl_nodes b @ nodes\<rparr>"

definition alreadyBlame :: "blame_info \<Rightarrow> bool" where
  "alreadyBlame b \<longleftrightarrow> 0 < length (bl_nodes b)"

definition addBlameNode :: "blame_node \<Rightarrow> blame_info \<Rightarrow> blame_info" where
  "addBlameNode nd b =
     (if \<exists>el\<in>set (bl_nodes b). node_Equal nd el then b
      else b\<lparr>bl_nodes := bl_nodes b @ [nd]\<rparr>)"

fun addBlameNodes :: "blame_node list \<Rightarrow> blame_info \<Rightarrow> blame_info" where
  "addBlameNodes [] b = b"
| "addBlameNodes (nd # nds) b = addBlameNodes nds (addBlameNode nd b)"

section \<open>share_mgr.go and round_mgr.go\<close>

type_synonym share_mgr = "(string, bool) gomap"

definition shareMgr_Set :: "string \<Rightarrow> share_mgr \<Rightarrow> share_mgr" where
  [tss_defs]: "shareMgr_Set key sm = mput key True sm"

definition shareMgr_QueryAndDelete :: "string \<Rightarrow> share_mgr \<Rightarrow> bool \<times> share_mgr" where
  [tss_defs]: "shareMgr_QueryAndDelete key sm =
     ((case mget sm key of None \<Rightarrow> False | Some b \<Rightarrow> b), mdel key sm)"

record round_info =
  ri_index :: int
  ri_msg :: string
  ri_ident :: string

type_synonym round_mgr = "(string, wire_message) gomap"

definition roundMgr_Get :: "round_mgr \<Rightarrow> string \<Rightarrow> wire_message option" where
  [tss_defs]: "roundMgr_Get tr key = mget tr key"

definition roundMgr_Set :: "string \<Rightarrow> wire_message \<Rightarrow> round_mgr \<Rightarrow> round_mgr" where
  [tss_defs]: "roundMgr_Set key msg tr = mput key msg tr"

fun roundMgr_GetByRound :: "round_mgr \<Rightarrow> string \<Rightarrow> string list outcome" where
  "roundMgr_GetByRound [] r = Ret []"
| "roundMgr_GetByRound ((k, el) # tr) r =
     (if wm_round el = r then
        out_bind (deref (wm_routing el)) (\<lambda>rt.
        out_bind (deref (r_from rt)) (\<lambda>p.
        out_bind (roundMgr_GetByRound tr r) (\<lambda>ids. Ret (pid_id p # ids))))
      else roundMgr_GetByRound tr r)"

section \<open>manager.go\<close>

record party_info =
  pi_party_map :: "(string, party) gomap"
  pi_id_map :: "(string, party_id) gomap"

record blame_mgr =
  m_blame :: blame_info
  m_lastUnicastPeer :: "(string, peer_id list) gomap"
  m_shareMgr :: share_mgr
  m_roundMgr :: round_mgr
  m_partyInfo :: "party_info option"
  m_partyIDtoP2PID :: "(string, peer_id) gomap"
  m_lastMsg :: "btss_message option"
  m_acceptedShares :: "(round_info, string list) gomap"
  m_localPartyID :: string

definition newBlameManager :: blame_mgr where
  "newBlameManager = \<lparr>m_blame = newBlame [] [], m_lastUnicastPeer = [], m_shareMgr = [],
     m_roundMgr = [], m_partyInfo = None, m_partyIDtoP2PID = [], m_lastMsg = None,
     m_acceptedShares = [], m_localPartyID = []\<rparr>"

definition updateAcceptShare :: "round_info \<Rightarrow> string \<Rightarrow> blame_mgr \<Rightarrow> blame_mgr" where
  "updateAcceptShare rnd i m =
     (case mget (m_acceptedShares m) rnd of
        None \<Rightarrow> m\<lparr>m_acceptedShares := mput rnd [i] (m_acceptedShares m)\<rparr>
      | Some ids \<Rightarrow> m\<lparr>m_acceptedShares := mput rnd (ids @ [i]) (m_acceptedShares m)\<rparr>)"

definition checkMsgDuplication :: "round_info \<Rightarrow> string \<Rightarrow> blame_mgr \<Rightarrow> bool" where
  "checkMsgDuplication rnd i m =
     (case mget (m_acceptedShares m) rnd of None \<Rightarrow> False | Some ids \<Rightarrow> i \<in> set ids)"

definition setLastMsg :: "btss_message option \<Rightarrow> blame_mgr \<Rightarrow> blame_mgr" where
  [tss_defs]: "setLastMsg msg m = m\<lparr>m_lastMsg := msg\<rparr>"

definition setPartyInfo ::
  "(string, party) gomap \<Rightarrow> (string, party_id) gomap \<Rightarrow> blame_mgr \<Rightarrow> blame_mgr outcome" where
  "setPartyInfo partyMap partyIDMap m =
     (case partyMap of
        [] \<Rightarrow> Panic ''nil pointer dereference''
      | (k, p) # _ \<Rightarrow>
         Ret (m\<lparr>m_partyInfo := Some \<lparr>pi_party_map = partyMap, pi_id_map = partyIDMap\<rparr>,
                m_localPartyID := pid_id (pt_id p)\<rparr>))"

definition setLastUnicastPeer :: "peer_id \<Rightarrow> string \<Rightarrow> blame_mgr \<Rightarrow> blame_mgr" where
  "setLastUnicastPeer pid roundInfo m =
     (case mget (m_lastUnicastPeer m) roundInfo of
        None \<Rightarrow> m\<lparr>m_lastUnicastPeer := mput roundInfo [pid] (m_lastUnicastPeer m)\<rparr>
      | Some l \<Rightarrow> m\<lparr>m_lastUnicastPeer := mput roundInfo (l @ [pid]) (m_lastUnicastPeer m)\<rparr>)"

section \<open>policy_helper.go\<close>

fun partiesInList :: "'e conv_ext_scheme \<Rightarrow> (string, peer_id) gomap \<Rightarrow> string list \<Rightarrow> string list" where
  "partiesInList x [] peers = []"
| "partiesInList x ((partyID, p2pID) # m) peers =
     map (\<lambda>_. partyID) (filter (\<lambda>el. el = x_peer_string x p2pID) peers) @ partiesInList x m peers"

definition getBlamePubKeysInList ::
  "'e conv_ext_scheme \<Rightarrow> blame_mgr \<Rightarrow> string list \<Rightarrow> string list res outcome" where
  "getBlamePubKeysInList x m peers =
     out_bind (deref (m_partyInfo m)) (\<lambda>pi.
       Ret (accPubKeysFromPartyIDs x (partiesInList x (m_partyIDtoP2PID m) peers) (pi_id_map pi)))"

definition partiesNotInList ::
  "'e conv_ext_scheme \<Rightarrow> string \<Rightarrow> (string, peer_id) gomap \<Rightarrow> string list \<Rightarrow> string list" where
  "partiesNotInList x localID m peers =
     map fst (filter (\<lambda>(partyID, p2pID). localID \<noteq> partyID \<and>
       \<not> (\<exists>each\<in>set peers. x_peer_string x p2pID = each)) m)"

definition getBlamePubKeysNotInList ::
  "'e conv_ext_scheme \<Rightarrow> blame_mgr \<Rightarrow> string list \<Rightarrow> string list res outcome" where
  "getBlamePubKeysNotInList x m peers =
     out_bind (deref (m_partyInfo m)) (\<lambda>pi.
       Ret (accPubKeysFromPartyIDs x
         (partiesNotInList x (m_localPartyID m) (m_partyIDtoP2PID m) peers) (pi_id_map pi)))"

definition getBlamePubKeysLists ::
  "'e conv_ext_scheme \<Rightarrow> blame_mgr \<Rightarrow> string list \<Rightarrow> (string list \<times> string list) res outcome" where
  "getBlamePubKeysLists x m peer =
     out_bind (getBlamePubKeysInList x m peer) (\<lambda>r. case r of
         Inl e \<Rightarrow> Ret (Inl e)
       | Inr inList \<Rightarrow>
          out_bind (getBlamePubKeysNotInList x m peer) (\<lambda>r'. case r' of
              Inl e \<Rightarrow> Ret (Inl e)
            | Inr notInList \<Rightarrow> Ret (Inr (inList, notInList))))"

section \<open>policy.go\<close>

text \<open>\<open>rng\<close> is the order in which the runtime yields the elements of the set difference.\<close>

definition tssTimeoutBlame ::
  "'e conv_ext_scheme \<Rightarrow> (string list \<Rightarrow> string list) \<Rightarrow> blame_mgr \<Rightarrow> string
     \<Rightarrow> (string, party_id) gomap \<Rightarrow> string list res outcome" where
  "tssTimeoutBlame x rng m lastMessageType partyIDMap =
     (let peersSet = filter (\<lambda>i. i \<noteq> m_localPartyID m) (map (\<lambda>(k, el). pid_id el) partyIDMap) in
      out_bind (roundMgr_GetByRound (m_roundMgr m) lastMessageType) (\<lambda>standbyNodes.
        if standbyNodes = [] then Ret (Inr [])
        else
          (let blames = rng (remdups (filter (\<lambda>i. i \<notin> set standbyNodes) peersSet)) in
           out_bind (deref (m_partyInfo m)) (\<lambda>pi.
             Ret (accPubKeysFromPartyIDs x blames (pi_id_map pi))))))"

fun nodeSyncBlame_loop ::
  "'e conv_ext_scheme \<Rightarrow> peer_id list \<Rightarrow> string list \<Rightarrow> blame_info \<Rightarrow> goerr option \<times> blame_info" where
  "nodeSyncBlame_loop x onlinePeers [] b = (None, b)"
| "nodeSyncBlame_loop x onlinePeers (item # keys) b =
     (case getPeerIDFromPubKey x item of
        Inl e \<Rightarrow> (Some (ErrText ''fail to get peer id from pub key''), b)
      | Inr pid \<Rightarrow>
         (if pid \<in> set onlinePeers then nodeSyncBlame_loop x onlinePeers keys b
          else nodeSyncBlame_loop x onlinePeers keys
            (b\<lparr>bl_nodes := bl_nodes b @ [newNode item [] []]\<rparr>)))"

definition nodeSyncBlame ::
  "'e conv_ext_scheme \<Rightarrow> string list \<Rightarrow> peer_id list \<Rightarrow> goerr option \<times> blame_info" where
  "nodeSyncBlame x keys onlinePeers =
     nodeSyncBlame_loop x onlinePeers keys (newBlame TssSyncFail [])"

definition getUnicastBlame ::
  "'e conv_ext_scheme \<Rightarrow> (string list \<Rightarrow> string list) \<Rightarrow> blame_mgr \<Rightarrow> string
     \<Rightarrow> blame_node list res outcome" where
  "getUnicastBlame x rng m lastMsgType =
     (if m_lastUnicastPeer m = [] then Ret (Inr [])
      else (case mget (m_lastUnicastPeer m) lastMsgType of
          None \<Rightarrow> Ret (Inl (ErrWrap ''fail to find peers of the given msg type'' ErrTssTimeOut))
        | Some peersID \<Rightarrow>
           out_bind (getBlamePubKeysLists x m (rng (remdups (map (x_peer_string x) peersID)))) (\<lambda>r.
             case r of
               Inl e \<Rightarrow> Ret (Inl (ErrWrap ''fail to get the blamed peers'' ErrTssTimeOut))
             | Inr (inList, blamePeers) \<Rightarrow> Ret (Inr (map (\<lambda>el. newNode el [] []) blamePeers)))))"

definition getBroadcastBlame ::
  "'e conv_ext_scheme \<Rightarrow> (string list \<Rightarrow> string list) \<Rightarrow> blame_mgr \<Rightarrow> string
     \<Rightarrow> blame_node list res outcome" where
  "getBroadcastBlame x rng m lastMessageType =
     out_bind (deref (m_partyInfo m)) (\<lambda>pi.
     out_bind (tssTimeoutBlame x rng m lastMessageType (pi_id_map pi)) (\<lambda>r.
       case r of
         Inl e \<Rightarrow> Ret (Inl (ErrWrap ''fail to get the blamed peers'' ErrTssTimeOut))
       | Inr blamePeers \<Rightarrow> Ret (Inr (map (\<lambda>el. newNode el [] []) blamePeers))))"

definition tssWrongShareBlame ::
  "'e conv_ext_scheme \<Rightarrow> blame_mgr \<Rightarrow> wire_message \<Rightarrow> string res outcome" where
  "tssWrongShareBlame x m wiredMsg =
     out_bind (deref (wm_routing wiredMsg)) (\<lambda>rt.
     out_bind (deref (r_from rt)) (\<lambda>shareOwner.
     out_bind (deref (m_partyInfo m)) (\<lambda>pi.
       case mget (pi_id_map pi) (pid_id shareOwner) of
         None \<Rightarrow> Ret (Inl (ErrText ''fail to find the share Owner''))
       | Some owner \<Rightarrow> Ret (partyIDtoPubKey x (Some owner)))))"

text \<open>\<open>TssMissingShareBlame\<close>: first the accepted shares are grouped by message, a slice of
  \<open>rounds\<close> entries each (an index outside the slice panics), then each group is searched for its
  first round that lacks a share.  The list \<open>peers\<close> lives across the groups.\<close>

fun groupShares ::
  "nat \<Rightarrow> (round_info, string list) gomap \<Rightarrow> (string, string list list) gomap
     \<Rightarrow> (string, string list list) gomap outcome" where
  "groupShares rounds [] acc = Ret acc"
| "groupShares rounds ((ri, v) # m) acc =
     (let cached = (case mget acc (ri_ident ri) of None \<Rightarrow> replicate rounds [] | Some c \<Rightarrow> c) in
      if ri_index ri < 0 \<or> int (length cached) \<le> ri_index ri then Panic ''index out of range''
      else groupShares rounds m (mput (ri_ident ri) (cached[nat (ri_index ri) := v]) acc))"

definition missingUnicast :: "nat \<Rightarrow> nat \<Rightarrow> bool" where
  "missingUnicast rounds index \<longleftrightarrow>
     (rounds = TSSKEYGENROUNDS \<and> index = 1) \<or> (rounds = TSSKEYSIGNROUNDS \<and> index < 5)"

definition peerStringOf :: "'e conv_ext_scheme \<Rightarrow> (string, peer_id) gomap \<Rightarrow> string \<Rightarrow> string" where
  "peerStringOf x m pid = x_peer_string x (case mget m pid of None \<Rightarrow> [] | Some p \<Rightarrow> p)"

fun searchMissing ::
  "'e conv_ext_scheme \<Rightarrow> nat \<Rightarrow> blame_mgr \<Rightarrow> nat \<Rightarrow> string list list \<Rightarrow> string list \<Rightarrow> bool
     \<Rightarrow> string list \<times> bool" where
  "searchMissing x rounds m index [] peers isUnicast = (peers, isUnicast)"
| "searchMissing x rounds m index (el # els) peers isUnicast =
     (if length el + 1 = length (m_partyIDtoP2PID m)
      then searchMissing x rounds m (Suc index) els peers isUnicast
      else (peers @ map (peerStringOf x (m_partyIDtoP2PID m)) (el @ [m_localPartyID m]),
            isUnicast \<or> missingUnicast rounds index))"

fun missingShare_loop ::
  "'e conv_ext_scheme \<Rightarrow> nat \<Rightarrow> blame_mgr \<Rightarrow> (string \<times> string list list) list \<Rightarrow> string list \<Rightarrow> bool
     \<Rightarrow> blame_node list \<Rightarrow> (goerr option \<times> blame_node list \<times> bool) outcome" where
  "missingShare_loop x rounds m [] peers isUnicast nodes = Ret (None, nodes, isUnicast)"
| "missingShare_loop x rounds m ((k, cached) # gs) peers isUnicast nodes =
     (let (peers', isUnicast') = searchMissing x rounds m 0 cached peers isUnicast in
      out_bind (getBlamePubKeysNotInList x m peers') (\<lambda>r. case r of
          Inl e \<Rightarrow> Ret (Some e, [], isUnicast')
        | Inr pks \<Rightarrow> missingShare_loop x rounds m gs peers' isUnicast'
                     (nodes @ map (\<lambda>el. newNode el [] []) pks)))"

definition tssMissingShareBlame ::
  "'e conv_ext_scheme \<Rightarrow> ((string \<times> string list list) list \<Rightarrow> (string \<times> string list list) list)
     \<Rightarrow> nat \<Rightarrow> blame_mgr \<Rightarrow> (goerr option \<times> blame_node list \<times> bool) outcome" where
  "tssMissingShareBlame x rng rounds m =
     out_bind (groupShares rounds (m_acceptedShares m) []) (\<lambda>acc.
       missingShare_loop x rounds m (rng acc) [] False [])"

section \<open>The stores behind their interfaces\<close>

interpretation rm: kv_store roundMgr_Get roundMgr_Set wf_map
  by unfold_locales (auto simp: tss_defs)

text \<open>The share manager is a set of keys: a key is there when a query would answer true.\<close>

definition shareMgr_has :: "share_mgr \<Rightarrow> string \<Rightarrow> unit option" where
  "shareMgr_has sm key = (if fst (shareMgr_QueryAndDelete key sm) then Some () else None)"

lemma shareMgr_has_eq: "shareMgr_has sm key = (if mget sm key = Some True then Some () else None)"
  by (auto simp: shareMgr_has_def shareMgr_QueryAndDelete_def split: option.splits)

interpretation sm: kv_store_del shareMgr_has "\<lambda>k _. shareMgr_Set k" wf_map
    "\<lambda>k sm. snd (shareMgr_QueryAndDelete k sm)"
proof unfold_locales
  fix sm :: share_mgr and k :: string and v :: unit
  show "shareMgr_has (shareMgr_Set k sm) = (shareMgr_has sm)(k \<mapsto> v)"
    by (rule ext) (simp add: shareMgr_has_eq shareMgr_Set_def)
  show "shareMgr_has (snd (shareMgr_QueryAndDelete k sm)) = (shareMgr_has sm)(k := None)"
    by (rule ext) (simp add: shareMgr_has_eq shareMgr_QueryAndDelete_def)
qed (simp_all add: tss_defs)

section \<open>The blame list\<close>

definition no_equal_nodes :: "blame_node list \<Rightarrow> bool" where
  "no_equal_nodes nds \<longleftrightarrow> distinct (map (\<lambda>nd. (n_pubkey nd, n_sig nd)) nds)"

lemma addBlameNode_cases:
  obtains "bl_nodes (addBlameNode nd b) = bl_nodes b" "\<exists>el\<in>set (bl_nodes b). node_Equal nd el"
  | "bl_nodes (addBlameNode nd b) = bl_nodes b @ [nd]" "\<not> (\<exists>el\<in>set (bl_nodes b). node_Equal nd el)"
  by (cases "\<exists>el\<in>set (bl_nodes b). node_Equal nd el") (simp_all add: addBlameNode_def)

lemma addBlameNodes_prefix:
  "\<exists>added. bl_nodes (addBlameNodes nds b) = bl_nodes b @ added \<and> set added \<subseteq> set nds"
proof (induction nds arbitrary: b)
  case (Cons nd nds)
  obtain added where IH: "bl_nodes (addBlameNodes nds (addBlameNode nd b)) = bl_nodes (addBlameNode nd b) @ added"
    "set added \<subseteq> set nds" using Cons.IH by blast
  show ?case by (cases rule: addBlameNode_cases [of nd b]) (use IH in auto)
qed simp

lemma addBlameNode_no_equal [tss_inv]:
  "no_equal_nodes (bl_nodes b) \<Longrightarrow> no_equal_nodes (bl_nodes (addBlameNode nd b))"
  by (cases rule: addBlameNode_cases [of nd b]) (auto simp: no_equal_nodes_def node_Equal_def)

lemma addBlameNodes_no_equal [tss_inv]:
  "no_equal_nodes (bl_nodes b) \<Longrightarrow> no_equal_nodes (bl_nodes (addBlameNodes nds b))"
  by (induction nds arbitrary: b) (auto intro: addBlameNode_no_equal)

lemma addBlameNodes_covers:
  "nd \<in> set nds \<Longrightarrow> \<exists>el\<in>set (bl_nodes (addBlameNodes nds b)). node_Equal nd el"
proof (induction nds arbitrary: b)
  case (Cons n' nds)
  obtain added where pre: "bl_nodes (addBlameNodes nds (addBlameNode n' b)) = bl_nodes (addBlameNode n' b) @ added"
    using addBlameNodes_prefix by blast
  have "\<exists>el\<in>set (bl_nodes (addBlameNode n' b)). node_Equal n' el"
    by (cases rule: addBlameNode_cases [of n' b]) (auto simp: node_Equal_def)
  with pre have "\<exists>el\<in>set (bl_nodes (addBlameNodes nds (addBlameNode n' b))). node_Equal n' el" by auto
  with Cons show ?case by auto
qed simp

text \<open>\<open>AddBlameNodes\<close> keeps a set of accused nodes: it never removes a node, only adds nodes
  it is given, leaves every given node represented by an equal one (same public key and
  signature), and a list without two equal nodes stays one.\<close>

lemma addBlameNodes_set:
  "(\<exists>added. bl_nodes (addBlameNodes nds b) = bl_nodes b @ added \<and> set added \<subseteq> set nds) \<and>
   (\<forall>nd. nd \<in> set nds \<longrightarrow> (\<exists>el\<in>set (bl_nodes (addBlameNodes nds b)). node_Equal nd el)) \<and>
   (no_equal_nodes (bl_nodes b) \<longrightarrow> no_equal_nodes (bl_nodes (addBlameNodes nds b)))"
  using addBlameNodes_prefix addBlameNodes_covers addBlameNodes_no_equal by blast

lemma addBlameNodes_set_sample:
  "no_equal_nodes (bl_nodes (addBlameNodes [newNode ''a'' [] [], newNode ''a'' [1] []] (newBlame TssTimeout [])))"
proof -
  have "no_equal_nodes (bl_nodes (newBlame TssTimeout []))"
    by (simp add: no_equal_nodes_def newBlame_def)
  with addBlameNodes_set [of "[newNode ''a'' [] [], newNode ''a'' [1] []]" "newBlame TssTimeout []"]
  show ?thesis by blast
qed

section \<open>Node synchronisation\<close>

lemma nodeSyncBlame_loop_total:
  assumes "\<And>k. k \<in> set keys \<Longrightarrow> getPeerIDFromPubKey x k = Inr (pid k)"
  shows "nodeSyncBlame_loop x online keys b =
    (None, b\<lparr>bl_nodes := bl_nodes b @ map (\<lambda>k. newNode k [] []) (filter (\<lambda>k. pid k \<notin> set online) keys)\<rparr>)"
  using assms by (induction keys arbitrary: b) auto

text \<open>\<open>NodeSyncBlame\<close> accuses exactly the signers that did not come online: when every key
  names a peer it returns no error, the reason is the failed synchronisation, and the blamed keys
  are the keys whose peer is not among the online peers, in the order of the request.\<close>

lemma nodeSyncBlame_exact:
  assumes "\<And>k. k \<in> set keys \<Longrightarrow> getPeerIDFromPubKey x k = Inr (pid k)"
  shows "nodeSyncBlame x keys online =
    (None, newBlame TssSyncFail (map (\<lambda>k. newNode k [] []) (filter (\<lambda>k. pid k \<notin> set online) keys)))"
  using nodeSyncBlame_loop_total [OF assms] by (simp add: nodeSyncBlame_def newBlame_def)

lemma nodeSyncBlame_exact_sample:
  "nodeSyncBlame sample_conv [''a'', ''b'', ''c''] [''b''] =
     (None, newBlame TssSyncFail [newNode ''a'' [] [], newNode ''c'' [] []])"
  by (subst nodeSyncBlame_exact [where pid = "\<lambda>k. k"])
    (auto simp: getPeerIDFromPubKey_def sample_conv_def)

section \<open>Accepted shares\<close>

lemma updateAcceptShare_get:
  "mget (m_acceptedShares (updateAcceptShare rnd i m)) =
     (mget (m_acceptedShares m))(rnd \<mapsto>
        (case mget (m_acceptedShares m) rnd of None \<Rightarrow> [i] | Some ids \<Rightarrow> ids @ [i]))"
  by (simp add: updateAcceptShare_def split: option.splits)

lemma updateAcceptShare_wf [tss_inv]:
  "wf_map (m_acceptedShares m) \<Longrightarrow> wf_map (m_acceptedShares (updateAcceptShare rnd i m))"
  by (simp add: updateAcceptShare_def split: option.splits)

lemma checkMsgDuplication_update:
  "checkMsgDuplication rnd' j (updateAcceptShare rnd i m) \<longleftrightarrow>
     (rnd' = rnd \<and> j = i) \<or> checkMsgDuplication rnd' j m"
  by (auto simp: checkMsgDuplication_def updateAcceptShare_get split: option.splits)

text \<open>The accepted shares as the set of pairs of a round and a party.\<close>

definition accepted_set :: "blame_mgr \<Rightarrow> (round_info \<times> string) set" where
  "accepted_set m = {(rnd, i). checkMsgDuplication rnd i m}"

text \<open>The duplicate filter: after any sequence of \<open>UpdateAcceptShare\<close> calls on a manager,
  \<open>CheckMsgDuplication\<close> answers true for a round and a party exactly when that pair was accepted
  before the sequence or by it; the map of lists implements a set of pairs.\<close>

lemma accepted_shares_set:
  "accepted_set (fold (\<lambda>(rnd, i). updateAcceptShare rnd i) ups m) = accepted_set m \<union> set ups"
  by (induction ups arbitrary: m) (auto simp: accepted_set_def checkMsgDuplication_update)

section \<open>Requested shares\<close>

datatype share_op = SSet string | SQuery string

text \<open>A run of the share manager: the number of queries for \<open>key\<close> that are answered true.\<close>

fun share_answers :: "string \<Rightarrow> share_op list \<Rightarrow> share_mgr \<Rightarrow> nat" where
  "share_answers key [] sm = 0"
| "share_answers key (SSet k # ops) sm = share_answers key ops (shareMgr_Set k sm)"
| "share_answers key (SQuery k # ops) sm =
     (let (r, sm') = shareMgr_QueryAndDelete k sm in
      (if k = key \<and> r then 1 else 0) + share_answers key ops sm')"

lemma share_answers_bound:
  "wf_map sm \<Longrightarrow> share_answers key ops sm \<le>
     count_list ops (SSet key) + (if shareMgr_has sm key = None then 0 else 1)"
proof (induction key ops sm rule: share_answers.induct)
  case (1 key sm)
  then show ?case by simp
next
  case (2 key k ops sm)
  then show ?case using sm.inv_put [OF "2.prems"] sm.get_put [OF "2.prems"]
    by (cases "k = key") (auto split: if_splits)
next
  case (3 key k ops sm)
  let ?q = "shareMgr_QueryAndDelete k sm"
  have "wf_map (snd ?q)" using "3.prems" by (rule sm.inv_del)
  with "3.IH" [of "?q" "fst ?q" "snd ?q"]
  have "share_answers key ops (snd ?q) \<le>
      count_list ops (SSet key) + (if shareMgr_has (snd ?q) key = None then 0 else 1)" by simp
  then show ?case using sm.get_del [OF "3.prems"]
    by (cases "k = key") (auto simp: shareMgr_has_def case_prod_beta Let_def split: if_splits)
qed

text \<open>A requested share is accepted at most once per request: from an empty share manager, in
  every interleaving of \<open>Set\<close> and \<open>QueryAndDelete\<close> calls, at most as many queries for a key are
  answered true as there were requests for that key.\<close>

lemma share_answers_le_requests: "share_answers key ops [] \<le> count_list ops (SSet key)"
  using share_answers_bound [of "[]" key ops] by (simp add: shareMgr_has_eq)

section \<open>Timeouts\<close>

text \<open>The party map of a ceremony: party \<open>i\<close> is filed under its id and has the account key \<open>K i\<close>.\<close>

definition party_keys :: "'e conv_ext_scheme \<Rightarrow> (string, party_id) gomap \<Rightarrow> (string \<Rightarrow> string) \<Rightarrow> bool" where
  "party_keys x pm K \<longleftrightarrow> wf_map pm \<and>
     (\<forall>i p. (i, p) \<in> set pm \<longrightarrow> pid_id p = i \<and> partyIDtoPubKey x (Some p) = Inr (K i))"

lemma accPubKeys_party_keys:
  assumes "party_keys x pm K" "set is \<subseteq> fst ` set pm"
  shows "accPubKeysFromPartyIDs x is pm = Inr (map K is)"
  using assms(2)
proof (induction "is")
  case (Cons i "is")
  then obtain p where "(i, p) \<in> set pm" by auto
  with assms(1) have "mget pm i = Some p" "partyIDtoPubKey x (Some p) = Inr (K i)"
    by (auto simp: party_keys_def wf_map_set_iff)
  with Cons show ?case by simp
qed simp

lemma tssTimeoutBlame_party_keys:
  assumes "m_partyInfo m = Some pi" "party_keys x (pi_id_map pi) K"
    and "roundMgr_GetByRound (m_roundMgr m) ty = Ret ids" "ids \<noteq> []"
    and rng: "\<And>l. mset (rng l) = mset l"
  obtains bl where "tssTimeoutBlame x rng m ty (pi_id_map pi) = Ret (Inr (map K bl))"
    "distinct bl" "set bl = fst ` set (pi_id_map pi) - {m_localPartyID m} - set ids"
proof
  define bl where "bl = rng (remdups (filter (\<lambda>i. i \<notin> set ids)
      (filter (\<lambda>i. i \<noteq> m_localPartyID m) (map (\<lambda>(k, el). pid_id el) (pi_id_map pi)))))"
  have "(\<lambda>(k, el). pid_id el) ` set (pi_id_map pi) = fst ` set (pi_id_map pi)"
    using assms(2) by (intro image_cong) (auto simp: party_keys_def)
  then show bl: "set bl = fst ` set (pi_id_map pi) - {m_localPartyID m} - set ids"
    unfolding bl_def using mset_eq_setD [OF rng] by auto
  show "distinct bl" unfolding bl_def using mset_eq_imp_distinct_iff [OF rng] by simp
  have "accPubKeysFromPartyIDs x bl (pi_id_map pi) = Inr (map K bl)"
    using bl by (intro accPubKeys_party_keys assms) auto
  then show "tssTimeoutBlame x rng m ty (pi_id_map pi) = Ret (Inr (map K bl))"
    using assms(1,3,4) by (simp add: tssTimeoutBlame_def Let_def bl_def)
qed

text \<open>A ceremony of four parties for the witnesses: the local party is \<open>0\<close>, party \<open>2\<close> has sent
  its broadcast of the first keygen round, and \<open>1\<close> a unicast of the second.\<close>

definition sample_party :: "nat \<Rightarrow> party_id" where
  "sample_party i = \<lparr>pid_ref = i, pid_id = nat_digits i, pid_moniker = [], pid_key = [of_nat (97 + i)],
     pid_index = int i\<rparr>"

definition sample_ids :: "(string, party_id) gomap" where
  "sample_ids = [(''0'', sample_party 0), (''1'', sample_party 1), (''2'', sample_party 2), (''3'', sample_party 3)]"

definition sample_wire :: "nat \<Rightarrow> string \<Rightarrow> wire_message" where
  "sample_wire i r = \<lparr>wm_routing = Some \<lparr>r_from = Some (sample_party i), r_to = [], r_broadcast = True\<rparr>,
     wm_round = r, wm_msg = [1], wm_sig = []\<rparr>"

definition sample_mgr :: blame_mgr where
  "sample_mgr = newBlameManager\<lparr>
     m_partyInfo := Some \<lparr>pi_party_map = [], pi_id_map = sample_ids\<rparr>,
     m_partyIDtoP2PID := [(''0'', ''a''), (''1'', ''b''), (''2'', ''c''), (''3'', ''d'')],
     m_roundMgr := [(''2-KGRound1Message'', sample_wire 2 KEYGEN1)],
     m_lastUnicastPeer := [(KEYGEN2aUnicast, [''b''])],
     m_localPartyID := ''0''\<rparr>"

definition sample_key :: "string \<Rightarrow> string" where
  "sample_key i = (case mget sample_ids i of None \<Rightarrow> [] | Some p \<Rightarrow> bytes_str (pid_key p))"

lemma nat_digits_sample: "nat_digits 0 = ''0''" "nat_digits (Suc 0) = ''1''" "nat_digits 2 = ''2''" "nat_digits 3 = ''3''"
  by code_simp+

lemma sample_party_keys: "party_keys sample_conv sample_ids sample_key"
  by (auto simp: party_keys_def sample_ids_def sample_key_def partyIDtoPubKey_def sample_conv_def
      sample_party_def nat_digits_sample wf_map_def)

lemma sample_key_values: "sample_key ''1'' = ''b''" "sample_key ''2'' = ''c''" "sample_key ''3'' = ''d''"
  by code_simp+

text \<open>A broadcast timeout accuses exactly the silent parties: once some party has sent its
  message of the round, \<open>GetBroadcastBlame\<close> returns, without error and whatever the range order,
  the keys of the parties other than the local one whose message of that round was not stored,
  one node each.\<close>

lemma getBroadcastBlame_exact:
  assumes "m_partyInfo m = Some pi" "party_keys x (pi_id_map pi) K"
    and "roundMgr_GetByRound (m_roundMgr m) ty = Ret ids" "ids \<noteq> []"
    and "\<And>l. mset (rng l) = mset l"
  shows "\<exists>bl. getBroadcastBlame x rng m ty = Ret (Inr (map (\<lambda>i. newNode (K i) [] []) bl)) \<and>
    distinct bl \<and> set bl = fst ` set (pi_id_map pi) - {m_localPartyID m} - set ids"
proof -
  obtain bl where bl: "tssTimeoutBlame x rng m ty (pi_id_map pi) = Ret (Inr (map K bl))"
    "distinct bl" "set bl = fst ` set (pi_id_map pi) - {m_localPartyID m} - set ids"
    using tssTimeoutBlame_party_keys [OF assms] .
  then show ?thesis using assms(1) by (auto simp: getBroadcastBlame_def comp_def)
qed

lemma getBroadcastBlame_exact_sample:
  "\<exists>bl. getBroadcastBlame sample_conv rev sample_mgr KEYGEN1 =
     Ret (Inr (map (\<lambda>i. newNode (sample_key i) [] []) bl)) \<and> distinct bl \<and> set bl = {''1'', ''3''}"
proof -
  have "roundMgr_GetByRound (m_roundMgr sample_mgr) KEYGEN1 = Ret [''2'']"
    by (simp add: sample_mgr_def sample_wire_def sample_party_def nat_digits_sample)
  moreover have "m_partyInfo sample_mgr = Some \<lparr>pi_party_map = [], pi_id_map = sample_ids\<rparr>"
    "m_localPartyID sample_mgr = ''0''"
    by (simp_all add: sample_mgr_def)
  ultimately have "\<exists>bl. getBroadcastBlame sample_conv rev sample_mgr KEYGEN1 =
     Ret (Inr (map (\<lambda>i. newNode (sample_key i) [] []) bl)) \<and> distinct bl \<and>
     set bl = fst ` set sample_ids - {''0''} - set [''2'']"
    using getBroadcastBlame_exact [of sample_mgr _ sample_conv sample_key KEYGEN1 "[''2'']" rev]
      sample_party_keys by simp
  moreover have "fst ` set sample_ids - {''0''} - set [''2''] = {''1'', ''3''}"
    by (auto simp: sample_ids_def)
  ultimately show ?thesis by simp
qed

lemma partiesInList_sub: "set (partiesInList x m peers) \<subseteq> fst ` set m"
  by (induction x m peers rule: partiesInList.induct) auto

lemma getBlamePubKeysLists_party_keys:
  assumes "m_partyInfo m = Some pi" "party_keys x (pi_id_map pi) K"
    and "fst ` set (m_partyIDtoP2PID m) \<subseteq> fst ` set (pi_id_map pi)"
  shows "getBlamePubKeysLists x m peers =
    Ret (Inr (map K (partiesInList x (m_partyIDtoP2PID m) peers),
              map K (partiesNotInList x (m_localPartyID m) (m_partyIDtoP2PID m) peers)))"
proof -
  have "accPubKeysFromPartyIDs x (partiesInList x (m_partyIDtoP2PID m) peers) (pi_id_map pi) =
      Inr (map K (partiesInList x (m_partyIDtoP2PID m) peers))"
    using partiesInList_sub assms(3) by (intro accPubKeys_party_keys assms(2)) blast
  moreover have "accPubKeysFromPartyIDs x
      (partiesNotInList x (m_localPartyID m) (m_partyIDtoP2PID m) peers) (pi_id_map pi) =
      Inr (map K (partiesNotInList x (m_localPartyID m) (m_partyIDtoP2PID m) peers))"
    using assms(3) by (intro accPubKeys_party_keys assms(2)) (force simp: partiesNotInList_def)
  ultimately show ?thesis
    using assms(1) by (simp add: getBlamePubKeysLists_def getBlamePubKeysInList_def getBlamePubKeysNotInList_def)
qed

text \<open>A unicast timeout accuses exactly the parties that were not heard: when unicast messages
  of the type were received from \<open>heard\<close>, \<open>GetUnicastBlame\<close> returns the keys of the parties other
  than the local one whose peer string is not that of a peer heard, in the order of the party
  map, whatever the range order of the set it builds.\<close>

lemma getUnicastBlame_exact:
  assumes "m_partyInfo m = Some pi" "party_keys x (pi_id_map pi) K"
    and "fst ` set (m_partyIDtoP2PID m) \<subseteq> fst ` set (pi_id_map pi)"
    and "mget (m_lastUnicastPeer m) ty = Some heard"
    and "\<And>l. mset (rng l) = mset l"
  shows "getUnicastBlame x rng m ty = Ret (Inr (map (\<lambda>(i, p). newNode (K i) [] [])
    (filter (\<lambda>(i, p). m_localPartyID m \<noteq> i \<and> x_peer_string x p \<notin> x_peer_string x ` set heard)
       (m_partyIDtoP2PID m))))"
proof -
  have "m_lastUnicastPeer m \<noteq> []" using assms(4) by auto
  moreover have "set (rng (remdups (map (x_peer_string x) heard))) = x_peer_string x ` set heard"
    using mset_eq_setD [OF assms(5)] by simp
  ultimately show ?thesis
    using assms(4) getBlamePubKeysLists_party_keys [OF assms(1-3)]
    by (simp add: getUnicastBlame_def partiesNotInList_def comp_def case_prod_unfold)
qed

lemma getUnicastBlame_exact_sample:
  "getUnicastBlame sample_conv rev sample_mgr KEYGEN2aUnicast =
     Ret (Inr [newNode ''c'' [] [], newNode ''d'' [] []])"
  by (subst getUnicastBlame_exact [where heard = "[''b'']" and K = sample_key
        and pi = "\<lparr>pi_party_map = [], pi_id_map = sample_ids\<rparr>"])
    (simp_all add: sample_mgr_def sample_party_keys sample_ids_def [symmetric] sample_key_values,
     simp_all add: sample_ids_def sample_conv_def)

section \<open>Missing shares\<close>

lemma groupShares_single:
  assumes "\<And>ri v. (ri, v) \<in> set m \<Longrightarrow> ri_ident ri = ident \<and> (\<exists>j<rounds. ri_index ri = int j \<and> v = sh j)"
    and "length c = rounds"
  shows "\<exists>c'. groupShares rounds m [(ident, c)] = Ret [(ident, c')] \<and> length c' = rounds \<and>
    (\<forall>j<rounds. c' ! j = (if \<exists>ri v. (ri, v) \<in> set m \<and> ri_index ri = int j then sh j else c ! j))"
  using assms
proof (induction m arbitrary: c)
  case Nil
  then show ?case by auto
next
  case (Cons e m)
  obtain ri v where e: "e = (ri, v)" by fastforce
  obtain j where j: "ri_ident ri = ident" "j < rounds" "ri_index ri = int j" "v = sh j"
    using Cons.prems(1) [of ri v] e by auto
  have "\<exists>c'. groupShares rounds m [(ident, c[j := v])] = Ret [(ident, c')] \<and> length c' = rounds \<and>
    (\<forall>i<rounds. c' ! i = (if \<exists>ri v. (ri, v) \<in> set m \<and> ri_index ri = int i then sh i else c[j := v] ! i))"
    using Cons.prems by (intro Cons.IH) (auto simp: e)
  then obtain c' where c': "groupShares rounds m [(ident, c[j := v])] = Ret [(ident, c')]" "length c' = rounds"
    "\<And>i. i < rounds \<Longrightarrow>
       c' ! i = (if \<exists>ri v. (ri, v) \<in> set m \<and> ri_index ri = int i then sh i else c[j := v] ! i)"
    by blast
  have "groupShares rounds (e # m) [(ident, c)] = Ret [(ident, c')]"
    using c'(1) j Cons.prems(2) by (simp add: e mput_def)
  moreover have "c' ! i = (if \<exists>ri v. (ri, v) \<in> set (e # m) \<and> ri_index ri = int i then sh i else c ! i)"
    if "i < rounds" for i
    using c'(3) [OF that] j that Cons.prems(2) by (auto simp: e nth_list_update)
  ultimately show ?case using c'(2) by blast
qed

lemma groupShares_single_start:
  assumes "\<And>ri v. (ri, v) \<in> set m \<Longrightarrow> ri_ident ri = ident \<and> (\<exists>j<rounds. ri_index ri = int j \<and> v = sh j)"
    and "m \<noteq> []"
    and "\<And>j. j < rounds \<Longrightarrow> sh j \<noteq> [] \<Longrightarrow> \<exists>ri v. (ri, v) \<in> set m \<and> ri_index ri = int j"
  shows "groupShares rounds m [] = Ret [(ident, map sh [0..<rounds])]"
proof -
  obtain ri v m' where m: "m = (ri, v) # m'" using assms(2) by (cases m) auto
  obtain j where j: "ri_ident ri = ident" "j < rounds" "ri_index ri = int j" "v = sh j"
    using assms(1) [of ri v] m by auto
  have "groupShares rounds m [] = groupShares rounds m [(ident, replicate rounds [])]"
    using j by (simp add: m mput_def)
  moreover obtain c' where c': "groupShares rounds m [(ident, replicate rounds [])] = Ret [(ident, c')]"
    "length c' = rounds"
    "\<And>j. j < rounds \<Longrightarrow> c' ! j =
       (if \<exists>ri v. (ri, v) \<in> set m \<and> ri_index ri = int j then sh j else replicate rounds [] ! j)"
    using groupShares_single [where c = "replicate rounds []", OF assms(1)] by auto
  moreover have "c' = map sh [0..<rounds]"
  proof (rule nth_equalityI)
    fix j assume "j < length c'"
    then have j: "j < rounds" using c'(2) by simp
    then show "c' ! j = map sh [0..<rounds] ! j" using c'(3) [OF j] assms(3) [OF j] by (cases "sh j = []") auto
  qed (simp add: c'(2))
  ultimately show ?thesis by simp
qed

lemma searchMissing_first:
  assumes "\<And>j. j < r \<Longrightarrow> length (els ! j) + 1 = length (m_partyIDtoP2PID m)"
    and "r < length els" "length (els ! r) + 1 \<noteq> length (m_partyIDtoP2PID m)"
  shows "searchMissing x rounds m i els peers u =
    (peers @ map (peerStringOf x (m_partyIDtoP2PID m)) (els ! r @ [m_localPartyID m]),
     u \<or> missingUnicast rounds (i + r))"
  using assms
proof (induction r arbitrary: i els)
  case 0
  then obtain el els' where "els = el # els'" by (cases els) auto
  with 0 show ?case by simp
next
  case (Suc r)
  from Suc.prems(2) obtain el els' where els: "els = el # els'" by (cases els) auto
  have "length el + 1 = length (m_partyIDtoP2PID m)" using Suc.prems(1) [of 0] els by simp
  moreover have "searchMissing x rounds m (Suc i) els' peers u =
    (peers @ map (peerStringOf x (m_partyIDtoP2PID m)) (els' ! r @ [m_localPartyID m]),
     u \<or> missingUnicast rounds (Suc i + r))"
  proof (rule Suc.IH)
    show "length (els' ! j) + 1 = length (m_partyIDtoP2PID m)" if "j < r" for j
      using Suc.prems(1) [of "Suc j"] that els by simp
  qed (use Suc.prems els in auto)
  ultimately show ?case by (simp add: els)
qed

lemma searchMissing_none:
  assumes "\<And>el. el \<in> set els \<Longrightarrow> length el + 1 = length (m_partyIDtoP2PID m)"
  shows "searchMissing x rounds m i els peers u = (peers, u)"
  using assms by (induction els arbitrary: i) auto

text \<open>Peers are compared by their texts; where these tell the peers apart, the comparison is one of the party ids.\<close>

lemma partiesNotInList_peers:
  assumes "wf_map P" "inj_on (x_peer_string x) (snd ` set P)" "inj_on snd (set P)" "set is \<subseteq> fst ` set P" "l \<in> set is"
  shows "partiesNotInList x l P (map (peerStringOf x P) is) = filter (\<lambda>i. i \<notin> set is) (map fst P)"
proof -
  have iff: "x_peer_string x p = peerStringOf x P j \<longleftrightarrow> i = j" if ip: "(i, p) \<in> set P" and j: "j \<in> set is" for i p j
  proof -
    obtain q where q: "(j, q) \<in> set P" using assms(4) j by auto
    then have "peerStringOf x P j = x_peer_string x q"
      using assms(1) by (simp add: peerStringOf_def wf_map_set_iff)
    moreover have "x_peer_string x p = x_peer_string x q \<longleftrightarrow> p = q"
      using inj_onD [OF assms(2), of p q] ip q by force
    moreover have "p = q \<longleftrightarrow> i = j"
      using inj_onD [OF assms(3), of "(i, p)" "(j, q)"] ip q assms(1) by (auto simp: wf_map_set_iff)
    ultimately show ?thesis by simp
  qed
  have mem: "x_peer_string x p \<in> peerStringOf x P ` set is \<longleftrightarrow> i \<in> set is" if "(i, p) \<in> set P" for i p
    using iff [OF that] by blast
  have "filter (\<lambda>(i, p). l \<noteq> i \<and> \<not> (\<exists>each\<in>set (map (peerStringOf x P) is). x_peer_string x p = each)) P =
      filter (\<lambda>e. fst e \<notin> set is) P"
  proof (rule filter_cong [OF refl], clarify)
    fix i p assume "(i, p) \<in> set P"
    from mem [OF this] show "(l \<noteq> i \<and> \<not> (\<exists>each\<in>set (map (peerStringOf x P) is). x_peer_string x p = each)) =
        (fst (i, p) \<notin> set is)"
      using assms(5) by (metis fst_conv set_map)
  qed
  then show ?thesis by (simp add: partiesNotInList_def filter_map comp_def)
qed

text \<open>C32. With one message to sign, \<open>TssMissingShareBlame\<close> accuses exactly the parties whose share
  stopped the first incomplete round: if rounds before \<open>r\<close> have a share of every other party and
  round \<open>r\<close> has not, the blamed nodes are the keys of the parties other than the local one that
  sent no share of round \<open>r\<close>, and the unicast flag tells whether \<open>r\<close> is a unicast round.\<close>

theorem missingShareBlame_single:
  assumes "m_partyInfo m = Some pi" "party_keys x (pi_id_map pi) K"
    and "wf_map (m_partyIDtoP2PID m)" "fst ` set (m_partyIDtoP2PID m) \<subseteq> fst ` set (pi_id_map pi)"
    and inj: "inj_on (x_peer_string x) (snd ` set (m_partyIDtoP2PID m))"
      "inj_on snd (set (m_partyIDtoP2PID m))"
    and entries: "\<And>ri v. (ri, v) \<in> set (m_acceptedShares m) \<Longrightarrow>
      ri_ident ri = ident \<and> (\<exists>j<rounds. ri_index ri = int j \<and> v = sh j)"
    and "m_acceptedShares m \<noteq> []"
    and "\<And>j. j < rounds \<Longrightarrow> sh j \<noteq> [] \<Longrightarrow> \<exists>ri v. (ri, v) \<in> set (m_acceptedShares m) \<and> ri_index ri = int j"
    and known: "set (sh r) \<subseteq> fst ` set (m_partyIDtoP2PID m)" "m_localPartyID m \<in> fst ` set (m_partyIDtoP2PID m)"
    and first: "\<And>j. j < r \<Longrightarrow> length (sh j) + 1 = length (m_partyIDtoP2PID m)"
      "r < rounds" "length (sh r) + 1 \<noteq> length (m_partyIDtoP2PID m)"
    and rng: "\<And>l. mset (rng l) = mset l"
  shows "tssMissingShareBlame x rng rounds m = Ret (None,
    map (\<lambda>i. newNode (K i) [] []) (filter (\<lambda>i. i \<noteq> m_localPartyID m \<and> i \<notin> set (sh r)) (map fst (m_partyIDtoP2PID m))),
    missingUnicast rounds r)"
proof -
  let ?P = "m_partyIDtoP2PID m" and ?l = "m_localPartyID m"
  let ?peers = "map (peerStringOf x ?P) (sh r @ [?l])"
  have grp: "groupShares rounds (m_acceptedShares m) [] = Ret [(ident, map sh [0..<rounds])]"
    by (rule groupShares_single_start) (use assms in auto)
  have "rng [(ident, map sh [0..<rounds])] = [(ident, map sh [0..<rounds])]"
    using rng [of "[(ident, map sh [0..<rounds])]"] by simp
  moreover have "searchMissing x rounds m 0 (map sh [0..<rounds]) [] False = (?peers, missingUnicast rounds r)"
    using first by (subst searchMissing_first [where r = r]) auto
  moreover have "partiesNotInList x ?l ?P ?peers = filter (\<lambda>i. i \<noteq> ?l \<and> i \<notin> set (sh r)) (map fst ?P)"
    using partiesNotInList_peers [OF assms(3) inj, of "sh r @ [?l]" ?l] known by (simp add: conj_commute)
  moreover have "accPubKeysFromPartyIDs x (partiesNotInList x ?l ?P ?peers) (pi_id_map pi) =
      Inr (map K (partiesNotInList x ?l ?P ?peers))"
    using assms(4) by (intro accPubKeys_party_keys assms(2)) (force simp: partiesNotInList_def)
  ultimately show ?thesis
    using assms(1) grp by (simp add: tssMissingShareBlame_def getBlamePubKeysNotInList_def)
qed

text \<open>With a batch of messages the policy is not safe: when the group that is visited first
  already has every share of every round, its empty peer list makes \<open>TssMissingShareBlame\<close> accuse
  every party other than the local one, whoever was silent.\<close>

lemma missingShareBlame_batch_overblames:
  assumes "m_partyInfo m = Some pi" "party_keys x (pi_id_map pi) K"
    and "fst ` set (m_partyIDtoP2PID m) \<subseteq> fst ` set (pi_id_map pi)"
    and "groupShares rounds (m_acceptedShares m) [] = Ret acc" "rng acc = (ident, cached) # gs"
    and "\<And>el. el \<in> set cached \<Longrightarrow> length el + 1 = length (m_partyIDtoP2PID m)"
  shows "\<exists>nodes u. tssMissingShareBlame x rng rounds m = Ret (None, nodes, u) \<and>
    K ` (fst ` set (m_partyIDtoP2PID m) - {m_localPartyID m}) \<subseteq> n_pubkey ` set nodes"
proof -
  let ?P = "m_partyIDtoP2PID m" and ?l = "m_localPartyID m"
  have not_in: "getBlamePubKeysNotInList x m peers = Ret (Inr (map K (partiesNotInList x ?l ?P peers)))" for peers
  proof -
    have "accPubKeysFromPartyIDs x (partiesNotInList x ?l ?P peers) (pi_id_map pi) =
        Inr (map K (partiesNotInList x ?l ?P peers))"
      using assms(3) by (intro accPubKeys_party_keys assms(2)) (force simp: partiesNotInList_def)
    then show ?thesis using assms(1) by (simp add: getBlamePubKeysNotInList_def)
  qed
  have loop: "\<exists>nodes' u'. missingShare_loop x rounds m gs peers u nodes = Ret (None, nodes @ nodes', u')"
    for gs peers u nodes
  proof (induction gs arbitrary: peers u nodes)
    case (Cons g gs)
    obtain k c where g: "g = (k, c)" by fastforce
    obtain peers' u' where s: "searchMissing x rounds m 0 c peers u = (peers', u')" by fastforce
    show ?case using Cons.IH [of peers' u' "nodes @ map (\<lambda>el. newNode el [] []) (map K (partiesNotInList x ?l ?P peers'))"]
      by (simp add: g s not_in) metis
  qed simp
  have all: "K ` (fst ` set ?P - {?l}) \<subseteq> n_pubkey ` set (map (\<lambda>el. newNode el [] []) (map K (partiesNotInList x ?l ?P [])))"
    by (force simp: partiesNotInList_def newNode_def)
  have "searchMissing x rounds m 0 cached [] False = ([], False)" using assms(6) by (rule searchMissing_none)
  then have "tssMissingShareBlame x rng rounds m =
      missingShare_loop x rounds m gs [] False (map (\<lambda>el. newNode el [] []) (map K (partiesNotInList x ?l ?P [])))"
    using assms(4,5) not_in by (simp add: tssMissingShareBlame_def)
  with loop [of gs "[]" False] obtain nodes' u' where
    "tssMissingShareBlame x rng rounds m =
       Ret (None, map (\<lambda>el. newNode el [] []) (map K (partiesNotInList x ?l ?P [])) @ nodes', u')" by metis
  moreover have "K ` (fst ` set ?P - {?l}) \<subseteq> n_pubkey `
      set (map (\<lambda>el. newNode el [] []) (map K (partiesNotInList x ?l ?P [])) @ nodes')"
    using all by auto
  ultimately show ?thesis by blast
qed

text \<open>For the witnesses: a keygen whose second round lacks the share of party \<open>3\<close>, and a batch
  of two signatures of which the first is complete and the second misses party \<open>3\<close> only.\<close>

definition sample_round :: "nat \<Rightarrow> string \<Rightarrow> round_info" where
  "sample_round j ident = \<lparr>ri_index = int j, ri_msg = KEYGEN1, ri_ident = ident\<rparr>"

definition sample_missing :: blame_mgr where
  "sample_missing = sample_mgr\<lparr>m_acceptedShares :=
     [(sample_round 0 ''m'', [''1'', ''2'', ''3'']), (sample_round 1 ''m'', [''1'', ''2''])]\<rparr>"

definition sample_batch :: blame_mgr where
  "sample_batch = sample_mgr\<lparr>m_acceptedShares :=
     [(sample_round 0 ''a'', [''1'', ''2'', ''3'']), (sample_round 1 ''a'', [''1'', ''2'', ''3'']),
      (sample_round 0 ''b'', [''1'', ''2'', ''3'']), (sample_round 1 ''b'', [''1'', ''2''])]\<rparr>"

lemmas sample_mgr_defs = sample_missing_def sample_batch_def sample_mgr_def newBlameManager_def

lemma sample_mgr_party:
  "m_partyInfo sample_missing = Some \<lparr>pi_party_map = [], pi_id_map = sample_ids\<rparr>"
  "m_partyInfo sample_batch = Some \<lparr>pi_party_map = [], pi_id_map = sample_ids\<rparr>"
  "m_localPartyID sample_missing = ''0''" "m_localPartyID sample_batch = ''0''"
  "m_partyIDtoP2PID sample_missing = [(''0'', ''a''), (''1'', ''b''), (''2'', ''c''), (''3'', ''d'')]"
  "m_partyIDtoP2PID sample_batch = [(''0'', ''a''), (''1'', ''b''), (''2'', ''c''), (''3'', ''d'')]"
  by (simp_all add: sample_mgr_defs)

theorem missingShareBlame_single_witness:
  "tssMissingShareBlame sample_conv rev 4 sample_missing = Ret (None, [newNode ''d'' [] []], True)"
proof -
  let ?sh = "\<lambda>j::nat. if j = 0 then [''1'', ''2'', ''3''] else if j = 1 then [''1'', ''2''] else []"
  have acc: "m_acceptedShares sample_missing =
      [(sample_round 0 ''m'', [''1'', ''2'', ''3'']), (sample_round 1 ''m'', [''1'', ''2''])]"
    by (simp add: sample_mgr_defs)
  have "tssMissingShareBlame sample_conv rev 4 sample_missing = Ret (None,
    map (\<lambda>i. newNode (sample_key i) [] []) (filter (\<lambda>i. i \<noteq> m_localPartyID sample_missing \<and> i \<notin> set (?sh 1))
      (map fst (m_partyIDtoP2PID sample_missing))), missingUnicast 4 1)"
  proof (rule missingShareBlame_single [OF sample_mgr_party(1), where ident = "''m''" and sh = ?sh and r = 1])
    show "party_keys sample_conv (pi_id_map \<lparr>pi_party_map = [], pi_id_map = sample_ids\<rparr>) sample_key"
      by (simp add: sample_party_keys)
    show "\<exists>ri v. (ri, v) \<in> set (m_acceptedShares sample_missing) \<and> ri_index ri = int j"
      if "j < 4" "?sh j \<noteq> []" for j
    proof -
      have "(sample_round j ''m'', ?sh j) \<in> set (m_acceptedShares sample_missing)"
        using that by (auto simp: acc split: if_splits)
      then show ?thesis by (force simp: sample_round_def)
    qed
    show "ri_ident ri = ''m'' \<and> (\<exists>j<4. ri_index ri = int j \<and> v = ?sh j)"
      if "(ri, v) \<in> set (m_acceptedShares sample_missing)" for ri v
    proof -
      have "ri = sample_round 0 ''m'' \<and> v = ?sh 0 \<or> ri = sample_round 1 ''m'' \<and> v = ?sh 1"
        using that by (auto simp: acc)
      then obtain j where "j \<in> {0, 1}" "ri = sample_round j ''m''" "v = ?sh j" by blast
      moreover from this have "j < 4" by auto
      ultimately show ?thesis by (auto simp: sample_round_def)
    qed
    show "length (?sh j) + 1 = length (m_partyIDtoP2PID sample_missing)" if "j < 1" for j
      using that by (simp add: sample_mgr_party)
  qed (simp_all add: sample_mgr_party acc sample_ids_def wf_map_def sample_conv_def)
  then show ?thesis by (simp add: sample_mgr_party sample_key_values missingUnicast_def TSSKEYGENROUNDS_def)
qed

lemma missingShareBlame_batch_overblames_sample:
  "\<exists>nodes u. tssMissingShareBlame sample_conv (\<lambda>l. l) 2 sample_batch = Ret (None, nodes, u) \<and>
     {''b'', ''c'', ''d''} \<subseteq> n_pubkey ` set nodes"
proof -
  have "\<exists>nodes u. tssMissingShareBlame sample_conv (\<lambda>l. l) 2 sample_batch = Ret (None, nodes, u) \<and>
     sample_key ` (fst ` set (m_partyIDtoP2PID sample_batch) - {m_localPartyID sample_batch}) \<subseteq> n_pubkey ` set nodes"
  proof (rule missingShareBlame_batch_overblames [OF sample_mgr_party(2)])
    show "groupShares 2 (m_acceptedShares sample_batch) [] = Ret [
        (''a'', [[''1'', ''2'', ''3''], [''1'', ''2'', ''3'']]), (''b'', [[''1'', ''2'', ''3''], [''1'', ''2'']])]"
      by (simp add: sample_mgr_defs sample_round_def mput_def numeral_2_eq_2)
    show "party_keys sample_conv (pi_id_map \<lparr>pi_party_map = [], pi_id_map = sample_ids\<rparr>) sample_key"
      by (simp add: sample_party_keys)
  qed (auto simp: sample_mgr_party sample_ids_def)
  moreover have "sample_key ` (fst ` set (m_partyIDtoP2PID sample_batch) - {m_localPartyID sample_batch}) =
      {''b'', ''c'', ''d''}"
    by (auto simp: sample_mgr_party sample_key_values)
  ultimately show ?thesis by metis
qed

end
