(* ===== verification/Tss_State.thy ===== *)
theory Tss_State
  imports Blame
begin

text \<open>
  Package \<open>common\<close>, first half: the state of a ceremony (\<open>TssCommon\<close> of \<open>common/tss.go\<close>), the
  cache of unconfirmed broadcasts (\<open>common/local_cache_item.go\<close>) and the helpers of
  \<open>common/tss_helper.go\<close>.  What the ceremony calls of tss-lib, of the signature scheme and of
  the JSON encoding of structs that hold tss-lib types are further fields of the record of
  external functions.
\<close>

section \<open>External functions\<close>

text \<open>The dynamic type of the content of a parsed tss-lib message.\<close>

datatype tss_content =
    KGRound1Message | KGRound2Message1 | KGRound2Message2 | KGRound3Message
  | SignRound1Message1 | SignRound1Message2 | SignRound2Message | SignRound3Message
  | SignRound4Message | SignRound5Message | SignRound6Message | SignRound7Message
  | OtherContent

text \<open>A tss-lib \<open>Error\<close>: the culprits and the cause.\<close>

record tss_error =
  te_culprits :: "party_id list"
  te_cause :: goerr

record bulk_wire_msg =
  bk_msg :: bytes
  bk_ident :: string
  bk_routing :: "routing option"

text \<open>One call of \<open>UpdateFromBytes\<close>: the party object, the bytes, the sender, the broadcast flag.
  The state of a tss-lib party is not visible; the outcome of a call is a function of the log of
  all calls made so far, which leaves every sequence of outcomes possible.\<close>

type_synonym update_call = "nat \<times> bytes \<times> party_id \<times> bool"

record common_ext = conv_ext +
  x_parse_wire :: "bytes \<Rightarrow> party_id \<Rightarrow> bool \<Rightarrow> tss_content res" \<comment> \<open>\<open>btss.ParseWireMessage\<close>\<close>
  x_update :: "update_call list \<Rightarrow> update_call \<Rightarrow> tss_error option" \<comment> \<open>\<open>Party.UpdateFromBytes\<close>\<close>
  x_party_string :: "party_id \<Rightarrow> string" \<comment> \<open>\<open>PartyID.String\<close>\<close>
  x_sign :: "bytes \<Rightarrow> bytes \<Rightarrow> bytes res" \<comment> \<open>\<open>PrivKey.Sign\<close>, key and message\<close>
  x_verify :: "bytes \<Rightarrow> bytes \<Rightarrow> bytes \<Rightarrow> bool" \<comment> \<open>\<open>PubKey.VerifySignature\<close>, key, message, signature\<close>
  x_marshal_bulk :: "bulk_wire_msg list \<Rightarrow> bytes res"
  x_unmarshal_bulk :: "bytes \<Rightarrow> bulk_wire_msg list res"
  x_marshal_wire :: "wire_message \<Rightarrow> bytes res"
  x_unmarshal_wire :: "bytes \<Rightarrow> wire_message res"
  x_marshal_confirm :: "confirm_message \<Rightarrow> bytes res"
  x_unmarshal_confirm :: "bytes \<Rightarrow> confirm_message res"
  x_marshal_control :: "tss_control option \<Rightarrow> bytes res" \<comment> \<open>a nil pointer marshals too\<close>
  x_unmarshal_control :: "bytes \<Rightarrow> tss_control res"
  x_marshal_notifier :: "task_notifier \<Rightarrow> bytes res"
  x_unmarshal_notifier :: "bytes \<Rightarrow> task_notifier res"
  x_unmarshal_wrapped :: "bytes \<Rightarrow> wrapped_message res"

text \<open>What the runtime chooses while one message is processed: the order in which the frequency
  map is ranged over (once in \<open>hashCheck\<close>, once in \<open>requestShareFromPeer\<close>), and which of the
  queued jobs the workers finish before the \<open>i\<close>-th bulk message is looked at.\<close>

record run_env =
  re_freq :: "(string \<times> int) list \<Rightarrow> (string \<times> int) list"
  re_freq_req :: "(string \<times> int) list \<Rightarrow> (string \<times> int) list"
  re_picks :: "nat \<Rightarrow> nat list"

definition valid_env :: "run_env \<Rightarrow> bool" where
  "valid_env env \<longleftrightarrow> (\<forall>l. mset (re_freq env l) = mset l) \<and> (\<forall>l. mset (re_freq_req env l) = mset l)"

section \<open>local_cache_item.go\<close>

record cache_item =
  ci_msg :: "wire_message option"
  ci_hash :: string
  ci_confirmed :: "(string, string) gomap"

definition newLocalCacheItem :: "wire_message option \<Rightarrow> string \<Rightarrow> cache_item" where
  "newLocalCacheItem msg hash = \<lparr>ci_msg = msg, ci_hash = hash, ci_confirmed = []\<rparr>"

definition updateConfirmList :: "string \<Rightarrow> string \<Rightarrow> cache_item \<Rightarrow> cache_item" where
  "updateConfirmList p2pid hash l = l\<lparr>ci_confirmed := mput p2pid hash (ci_confirmed l)\<rparr>"

definition totalConfirmParty :: "cache_item \<Rightarrow> int" where
  "totalConfirmParty l = int (length (ci_confirmed l))"

definition getPeers :: "cache_item \<Rightarrow> string list" where
  "getPeers l = map fst (ci_confirmed l)"

section \<open>The state of a ceremony\<close>

record tss_job =
  j_wire :: bytes
  j_ident :: string
  j_party :: party_id
  j_broadcast :: bool
  j_local :: party

record tss_state =
  t_partyInfo :: "party_info option"
  t_partyIDtoP2PID :: "(string, peer_id) gomap"
  t_unConfirmed :: "(string, cache_item) gomap"
  t_localPeerID :: string
  t_channel :: bool \<comment> \<open>the broadcast channel is set\<close>
  t_sent :: "broadcast_msg list" \<comment> \<open>what was put into the broadcast channel\<close>
  t_p2pPeers :: "peer_id list"
  t_msgID :: string
  t_privateKey :: bytes
  t_taskDone :: bool \<comment> \<open>the channel is closed\<close>
  t_blameMgr :: blame_mgr
  t_finishedPeers :: "(string, bool) gomap"
  t_culprits :: "party_id list"
  t_cachedBroadcast :: "(string, bulk_wire_msg list) gomap"
  t_cachedUnicast :: "(string, bulk_wire_msg list) gomap"
  t_msgNum :: int
  t_calls :: "update_call list" \<comment> \<open>the calls of \<open>UpdateFromBytes\<close> so far\<close>
  t_leaked :: "tss_job list"
    \<comment> \<open>jobs in a channel that was never closed, which workers still take\<close>

type_synonym tss_result = "(goerr option \<times> tss_state) outcome"

definition newTssCommon :: "string \<Rightarrow> bool \<Rightarrow> string \<Rightarrow> bytes \<Rightarrow> int \<Rightarrow> tss_state outcome" where
  "newTssCommon peerID channel msgID privKey msgNum =
     (if msgNum < 0 then Panic ''makechan: size out of range''
      else Ret \<lparr>t_partyInfo = None, t_partyIDtoP2PID = [], t_unConfirmed = [],
        t_localPeerID = peerID, t_channel = channel, t_sent = [], t_p2pPeers = [], t_msgID = msgID,
        t_privateKey = privKey, t_taskDone = False, t_blameMgr = newBlameManager,
        t_finishedPeers = [], t_culprits = [], t_cachedBroadcast = [], t_cachedUnicast = [],
        t_msgNum = msgNum, t_calls = [], t_leaked = []\<rparr>)"

definition newBulkWireMsg :: "bytes \<Rightarrow> string \<Rightarrow> routing option \<Rightarrow> bulk_wire_msg" where
  "newBulkWireMsg msg i r = \<lparr>bk_msg = msg, bk_ident = i, bk_routing = r\<rparr>"

definition newJob :: "party \<Rightarrow> bytes \<Rightarrow> string \<Rightarrow> party_id \<Rightarrow> bool \<Rightarrow> tss_job" where
  "newJob p wireBytes msgIdentifier from isBroadcast =
     \<lparr>j_wire = wireBytes, j_ident = msgIdentifier, j_party = from, j_broadcast = isBroadcast,
      j_local = p\<rparr>"

definition setTssPartyInfo :: "party_info option \<Rightarrow> tss_state \<Rightarrow> tss_state" where
  "setTssPartyInfo pi t = t\<lparr>t_partyInfo := pi\<rparr>"

definition setLocalPeerID :: "string \<Rightarrow> tss_state \<Rightarrow> tss_state" where
  "setLocalPeerID p t = t\<lparr>t_localPeerID := p\<rparr>"

definition renderToP2P :: "broadcast_msg \<Rightarrow> tss_state \<Rightarrow> tss_state" where
  "renderToP2P m t = (if t_channel t then t\<lparr>t_sent := t_sent t @ [m]\<rparr> else t)"

definition with_mgr :: "(blame_mgr \<Rightarrow> blame_mgr) \<Rightarrow> tss_state \<Rightarrow> tss_state" where
  "with_mgr f t = t\<lparr>t_blameMgr := f (t_blameMgr t)\<rparr>"

definition with_blame :: "(blame_info \<Rightarrow> blame_info) \<Rightarrow> tss_state \<Rightarrow> tss_state" where
  "with_blame f = with_mgr (\<lambda>m. m\<lparr>m_blame := f (m_blame m)\<rparr>)"

text \<open>The map of unconfirmed messages.\<close>

definition tryGetLocalCacheItem :: "string \<Rightarrow> tss_state \<Rightarrow> cache_item option" where
  "tryGetLocalCacheItem key t = mget (t_unConfirmed t) key"

definition tryGetAllLocalCached :: "tss_state \<Rightarrow> cache_item list" where
  "tryGetAllLocalCached t = map snd (t_unConfirmed t)"

definition updateLocalUnconfirmedMessages :: "string \<Rightarrow> cache_item \<Rightarrow> tss_state \<Rightarrow> tss_state" where
  "updateLocalUnconfirmedMessages key item t = t\<lparr>t_unConfirmed := mput key item (t_unConfirmed t)\<rparr>"

definition removeKey :: "string \<Rightarrow> tss_state \<Rightarrow> tss_state" where
  "removeKey key t = t\<lparr>t_unConfirmed := mdel key (t_unConfirmed t)\<rparr>"

interpretation unconf: kv_store_del "\<lambda>t k. tryGetLocalCacheItem k t" updateLocalUnconfirmedMessages
    "\<lambda>t. wf_map (t_unConfirmed t)" removeKey
  by unfold_locales
    (auto simp: tryGetLocalCacheItem_def updateLocalUnconfirmedMessages_def removeKey_def fun_eq_iff)

section \<open>tss_helper.go\<close>

text \<open>\<open>*a == *e\<close> compares the embedded pointer and the index.\<close>

definition party_struct_eq :: "party_id \<Rightarrow> party_id \<Rightarrow> bool" where
  "party_struct_eq a e \<longleftrightarrow> pid_ref a = pid_ref e \<and> pid_index a = pid_index e"

definition containsParty :: "party_id list \<Rightarrow> party_id option \<Rightarrow> bool" where
  "containsParty s e = (case e of None \<Rightarrow> False | Some p \<Rightarrow> \<exists>a\<in>set s. party_struct_eq a p)"

definition hashToInt :: "bytes \<Rightarrow> nat \<Rightarrow> nat" where
  "hashToInt hash orderBits =
     (let orderBytes = (orderBits + 7) div 8;
          h = (if orderBytes < length hash then take orderBytes hash else hash)
      in if orderBits < length h * 8 then be_nat h div 2 ^ (length h * 8 - orderBits) else be_nat h)"

text \<open>The order of secp256k1 has 256 bits.\<close>

definition msgToHashInt :: "bytes \<Rightarrow> nat" where
  "msgToHashInt msg = hashToInt msg 256"

definition msgToHashString :: "'e conv_ext_scheme \<Rightarrow> bytes \<Rightarrow> string res" where
  "msgToHashString x msg =
     (if msg = [] then Inl (ErrText ''empty message'') else Inr (hex_encode (x_sha256 x msg)))"

definition generateSignature ::
  "'e common_ext_scheme \<Rightarrow> bytes \<Rightarrow> string \<Rightarrow> bytes \<Rightarrow> bytes res" where
  "generateSignature x msg msgID privKey = x_sign x privKey (msg @ str_bytes msgID)"

definition verifySignature ::
  "'e common_ext_scheme \<Rightarrow> bytes \<Rightarrow> bytes \<Rightarrow> bytes \<Rightarrow> string \<Rightarrow> bool" where
  "verifySignature x pubKey message sig msgID = x_verify x pubKey (message @ str_bytes msgID) sig"

fun freq_count :: "string list \<Rightarrow> (string, int) gomap \<Rightarrow> (string, int) gomap" where
  "freq_count [] freq = freq"
| "freq_count (n # ns) freq =
     freq_count ns (mput n ((case mget freq n of None \<Rightarrow> 0 | Some c \<Rightarrow> c) + 1) freq)"

fun freq_max :: "(string \<times> int) list \<Rightarrow> string \<times> int \<Rightarrow> string \<times> int" where
  "freq_max [] best = best"
| "freq_max ((key, counter) # es) (data, maxFreq) =
     freq_max es (if maxFreq < counter then (key, counter) else (data, maxFreq))"

definition getHighestFreq ::
  "((string \<times> int) list \<Rightarrow> (string \<times> int) list) \<Rightarrow> (string, string) gomap
     \<Rightarrow> (string \<times> int) res" where
  "getHighestFreq rng confirmedList =
     (if confirmedList = [] then Inl (ErrText ''empty input'')
      else Inr (freq_max (rng (freq_count (map snd confirmedList) [])) ([], -1)))"

definition checkUnicast :: "round_info \<Rightarrow> bool" where
  "checkUnicast rnd =
     (if str_contains (ri_msg rnd) ''KGR'' then ri_index rnd = 1 \<or> ri_index rnd = 2
      else ri_index rnd < 5)"

fun content_round :: "tss_content \<Rightarrow> (int \<times> string) option" where
  "content_round KGRound1Message = Some (0, KEYGEN1)"
| "content_round KGRound2Message1 = Some (1, KEYGEN2aUnicast)"
| "content_round KGRound2Message2 = Some (2, KEYGEN2b)"
| "content_round KGRound3Message = Some (3, KEYGEN3)"
| "content_round SignRound1Message1 = Some (0, KEYSIGN1aUnicast)"
| "content_round SignRound1Message2 = Some (1, KEYSIGN1b)"
| "content_round SignRound2Message = Some (2, KEYSIGN2Unicast)"
| "content_round SignRound3Message = Some (3, KEYSIGN3)"
| "content_round SignRound4Message = Some (4, KEYSIGN4)"
| "content_round SignRound5Message = Some (5, KEYSIGN5)"
| "content_round SignRound6Message = Some (6, KEYSIGN6)"
| "content_round SignRound7Message = Some (7, KEYSIGN7)"
| "content_round OtherContent = None"

definition getMsgRound ::
  "'e common_ext_scheme \<Rightarrow> bytes \<Rightarrow> party_id \<Rightarrow> bool \<Rightarrow> round_info res" where
  "getMsgRound x msg partyID isBroadcast =
     (case x_parse_wire x msg partyID isBroadcast of
        Inl e \<Rightarrow> Inl e
      | Inr c \<Rightarrow>
         (case content_round c of
            None \<Rightarrow> Inl (ErrText ''unknown round'')
          | Some (i, r) \<Rightarrow> Inr \<lparr>ri_index = i, ri_msg = r, ri_ident = []\<rparr>))"

definition notifyTaskDone :: "'e common_ext_scheme \<Rightarrow> tss_state \<Rightarrow> goerr option \<times> tss_state" where
  "notifyTaskDone x t =
     (case x_marshal_notifier x \<lparr>tn_done = True\<rparr> of
        Inl e \<Rightarrow> (Some (ErrWrap ''fail to marshal the request body'' e), t)
      | Inr data \<Rightarrow>
         (None, renderToP2P
           \<lparr>b_wrapped = \<lparr>w_type = TSSTaskDone, w_msgid = t_msgID t, w_payload = data\<rparr>,
            b_peers = t_p2pPeers t\<rparr> t))"

definition processRequestMsgFromPeer ::
  "'e common_ext_scheme \<Rightarrow> peer_id list \<Rightarrow> tss_control option \<Rightarrow> bool \<Rightarrow> tss_state
     \<Rightarrow> goerr option \<times> tss_state" where
  "processRequestMsgFromPeer x peersID msg requester t =
     (let send = (\<lambda>m. case x_marshal_control x m of
            Inl e \<Rightarrow> (Some (ErrWrap ''fail to marshal the request body'' e), t)
          | Inr data \<Rightarrow>
             (None, renderToP2P
               \<lparr>b_wrapped = \<lparr>w_type = TSSControlMsg, w_msgid = t_msgID t, w_payload = data\<rparr>,
                b_peers = peersID\<rparr> t))
      in (case msg of
            None \<Rightarrow>
              (if \<not> requester then (Some (ErrText ''empty message''), t) else send None)
          | Some m \<Rightarrow>
              (if requester then send (Some m)
               else (case roundMgr_Get (m_roundMgr (t_blameMgr t)) (tc_req_key m) of
                   None \<Rightarrow> (None, t)
                 | Some stored \<Rightarrow> send (Some (m\<lparr>tc_msg := Some stored\<rparr>))))))"

end
