(* ===== verification/Stream_Helper.thy ===== *)
theory Stream_Helper
  imports Messages
begin

text \<open>
  \<open>p2p/stream_helper.go\<close>: the framing of messages on a libp2p stream and the stream manager.
  A stream is third party; it is described by what it does when the helpers call it: the chunks of
  bytes its reads will yield and the error after them, the outcome of a write, of setting a deadline
  and of a reset.  \<open>bufio.Reader\<close> and \<open>bufio.Writer\<close> are standard library and modelled with their buffers
  of 4096 bytes; both helpers make a new one in every call.
\<close>

section \<open>Streams\<close>

record net_stream =
  ns_id :: nat
  ns_remote :: peer_id
  ns_in :: "bytes list" \<comment> \<open>the chunks that will still arrive\<close>
  ns_in_err :: goerr \<comment> \<open>the error of a read behind them\<close>
  ns_read_deadline :: "goerr option"
  ns_write_deadline :: "goerr option"
  ns_reset_err :: "goerr option"
  ns_write :: "bytes list \<Rightarrow> bytes \<Rightarrow> goerr option"
    \<comment> \<open>the outcome of a write, given the writes before it\<close>
  ns_written :: "bytes list"
  ns_resets :: nat

definition LengthHeader :: nat where "LengthHeader = 4"
definition MaxPayload :: nat where "MaxPayload = 20000000"

definition ErrEOF :: goerr where "ErrEOF = ErrExt ''EOF''"

definition stream_reset :: "net_stream \<Rightarrow> goerr option \<times> net_stream" where
  "stream_reset s = (ns_reset_err s, s\<lparr>ns_resets := ns_resets s + 1\<rparr>)"

section \<open>bufio.Reader\<close>

text \<open>What a read into \<open>n\<close> bytes leaves of a chunk.\<close>

definition rest_chunks :: "nat \<Rightarrow> bytes \<Rightarrow> bytes list \<Rightarrow> bytes list" where
  "rest_chunks n c cs = (if length c \<le> n then cs else drop n c # cs)"

text \<open>\<open>io.ReadFull\<close> of \<open>k\<close> bytes through a \<open>bufio.Reader\<close>: what is buffered is used first; with an empty
  buffer, 4096 bytes and more are read from the stream directly, and fewer by filling the
  buffer with one read.  \<open>acc\<close> is what the call has so far; the result is \<open>None\<close> when the chunks run
  out, and the buffer and the chunks left.\<close>

definition chunk_size :: "bytes list \<Rightarrow> nat" where
  "chunk_size cs = (\<Sum>c\<leftarrow>cs. 2 * length c + 2)"

function bufio_full :: "nat \<Rightarrow> bytes \<Rightarrow> bytes \<Rightarrow> bytes list \<Rightarrow> bytes option \<times> bytes \<times> bytes \<times> bytes list" where
  "bufio_full k acc buf cs =
     (if k = 0 then (Some acc, acc, buf, cs)
      else if buf \<noteq> [] then bufio_full (k - length buf) (acc @ take k buf) (drop k buf) cs
      else (case cs of
          [] \<Rightarrow> (None, acc, [], [])
        | c # cs1 \<Rightarrow>
           (if 4096 \<le> k then bufio_full (k - length c) (acc @ take k c) [] (rest_chunks k c cs1)
            else bufio_full k acc (take 4096 c) (rest_chunks 4096 c cs1))))"
  by pat_completeness auto

termination
  by (relation "measure (\<lambda>(k, acc, buf, cs). length buf + chunk_size cs)")
    (auto simp: chunk_size_def rest_chunks_def)

declare bufio_full.simps [simp del]

lemma bufio_full_eqs [simp]:
  "bufio_full 0 acc buf cs = (Some acc, acc, buf, cs)"
  "0 < k \<Longrightarrow> bufio_full k acc (b # bs) cs =
     bufio_full (k - Suc (length bs)) (acc @ take k (b # bs)) (drop k (b # bs)) cs"
  "0 < k \<Longrightarrow> bufio_full k acc [] [] = (None, acc, [], [])"
  "0 < k \<Longrightarrow> k < 4096 \<Longrightarrow> bufio_full k acc [] (c # cs) = bufio_full k acc (take 4096 c) (rest_chunks 4096 c cs)"
  "4096 \<le> k \<Longrightarrow> bufio_full k acc [] (c # cs) = bufio_full (k - length c) (acc @ take k c) [] (rest_chunks k c cs)"
  by (subst bufio_full.simps, simp)+

text \<open>A reader in use: its buffer and its stream.\<close>

definition readFull :: "nat \<Rightarrow> bytes \<times> net_stream \<Rightarrow> bytes res \<times> bytes \<times> net_stream" where
  "readFull k = (\<lambda>(buf, s).
     case bufio_full k [] buf (ns_in s) of
       (Some d, _, buf1, cs) \<Rightarrow> (Inr d, buf1, s\<lparr>ns_in := cs\<rparr>)
     | (None, got, buf1, cs) \<Rightarrow>
        (Inl (if got \<noteq> [] \<and> ns_in_err s = ErrEOF then ErrExt ''unexpected EOF'' else ns_in_err s),
         buf1, s\<lparr>ns_in := cs\<rparr>))"

section \<open>ReadStreamWithBuffer\<close>

text \<open>The reader is new in every call and dropped at its end, with what is left in its buffer.\<close>

definition read_frame :: "net_stream \<Rightarrow> bytes res \<times> net_stream" where
  "read_frame s =
     (case readFull LengthHeader ([], s) of
        (Inl e, _, s1) \<Rightarrow> (Inl (ErrWrap ''error in read the message head'' e), s1)
      | (Inr h, buf1, s1) \<Rightarrow>
         (case dec_le32 h of
            None \<Rightarrow> (Inl (ErrText ''error in read the message head''), s1)
          | Some len \<Rightarrow>
             (if MaxPayload < unat len then (Inl (ErrText ''payload length exceed max payload length''), s1)
              else (case readFull (unat len) (buf1, s1) of
                  (Inl e, _, s2) \<Rightarrow> (Inl (ErrWrap ''short read err'' e), s2)
                | (Inr d, _, s2) \<Rightarrow> (Inr d, s2)))))"

definition readStreamWithBuffer :: "bool \<Rightarrow> net_stream \<Rightarrow> bytes res \<times> net_stream" where
  "readStreamWithBuffer applyDeadline s =
     (if applyDeadline \<and> ns_read_deadline s \<noteq> None then
        (case stream_reset s of
           (Some errReset, s1) \<Rightarrow> (Inl errReset, s1)
         | (None, s1) \<Rightarrow> (Inl (the (ns_read_deadline s)), s1))
      else read_frame s)"

section \<open>WriteStreamWithBuffer\<close>

text \<open>The writes that \<open>bufio.Writer\<close> makes for a header followed by a message, and what is left in
  its buffer for \<open>Flush\<close>.\<close>

definition bufio_chunks :: "bytes \<Rightarrow> bytes \<Rightarrow> bytes list \<times> bytes" where
  "bufio_chunks head msg =
     (let room = 4096 - length head in
      if length msg \<le> room then ([], head @ msg)
      else (let rest = drop room msg in
            if 4096 < length rest then ([head @ take room msg, rest], [])
            else ([head @ take room msg], rest)))"

text \<open>Write in order, until the first failure.\<close>

fun stream_writes :: "bytes list \<Rightarrow> net_stream \<Rightarrow> goerr option \<times> net_stream" where
  "stream_writes [] s = (None, s)"
| "stream_writes (c # cs) s =
     (case ns_write s (ns_written s) c of
        Some e \<Rightarrow> (Some e, s)
      | None \<Rightarrow> stream_writes cs (s\<lparr>ns_written := ns_written s @ [c]\<rparr>))"

definition writeStreamWithBuffer :: "bool \<Rightarrow> bytes \<Rightarrow> net_stream \<Rightarrow> goerr option \<times> net_stream" where
  "writeStreamWithBuffer applyDeadline msg s =
     (let lengthBytes = put_le32 (of_nat (length msg)) in
      if applyDeadline \<and> ns_write_deadline s \<noteq> None then
        (case stream_reset s of
           (Some errReset, s1) \<Rightarrow> (Some errReset, s1)
         | (None, s1) \<Rightarrow> (ns_write_deadline s, s1))
      else
        (let (chunks, left) = bufio_chunks lengthBytes msg in
         case stream_writes chunks s of
           (Some e, s1) \<Rightarrow> (Some e, s1)
         | (None, s1) \<Rightarrow>
            (if left = [] then (None, s1)
             else (case stream_writes [left] s1 of
                 (Some e, s2) \<Rightarrow> (Some (ErrWrap ''fail to flush stream'' e), s2)
               | (None, s2) \<Rightarrow> (None, s2)))))"

section \<open>StreamMgr\<close>

type_synonym stream_mgr = "(string, nat list) gomap"

definition UNKNOWN :: string where "UNKNOWN = ''UNKNOWN''"

definition unusedStreams :: "stream_mgr \<Rightarrow> string \<Rightarrow> nat list" where
  "unusedStreams sm k = (case mget sm k of None \<Rightarrow> [] | Some l \<Rightarrow> l)"

text \<open>\<open>ReleaseStream\<close> resets the streams of the message and those filed as unknown; the result is
  the streams that are reset, in order, and the manager.\<close>

definition releaseStream :: "string \<Rightarrow> stream_mgr \<Rightarrow> nat list \<times> stream_mgr" where
  "releaseStream msgID sm =
     (let streams = unusedStreams sm msgID @ unusedStreams sm UNKNOWN in
      if mget sm msgID \<noteq> None \<or> mget sm UNKNOWN \<noteq> None then (streams, mdel msgID sm) else ([], sm))"

definition addStream :: "string \<Rightarrow> nat option \<Rightarrow> stream_mgr \<Rightarrow> stream_mgr" where
  "addStream msgID stream sm =
     (case stream of
        None \<Rightarrow> sm
      | Some st \<Rightarrow>
         (case mget sm msgID of
            None \<Rightarrow> mput msgID [st] sm
          | Some entries \<Rightarrow> mput msgID (entries @ [st]) sm))"

lemma unusedStreams_add:
  "unusedStreams (addStream k (Some st) sm) k' = (if k' = k then unusedStreams sm k @ [st] else unusedStreams sm k')"
  by (simp add: unusedStreams_def addStream_def split: option.splits)

lemma unusedStreams_release:
  "unusedStreams (snd (releaseStream k sm)) k' = (if k' = k then [] else unusedStreams sm k')"
  by (simp add: unusedStreams_def releaseStream_def Let_def split: option.splits)

lemma addStream_wf [tss_inv]: "wf_map sm \<Longrightarrow> wf_map (addStream k st sm)"
  by (simp add: addStream_def split: option.splits)

lemma releaseStream_wf [tss_inv]: "wf_map sm \<Longrightarrow> wf_map (snd (releaseStream k sm))"
  by (simp add: releaseStream_def Let_def)

section \<open>The frame on the wire\<close>

definition frame :: "bytes \<Rightarrow> bytes" where
  "frame msg = put_le32 (of_nat (length msg)) @ msg"

lemma stream_writes_ok:
  "(\<And>ws c. ns_write s ws c = None) \<Longrightarrow> stream_writes cs s = (None, s\<lparr>ns_written := ns_written s @ cs\<rparr>)"
  by (induction cs arbitrary: s) simp_all

lemma bufio_chunks_concat:
  "length head \<le> 4096 \<Longrightarrow> bufio_chunks head msg = (cs, l) \<Longrightarrow> concat cs @ l = head @ msg"
  by (auto simp: bufio_chunks_def Let_def split: if_splits)

lemma write_ok:
  assumes "\<And>ws c. ns_write s ws c = None" "d \<longrightarrow> ns_write_deadline s = None"
  obtains cs where "writeStreamWithBuffer d msg s = (None, s\<lparr>ns_written := ns_written s @ cs\<rparr>)"
    "concat cs = frame msg"
proof -
  obtain cs l where cl: "bufio_chunks (put_le32 (of_nat (length msg))) msg = (cs, l)" by fastforce
  then have cat: "concat cs @ l = frame msg"
    using bufio_chunks_concat [OF _ cl] by (simp add: frame_def)
  show ?thesis
    using cl cat assms stream_writes_ok [of s]
    by (intro that [of "if l = [] then cs else cs @ [l]"])
      (auto simp: writeStreamWithBuffer_def Let_def stream_writes_ok)
qed

text \<open>The reader gives the bytes in the order of the stream and drops none of them: what it did not
  give is in its buffer, which holds at most 4096 bytes, and in the stream.\<close>

lemma rest_chunks_concat [simp]: "take n c @ concat (rest_chunks n c cs) = c @ concat cs"
  by (simp add: rest_chunks_def)

lemma bufio_full_spec:
  assumes "k \<le> length (buf @ concat cs)" "length buf \<le> 4096"
  shows "\<exists>buf1 cs1. bufio_full k acc buf cs = (Some (acc @ take k (buf @ concat cs)), acc @ take k (buf @ concat cs), buf1, cs1) \<and>
    buf1 @ concat cs1 = drop k (buf @ concat cs) \<and> length buf1 \<le> 4096"
  using assms
proof (induction k acc buf cs rule: bufio_full.induct)
  case (1 k acc buf cs)
  consider "k = 0" | "k \<noteq> 0" "buf \<noteq> []" | "k \<noteq> 0" "buf = []" by blast
  then show ?case
  proof cases
    case 1
    with "1.prems"(2) show ?thesis by (simp add: bufio_full.simps)
  next
    case 2
    have "k - length buf \<le> length (drop k buf @ concat cs)" "length (drop k buf) \<le> 4096"
      using "1.prems" by auto
    from "1.IH"(1) [OF 2 this] obtain buf1 cs1 where
      "bufio_full (k - length buf) (acc @ take k buf) (drop k buf) cs = (Some ((acc @ take k buf) @ take (k - length buf) (drop k buf @ concat cs)),
         (acc @ take k buf) @ take (k - length buf) (drop k buf @ concat cs), buf1, cs1)"
      "buf1 @ concat cs1 = drop (k - length buf) (drop k buf @ concat cs)" "length buf1 \<le> 4096" by blast
    moreover have "take k buf @ take (k - length buf) (drop k buf @ concat cs) = take k (buf @ concat cs)"
      "drop (k - length buf) (drop k buf @ concat cs) = drop k (buf @ concat cs)"
      by (cases "k \<le> length buf"; simp)+
    ultimately have r: "bufio_full (k - length buf) (acc @ take k buf) (drop k buf) cs =
        (Some (acc @ take k (buf @ concat cs)), acc @ take k (buf @ concat cs), buf1, cs1)"
      "buf1 @ concat cs1 = drop k (buf @ concat cs)" "length buf1 \<le> 4096"
      by (simp_all only: append_assoc)
    have "bufio_full k acc buf cs = bufio_full (k - length buf) (acc @ take k buf) (drop k buf) cs"
      using 2 by (subst bufio_full.simps) simp
    with r show ?thesis by metis
  next
    case 3
    with "1.prems" obtain c cs' where cs: "cs = c # cs'" by (cases cs) auto
    have len: "length (c @ concat cs') = length c + length (concat cs')" by simp
    show ?thesis
    proof (cases "4096 \<le> k")
      case True
      have split: "take k c @ take (k - length c) (concat (rest_chunks k c cs')) = take k (c @ concat cs')"
        "drop (k - length c) (concat (rest_chunks k c cs')) = drop k (c @ concat cs')"
        by (cases "length c \<le> k"; simp add: rest_chunks_def)+
      have "k - length c \<le> length ([] @ concat (rest_chunks k c cs'))"
        using "1.prems"(1) 3 cs by (auto simp: rest_chunks_def)
      from "1.IH"(2) [OF 3(1) _ cs True this] 3 obtain buf1 cs1 where
        "bufio_full (k - length c) (acc @ take k c) [] (rest_chunks k c cs') =
          (Some ((acc @ take k c) @ take (k - length c) (concat (rest_chunks k c cs'))),
           (acc @ take k c) @ take (k - length c) (concat (rest_chunks k c cs')), buf1, cs1)"
        "buf1 @ concat cs1 = drop (k - length c) (concat (rest_chunks k c cs'))" "length buf1 \<le> 4096" by auto
      with 3 cs True split show ?thesis by (subst bufio_full.simps) simp
    next
      case False
      have "k \<le> length (take 4096 c @ concat (rest_chunks 4096 c cs'))"
        using "1.prems"(1) 3 cs unfolding rest_chunks_concat by simp
      from "1.IH"(3) [OF 3(1) _ cs False this] 3 obtain buf1 cs1 where
        "bufio_full k acc (take 4096 c) (rest_chunks 4096 c cs') =
          (Some (acc @ take k (c @ concat cs')), acc @ take k (c @ concat cs'), buf1, cs1)"
        "buf1 @ concat cs1 = drop k (c @ concat cs')" "length buf1 \<le> 4096"
        unfolding rest_chunks_concat by auto
      with 3 cs False show ?thesis by (subst bufio_full.simps) simp
    qed
  qed
qed

lemma readFull_spec:
  assumes "buf @ concat (ns_in s) = a @ b" "length a = k" "length buf \<le> 4096"
  obtains buf1 cs1 where "readFull k (buf, s) = (Inr a, buf1, s\<lparr>ns_in := cs1\<rparr>)" "buf1 @ concat cs1 = b" "length buf1 \<le> 4096"
proof -
  have "k \<le> length (buf @ concat (ns_in s))" using assms(1,2) by simp
  from bufio_full_spec [OF this assms(3), of "[]"] obtain buf1 cs1 where
    r: "bufio_full k [] buf (ns_in s) = (Some (take k (buf @ concat (ns_in s))), take k (buf @ concat (ns_in s)), buf1, cs1)"
    "buf1 @ concat cs1 = drop k (buf @ concat (ns_in s))" "length buf1 \<le> 4096" by auto
  have "take k (buf @ concat (ns_in s)) = a" "drop k (buf @ concat (ns_in s)) = b"
    using assms(1,2) by simp_all
  with r show ?thesis by (intro that [of buf1 cs1]) (simp_all add: readFull_def)
qed

text \<open>A frame is recovered from any chunks it arrives in; of what follows it, up to 4096 bytes are
  lost with the buffer.\<close>

lemma read_frame_frame:
  assumes "concat (ns_in s) = frame msg @ rest" "length msg \<le> MaxPayload"
  obtains lost cs where "read_frame s = (Inr msg, s\<lparr>ns_in := cs\<rparr>)" "rest = lost @ concat cs" "length lost \<le> 4096"
proof -
  have "length msg < 2 ^ 32" using assms(2) by (simp add: MaxPayload_def)
  then have len: "unat (of_nat (length msg) :: 32 word) = length msg"
    by (simp add: unat_of_nat take_bit_nat_eq_self)
  obtain buf1 cs1 where h: "readFull LengthHeader ([], s) = (Inr (put_le32 (of_nat (length msg))), buf1, s\<lparr>ns_in := cs1\<rparr>)"
    "buf1 @ concat cs1 = msg @ rest" "length buf1 \<le> 4096"
    by (rule readFull_spec [of "[]" s "put_le32 (of_nat (length msg))" "msg @ rest" LengthHeader])
      (use assms(1) in \<open>simp_all add: frame_def LengthHeader_def\<close>)
  obtain buf2 cs2 where d: "readFull (length msg) (buf1, s\<lparr>ns_in := cs1\<rparr>) = (Inr msg, buf2, s\<lparr>ns_in := cs2\<rparr>)"
    "buf2 @ concat cs2 = rest" "length buf2 \<le> 4096"
    by (rule readFull_spec [of buf1 "s\<lparr>ns_in := cs1\<rparr>" msg rest "length msg"]) (use h in simp_all)
  show ?thesis
    using h(1) d assms(2) len by (intro that [of cs2 buf2]) (simp_all add: read_frame_def dec_put_le32)
qed

text \<open>No empty chunks arise.\<close>

lemma rest_chunks_empty: "[] \<notin> set cs \<Longrightarrow> [] \<notin> set (rest_chunks n c cs)"
  by (auto simp: rest_chunks_def)

lemma bufio_full_empty: "bufio_full k acc buf cs = (d, a, b, cs1) \<Longrightarrow> [] \<notin> set cs \<Longrightarrow> [] \<notin> set cs1"
proof (induction k acc buf cs rule: bufio_full.induct)
  case (1 k acc buf cs)
  consider "k = 0" | "k \<noteq> 0" "buf \<noteq> []" | "k \<noteq> 0" "buf = []" "cs = []"
    | c cs' where "k \<noteq> 0" "buf = []" "cs = c # cs'" "4096 \<le> k" | c cs' where "k \<noteq> 0" "buf = []" "cs = c # cs'" "\<not> 4096 \<le> k"
    by (cases cs) blast+
  then show ?case
  proof cases
    case 2
    with "1.prems" have "bufio_full (k - length buf) (acc @ take k buf) (drop k buf) cs = (d, a, b, cs1)"
      by (subst (asm) bufio_full.simps) simp
    from "1.IH"(1) [OF 2 this] "1.prems"(2) show ?thesis .
  next
    case 4
    with "1.prems" show ?thesis using "1.IH"(2) [OF 4(1) _ 4(3,4)] by (auto simp: rest_chunks_empty)
  next
    case 5
    with "1.prems" show ?thesis using "1.IH"(3) [OF 5(1) _ 5(3,4)] by (auto simp: rest_chunks_empty)
  qed (use "1.prems" in simp_all)
qed

lemma read_frame_empty: "read_frame s = (Inr d, s') \<Longrightarrow> [] \<notin> set (ns_in s) \<Longrightarrow> [] \<notin> set (ns_in s')"
  by (auto simp: read_frame_def readFull_def split: prod.splits option.splits sum.splits if_splits dest!: bufio_full_empty)

text \<open>When nothing follows the frame, nothing is lost.\<close>

lemma read_frame_only:
  assumes "concat (ns_in s) = frame msg" "length msg \<le> MaxPayload"
  obtains cs where "read_frame s = (Inr msg, s\<lparr>ns_in := cs\<rparr>)" "concat cs = []"
proof -
  obtain lost cs where "read_frame s = (Inr msg, s\<lparr>ns_in := cs\<rparr>)" "[] = lost @ concat cs"
    by (rule read_frame_frame [of s msg "[]"]) (use assms in simp_all)
  then show ?thesis using that by (metis Nil_is_append_conv)
qed

lemma read_one_chunk:
  assumes "ns_in s = [frame msg]" "length msg \<le> MaxPayload"
  shows "read_frame s = (Inr msg, s\<lparr>ns_in := []\<rparr>)"
proof -
  have f: "concat (ns_in s) = frame msg" using assms(1) by simp
  obtain cs where cs: "read_frame s = (Inr msg, s\<lparr>ns_in := cs\<rparr>)" "concat cs = []"
    using f assms(2) by (rule read_frame_only)
  have "frame msg \<noteq> []" by (simp add: frame_def put_le32_def)
  then have "[] \<notin> set cs" using read_frame_empty [OF cs(1)] assms(1) by simp
  then have "cs = []" using cs(2) by (cases cs) auto
  with cs(1) show ?thesis by simp
qed

text \<open>The decoder of a stream that delivers given bytes and then ends.\<close>

definition stream_of :: "bytes \<Rightarrow> net_stream" where
  "stream_of bs = \<lparr>ns_id = 0, ns_remote = [], ns_in = [bs], ns_in_err = ErrEOF, ns_read_deadline = None,
     ns_write_deadline = None, ns_reset_err = None, ns_write = (\<lambda>ws c. None), ns_written = [], ns_resets = 0\<rparr>"

definition decode_frame :: "bytes \<Rightarrow> bytes option" where
  "decode_frame bs = (case fst (readStreamWithBuffer True (stream_of bs)) of Inl e \<Rightarrow> None | Inr d \<Rightarrow> Some d)"

interpretation frames: codec frame decode_frame "\<lambda>m. length m \<le> MaxPayload"
proof
  fix m :: bytes assume "length m \<le> MaxPayload"
  then obtain cs where "read_frame (stream_of (frame m)) = (Inr m, (stream_of (frame m))\<lparr>ns_in := cs\<rparr>)"
    using read_frame_only [of "stream_of (frame m)" m] by (auto simp: stream_of_def)
  then show "decode_frame (frame m) = Some m"
    by (simp add: decode_frame_def readStreamWithBuffer_def) (simp add: stream_of_def)
qed

text \<open>C33. Framing round trip: what \<open>WriteStreamWithBuffer\<close> puts on a stream that takes every write
  is, whatever the buffering, the little endian length followed by the message; a reader that
  receives these bytes, cut into any chunks and with anything behind them, gets exactly the message
  back, provided the message is within \<open>MaxPayload\<close>.  Of what follows the message the call loses up to
  4096 bytes, those its \<open>bufio.Reader\<close> has read ahead; the stream keeps the others in order, and when
  nothing follows, nothing is left.\<close>

theorem frame_roundtrip:
  assumes "\<And>ws c. ns_write s ws c = None" "d \<longrightarrow> ns_write_deadline s = None"
    and "length msg \<le> MaxPayload" "e \<longrightarrow> ns_read_deadline r = None"
  shows "\<exists>cs. writeStreamWithBuffer d msg s = (None, s\<lparr>ns_written := ns_written s @ cs\<rparr>) \<and>
    concat cs = put_le32 (of_nat (length msg)) @ msg \<and>
    (\<forall>chunks rest. concat chunks = concat cs @ rest \<longrightarrow>
      (\<exists>lost kept. readStreamWithBuffer e (r\<lparr>ns_in := chunks\<rparr>) = (Inr msg, r\<lparr>ns_in := kept\<rparr>) \<and>
        rest = lost @ concat kept \<and> length lost \<le> 4096))"
proof -
  obtain cs where cs: "writeStreamWithBuffer d msg s = (None, s\<lparr>ns_written := ns_written s @ cs\<rparr>)"
    "concat cs = frame msg" using assms(1,2) by (rule write_ok)
  have "\<exists>lost kept. readStreamWithBuffer e (r\<lparr>ns_in := chunks\<rparr>) = (Inr msg, r\<lparr>ns_in := kept\<rparr>) \<and>
      rest = lost @ concat kept \<and> length lost \<le> 4096" if "concat chunks = concat cs @ rest" for chunks rest
  proof -
    have "concat (ns_in (r\<lparr>ns_in := chunks\<rparr>)) = frame msg @ rest" using that cs(2) by simp
    then obtain lost kept where "read_frame (r\<lparr>ns_in := chunks\<rparr>) = (Inr msg, r\<lparr>ns_in := chunks\<rparr>\<lparr>ns_in := kept\<rparr>)"
      "rest = lost @ concat kept" "length lost \<le> 4096"
      by (rule read_frame_frame [OF _ assms(3)])
    with assms(4) show ?thesis by (auto simp: readStreamWithBuffer_def)
  qed
  with cs show ?thesis unfolding frame_def by blast
qed

theorem frame_roundtrip_witness:
  "\<exists>cs kept. writeStreamWithBuffer True [1, 2, 3] (stream_of []) = (None, (stream_of [])\<lparr>ns_written := cs\<rparr>) \<and>
    readStreamWithBuffer True ((stream_of [])\<lparr>ns_in := cs\<rparr>) = (Inr [1, 2, 3], (stream_of [])\<lparr>ns_in := kept\<rparr>) \<and>
    concat kept = []"
proof -
  have "\<exists>cs. writeStreamWithBuffer True [1, 2, 3] (stream_of []) =
      (None, (stream_of [])\<lparr>ns_written := ns_written (stream_of []) @ cs\<rparr>) \<and>
      concat cs = put_le32 (of_nat (length [1, 2, 3 :: byte])) @ [1, 2, 3] \<and>
      (\<forall>chunks rest. concat chunks = concat cs @ rest \<longrightarrow>
        (\<exists>lost kept. readStreamWithBuffer True ((stream_of [])\<lparr>ns_in := chunks\<rparr>) =
            (Inr [1, 2, 3], (stream_of [])\<lparr>ns_in := kept\<rparr>) \<and> rest = lost @ concat kept \<and> length lost \<le> 4096))"
    by (rule frame_roundtrip) (simp_all add: stream_of_def MaxPayload_def)
  then obtain cs where w: "writeStreamWithBuffer True [1, 2, 3] (stream_of []) =
      (None, (stream_of [])\<lparr>ns_written := ns_written (stream_of []) @ cs\<rparr>)"
    and r: "\<forall>chunks rest. concat chunks = concat cs @ rest \<longrightarrow>
        (\<exists>lost kept. readStreamWithBuffer True ((stream_of [])\<lparr>ns_in := chunks\<rparr>) =
            (Inr [1, 2, 3], (stream_of [])\<lparr>ns_in := kept\<rparr>) \<and> rest = lost @ concat kept \<and> length lost \<le> 4096)"
    by blast
  have "concat cs = concat cs @ []" by simp
  from r [rule_format, OF this] obtain lost kept where k:
    "readStreamWithBuffer True ((stream_of [])\<lparr>ns_in := cs\<rparr>) = (Inr [1, 2, 3], (stream_of [])\<lparr>ns_in := kept\<rparr>)"
    "[] = lost @ concat kept" by blast
  have "ns_written (stream_of []) @ cs = cs" by (simp add: stream_of_def)
  with w have "writeStreamWithBuffer True [1, 2, 3] (stream_of []) = (None, (stream_of [])\<lparr>ns_written := cs\<rparr>)" by simp
  moreover have "concat kept = []" using k(2) by (metis Nil_is_append_conv)
  ultimately show ?thesis using k(1) by blast
qed

text \<open>The loss is real: of two messages that arrive in one chunk, a second call of \<open>ReadStreamWithBuffer\<close> on
  the same stream does not find the second one, it fails at the end of the stream.\<close>

lemma second_frame_lost:
  "readStreamWithBuffer True (stream_of (frame [7] @ frame [8])) = (Inr [7], (stream_of [])\<lparr>ns_in := []\<rparr>) \<and>
   fst (readStreamWithBuffer True ((stream_of [])\<lparr>ns_in := []\<rparr>)) =
     Inl (ErrWrap ''error in read the message head'' ErrEOF)"
proof -
  have f: "frame [7] @ frame [8] = [1, 0, 0, 0, 7, 1, 0, 0, 0, 8]" by (simp add: frame_def) code_simp
  have "bufio_full 4 [] [] [[1, 0, 0, 0, 7, 1, 0, 0, 0, 8]] = (Some [1, 0, 0, 0], [1, 0, 0, 0], [7, 1, 0, 0, 0, 8], [])"
    "bufio_full (Suc 0) [] [7, 1, 0, 0, 0, 8] [] = (Some [7], [7], [1, 0, 0, 0, 8], [])"
    "bufio_full 4 [] [] [] = (None, [], [], [])"
    by (simp_all add: rest_chunks_def)
  then show ?thesis
    unfolding f
    by (simp add: readStreamWithBuffer_def read_frame_def readFull_def stream_of_def LengthHeader_def
        MaxPayload_def get_le32_def)
qed

text \<open>The reader bounds what it allocates: it never returns more than \<open>MaxPayload\<close> bytes, and on
  a length field above the bound it fails.  The writer does not check the bound, so a message between
  \<open>MaxPayload\<close> and \<open>2 ^ 32\<close> is sent and then refused.\<close>

lemma bufio_full_length: "bufio_full k acc buf cs = (Some d, r) \<Longrightarrow> length d = length acc + k"
proof (induction k acc buf cs rule: bufio_full.induct)
  case (1 k acc buf cs)
  consider "k = 0" | "k \<noteq> 0" "buf \<noteq> []" | "k \<noteq> 0" "buf = []" by blast
  then show ?case
  proof cases
    case 1
    with "1.prems" show ?thesis by (simp add: bufio_full.simps)
  next
    case 2
    with "1.prems" have "bufio_full (k - length buf) (acc @ take k buf) (drop k buf) cs = (Some d, r)"
      by (subst (asm) bufio_full.simps) simp
    from "1.IH"(1) [OF 2 this] show ?thesis by simp
  next
    case 3
    show ?thesis
    proof (cases cs)
      case Nil
      with 3 "1.prems" show ?thesis by (simp add: bufio_full.simps)
    next
      case (Cons c cs')
      show ?thesis
      proof (cases "4096 \<le> k")
        case True
        with 3 Cons "1.prems" have "bufio_full (k - length c) (acc @ take k c) [] (rest_chunks k c cs') = (Some d, r)"
          by (subst (asm) bufio_full.simps) simp
        from "1.IH"(2) [OF 3(1) _ Cons True this] 3 show ?thesis by simp
      next
        case False
        with 3 Cons "1.prems" have "bufio_full k acc (take 4096 c) (rest_chunks 4096 c cs') = (Some d, r)"
          by (subst (asm) bufio_full.simps) simp
        from "1.IH"(3) [OF 3(1) _ Cons False this] 3 show ?thesis by simp
      qed
    qed
  qed
qed

lemma readFull_length: "readFull k bs = (Inr d, r) \<Longrightarrow> length d = k"
  by (auto simp: readFull_def split: prod.splits option.splits dest: bufio_full_length)

lemma read_bounded:
  shows "(\<forall>msg s'. readStreamWithBuffer d s = (Inr msg, s') \<longrightarrow> length msg \<le> MaxPayload) \<and>
    (\<forall>msg rest. MaxPayload < length msg \<longrightarrow> length msg < 2 ^ 32 \<longrightarrow> \<not> d \<longrightarrow> concat (ns_in s) = frame msg @ rest \<longrightarrow>
      fst (readStreamWithBuffer d s) = Inl (ErrText ''payload length exceed max payload length''))"
proof (intro conjI allI impI)
  fix msg s' assume "readStreamWithBuffer d s = (Inr msg, s')"
  then show "length msg \<le> MaxPayload"
    by (auto simp: readStreamWithBuffer_def read_frame_def stream_reset_def
        split: if_splits option.splits prod.splits sum.splits dest: readFull_length)
next
  fix msg rest assume a: "MaxPayload < length msg" "length msg < 2 ^ 32" "\<not> d" "concat (ns_in s) = frame msg @ rest"
  have "unat (of_nat (length msg) :: 32 word) = length msg"
    using a(2) by (simp add: unat_of_nat take_bit_nat_eq_self)
  moreover obtain buf1 cs1 where
    "readFull LengthHeader ([], s) = (Inr (put_le32 (of_nat (length msg))), buf1, s\<lparr>ns_in := cs1\<rparr>)"
    by (rule readFull_spec [of "[]" s "put_le32 (of_nat (length msg))" "msg @ rest" LengthHeader])
      (use a(4) in \<open>simp_all add: frame_def LengthHeader_def\<close>)
  ultimately show "fst (readStreamWithBuffer d s) = Inl (ErrText ''payload length exceed max payload length'')"
    using a(1,3) by (simp add: readStreamWithBuffer_def read_frame_def dec_put_le32)
qed

lemma read_bounded_sample:
  "fst (readStreamWithBuffer True (stream_of [1, 0, 0, 0, 7])) = Inr [7]"
proof -
  have "bufio_full 4 [] [] [[1, 0, 0, 0, 7]] = (Some [1, 0, 0, 0], [1, 0, 0, 0], [7], [])"
    "bufio_full (Suc 0) [] [7] [] = (Some [7], [7], [], [])" by (simp_all add: rest_chunks_def)
  then show ?thesis
    by (simp add: readStreamWithBuffer_def read_frame_def readFull_def stream_of_def LengthHeader_def
        MaxPayload_def get_le32_def)
qed

end
