(* ===== verification/Party_Coordinator.thy ===== *)
theory Party_Coordinator
  imports Tss_State Stream_Helper
begin

text \<open>
  The party coordination of package \<open>p2p\<close>: \<open>peer_status.go\<close>, \<open>leader_provider.go\<close> and
  \<open>party_coordinator.go\<close>.  The join functions wait for what other goroutines do; a wait is a run
  over a list of events (a stream arrives, a request is sent, a value is taken from \<open>notify\<close>, the
  timer fires, a signature is announced) and is \<open>None\<close> when the events do not end it.  There is one
  join at a time per message id, so the group behind a pointer is the group in the map.
\<close>

section \<open>External functions\<close>

datatype response_type = RespUnknown | RespSuccess | RespTimeout | RespLeaderNotReady | RespUnknownPeer

record leader_comm =
  lc_id :: string
  lc_msg_type :: string
  lc_type :: response_type
  lc_peers :: "string list"

text \<open>\<open>JoinPartyRequest\<close> is its \<open>ID\<close>.\<close>

record p2p_ext = common_ext +
  x_marshal_join :: "string \<Rightarrow> bytes res" \<comment> \<open>\<open>proto.Marshal\<close> of \<open>JoinPartyRequest\<close>\<close>
  x_unmarshal_join :: "bytes \<Rightarrow> string res"
  x_marshal_leader :: "leader_comm \<Rightarrow> bytes res"
  x_unmarshal_leader :: "bytes \<Rightarrow> leader_comm res"
  x_marshal_wrapped :: "wrapped_message \<Rightarrow> bytes res"

section \<open>peer_status.go\<close>

text \<open>\<open>ps_notify\<close> counts the values sent to the channel \<open>notify\<close> and not yet taken; a sender beyond
  the capacity \<open>ps_cap\<close> is parked.\<close>

record peer_status =
  ps_response :: "(peer_id, bool) gomap"
  ps_notify :: nat
  ps_newFound :: nat
  ps_cap :: nat
  ps_leaderResponse :: "leader_comm option"
  ps_leader :: string
  ps_threshold :: int
  ps_reqCount :: int

fun peers_response :: "peer_id list \<Rightarrow> peer_id \<Rightarrow> (peer_id, bool) gomap \<Rightarrow> (peer_id, bool) gomap" where
  "peers_response [] me dat = dat"
| "peers_response (el # els) me dat = peers_response els me (if el = me then dat else mput el False dat)"

definition newPeerStatus :: "peer_id list \<Rightarrow> peer_id \<Rightarrow> string \<Rightarrow> int \<Rightarrow> peer_status" where
  "newPeerStatus peerNodes myPeerID leader threshold =
     \<lparr>ps_response = peers_response peerNodes myPeerID [], ps_notify = 0, ps_newFound = 0,
      ps_cap = length peerNodes, ps_leaderResponse = None, ps_leader = leader,
      ps_threshold = threshold, ps_reqCount = 0\<rparr>"

definition getPeersStatus :: "peer_status \<Rightarrow> peer_id list \<times> peer_id list" where
  "getPeersStatus ps =
     (map fst (filter snd (ps_response ps)), map fst (filter (\<lambda>e. \<not> snd e) (ps_response ps)))"

definition getCoordinationStatus :: "peer_status \<Rightarrow> bool" where
  "getCoordinationStatus ps \<longleftrightarrow> length (snd (getPeersStatus ps)) = 0"

definition NONE :: string where "NONE = ''NONE''"

definition updatePeer :: "peer_id \<Rightarrow> peer_status \<Rightarrow> bool res \<times> peer_status" where
  "updatePeer p ps =
     (case mget (ps_response ps) p of
        None \<Rightarrow> (Inl (ErrText ''key not found''), ps)
      | Some val \<Rightarrow>
         (if ps_leader ps = NONE then
            (if \<not> val then (Inr True, ps\<lparr>ps_response := mput p True (ps_response ps)\<rparr>)
             else (Inr False, ps))
          else if ps_threshold ps \<le> ps_reqCount ps then (Inr False, ps)
          else if \<not> val then
            (let ps1 = ps\<lparr>ps_response := mput p True (ps_response ps), ps_reqCount := ps_reqCount ps + 1\<rparr> in
             (Inr (ps_threshold ps1 \<le> ps_reqCount ps1), ps1))
          else (Inr False, ps)))"

section \<open>leader_provider.go\<close>

definition leader_hash :: "'e conv_ext_scheme \<Rightarrow> string \<Rightarrow> int \<Rightarrow> string \<Rightarrow> string" where
  "leader_hash x msgID blockHeight p = hex_encode (x_sha256 x (str_bytes (msgID @ itoa blockHeight @ p)))"

definition leaderNode :: "'e conv_ext_scheme \<Rightarrow> string \<Rightarrow> int \<Rightarrow> string list \<Rightarrow> string res" where
  "leaderNode x msgID blockHeight pIDs =
     (if length pIDs = 0 \<or> length msgID = 0 \<or> blockHeight = 0
      then Inl (ErrText ''invalid input for finding the leader'')
      else
        (let hashes = map (leader_hash x msgID blockHeight) pIDs;
             keyStore = fold (\<lambda>el. mput (leader_hash x msgID blockHeight el) el) pIDs []
         in Inr (case mget keyStore (hd (sort hashes)) of None \<Rightarrow> [] | Some el \<Rightarrow> el)))"

section \<open>The coordinator\<close>

definition joinPartyProtocol :: string where "joinPartyProtocol = ''/p2p/join-party''"
definition joinPartyProtocolWithLeader :: string where
  "joinPartyProtocolWithLeader = ''/p2p/join-party-leader''"

record coordinator =
  pc_hostID :: peer_id
  pc_timeout :: int \<comment> \<open>in nanoseconds\<close>
  pc_groups :: "(string, peer_status) gomap"
  pc_streams :: stream_mgr
  pc_sent :: "(peer_id \<times> string \<times> bytes) list" \<comment> \<open>what was written to opened streams\<close>
  pc_deadline :: bool \<comment> \<open>the package variable \<open>ApplyDeadline\<close>\<close>

definition newPartyCoordinator :: "peer_id \<Rightarrow> int \<Rightarrow> bool \<Rightarrow> coordinator" where
  "newPartyCoordinator host timeout deadline =
     \<lparr>pc_hostID = host, pc_timeout = (if timeout = 0 then 10 * 10 ^ 9 else timeout), pc_groups = [],
      pc_streams = [], pc_sent = [], pc_deadline = deadline\<rparr>"

definition pc_addStream :: "string \<Rightarrow> net_stream \<Rightarrow> coordinator \<Rightarrow> coordinator" where
  "pc_addStream msgID st pc = pc\<lparr>pc_streams := addStream msgID (Some (ns_id st)) (pc_streams pc)\<rparr>"

definition pc_putGroup :: "string \<Rightarrow> peer_status \<Rightarrow> coordinator \<Rightarrow> coordinator" where
  "pc_putGroup msgID ps pc = pc\<lparr>pc_groups := mput msgID ps (pc_groups pc)\<rparr>"

definition pc_getGroup :: "coordinator \<Rightarrow> string \<Rightarrow> peer_status option" where
  "pc_getGroup pc msgID = mget (pc_groups pc) msgID"

definition removePeerGroup :: "string \<Rightarrow> coordinator \<Rightarrow> coordinator" where
  "removePeerGroup msgID pc = pc\<lparr>pc_groups := mdel msgID (pc_groups pc)\<rparr>"

interpretation groups: kv_store_del pc_getGroup pc_putGroup "\<lambda>pc. wf_map (pc_groups pc)" removePeerGroup
  by unfold_locales (auto simp: pc_getGroup_def pc_putGroup_def removePeerGroup_def)

section \<open>Stream handlers\<close>

text \<open>\<open>processRespMsg\<close>: the handler is parked at the channel when it is full, and writes its reply
  only when it gets past it.\<close>

definition processRespMsg ::
  "'e conv_ext_scheme \<Rightarrow> leader_comm \<Rightarrow> net_stream \<Rightarrow> coordinator \<Rightarrow> net_stream \<times> bool \<times> coordinator" where
  "processRespMsg x respMsg stream pc =
     (let pc1 = pc_addStream (lc_id respMsg) stream pc in
      case pc_getGroup pc1 (lc_id respMsg) of
        None \<Rightarrow> (stream, False, pc1)
      | Some g \<Rightarrow>
         (if x_peer_string x (ns_remote stream) = ps_leader g then
            (let parked = ps_cap g \<le> ps_notify g;
                 g1 = g\<lparr>ps_leaderResponse := Some respMsg, ps_notify := ps_notify g + 1\<rparr>;
                 pc2 = pc_putGroup (lc_id respMsg) g1 pc1
             in (if parked then stream else snd (writeStreamWithBuffer (pc_deadline pc) (str_bytes ''done'') stream),
                 parked, pc2))
          else (stream, False, pc1)))"

definition processReqMsg :: "leader_comm \<Rightarrow> net_stream \<Rightarrow> coordinator \<Rightarrow> coordinator" where
  "processReqMsg requestMsg stream pc =
     (let pc1 = pc_addStream (lc_id requestMsg) stream pc in
      case pc_getGroup pc1 (lc_id requestMsg) of
        None \<Rightarrow> pc1
      | Some g \<Rightarrow>
         (case updatePeer (ns_remote stream) g of
            (Inl e, g1) \<Rightarrow> pc1
          | (Inr partyFormed, g1) \<Rightarrow>
             pc_putGroup (lc_id requestMsg)
               (if partyFormed then g1\<lparr>ps_notify := ps_notify g1 + 1\<rparr> else g1) pc1))"

definition handleStream ::
  "'e p2p_ext_scheme \<Rightarrow> net_stream \<Rightarrow> coordinator \<Rightarrow> coordinator" where
  "handleStream x stream pc =
     (case fst (readStreamWithBuffer (pc_deadline pc) stream) of
        Inl e \<Rightarrow> pc_addStream UNKNOWN stream pc
      | Inr payload \<Rightarrow>
         (case x_unmarshal_join x payload of
            Inl e \<Rightarrow> pc_addStream UNKNOWN stream pc
          | Inr msgID \<Rightarrow>
             (let pc1 = pc_addStream msgID stream pc in
              case pc_getGroup pc1 msgID of
                None \<Rightarrow> pc1
              | Some g \<Rightarrow>
                 (case updatePeer (ns_remote stream) g of
                    (Inl e, g1) \<Rightarrow> pc1
                  | (Inr newFound, g1) \<Rightarrow>
                     pc_putGroup msgID
                       (if newFound then g1\<lparr>ps_newFound := ps_newFound g1 + 1\<rparr> else g1) pc1))))"

definition handleStreamWithLeader ::
  "'e p2p_ext_scheme \<Rightarrow> net_stream \<Rightarrow> coordinator \<Rightarrow> net_stream \<times> coordinator" where
  "handleStreamWithLeader x stream pc =
     (case readStreamWithBuffer (pc_deadline pc) stream of
        (Inl e, s1) \<Rightarrow> (s1, pc_addStream UNKNOWN stream pc)
      | (Inr payload, s1) \<Rightarrow>
         (case x_unmarshal_join x payload of
            Inl e \<Rightarrow> (s1, pc_addStream UNKNOWN stream pc)
          | Inr _ \<Rightarrow>
             (case x_unmarshal_leader x payload of
                Inl e \<Rightarrow> (s1, pc_addStream UNKNOWN stream pc)
              | Inr msg \<Rightarrow>
                 (if lc_msg_type msg = ''request'' then (s1, processReqMsg msg s1 pc)
                  else if lc_msg_type msg = ''response'' then
                    (let (s2, parked, pc2) = processRespMsg x msg s1 pc in
                     (if parked then s2 else snd (writeStreamWithBuffer (pc_deadline pc) (str_bytes ''done'') s2), pc2))
                  else (s1, pc_addStream UNKNOWN stream pc)))))"

section \<open>Groups and sending\<close>

fun pc_getPeerIDs :: "'e conv_ext_scheme \<Rightarrow> string list \<Rightarrow> peer_id list res" where
  "pc_getPeerIDs x [] = Inr []"
| "pc_getPeerIDs x (item # ids) =
     (case x_peer_decode x item of
        Inl e \<Rightarrow> Inl (ErrWrap ''fail to decode peer id'' e)
      | Inr p \<Rightarrow> (case pc_getPeerIDs x ids of Inl e \<Rightarrow> Inl e | Inr ps \<Rightarrow> Inr (p # ps)))"

definition createJoinPartyGroups ::
  "'e conv_ext_scheme \<Rightarrow> string \<Rightarrow> string \<Rightarrow> string list \<Rightarrow> int \<Rightarrow> coordinator \<Rightarrow> goerr option \<times> coordinator" where
  "createJoinPartyGroups x messageID leader peers threshold pc =
     (case pc_getPeerIDs x peers of
        Inl e \<Rightarrow> (Some e, pc)
      | Inr pIDs \<Rightarrow> (None, pc_putGroup messageID (newPeerStatus pIDs (pc_hostID pc) leader threshold) pc))"

text \<open>What opening a stream to a peer gives: a stream, an error, or the four second timeout.\<close>

datatype open_result = Opened net_stream | OpenFailed goerr | OpenTimeout goerr

type_synonym network = "peer_id \<Rightarrow> string \<Rightarrow> open_result"

definition sendMsgToPeer ::
  "network \<Rightarrow> bytes \<Rightarrow> string \<Rightarrow> peer_id \<Rightarrow> string \<Rightarrow> bool \<Rightarrow> coordinator \<Rightarrow> goerr option \<times> coordinator" where
  "sendMsgToPeer net msgBuf msgID remotePeer protoc needResponse pc =
     (case net remotePeer protoc of
        OpenFailed e \<Rightarrow> (Some (ErrWrap ''fail to create stream to peer'' e), pc)
      | OpenTimeout e \<Rightarrow> (Some e, pc)
      | Opened st \<Rightarrow>
         (let (err, st1) = writeStreamWithBuffer (pc_deadline pc) msgBuf st;
              pc1 = pc_addStream msgID st (pc\<lparr>pc_sent := pc_sent pc @ (if err = None then [(remotePeer, protoc, msgBuf)] else [])\<rparr>)
          in (case err of
                Some e \<Rightarrow> (Some (ErrWrap ''fail to write message to stream'' e), pc1)
              | None \<Rightarrow> (None, pc1))))"

fun send_to_peers ::
  "network \<Rightarrow> bytes \<Rightarrow> string \<Rightarrow> string \<Rightarrow> bool \<Rightarrow> peer_id list \<Rightarrow> coordinator \<Rightarrow> coordinator" where
  "send_to_peers net buf msgID protoc resp [] pc = pc"
| "send_to_peers net buf msgID protoc resp (p # ps) pc =
     send_to_peers net buf msgID protoc resp ps
       (if p = pc_hostID pc then pc else snd (sendMsgToPeer net buf msgID p protoc resp pc))"

definition sendResponseToAll ::
  "'e p2p_ext_scheme \<Rightarrow> network \<Rightarrow> leader_comm \<Rightarrow> peer_id list \<Rightarrow> coordinator \<Rightarrow> coordinator" where
  "sendResponseToAll x net msg peers pc =
     (let m = msg\<lparr>lc_msg_type := ''response''\<rparr> in
      case x_marshal_leader x m of
        Inl e \<Rightarrow> pc
      | Inr buf \<Rightarrow> send_to_peers net buf (lc_id m) joinPartyProtocolWithLeader True peers pc)"

definition sendRequestToLeader ::
  "'e p2p_ext_scheme \<Rightarrow> network \<Rightarrow> leader_comm \<Rightarrow> peer_id \<Rightarrow> coordinator \<Rightarrow> goerr option \<times> coordinator" where
  "sendRequestToLeader x net msg leader pc =
     (let m = msg\<lparr>lc_msg_type := ''request''\<rparr> in
      case x_marshal_leader x m of
        Inl e \<Rightarrow> (Some e, pc)
      | Inr buf \<Rightarrow>
         (case sendMsgToPeer net buf (lc_id m) leader joinPartyProtocolWithLeader False pc of
            (Some e, pc1) \<Rightarrow> (Some (ErrText ''fail to send request to leader''), pc1)
          | (None, pc1) \<Rightarrow> (None, pc1)))"

definition sendRequestToAll ::
  "network \<Rightarrow> string \<Rightarrow> bytes \<Rightarrow> peer_id list \<Rightarrow> coordinator \<Rightarrow> coordinator" where
  "sendRequestToAll net msgID msgSend peers pc =
     send_to_peers net msgSend msgID joinPartyProtocol False peers pc"

section \<open>Joining\<close>

datatype wait_event =
    WStream net_stream \<comment> \<open>a stream of the protocol with leader is handled\<close>
  | WStreamLeaderless net_stream \<comment> \<open>a stream of the protocol without leader is handled\<close>
  | WSend network \<comment> \<open>the sending goroutine makes a round\<close>
  | WSender \<comment> \<open>the sending goroutine looks at \<open>done\<close>\<close>
  | WNotify \<comment> \<open>a value is taken from \<open>notify\<close>\<close>
  | WTimeout
  | WSig string \<comment> \<open>a value is taken from the signature channel\<close>

definition take_notify :: "string \<Rightarrow> coordinator \<Rightarrow> coordinator option" where
  "take_notify msgID pc =
     (case pc_getGroup pc msgID of
        None \<Rightarrow> None
      | Some g \<Rightarrow>
         (if ps_notify g = 0 then None else Some (pc_putGroup msgID (g\<lparr>ps_notify := ps_notify g - 1\<rparr>) pc)))"

text \<open>An event that only concerns the handlers and the sending goroutine; \<open>send\<close> is one round of
  the latter.\<close>

fun background ::
  "'e p2p_ext_scheme \<Rightarrow> (network \<Rightarrow> coordinator \<Rightarrow> coordinator) \<Rightarrow> wait_event \<Rightarrow> coordinator \<Rightarrow> coordinator" where
  "background x send (WStream s) pc = snd (handleStreamWithLeader x s pc)"
| "background x send (WStreamLeaderless s) pc = handleStream x s pc"
| "background x send (WSend net) pc = send net pc"
| "background x send e pc = pc"

text \<open>The second half of the wait of a node that sends: the sending goroutine goes on until it finds
  \<open>done\<close> closed; the events behind that are handled by the handlers before the result is read.\<close>

fun senderWait ::
  "'e p2p_ext_scheme \<Rightarrow> (network \<Rightarrow> coordinator \<Rightarrow> coordinator) \<Rightarrow> bool \<Rightarrow> wait_event list \<Rightarrow> coordinator
     \<Rightarrow> coordinator option" where
  "senderWait x send doneClosed [] pc = None"
| "senderWait x send doneClosed (e # es) pc =
     (if e = WSender \<and> doneClosed then Some (fold (background x (\<lambda>_ pc. pc)) es pc)
      else senderWait x send doneClosed es (background x send e pc))"

text \<open>The wait of \<open>joinPartyMember\<close>: the first of the three channels closes \<open>done\<close>, and the wait is over
  when the sending goroutine has ended, too.\<close>

fun memberWait ::
  "'e p2p_ext_scheme \<Rightarrow> (network \<Rightarrow> coordinator \<Rightarrow> coordinator) \<Rightarrow> string \<Rightarrow> wait_event list \<Rightarrow> coordinator
     \<Rightarrow> (string \<times> coordinator) option" where
  "memberWait x send msgID [] pc = None"
| "memberWait x send msgID (WNotify # es) pc =
     (case take_notify msgID pc of
        None \<Rightarrow> memberWait x send msgID es pc
      | Some pc1 \<Rightarrow> map_option (Pair []) (senderWait x send True es pc1))"
| "memberWait x send msgID (WTimeout # es) pc = map_option (Pair []) (senderWait x send True es pc)"
| "memberWait x send msgID (WSig s # es) pc = map_option (Pair s) (senderWait x send True es pc)"
| "memberWait x send msgID (e # es) pc = memberWait x send msgID es (background x send e pc)"

definition joinPartyMember ::
  "'e p2p_ext_scheme \<Rightarrow> string \<Rightarrow> string \<Rightarrow> int \<Rightarrow> wait_event list \<Rightarrow> coordinator
     \<Rightarrow> ((peer_id list \<times> goerr option) \<times> coordinator) option" where
  "joinPartyMember x msgID leader threshold es pc =
     (case createJoinPartyGroups x msgID leader [leader] threshold pc of
        (Some e, pc1) \<Rightarrow> Some (([], Some (ErrWrap ''fail to create join party'' e)), pc1)
      | (None, pc1) \<Rightarrow>
     (case x_peer_decode x leader of
        Inl e \<Rightarrow> Some (([], Some (ErrWrap ''fail to decode peer id'' e)), pc1)
      | Inr leaderPeerID \<Rightarrow>
     (let msg = \<lparr>lc_id = msgID, lc_msg_type = [], lc_type = RespUnknown, lc_peers = []\<rparr>;
          send = (\<lambda>net pc. snd (sendRequestToLeader x net msg leaderPeerID pc))
      in case memberWait x send msgID es pc1 of
           None \<Rightarrow> None
         | Some (sigNotify, pc2) \<Rightarrow>
            (case (case pc_getGroup pc2 msgID of None \<Rightarrow> None | Some g \<Rightarrow> ps_leaderResponse g) of
               None \<Rightarrow> Some (([], Some ErrLeaderNotReady), pc2)
             | Some resp \<Rightarrow>
                (if sigNotify = ''signature received'' then Some (([], Some ErrSignReceived), pc2)
                 else (case pc_getPeerIDs x (lc_peers resp) of
                     Inl e \<Rightarrow> Some (([], Some e), pc2)
                   | Inr pIDs \<Rightarrow>
                      (if int (length pIDs) < threshold then Some ((pIDs, Some (ErrText ''not enough peer'')), pc2)
                       else if lc_type resp = RespSuccess then Some ((pIDs, None), pc2)
                       else Some ((pIDs, Some ErrJoinPartyTimeout), pc2)))))))) "

text \<open>The wait of \<open>joinPartyLeader\<close>: a signature is noted and the loop goes on.\<close>

fun leaderWait ::
  "'e p2p_ext_scheme \<Rightarrow> string \<Rightarrow> string \<Rightarrow> wait_event list \<Rightarrow> coordinator
     \<Rightarrow> (string \<times> coordinator) option" where
  "leaderWait x msgID sig [] pc = None"
| "leaderWait x msgID sig (WNotify # es) pc =
     (case take_notify msgID pc of
        None \<Rightarrow> leaderWait x msgID sig es pc
      | Some pc1 \<Rightarrow> Some (sig, fold (background x (\<lambda>_ pc. pc)) es pc1))"
| "leaderWait x msgID sig (WTimeout # es) pc = Some (sig, fold (background x (\<lambda>_ pc. pc)) es pc)"
| "leaderWait x msgID sig (WSig s # es) pc = leaderWait x msgID s es pc"
| "leaderWait x msgID sig (e # es) pc = leaderWait x msgID sig es (background x (\<lambda>_ pc. pc) e pc)"

definition leader_response :: "'e conv_ext_scheme \<Rightarrow> string \<Rightarrow> peer_id list \<Rightarrow> int \<Rightarrow> leader_comm" where
  "leader_response x msgID onlinePeers threshold =
     \<lparr>lc_id = msgID, lc_msg_type = [],
      lc_type = (if int (length onlinePeers) < threshold + 1 then RespTimeout else RespSuccess),
      lc_peers = map (x_peer_string x) onlinePeers\<rparr>"

definition joinPartyLeader ::
  "'e p2p_ext_scheme \<Rightarrow> network \<Rightarrow> string \<Rightarrow> string list \<Rightarrow> int \<Rightarrow> wait_event list \<Rightarrow> coordinator
     \<Rightarrow> ((peer_id list \<times> goerr option) \<times> coordinator) option" where
  "joinPartyLeader x net msgID peers threshold es pc =
     (case createJoinPartyGroups x msgID (x_peer_string x (pc_hostID pc)) peers threshold pc of
        (Some e, pc1) \<Rightarrow> Some (([], Some e), pc1)
      | (None, pc1) \<Rightarrow>
     (case pc_getPeerIDs x peers of
        Inl e \<Rightarrow> Some (([], Some e), pc1)
      | Inr allPeers \<Rightarrow>
     (case leaderWait x msgID [] es pc1 of
        None \<Rightarrow> None
      | Some (sigNotify, pc2) \<Rightarrow>
         (if sigNotify = ''signature received'' then Some (([], Some ErrSignReceived), pc2)
          else
            (let onlinePeers = (case pc_getGroup pc2 msgID of None \<Rightarrow> [] | Some g \<Rightarrow> fst (getPeersStatus g))
                   @ [pc_hostID pc2];
                 pc3 = sendResponseToAll x net (leader_response x msgID onlinePeers threshold) allPeers pc2
             in Some ((onlinePeers,
                  if int (length onlinePeers) < threshold + 1 then Some ErrJoinPartyTimeout else None), pc3))))))"

definition joinPartyWithLeader ::
  "'e p2p_ext_scheme \<Rightarrow> network \<Rightarrow> string \<Rightarrow> int \<Rightarrow> string list \<Rightarrow> int \<Rightarrow> wait_event list \<Rightarrow> coordinator
     \<Rightarrow> ((peer_id list \<times> string \<times> goerr option) \<times> coordinator) option" where
  "joinPartyWithLeader x net msgID blockHeight peers threshold es pc =
     (case leaderNode x msgID blockHeight peers of
        Inl e \<Rightarrow> Some (([], [], Some e), pc)
      | Inr leader \<Rightarrow>
         map_option (\<lambda>((onlines, err), pc1). ((onlines, leader, err), pc1))
           (if x_peer_string x (pc_hostID pc) = leader
            then joinPartyLeader x net msgID peers threshold es pc
            else joinPartyMember x msgID leader threshold es pc))"

text \<open>The wait of \<open>JoinPartyWithRetry\<close>.\<close>

fun retryWait ::
  "'e p2p_ext_scheme \<Rightarrow> (network \<Rightarrow> coordinator \<Rightarrow> coordinator) \<Rightarrow> string \<Rightarrow> wait_event list \<Rightarrow> coordinator
     \<Rightarrow> coordinator option" where
  "retryWait x send msgID [] pc = None"
| "retryWait x send msgID (WNotify # es) pc =
     (case take_notify msgID pc of
        None \<Rightarrow> retryWait x send msgID es pc
      | Some pc1 \<Rightarrow>
         (if (case pc_getGroup pc1 msgID of None \<Rightarrow> False | Some g \<Rightarrow> getCoordinationStatus g)
          then senderWait x send True es pc1
          else retryWait x send msgID es pc1))"
| "retryWait x send msgID (WTimeout # es) pc = senderWait x send True es pc"
| "retryWait x send msgID (e # es) pc = retryWait x send msgID es (background x send e pc)"

definition joinPartyWithRetry ::
  "'e p2p_ext_scheme \<Rightarrow> network \<Rightarrow> string \<Rightarrow> string list \<Rightarrow> wait_event list \<Rightarrow> coordinator
     \<Rightarrow> ((peer_id list \<times> goerr option) \<times> coordinator) option" where
  "joinPartyWithRetry x net msgID peers es pc =
     (case x_marshal_join x msgID of
        Inl e \<Rightarrow> Some (([], Some e), pc)
      | Inr msgSend \<Rightarrow>
     (case createJoinPartyGroups x msgID NONE peers 1 pc of
        (Some e, pc1) \<Rightarrow> Some (([], Some e), pc1)
      | (None, pc1) \<Rightarrow>
     (let offline = (case pc_getGroup pc1 msgID of None \<Rightarrow> [] | Some g \<Rightarrow> snd (getPeersStatus g)) in
      case retryWait x (\<lambda>net pc. sendRequestToAll net msgID msgSend offline pc) msgID es pc1 of
        None \<Rightarrow> None
      | Some pc2 \<Rightarrow>
         (let online = (case pc_getGroup pc2 msgID of None \<Rightarrow> [] | Some g \<Rightarrow> fst (getPeersStatus g));
              pc3 = sendRequestToAll net msgID msgSend online pc2;
              onlinePeers = online @ [pc_hostID pc3];
              pc4 = removePeerGroup msgID pc3
          in Some ((onlinePeers,
               if length onlinePeers = length peers then None else Some ErrJoinPartyTimeout), pc4)))))"

definition pc_ReleaseStream :: "string \<Rightarrow> coordinator \<Rightarrow> nat list \<times> coordinator" where
  "pc_ReleaseStream msgID pc =
     (let (reset, sm) = releaseStream msgID (pc_streams pc) in (reset, pc\<lparr>pc_streams := sm\<rparr>))"

end
