(* ===== verification/Communication.thy ===== *)
theory Communication
  imports Party_Coordinator
begin

text \<open>
  \<open>p2p/communication.go\<close> and \<open>p2p/message_id_subscriber.go\<close>: the table of subscribers, delivery of
  what arrives on a stream, broadcasting, and the checks at start.  A channel is named by a
  number; what is put into channels is logged.  The libp2p host (opening streams, connecting,
  pinging, parsing addresses) is a parameter.
\<close>

record p2p_message =
  pm_peer :: peer_id
  pm_payload :: bytes

type_synonym chan = nat

section \<open>message\_id\_subscriber.go\<close>

type_synonym id_subscribers = "(string, chan) gomap"

definition ms_Subscribe :: "string \<Rightarrow> chan \<Rightarrow> id_subscribers \<Rightarrow> id_subscribers" where
  "ms_Subscribe msgID channel ms = mput msgID channel ms"

definition ms_UnSubscribe :: "string \<Rightarrow> id_subscribers \<Rightarrow> id_subscribers" where
  "ms_UnSubscribe msgID ms = mdel msgID ms"

definition ms_GetSubscriber :: "id_subscribers \<Rightarrow> string \<Rightarrow> chan option" where
  "ms_GetSubscriber ms msgID = mget ms msgID"

definition ms_IsEmpty :: "id_subscribers \<Rightarrow> bool" where
  "ms_IsEmpty ms \<longleftrightarrow> length ms = 0"

interpretation ids: kv_store_del ms_GetSubscriber ms_Subscribe wf_map ms_UnSubscribe
  by unfold_locales (auto simp: ms_GetSubscriber_def ms_Subscribe_def ms_UnSubscribe_def)

section \<open>The state\<close>

definition TSSProtocolID :: string where "TSSProtocolID = ''/p2p/tss''"

record communication =
  cm_hostID :: peer_id
  cm_rendezvous :: string
  cm_bootstrap :: "string list"
  cm_listenAddr :: string
  cm_externalAddr :: "string option"
  cm_stopped :: bool
  cm_subscribers :: "(msg_type, id_subscribers) gomap"
  cm_streams :: stream_mgr
  cm_deadline :: bool
  cm_written :: "(peer_id \<times> bytes) list" \<comment> \<open>messages written to a peer without error\<close>
  cm_delivered :: "(chan \<times> p2p_message) list" \<comment> \<open>messages put into a channel\<close>

text \<open>\<open>NewCommunication\<close>: \<open>maddr\<close> is \<open>NewMultiaddr\<close>; the host is set later by \<open>startChannel\<close>.\<close>

definition newCommunication ::
  "(string \<Rightarrow> string res) \<Rightarrow> string \<Rightarrow> string list \<Rightarrow> int \<Rightarrow> string \<Rightarrow> communication res" where
  "newCommunication maddr rendezvous bootstrapPeers port externalIP =
     (case maddr (''/ip4/0.0.0.0/tcp/'' @ itoa port) of
        Inl e \<Rightarrow> Inl (ErrWrap ''fail to create listen addr'' e)
      | Inr addr \<Rightarrow>
         (case (if length externalIP \<noteq> 0
                then map_sum id Some (maddr (''/ip4/'' @ externalIP @ ''/tcp/'' @ itoa port))
                else Inr None) of
            Inl e \<Rightarrow> Inl (ErrWrap ''fail to create listen with given external IP'' e)
          | Inr ext \<Rightarrow>
             Inr \<lparr>cm_hostID = [], cm_rendezvous = rendezvous, cm_bootstrap = bootstrapPeers,
               cm_listenAddr = addr, cm_externalAddr = ext, cm_stopped = False, cm_subscribers = [],
               cm_streams = [], cm_deadline = True, cm_written = [], cm_delivered = []\<rparr>))"

section \<open>Subscribers\<close>

definition setSubscribe :: "msg_type \<Rightarrow> string \<Rightarrow> chan \<Rightarrow> communication \<Rightarrow> communication" where
  "setSubscribe topic msgID channel c =
     (let ms = (case mget (cm_subscribers c) topic of None \<Rightarrow> [] | Some ms \<Rightarrow> ms) in
      c\<lparr>cm_subscribers := mput topic (ms_Subscribe msgID channel ms) (cm_subscribers c)\<rparr>)"

definition getSubscriber :: "communication \<Rightarrow> msg_type \<Rightarrow> string \<Rightarrow> chan option" where
  "getSubscriber c topic msgID =
     (case mget (cm_subscribers c) topic of None \<Rightarrow> None | Some ms \<Rightarrow> ms_GetSubscriber ms msgID)"

definition cancelSubscribe :: "msg_type \<Rightarrow> string \<Rightarrow> communication \<Rightarrow> communication" where
  "cancelSubscribe topic msgID c =
     (case mget (cm_subscribers c) topic of
        None \<Rightarrow> c
      | Some ms \<Rightarrow>
         (let ms' = ms_UnSubscribe msgID ms in
          c\<lparr>cm_subscribers := (if ms_IsEmpty ms' then mdel topic (cm_subscribers c)
                              else mput topic ms' (cm_subscribers c))\<rparr>))"

section \<open>Receiving\<close>

definition cm_addStream :: "string \<Rightarrow> net_stream \<Rightarrow> communication \<Rightarrow> communication" where
  "cm_addStream msgID st c = c\<lparr>cm_streams := addStream msgID (Some (ns_id st)) (cm_streams c)\<rparr>"

definition readFromStream :: "'e common_ext_scheme \<Rightarrow> net_stream \<Rightarrow> communication \<Rightarrow> communication" where
  "readFromStream x stream c =
     (if cm_stopped c then c
      else (case fst (readStreamWithBuffer (cm_deadline c) stream) of
          Inl e \<Rightarrow> cm_addStream UNKNOWN stream c
        | Inr dataBuf \<Rightarrow>
           (case x_unmarshal_wrapped x dataBuf of
              Inl e \<Rightarrow> cm_addStream UNKNOWN stream c
            | Inr w \<Rightarrow>
               (let c1 = cm_addStream (w_msgid w) stream c in
                case getSubscriber c1 (w_type w) (w_msgid w) of
                  None \<Rightarrow> c1
                | Some ch \<Rightarrow>
                   c1\<lparr>cm_delivered := cm_delivered c1 @
                        [(ch, \<lparr>pm_peer = ns_remote stream, pm_payload = dataBuf\<rparr>)]\<rparr>))))"

section \<open>Sending\<close>

text \<open>\<open>connectToOnePeer\<close>: no stream and no error for the node itself.\<close>

definition connectToOnePeer :: "network \<Rightarrow> peer_id \<Rightarrow> communication \<Rightarrow> net_stream option res" where
  "connectToOnePeer net pID c =
     (if pID = cm_hostID c then Inr None
      else (case net pID TSSProtocolID of
          Opened s \<Rightarrow> Inr (Some s)
        | OpenFailed e \<Rightarrow> Inl (ErrWrap ''fail to create new stream to peer'' e)
        | OpenTimeout e \<Rightarrow> Inl (ErrWrap ''fail to create new stream to peer'' e)))"

definition writeToStream ::
  "network \<Rightarrow> peer_id \<Rightarrow> bytes \<Rightarrow> string \<Rightarrow> communication \<Rightarrow> goerr option \<times> communication" where
  "writeToStream net pID msg msgID c =
     (if pID = cm_hostID c then (None, c)
      else (case connectToOnePeer net pID c of
          Inl e \<Rightarrow> (Some (ErrWrap ''fail to open stream to peer'' e), c)
        | Inr None \<Rightarrow> (None, c)
        | Inr (Some st) \<Rightarrow>
           (let err = fst (writeStreamWithBuffer (cm_deadline c) msg st) in
            (err, cm_addStream msgID st
              (c\<lparr>cm_written := cm_written c @ (if err = None then [(pID, msg)] else [])\<rparr>)))))"

text \<open>The goroutines of \<open>broadcastToPeers\<close>, one per peer, in the order they finish.\<close>

fun broadcastToPeers ::
  "network \<Rightarrow> peer_id list \<Rightarrow> bytes \<Rightarrow> string \<Rightarrow> communication \<Rightarrow> communication" where
  "broadcastToPeers net [] msg msgID c = c"
| "broadcastToPeers net (p # ps) msg msgID c =
     broadcastToPeers net ps msg msgID (snd (writeToStream net p msg msgID c))"

definition broadcast :: "network \<Rightarrow> peer_id list \<Rightarrow> bytes \<Rightarrow> string \<Rightarrow> communication \<Rightarrow> communication" where
  "broadcast net peers msg msgID c =
     (if length peers = 0 then c else broadcastToPeers net peers msg msgID c)"

text \<open>\<open>ProcessBroadcast\<close> over what it takes from its channel; \<open>None\<close> is the stop signal.\<close>

fun processBroadcast ::
  "'e p2p_ext_scheme \<Rightarrow> network \<Rightarrow> broadcast_msg option list \<Rightarrow> communication \<Rightarrow> communication" where
  "processBroadcast x net [] c = c"
| "processBroadcast x net (None # ms) c = c"
| "processBroadcast x net (Some m # ms) c =
     (case x_marshal_wrapped x (b_wrapped m) of
        Inl e \<Rightarrow> processBroadcast x net ms c
      | Inr buf \<Rightarrow> processBroadcast x net ms (broadcast net (b_peers m) buf (w_msgid (b_wrapped m)) c))"

definition cm_ReleaseStream :: "string \<Rightarrow> communication \<Rightarrow> nat list \<times> communication" where
  "cm_ReleaseStream msgID c =
     (let (reset, sm) = releaseStream msgID (cm_streams c) in (reset, c\<lparr>cm_streams := sm\<rparr>))"

section \<open>Start and stop\<close>

text \<open>\<open>addrInfo\<close> is \<open>AddrInfoFromP2pAddr\<close>, \<open>ping\<close> tells whether the first ping of a peer succeeds
  within its two seconds.\<close>

fun onlineNodes :: "(string \<Rightarrow> peer_id res) \<Rightarrow> (peer_id \<Rightarrow> bool) \<Rightarrow> string list \<Rightarrow> nat" where
  "onlineNodes addrInfo ping [] = 0"
| "onlineNodes addrInfo ping (el # els) =
     (case addrInfo el of
        Inl e \<Rightarrow> onlineNodes addrInfo ping els
      | Inr p \<Rightarrow> (if ping p then 1 else 0) + onlineNodes addrInfo ping els)"

definition bootStrapConnectivityCheck ::
  "(string \<Rightarrow> peer_id res) \<Rightarrow> (peer_id \<Rightarrow> bool) \<Rightarrow> communication \<Rightarrow> goerr option" where
  "bootStrapConnectivityCheck addrInfo ping c =
     (if length (cm_bootstrap c) = 0 then None
      else if 0 < onlineNodes addrInfo ping (cm_bootstrap c) then None
      else Some (ErrText ''the node cannot ping any bootstrap node''))"

fun bootstrap_results :: "(string \<Rightarrow> peer_id res) \<Rightarrow> (peer_id \<Rightarrow> bool) \<Rightarrow> string list \<Rightarrow> bool list res" where
  "bootstrap_results addrInfo connect [] = Inr []"
| "bootstrap_results addrInfo connect (a # as) =
     (case addrInfo a of
        Inl e \<Rightarrow> Inl (ErrWrap ''fail to add peer'' e)
      | Inr p \<Rightarrow>
         (case bootstrap_results addrInfo connect as of Inl e \<Rightarrow> Inl e | Inr rs \<Rightarrow> Inr (connect p # rs)))"

definition connectToBootstrapPeers ::
  "(string \<Rightarrow> peer_id res) \<Rightarrow> (peer_id \<Rightarrow> bool) \<Rightarrow> communication \<Rightarrow> goerr option" where
  "connectToBootstrapPeers addrInfo connect c =
     (if length (cm_bootstrap c) = 0 then None
      else (case bootstrap_results addrInfo connect (cm_bootstrap c) of
          Inl e \<Rightarrow> Some e
        | Inr rs \<Rightarrow> if True \<in> set rs then None else Some (ErrText ''fail to connect to any peer'')))"

text \<open>The loop of five attempts of \<open>startChannel\<close>; \<open>connect i\<close> is the network at attempt \<open>i\<close>.\<close>

fun bootstrap_attempts :: "nat \<Rightarrow> nat \<Rightarrow> (nat \<Rightarrow> goerr option) \<Rightarrow> goerr option \<Rightarrow> goerr option" where
  "bootstrap_attempts 0 i attempt err = err"
| "bootstrap_attempts (Suc n) i attempt err =
     (case attempt i of None \<Rightarrow> None | Some e \<Rightarrow> bootstrap_attempts n (Suc i) attempt (Some e))"

text \<open>What the libp2p constructors called by \<open>startChannel\<close> answer, in the order of the calls.\<close>

record host_results =
  h_privkey :: "goerr option"
  h_resource :: "goerr option"
  h_connmgr :: "goerr option"
  h_host :: "peer_id res"
  h_dht :: "goerr option"
  h_bootstrap :: "goerr option"
  h_addrInfo :: "string \<Rightarrow> peer_id res"
  h_connect :: "nat \<Rightarrow> peer_id \<Rightarrow> bool"
  h_ping :: "peer_id \<Rightarrow> bool"

definition startChannel :: "host_results \<Rightarrow> communication \<Rightarrow> goerr option \<times> communication" where
  "startChannel h c =
     (case h_privkey h of Some e \<Rightarrow> (Some e, c) | None \<Rightarrow>
     (case h_resource h of Some e \<Rightarrow> (Some e, c) | None \<Rightarrow>
     (case h_connmgr h of Some e \<Rightarrow> (Some e, c) | None \<Rightarrow>
     (case h_host h of Inl e \<Rightarrow> (Some (ErrWrap ''fail to create p2p host'' e), c) | Inr hid \<Rightarrow>
       (let c1 = c\<lparr>cm_hostID := hid\<rparr> in
     (case h_dht h of Some e \<Rightarrow> (Some (ErrWrap ''fail to create DHT'' e), c1) | None \<Rightarrow>
     (case h_bootstrap h of Some e \<Rightarrow> (Some (ErrWrap ''fail to bootstrap DHT'' e), c1) | None \<Rightarrow>
     (case bootstrap_attempts 5 0 (\<lambda>i. connectToBootstrapPeers (h_addrInfo h) (h_connect h i) c1) None of
        Some e \<Rightarrow> (Some (ErrWrap ''fail to connect to bootstrap peer'' e), c1)
      | None \<Rightarrow> (bootStrapConnectivityCheck (h_addrInfo h) (h_ping h) c1, c1)))))))))"

text \<open>\<open>Start\<close> tells whether \<open>ProcessBroadcast\<close> was started.\<close>

definition comm_Start :: "host_results \<Rightarrow> communication \<Rightarrow> goerr option \<times> bool \<times> communication" where
  "comm_Start h c = (let (err, c1) = startChannel h c in (err, err = None, c1))"

definition comm_Stop :: "communication \<Rightarrow> communication outcome" where
  "comm_Stop c = (if cm_stopped c then Panic ''close of closed channel'' else Ret (c\<lparr>cm_stopped := True\<rparr>))"

section \<open>The subscriber table is a flat map\<close>

definition subscribers_inv :: "communication \<Rightarrow> bool" where
  "subscribers_inv c \<longleftrightarrow> wf_map (cm_subscribers c) \<and>
     (\<forall>ty ms. mget (cm_subscribers c) ty = Some ms \<longrightarrow> ms \<noteq> [] \<and> wf_map ms)"

definition sub_get :: "communication \<Rightarrow> msg_type \<times> string \<Rightarrow> chan option" where
  "sub_get c = (\<lambda>(ty, i). getSubscriber c ty i)"

lemma setSubscribe_get: "sub_get (setSubscribe ty i ch c) = (sub_get c)((ty, i) \<mapsto> ch)"
  by (auto simp: sub_get_def getSubscriber_def setSubscribe_def Let_def ms_GetSubscriber_def ms_Subscribe_def
      fun_eq_iff split: option.splits)

lemma mdel_empty: "mdel i ms = [] \<Longrightarrow> mget ms k = None \<or> k = i"
  by (metis fun_upd_apply map_of.simps(1) mget_mdel)

lemma cancelSubscribe_get: "sub_get (cancelSubscribe ty i c) = (sub_get c)((ty, i) := None)"
proof -
  have "getSubscriber (cancelSubscribe ty i c) ty' j = (if (ty', j) = (ty, i) then None else getSubscriber c ty' j)"
    for ty' j
  proof (cases "mget (cm_subscribers c) ty")
    case None
    then show ?thesis by (auto simp: cancelSubscribe_def getSubscriber_def)
  next
    case (Some ms)
    then show ?thesis using mdel_empty [of i ms j]
      by (auto simp: cancelSubscribe_def getSubscriber_def ms_IsEmpty_def ms_UnSubscribe_def ms_GetSubscriber_def Let_def)
  qed
  then show ?thesis by (auto simp: sub_get_def fun_eq_iff)
qed

lemma mput_not_Nil [simp]: "mput k v m \<noteq> []"
  by (metis fst_set_mput image_is_empty insert_not_empty list.set(1))

lemma setSubscribe_inv [tss_inv]: "subscribers_inv c \<Longrightarrow> subscribers_inv (setSubscribe ty i ch c)"
  by (auto simp: subscribers_inv_def setSubscribe_def Let_def ms_Subscribe_def split: option.splits if_splits)

lemma cancelSubscribe_inv [tss_inv]: "subscribers_inv c \<Longrightarrow> subscribers_inv (cancelSubscribe ty i c)"
  by (auto simp: subscribers_inv_def cancelSubscribe_def Let_def ms_IsEmpty_def ms_UnSubscribe_def
      split: option.splits if_splits)

interpretation subs: kv_store_del sub_get "\<lambda>k ch. setSubscribe (fst k) (snd k) ch" subscribers_inv
    "\<lambda>k. cancelSubscribe (fst k) (snd k)"
  by unfold_locales (simp_all add: setSubscribe_get cancelSubscribe_get setSubscribe_inv cancelSubscribe_inv)

datatype sub_op = SubSet msg_type string chan | SubCancel msg_type string

fun sub_apply :: "sub_op \<Rightarrow> communication \<Rightarrow> communication" where
  "sub_apply (SubSet ty i ch) c = setSubscribe ty i ch c"
| "sub_apply (SubCancel ty i) c = cancelSubscribe ty i c"

fun flat_apply :: "sub_op \<Rightarrow> (msg_type \<times> string \<Rightarrow> chan option) \<Rightarrow> (msg_type \<times> string \<Rightarrow> chan option)" where
  "flat_apply (SubSet ty i ch) m = m((ty, i) \<mapsto> ch)"
| "flat_apply (SubCancel ty i) m = m((ty, i) := None)"

text \<open>C38. The nested subscriber table refines a flat map: after any sequence of \<open>SetSubscribe\<close> and
  \<open>CancelSubscribe\<close> calls, \<open>getSubscriber\<close> answers as a map from pairs of a message type and a
  message id would, and no topic is left behind without subscribers, so when every subscription
  is cancelled the table is empty again.\<close>

theorem subscribers_refine_map:
  assumes "subscribers_inv c"
  shows "sub_get (fold sub_apply ops c) = fold flat_apply ops (sub_get c) \<and>
    subscribers_inv (fold sub_apply ops c) \<and>
    (fold flat_apply ops (sub_get c) = (\<lambda>k. None) \<longrightarrow> cm_subscribers (fold sub_apply ops c) = [])"
proof -
  have inv: "subscribers_inv (fold sub_apply ops c) \<and> sub_get (fold sub_apply ops c) = fold flat_apply ops (sub_get c)"
    using assms
  proof (induction ops arbitrary: c)
    case (Cons op ops)
    have "subscribers_inv (sub_apply op c) \<and> sub_get (sub_apply op c) = flat_apply op (sub_get c)"
      using Cons.prems by (cases op) (simp_all add: setSubscribe_get cancelSubscribe_get tss_inv)
    with Cons.IH show ?case by simp
  qed simp
  have "cm_subscribers c' = []" if i: "subscribers_inv c'" and e: "sub_get c' = (\<lambda>k. None)" for c'
  proof (cases "cm_subscribers c'")
    case (Cons h t)
    obtain ty ms where h: "h = (ty, ms)" by fastforce
    have ty: "mget (cm_subscribers c') ty = Some ms" by (simp add: Cons h)
    then have "ms \<noteq> []" using i by (auto simp: subscribers_inv_def)
    then obtain j ch ms' where "ms = (j, ch) # ms'" by (cases ms) auto
    then have "sub_get c' (ty, j) = Some ch" using ty by (simp add: sub_get_def getSubscriber_def ms_GetSubscriber_def)
    with e show ?thesis by simp
  qed simp
  with inv show ?thesis by metis
qed

lemma subscribers_inv_new: "newCommunication maddr r b p e = Inr c \<Longrightarrow> subscribers_inv c"
  by (auto simp: newCommunication_def subscribers_inv_def split: sum.splits)

definition sample_net_comm :: communication where
  "sample_net_comm = \<lparr>cm_hostID = ''a'', cm_rendezvous = [], cm_bootstrap = [], cm_listenAddr = [],
     cm_externalAddr = None, cm_stopped = False, cm_subscribers = [], cm_streams = [], cm_deadline = True,
     cm_written = [], cm_delivered = []\<rparr>"

theorem subscribers_refine_map_witness:
  "cm_subscribers (fold sub_apply [SubSet TSSKeyGenMsg ''m'' 1, SubSet TSSTaskDone ''m'' 1,
     SubCancel TSSKeyGenMsg ''m'', SubCancel TSSTaskDone ''m''] sample_net_comm) = []"
proof -
  have "subscribers_inv sample_net_comm" by (simp add: subscribers_inv_def sample_net_comm_def)
  moreover have "fold flat_apply [SubSet TSSKeyGenMsg ''m'' 1, SubSet TSSTaskDone ''m'' 1,
     SubCancel TSSKeyGenMsg ''m'', SubCancel TSSTaskDone ''m''] (sub_get sample_net_comm) = (\<lambda>k. None)"
    by (auto simp: fun_eq_iff sub_get_def getSubscriber_def sample_net_comm_def)
  ultimately show ?thesis using subscribers_refine_map by blast
qed

section \<open>Delivery\<close>

text \<open>A message is delivered at most once and only where it is subscribed: \<open>readFromStream\<close>
  puts the whole payload, under the identity of the remote peer, into the channel subscribed for
  the type and id that the payload itself names, provided the node runs and the payload can be
  read and decoded; in every other case it delivers nothing; it never changes the subscribers.\<close>

lemma readFromStream_delivers:
  "cm_delivered (readFromStream x s c) = cm_delivered c @
     (if cm_stopped c then []
      else (case fst (readStreamWithBuffer (cm_deadline c) s) of
          Inl e \<Rightarrow> []
        | Inr buf \<Rightarrow>
           (case x_unmarshal_wrapped x buf of
              Inl e \<Rightarrow> []
            | Inr w \<Rightarrow>
               (case sub_get c (w_type w, w_msgid w) of
                  None \<Rightarrow> []
                | Some ch \<Rightarrow> [(ch, \<lparr>pm_peer = ns_remote s, pm_payload = buf\<rparr>)])))) \<and>
   cm_subscribers (readFromStream x s c) = cm_subscribers c"
  by (simp add: readFromStream_def cm_addStream_def sub_get_def getSubscriber_def Let_def
      split: sum.split option.split)

section \<open>Broadcast\<close>

text \<open>The peers that a broadcast reaches.\<close>

definition reaches :: "network \<Rightarrow> bool \<Rightarrow> bytes \<Rightarrow> peer_id \<Rightarrow> bool" where
  "reaches net d msg p \<longleftrightarrow>
     (\<exists>s. net p TSSProtocolID = Opened s \<and> fst (writeStreamWithBuffer d msg s) = None)"

text \<open>A broadcast reaches every reachable peer and never the node itself: \<open>Broadcast\<close> writes the
  message once, in full, to each listed peer other than the local host whose stream opens and
  takes it; a peer that fails does not stop the others, and files the stream under the message.\<close>

lemma broadcast_reaches:
  "cm_written (broadcast net ps msg i c) =
     cm_written c @ map (\<lambda>p. (p, msg)) (filter (\<lambda>p. p \<noteq> cm_hostID c \<and> reaches net (cm_deadline c) msg p) ps) \<and>
   cm_subscribers (broadcast net ps msg i c) = cm_subscribers c"
proof -
  have "cm_written (broadcastToPeers net ps msg i c) =
      cm_written c @ map (\<lambda>p. (p, msg)) (filter (\<lambda>p. p \<noteq> cm_hostID c \<and> reaches net (cm_deadline c) msg p) ps) \<and>
    cm_subscribers (broadcastToPeers net ps msg i c) = cm_subscribers c"
  proof (induction ps arbitrary: c)
    case (Cons p ps)
    let ?c = "snd (writeToStream net p msg i c)"
    have "cm_written ?c = cm_written c @ (if p \<noteq> cm_hostID c \<and> reaches net (cm_deadline c) msg p then [(p, msg)] else [])"
      "cm_hostID ?c = cm_hostID c" "cm_deadline ?c = cm_deadline c" "cm_subscribers ?c = cm_subscribers c"
      by (auto simp: writeToStream_def connectToOnePeer_def cm_addStream_def reaches_def Let_def
          split: open_result.splits)
    with Cons.IH [of ?c] show ?case by simp
  qed simp
  then show ?thesis by (simp add: broadcast_def)
qed

end
