(* ===== verification/Net_Http.thy ===== *)
theory Net_Http
  imports Go_Std
begin

text \<open>
  Package \<open>network/http\<close>: the queries of the bridge node to the REST interface of its own chain and to
  the JSON-RPC interface of the Incognito chain.  The client is a function from method, URL and body
  to the body of the answer or an error (building the request, sending it or reading the answer);
  the JSON decoder is a parameter.  A target that is a pointer becomes nil when the body is \<open>null\<close>.
\<close>

section \<open>strconv.ParseInt\<close>

fun parse_digits :: "nat \<Rightarrow> string \<Rightarrow> nat option" where
  "parse_digits n [] = Some n"
| "parse_digits n (c # cs) =
     (if 48 \<le> (of_char c :: nat) \<and> (of_char c :: nat) \<le> 57 then parse_digits (10 * n + (of_char c - 48)) cs else None)"

definition parseInt64 :: "string \<Rightarrow> int res" where
  "parseInt64 s =
     (let neg = (s \<noteq> [] \<and> hd s = CHR ''-'');
          ds = (if s \<noteq> [] \<and> (hd s = CHR ''-'' \<or> hd s = CHR ''+'') then tl s else s)
      in case (if ds = [] then None else parse_digits 0 ds) of
           None \<Rightarrow> Inl (ErrExt ''invalid syntax'')
         | Some n \<Rightarrow>
            (if (if neg then 2 ^ 63 < n else 2 ^ 63 \<le> n) then Inl (ErrExt ''value out of range'')
             else Inr (if neg then - int n else int n)))"

definition int64 :: "int \<Rightarrow> bool" where
  "int64 i \<longleftrightarrow> - (2 ^ 63) \<le> i \<and> i < 2 ^ 63"

lemma parse_digits_undigits:
  "\<forall>c\<in>set s. \<exists>d<10. c = digit_char d \<Longrightarrow> parse_digits n s = Some (foldl (\<lambda>a c. 10 * a + (of_char c - 48)) n s)"
  by (induction s arbitrary: n) (auto simp: of_digit_char)

lemma parse_nat_digits: "parse_digits 0 (nat_digits n) = Some n"
  using parse_digits_undigits [of "nat_digits n" 0] nat_digits_chars undigits_nat_digits [of n]
  unfolding undigits_def by auto

lemma nat_digits_not_empty: "nat_digits n \<noteq> []"
  by (subst nat_digits.simps) simp

lemma nat_digits_no_sign: "hd (nat_digits n) \<noteq> CHR ''-''" "hd (nat_digits n) \<noteq> CHR ''+''"
proof -
  obtain d where "hd (nat_digits n) = digit_char d" "d < 10"
    using nat_digits_chars [OF hd_in_set [OF nat_digits_not_empty]] by blast
  then have "(of_char (hd (nat_digits n)) :: nat) \<ge> 48" by (simp add: of_digit_char)
  then show "hd (nat_digits n) \<noteq> CHR ''-''" "hd (nat_digits n) \<noteq> CHR ''+''" by auto
qed

lemma parseInt64_itoa: "int64 i \<Longrightarrow> parseInt64 (itoa i) = Inr i"
  by (auto simp: parseInt64_def Let_def itoa_def int64_def parse_nat_digits nat_digits_not_empty nat_digits_no_sign)

lemma parseInt64_range: "parseInt64 s = Inr i \<Longrightarrow> int64 i"
  by (auto simp: parseInt64_def int64_def Let_def split: option.splits if_splits)

interpretation int64: codec itoa "\<lambda>s. case parseInt64 s of Inl e \<Rightarrow> None | Inr i \<Rightarrow> Some i" int64
  by unfold_locales (simp add: parseInt64_itoa)

section \<open>The client\<close>

type_synonym http_client = "string \<Rightarrow> string \<Rightarrow> string \<Rightarrow> bytes res"

definition get_json ::
  "http_client \<Rightarrow> string \<Rightarrow> (bytes \<Rightarrow> 'r option res) \<Rightarrow> ('r \<Rightarrow> 'a res outcome) \<Rightarrow> 'a res outcome" where
  "get_json http url decode k =
     (case http ''GET'' url [] of
        Inl e \<Rightarrow> Ret (Inl e)
      | Inr body \<Rightarrow>
     (case decode body of
        Inl e \<Rightarrow> Ret (Inl e)
      | Inr resp \<Rightarrow> out_bind (deref resp) k))"

section \<open>Answers\<close>

record keygen_entry =
  ke_id :: string
  ke_type :: int
  ke_members :: "string list"

record keygen_block_resp =
  kbr_code :: int
  kbr_index :: string
  kbr_height :: string
  kbr_keygens :: "keygen_entry list"

record register_entry =
  re_index :: string
  re_height :: string
  re_members :: "string list"
  re_pool :: string

record register_resp =
  rgr_code :: int
  rgr_entries :: "register_entry list"

record account_resp =
  ar_type :: string
  ar_address :: string
  ar_number :: string
  ar_sequence :: string

record account_info =
  ai_type :: string
  ai_address :: string
  ai_number :: int
  ai_sequence :: int

record beacon_resp =
  br_results :: "string list list list" \<comment> \<open>the instructions of each result\<close>
  br_error :: bool

datatype rpc_param = PHeight nat | PText string

record http_ext =
  x_json_height :: "bytes \<Rightarrow> string option res" \<comment> \<open>\<open>result.response.last_block_height\<close>\<close>
  x_json_keygen :: "bytes \<Rightarrow> keygen_block_resp option res"
  x_json_register :: "bytes \<Rightarrow> register_resp option res"
  x_json_account :: "bytes \<Rightarrow> account_resp option option res"
  x_json_beacon :: "bytes \<Rightarrow> beacon_resp res"
  x_json_best :: "bytes \<Rightarrow> nat res" \<comment> \<open>the field \<open>Instructions\<close> of the result, as a number\<close>
  x_json_rpc :: "string \<Rightarrow> rpc_param list \<Rightarrow> string res"

text \<open>The data of \<open>KeygenBlock\<close> and \<open>RegisterKeygen\<close> of the bridge chain.\<close>

record keygen_value =
  kv_id :: string
  kv_type :: int
  kv_members :: "string list"

record keygen_block =
  kb_index :: string
  kb_height :: int
  kb_keygens :: "keygen_value list"

record register_keygen =
  rk_index :: string
  rk_height :: int
  rk_members :: "string list"
  rk_pool :: string

section \<open>Queries\<close>

definition getCurrentHeight :: "'e http_ext_scheme \<Rightarrow> http_client \<Rightarrow> string \<Rightarrow> int res outcome" where
  "getCurrentHeight x http url =
     get_json http (url @ ''/abci_info'') (x_json_height x) (\<lambda>height. Ret (parseInt64 height))"

definition keygen_block_url :: "string \<Rightarrow> int \<Rightarrow> string" where
  "keygen_block_url url height = url @ ''/bridge/bridge/keygen_block/'' @ itoa height"

text \<open>Only the first keygen of the answer is kept, its type is set to 0, and its id becomes the index.\<close>

definition getKeygenBlock :: "'e http_ext_scheme \<Rightarrow> http_client \<Rightarrow> string \<Rightarrow> int \<Rightarrow> keygen_block res outcome" where
  "getKeygenBlock x http url height =
     get_json http (keygen_block_url url height) (x_json_keygen x) (\<lambda>resp.
       if kbr_code resp \<noteq> 0 then
         Ret (Inl (if kbr_code resp = 5 then ErrNotFoundKeyGenBlock
           else if kbr_code resp = 14 then ErrConnectionRefused else ErrText ''not found keygen block''))
       else
         (case parseInt64 (kbr_height resp) of
            Inl e \<Rightarrow> Ret (Inl e)
          | Inr blockHeight \<Rightarrow>
             (case kbr_keygens resp of
                [] \<Rightarrow> Panic ''index out of range''
              | k # ks \<Rightarrow>
                 Ret (Inr \<lparr>kb_index = ke_id k, kb_height = blockHeight,
                   kb_keygens = [\<lparr>kv_id = ke_id k, kv_type = 0, kv_members = ke_members k\<rparr>]\<rparr>))))"

definition getRegisterKeygen :: "'e http_ext_scheme \<Rightarrow> http_client \<Rightarrow> string \<Rightarrow> register_keygen res outcome" where
  "getRegisterKeygen x http url =
     get_json http (url @ ''/bridge/bridge/register_keygen'') (x_json_register x) (\<lambda>resp.
       if rgr_code resp \<noteq> 0 then
         Ret (Inl (if rgr_code resp = 5 then ErrNotFoundKeyGenBlock
           else if rgr_code resp = 14 then ErrConnectionRefused else ErrText ''not found register keygen''))
       else
         (case rgr_entries resp of
            [] \<Rightarrow> Ret (Inl ErrNotFoundRegisterKeyGen)
          | t # ts \<Rightarrow>
             (case parseInt64 (re_height t) of
                Inl e \<Rightarrow> Ret (Inl e)
              | Inr blockHeight \<Rightarrow>
                 Ret (Inr \<lparr>rk_index = re_index t, rk_height = blockHeight, rk_members = re_members t,
                   rk_pool = re_pool t\<rparr>))))"

definition newAccountInfoByResp :: "account_resp \<Rightarrow> account_info res" where
  "newAccountInfoByResp acc =
     (case parseInt64 (ar_number acc) of
        Inl e \<Rightarrow> Inl e
      | Inr accountNumber \<Rightarrow>
     (case parseInt64 (ar_sequence acc) of
        Inl e \<Rightarrow> Inl e
      | Inr sequence \<Rightarrow>
         Inr \<lparr>ai_type = ar_type acc, ai_address = ar_address acc, ai_number = accountNumber, ai_sequence = sequence\<rparr>))"

definition getAccountInfo :: "'e http_ext_scheme \<Rightarrow> http_client \<Rightarrow> string \<Rightarrow> string \<Rightarrow> account_info res outcome" where
  "getAccountInfo x http url address =
     get_json http (url @ ''/cosmos/auth/v1beta1/accounts/'' @ address) (x_json_account x) (\<lambda>account.
       out_bind (deref account) (\<lambda>acc. Ret (newAccountInfoByResp acc)))"

definition post_json :: "http_client \<Rightarrow> string \<Rightarrow> string res \<Rightarrow> (bytes \<Rightarrow> 'r res) \<Rightarrow> 'r res" where
  "post_json http url request decode =
     (case request of
        Inl e \<Rightarrow> Inl e
      | Inr payload \<Rightarrow>
         (case http ''POST'' url payload of Inl e \<Rightarrow> Inl e | Inr body \<Rightarrow> decode body))"

definition getBeaconInstructions ::
  "'e http_ext_scheme \<Rightarrow> http_client \<Rightarrow> string \<Rightarrow> nat \<Rightarrow> string list list res outcome" where
  "getBeaconInstructions x http url height =
     (case post_json http url (x_json_rpc x ''retrievebeaconblockbyheight'' [PHeight height, PText ''2'']) (x_json_beacon x) of
        Inl e \<Rightarrow> Ret (Inl e)
      | Inr response \<Rightarrow>
         (if br_error response then Ret (Inl (ErrText ''can not found beacon height''))
          else (case br_results response of
              [] \<Rightarrow> Panic ''index out of range''
            | r # rs \<Rightarrow> Ret (Inr r))))"

definition getCurrentBeaconHeight :: "'e http_ext_scheme \<Rightarrow> http_client \<Rightarrow> string \<Rightarrow> nat res" where
  "getCurrentBeaconHeight x http url = post_json http url (x_json_rpc x ''getbeaconbeststate'' []) (x_json_best x)"

section \<open>What an answer means\<close>

text \<open>The answer of the chain for a keygen block.\<close>

definition answers_block :: "'e http_ext_scheme \<Rightarrow> http_client \<Rightarrow> string \<Rightarrow> int \<Rightarrow> string \<Rightarrow> keygen_entry list \<Rightarrow> bool" where
  "answers_block x http url h i ks \<longleftrightarrow>
     (\<exists>body. http ''GET'' (keygen_block_url url h) [] = Inr body \<and>
        x_json_keygen x body = Inr (Some \<lparr>kbr_code = 0, kbr_index = i, kbr_height = itoa h, kbr_keygens = ks\<rparr>))"

lemma getKeygenBlock_answer:
  assumes "answers_block x http url h i (k # ks)" "int64 h"
  shows "getKeygenBlock x http url h = Ret (Inr \<lparr>kb_index = ke_id k, kb_height = h,
    kb_keygens = [\<lparr>kv_id = ke_id k, kv_type = 0, kv_members = ke_members k\<rparr>]\<rparr>)"
  using assms by (auto simp: answers_block_def getKeygenBlock_def get_json_def parseInt64_itoa)

lemma getKeygenBlock_empty_panics:
  "answers_block x http url h i [] \<Longrightarrow> int64 h \<Longrightarrow> getKeygenBlock x http url h = Panic ''index out of range''"
  by (auto simp: answers_block_def getKeygenBlock_def get_json_def parseInt64_itoa)

lemma keygen_block_url_inject: "keygen_block_url u h = keygen_block_url u h' \<Longrightarrow> h = h'"
  by (simp add: keygen_block_url_def)

lemma getCurrentHeight_range: "getCurrentHeight x http url = Ret (Inr h) \<Longrightarrow> int64 h"
  by (auto simp: getCurrentHeight_def get_json_def out_bind_Ret_iff split: sum.splits dest: parseInt64_range)

lemma newAccountInfo_range:
  "newAccountInfoByResp acc = Inr i \<Longrightarrow> int64 (ai_number i) \<and> int64 (ai_sequence i)"
  by (cases "parseInt64 (ar_number acc)"; cases "parseInt64 (ar_sequence acc)")
     (auto simp: newAccountInfoByResp_def dest: parseInt64_range)

lemma getAccountInfo_range:
  "getAccountInfo x http url a = Ret (Inr i) \<Longrightarrow> int64 (ai_number i) \<and> int64 (ai_sequence i)"
  by (auto simp: getAccountInfo_def get_json_def out_bind_Ret_iff newAccountInfo_range split: sum.splits)

text \<open>A sample decoder, for the concrete inputs of the theories that follow.\<close>

definition sample_http :: http_ext where
  "sample_http = \<lparr>x_json_height = (\<lambda>b. Inr (Some (bytes_str b))),
     x_json_keygen = (\<lambda>b. Inr (Some \<lparr>kbr_code = (if b = [1] then 0 else 5), kbr_index = ''i'', kbr_height = itoa 1,
        kbr_keygens = [\<lparr>ke_id = ''k'', ke_type = 0, ke_members = [''a'', ''b'', ''c'']\<rparr>]\<rparr>)),
     x_json_register = (\<lambda>b. Inr (Some \<lparr>rgr_code = 5, rgr_entries = []\<rparr>)),
     x_json_account = (\<lambda>b. Inr (Some (Some \<lparr>ar_type = [], ar_address = ''adr'', ar_number = itoa 7, ar_sequence = bytes_str b\<rparr>))),
     x_json_beacon = (\<lambda>b. Inr \<lparr>br_results = [[[''369'']]], br_error = False\<rparr>),
     x_json_best = (\<lambda>b. Inr 1), x_json_rpc = (\<lambda>m ps. Inr m)\<rparr>"

end
