(* ===== verification/Chain_Clients.thy ===== *)
theory Chain_Clients
  imports Net_Http
begin

text \<open>
  Packages \<open>network/chain\<close> and \<open>network/btcprocessors\<close>, and \<open>network/observer.go\<close>: the clients of the
  external chains.  The Bitcoin client scans the blocks for deposits, the Incognito client follows
  the beacon chain for instructions.  The RPC client, the script parser and the beacon node are
  parameters; what is written to \<open>ShieldTxsQueue\<close> is logged.
\<close>

section \<open>Configuration\<close>

definition IncognitoChainId :: string where "IncognitoChainId = ''incognito''"
definition BtcChainId :: string where "BtcChainId = ''btc''"
definition BridgeChainId :: string where "BridgeChainId = ''bridge-network''"
definition BTCBlockConfirmations :: int where "BTCBlockConfirmations = 8"

record chain_config =
  cc_validator :: string
  cc_url :: string

definition newChainConfig :: "string \<Rightarrow> string \<Rightarrow> chain_config" where
  "newChainConfig url validator = \<lparr>cc_validator = validator, cc_url = url\<rparr>"

record shield_tx_data =
  sh_RequestTx :: string
  sh_Amount :: int
  sh_ToAddr :: string
  sh_IncognitoAddress :: string
  sh_MetaData :: bytes

record base_chain =
  ch_currentHeight :: nat
  ch_cfg :: chain_config
  ch_shields :: "shield_tx_data list" \<comment> \<open>written to \<open>ShieldTxsQueue\<close>\<close>

definition newBaseChain :: "chain_config \<Rightarrow> base_chain" where
  "newBaseChain cfg = \<lparr>ch_currentHeight = 0, ch_cfg = cfg, ch_shields = []\<rparr>"

datatype chain_client = BtcChain base_chain | IncognitoChain base_chain

text \<open>The configured chains with their URLs, in the order of the map's range; the wait group starts at
  zero, since \<open>wg.Add\<close> is commented out.\<close>

fun init_chains :: "(string \<times> string) list \<Rightarrow> (string, chain_client) gomap \<Rightarrow> (string, chain_client) gomap outcome" where
  "init_chains [] res = Ret res"
| "init_chains ((k, url) # cs) res =
     (let base = newBaseChain (newChainConfig url []) in
      if k = BtcChainId then init_chains cs (mput k (BtcChain base) res)
      else if k = IncognitoChainId then init_chains cs (mput k (IncognitoChain base) res)
      else if k = BridgeChainId then init_chains cs res
      else Panic ''cannot find chain id '')"

definition initChains :: "(string \<times> string) list \<Rightarrow> ((string, chain_client) gomap \<times> int) outcome" where
  "initChains configs = out_bind (init_chains configs []) (\<lambda>res. Ret (res, 0))"

section \<open>Bitcoin transactions\<close>

record tx_out =
  to_Value :: int
  to_PkScript :: bytes

record btc_tx =
  tx_Hash :: string
  tx_Outs :: "tx_out list"

text \<open>\<open>ExtractPkScriptAddrs\<close> and \<open>EncodeAddress\<close> of \<open>btcd\<close>.\<close>

type_synonym pk_parser = "bytes \<Rightarrow> string list res"

definition extractPaymentAddrStrFromPkScript :: "pk_parser \<Rightarrow> bytes \<Rightarrow> string res" where
  "extractPaymentAddrStrFromPkScript parse pkScript =
     (case parse pkScript of
        Inl e \<Rightarrow> Inl e
      | Inr addrs \<Rightarrow> (if length addrs = 0 then Inr [] else Inr (addrs ! 0)))"

definition OP_RETURN :: byte where "OP_RETURN = 0x6a"

fun extractAttachedMsg :: "tx_out list \<Rightarrow> string res" where
  "extractAttachedMsg [] = Inr []"
| "extractAttachedMsg (txOut # outs) =
     (let s = to_PkScript txOut in
      if to_Value txOut \<noteq> 0 \<or> take 1 s \<noteq> [OP_RETURN] then extractAttachedMsg outs
      else if length s < 5 then Inl (ErrText ''Memo is invalid'')
      else if s ! 1 \<le> 75 then Inr (bytes_str (drop 2 s))
      else if s ! 1 = 76 then Inr (bytes_str (drop 3 s))
      else if s ! 1 = 77 then Inr (bytes_str (drop 4 s))
      else extractAttachedMsg outs)"

definition extractAttachedMsgFromTx :: "btc_tx \<Rightarrow> string res" where
  "extractAttachedMsgFromTx msgTx = extractAttachedMsg (tx_Outs msgTx)"

section \<open>Deposits\<close>

record btc_client =
  bl_count :: "int res"
  bl_hash :: "int \<Rightarrow> string res"
  bl_block :: "string \<Rightarrow> btc_tx list res"

definition metaData :: bytes where
  "metaData = str_bytes (''{'' @ [CHR 0x22] @ ''incTokenId'' @ [CHR 0x22] @ '':'' @ [CHR 0x22, CHR 0x22] @ ''}'')"

definition deposit_of_out :: "pk_parser \<Rightarrow> string \<Rightarrow> btc_tx \<Rightarrow> tx_out \<Rightarrow> shield_tx_data list" where
  "deposit_of_out parse validatorAdd tx out =
     (case extractPaymentAddrStrFromPkScript parse (to_PkScript out) of
        Inl e \<Rightarrow> []
      | Inr addrStr \<Rightarrow>
         (if addrStr \<noteq> validatorAdd then []
          else (case extractAttachedMsgFromTx tx of
              Inl e \<Rightarrow> []
            | Inr memo \<Rightarrow>
               [\<lparr>sh_RequestTx = tx_Hash tx, sh_Amount = to_Value out, sh_ToAddr = addrStr,
                 sh_IncognitoAddress = memo, sh_MetaData = metaData\<rparr>])))"

text \<open>What the scan of a block writes, in its order.  The queue is not buffered: that each write waits for
  a reader is the step relation of theory \<open>Node_Services\<close>.\<close>

definition deposits_of_block :: "pk_parser \<Rightarrow> string \<Rightarrow> btc_tx list \<Rightarrow> shield_tx_data list" where
  "deposits_of_block parse validatorAdd txs =
     concat (map (\<lambda>tx. concat (map (deposit_of_out parse validatorAdd tx) (tx_Outs tx))) txs)"

text \<open>The loop over the heights; it ends at the first failing call.\<close>

fun scan_heights :: "pk_parser \<Rightarrow> btc_client \<Rightarrow> string \<Rightarrow> int list \<Rightarrow> base_chain \<Rightarrow> base_chain" where
  "scan_heights parse c validatorAdd [] b = b"
| "scan_heights parse c validatorAdd (i # is) b =
     (case bl_hash c i of
        Inl e \<Rightarrow> b
      | Inr blockHash \<Rightarrow>
         (case bl_block c blockHash of
            Inl e \<Rightarrow> b
          | Inr block \<Rightarrow>
             scan_heights parse c validatorAdd is
               (b\<lparr>ch_shields := ch_shields b @ deposits_of_block parse validatorAdd block\<rparr>)))"

text \<open>When there are too few blocks, \<open>err.Error()\<close> is called on a nil error.\<close>

definition processBtcDeposits :: "pk_parser \<Rightarrow> btc_client \<Rightarrow> string \<Rightarrow> base_chain \<Rightarrow> base_chain outcome" where
  "processBtcDeposits parse btcClient validatorAdd b =
     (let currentBtcHeight = 0 in
      case bl_count btcClient of
        Inl e \<Rightarrow> Ret b
      | Inr btcBestHeight \<Rightarrow>
         (if btcBestHeight - BTCBlockConfirmations \<le> currentBtcHeight then Panic ''nil pointer dereference''
          else Ret (scan_heights parse btcClient validatorAdd [currentBtcHeight + 1..btcBestHeight] b)))"

definition btc_Scan :: "pk_parser \<Rightarrow> btc_client res \<Rightarrow> base_chain \<Rightarrow> base_chain outcome" where
  "btc_Scan parse build b =
     (case build of
        Inl e \<Rightarrow> Ret b
      | Inr btcClient \<Rightarrow> processBtcDeposits parse btcClient (cc_validator (ch_cfg b)) b)"

section \<open>Incognito\<close>

text \<open>The instructions of one beacon block; the counter of the wait group must not fall below zero.\<close>

fun processInstructions :: "string list list \<Rightarrow> int \<Rightarrow> int outcome" where
  "processInstructions [] wg = Ret wg"
| "processInstructions ([] # is) wg = Panic ''index out of range''"
| "processInstructions ((i # args) # is) wg =
     (if i = ''369'' then
        (if wg - 1 < 0 then Panic ''sync: negative WaitGroup counter'' else processInstructions is (wg - 1))
      else processInstructions is wg)"

definition parseAndProcessInstructions ::
  "'e http_ext_scheme \<Rightarrow> http_client \<Rightarrow> nat \<Rightarrow> base_chain \<Rightarrow> int \<Rightarrow> int outcome" where
  "parseAndProcessInstructions x http beaconHeight b wg =
     out_bind (getBeaconInstructions x http (cc_url (ch_cfg b)) beaconHeight) (\<lambda>r.
       case r of Inl e \<Rightarrow> Ret wg | Inr instructions \<Rightarrow> processInstructions instructions wg)"

datatype inc_event = IncTick | IncPoll http_client

fun incognito_Scan :: "'e http_ext_scheme \<Rightarrow> inc_event list \<Rightarrow> base_chain \<times> int \<Rightarrow> (base_chain \<times> int) outcome" where
  "incognito_Scan x [] s = Ret s"
| "incognito_Scan x (IncTick # es) s = incognito_Scan x es s"
| "incognito_Scan x (IncPoll http # es) (b, wg) =
     (let nextHeight = ch_currentHeight b + 1 in
      case getCurrentBeaconHeight x http (cc_url (ch_cfg b)) of
        Inl e \<Rightarrow> incognito_Scan x es (b, wg)
      | Inr chainCurrentHeight \<Rightarrow>
         (if chainCurrentHeight < nextHeight then incognito_Scan x es (b, wg)
          else out_bind (parseAndProcessInstructions x http nextHeight b wg) (\<lambda>wg1.
              incognito_Scan x es (b\<lparr>ch_currentHeight := nextHeight\<rparr>, wg1))))"

section \<open>Memos\<close>

text \<open>A memo as the output of a deposit carries it: one push after \<open>OP_RETURN\<close>.\<close>

definition push_data :: "bytes \<Rightarrow> bytes" where
  "push_data d =
     (if length d \<le> 75 then of_nat (length d) # d
      else if length d < 256 then 76 # of_nat (length d) # d
      else 77 # of_nat (length d mod 256) # of_nat (length d div 256) # d)"

definition memo_out :: "string \<Rightarrow> tx_out" where
  "memo_out memo = \<lparr>to_Value = 0, to_PkScript = OP_RETURN # push_data (str_bytes memo)\<rparr>"

lemma small_byte_le: "n \<le> 75 \<Longrightarrow> (of_nat n :: byte) \<le> 75"
  by (simp add: word_le_nat_alt unat_of_nat)

lemma extractAttachedMsg_skip:
  "(\<And>out. out \<in> set outs \<Longrightarrow> to_Value out \<noteq> 0 \<or> take 1 (to_PkScript out) \<noteq> [OP_RETURN]) \<Longrightarrow>
     extractAttachedMsg (outs @ rest) = extractAttachedMsg rest"
  by (induction outs) (auto simp: Let_def)

lemma extractAttachedMsg_memo:
  assumes "3 \<le> length memo"
  shows "extractAttachedMsg (memo_out memo # outs) = Inr memo"
proof -
  have "length (str_bytes memo) = length memo" by (simp add: str_bytes_def)
  then show ?thesis
    using assms small_byte_le [of "length memo"] by (auto simp: memo_out_def push_data_def Let_def)
qed

text \<open>The memo of a deposit is read back: a transaction whose outputs before the memo output either
  carry an amount or are not \<open>OP_RETURN\<close> scripts yields exactly the memo, for every memo of at least
  three characters, whichever of the three push forms its length needs.\<close>

lemma memo_roundtrip:
  assumes "tx_Outs tx = outs @ memo_out memo # rest" "3 \<le> length memo"
    and "\<And>out. out \<in> set outs \<Longrightarrow> to_Value out \<noteq> 0 \<or> take 1 (to_PkScript out) \<noteq> [OP_RETURN]"
  shows "extractAttachedMsgFromTx tx = Inr memo"
  using assms extractAttachedMsg_skip [of outs "memo_out memo # rest"] extractAttachedMsg_memo
  by (simp add: extractAttachedMsgFromTx_def)

lemma memo_roundtrip_sample:
  "extractAttachedMsgFromTx \<lparr>tx_Hash = ''t'', tx_Outs = [\<lparr>to_Value = 5, to_PkScript = [OP_RETURN]\<rparr>, memo_out ''12Sabc'']\<rparr> = Inr ''12Sabc''"
  by (rule memo_roundtrip [of _ "[\<lparr>to_Value = 5, to_PkScript = [OP_RETURN]\<rparr>]" _ "[]"]) simp_all

section \<open>What the scan reports\<close>

text \<open>The outputs of a block in their order, those that are credited, and the record of one: an output is
  credited when it pays to the validator's address in a transaction with a readable memo.\<close>

definition block_outputs :: "btc_tx list \<Rightarrow> (btc_tx \<times> tx_out) list" where
  "block_outputs txs = [(tx, out). tx \<leftarrow> txs, out \<leftarrow> tx_Outs tx]"

definition credited :: "pk_parser \<Rightarrow> string \<Rightarrow> btc_tx \<times> tx_out \<Rightarrow> bool" where
  "credited parse validatorAdd p \<longleftrightarrow>
     extractPaymentAddrStrFromPkScript parse (to_PkScript (snd p)) = Inr validatorAdd \<and>
     (\<exists>memo. extractAttachedMsgFromTx (fst p) = Inr memo)"

definition deposit_record :: "string \<Rightarrow> btc_tx \<times> tx_out \<Rightarrow> shield_tx_data \<Rightarrow> bool" where
  "deposit_record validatorAdd p d \<longleftrightarrow>
     sh_RequestTx d = tx_Hash (fst p) \<and> sh_Amount d = to_Value (snd p) \<and> sh_ToAddr d = validatorAdd \<and>
     extractAttachedMsgFromTx (fst p) = Inr (sh_IncognitoAddress d) \<and> sh_MetaData d = metaData"

lemma deposit_of_out_record:
  "list_all2 (deposit_record v) (filter (credited parse v) [(tx, out)]) (deposit_of_out parse v tx out)"
  by (auto simp: deposit_of_out_def credited_def deposit_record_def split: sum.splits)

lemma deposits_of_block_records:
  "list_all2 (deposit_record v) (filter (credited parse v) (block_outputs txs)) (deposits_of_block parse v txs)"
proof -
  have "list_all2 (deposit_record v) (filter (credited parse v) (map (Pair tx) outs))
      (concat (map (deposit_of_out parse v tx) outs))" for tx outs
  proof (induction outs)
    case (Cons out outs)
    from list_all2_appendI [OF deposit_of_out_record [of v parse tx out] Cons.IH] show ?case by (simp split: if_splits)
  qed simp
  then show ?thesis
    by (induction txs) (auto simp: block_outputs_def deposits_of_block_def intro: list_all2_appendI)
qed

text \<open>A deposit: an output to the validator's address in a transaction whose memo can be read.\<close>

definition is_deposit :: "pk_parser \<Rightarrow> string \<Rightarrow> btc_tx list \<Rightarrow> shield_tx_data \<Rightarrow> bool" where
  "is_deposit parse validatorAdd txs d \<longleftrightarrow>
     (\<exists>tx\<in>set txs. \<exists>out\<in>set (tx_Outs tx). extractPaymentAddrStrFromPkScript parse (to_PkScript out) = Inr validatorAdd \<and>
        extractAttachedMsgFromTx tx = Inr (sh_IncognitoAddress d) \<and> sh_RequestTx d = tx_Hash tx \<and>
        sh_Amount d = to_Value out \<and> sh_ToAddr d = validatorAdd \<and> sh_MetaData d = metaData)"

lemma deposit_of_out_iff:
  "d \<in> set (deposit_of_out parse v tx out) \<longleftrightarrow>
     extractPaymentAddrStrFromPkScript parse (to_PkScript out) = Inr v \<and>
     extractAttachedMsgFromTx tx = Inr (sh_IncognitoAddress d) \<and> sh_RequestTx d = tx_Hash tx \<and>
     sh_Amount d = to_Value out \<and> sh_ToAddr d = v \<and> sh_MetaData d = metaData"
  by (cases "extractPaymentAddrStrFromPkScript parse (to_PkScript out)"; cases "extractAttachedMsgFromTx tx"; cases d)
     (auto simp: deposit_of_out_def)

lemma deposits_of_block_iff: "d \<in> set (deposits_of_block parse v txs) \<longleftrightarrow> is_deposit parse v txs d"
  by (auto simp: deposits_of_block_def is_deposit_def deposit_of_out_iff)

lemma scan_heights_all:
  assumes "\<And>i. i \<in> set is \<Longrightarrow> \<exists>h. bl_hash c i = Inr h \<and> bl_block c h = Inr (blk i)"
  shows "scan_heights parse c v is b = b\<lparr>ch_shields := ch_shields b @ concat (map (deposits_of_block parse v \<circ> blk) is)\<rparr>"
  using assms
proof (induction "is" arbitrary: b)
  case (Cons i "is")
  then obtain h where "bl_hash c i = Inr h" "bl_block c h = Inr (blk i)" by auto
  with Cons show ?case by simp
qed simp

lemma scan_heights_sound:
  "d \<in> set (ch_shields (scan_heights parse c v is b)) \<Longrightarrow> d \<in> set (ch_shields b) \<or>
     (\<exists>i\<in>set is. \<exists>h txs. bl_hash c i = Inr h \<and> bl_block c h = Inr txs \<and> is_deposit parse v txs d)"
  by (induction "is" arbitrary: b) (fastforce simp: deposits_of_block_iff split: sum.splits)+

text \<open>C35. The Bitcoin scan reports the deposits of the chain, each once, and nothing else: when the
  best height is above the eight confirmations and every block can be read, what it adds to the queue
  is, block by block in the order of the heights, one record for each output of the block, in the
  order of its transactions and outputs, that pays to the validator's address in a transaction with a
  readable memo, with the hash of that transaction, the output's amount and the memo.  The scan goes
  up to the best height, so unconfirmed blocks are included.\<close>

theorem btc_deposits_exact:
  assumes "bl_count c = Inr n" "8 < n"
    and "\<And>i. 1 \<le> i \<Longrightarrow> i \<le> n \<Longrightarrow> \<exists>h. bl_hash c i = Inr h \<and> bl_block c h = Inr (blk i)"
  shows "\<exists>ds. processBtcDeposits parse c v b = Ret (b\<lparr>ch_shields := ch_shields b @ concat ds\<rparr>) \<and>
    list_all2 (\<lambda>i. list_all2 (deposit_record v) (filter (credited parse v) (block_outputs (blk i)))) [1..n] ds"
proof -
  let ?ds = "map (deposits_of_block parse v \<circ> blk) [1..n]"
  have "processBtcDeposits parse c v b = Ret (b\<lparr>ch_shields := ch_shields b @ concat ?ds\<rparr>)"
    using assms scan_heights_all [of "[1..n]" c blk parse v b] by (simp add: processBtcDeposits_def BTCBlockConfirmations_def)
  moreover have "list_all2 (\<lambda>i. list_all2 (deposit_record v) (filter (credited parse v) (block_outputs (blk i)))) [1..n] ?ds"
    by (simp add: list_all2_conv_all_nth deposits_of_block_records [unfolded list_all2_conv_all_nth])
  ultimately show ?thesis by blast
qed

lemma init_chains_btc:
  assumes "init_chains cs res = Ret r" "mget r k = Some (BtcChain b)"
  shows "mget res k = Some (BtcChain b) \<or> (\<exists>url. b = newBaseChain (newChainConfig url []))"
  using assms
  by (induction cs res rule: init_chains.induct) (auto simp: Let_def split: if_splits)

text \<open>With the chains the program sets up no deposit to an address is ever reported: their validator
  address is the empty string, so every deposit that the scan of a Bitcoin client of \<open>InitChains\<close> adds
  to its queue comes from an output for which the script parser finds no address.\<close>

lemma btc_no_address_reported:
  assumes "initChains configs = Ret (cs, wg)" "mget cs k = Some (BtcChain b)"
    and "btc_Scan parse (Inr c) b = Ret b'" "d \<in> set (ch_shields b')"
    and "\<And>s as. parse s = Inr as \<Longrightarrow> [] \<notin> set as"
  shows "sh_ToAddr d = [] \<and> (\<exists>i h txs tx out. bl_hash c i = Inr h \<and> bl_block c h = Inr txs \<and> tx \<in> set txs \<and>
    sh_RequestTx d = tx_Hash tx \<and> out \<in> set (tx_Outs tx) \<and> sh_Amount d = to_Value out \<and> parse (to_PkScript out) = Inr [])"
proof -
  obtain url where b: "b = newBaseChain (newChainConfig url [])"
    using assms(1,2) init_chains_btc [of configs "[]" cs k b] by (auto simp: initChains_def out_bind_Ret_iff)
  obtain n where n: "b' = b \<or> b' = scan_heights parse c [] [1..n] b"
    using assms(3) by (auto simp: btc_Scan_def processBtcDeposits_def b newBaseChain_def newChainConfig_def
        split: sum.splits if_splits)
  have "ch_shields b = []" by (simp add: b newBaseChain_def)
  then obtain i h txs where i: "bl_hash c i = Inr h" "bl_block c h = Inr txs" "is_deposit parse [] txs d"
    using n assms(4) scan_heights_sound [of d parse c "[]" "[1..n]" b] by auto
  then obtain tx out where t: "tx \<in> set txs" "out \<in> set (tx_Outs tx)" "extractPaymentAddrStrFromPkScript parse (to_PkScript out) = Inr []"
      "sh_RequestTx d = tx_Hash tx" "sh_Amount d = to_Value out" "sh_ToAddr d = []"
    by (auto simp: is_deposit_def)
  have "parse (to_PkScript out) = Inr []"
  proof -
    obtain as where as: "parse (to_PkScript out) = Inr as"
      using t(3) by (auto simp: extractPaymentAddrStrFromPkScript_def split: sum.splits)
    show ?thesis
      using t(3) as assms(5) [OF as] by (cases as) (auto simp: extractPaymentAddrStrFromPkScript_def)
  qed
  with i t show ?thesis by blast
qed

section \<open>The beacon chain\<close>

text \<open>The start instruction of the network stops the node: the wait group is created empty, so at
  the first instruction \<open>369\<close> of a beacon block whose instructions are not empty \<open>wg.Done\<close> panics.\<close>

lemma start_instruction_panics:
  assumes "initChains configs = Ret (cs, wg)"
    and "getBeaconInstructions x http (cc_url (ch_cfg b)) height = Ret (Inr (pre @ (''369'' # args) # rest))"
    and "\<And>i. i \<in> set pre \<Longrightarrow> i \<noteq> []"
  shows "\<exists>m. parseAndProcessInstructions x http height b wg = Panic m"
proof -
  have "wg = 0" using assms(1) by (auto simp: initChains_def out_bind_Ret_iff)
  have "\<exists>m. processInstructions (pre @ (''369'' # args) # rest) 0 = Panic m"
    using assms(3)
  proof (induction pre)
    case (Cons i pre)
    then obtain j js where "i = j # js" by (cases i) auto
    with Cons show ?case by auto
  qed simp
  then show ?thesis using assms(2) \<open>wg = 0\<close> by (simp add: parseAndProcessInstructions_def)
qed

text \<open>The Incognito scan never starts: the beacon height is read from a field called
  \<open>Instructions\<close>; when the answer has no such field the height is 0, so no run of the scan ever
  processes a block.\<close>

lemma incognito_scan_stuck:
  assumes "\<And>http. IncPoll http \<in> set es \<Longrightarrow> getCurrentBeaconHeight x http (cc_url (ch_cfg b)) \<in> {Inr 0} \<union> range Inl"
  shows "incognito_Scan x es (b, wg) = Ret (b, wg)"
  using assms
proof (induction es)
  case (Cons e es)
  show ?case
  proof (cases e)
    case (IncPoll http)
    then have "getCurrentBeaconHeight x http (cc_url (ch_cfg b)) \<in> {Inr 0} \<union> range Inl" using Cons.prems by simp
    then show ?thesis
      using Cons IncPoll by (cases "getCurrentBeaconHeight x http (cc_url (ch_cfg b))") auto
  qed (use Cons in simp)
qed simp

section \<open>The properties on concrete inputs\<close>

definition sample_parse :: pk_parser where
  "sample_parse s = Inr (if s = [1] then [''addr''] else [])"

definition sample_deposit_tx :: btc_tx where
  "sample_deposit_tx = \<lparr>tx_Hash = ''t'', tx_Outs = [\<lparr>to_Value = 7, to_PkScript = [1]\<rparr>, memo_out ''memo'']\<rparr>"

definition sample_btc :: btc_client where
  "sample_btc = \<lparr>bl_count = Inr 9, bl_hash = (\<lambda>i. Inr (itoa i)), bl_block = (\<lambda>h. Inr (if h = itoa 9 then [sample_deposit_tx] else []))\<rparr>"

lemma sample_deposit: "is_deposit sample_parse ''addr'' [sample_deposit_tx]
   \<lparr>sh_RequestTx = ''t'', sh_Amount = 7, sh_ToAddr = ''addr'', sh_IncognitoAddress = ''memo'', sh_MetaData = metaData\<rparr>"
proof -
  have "extractAttachedMsgFromTx sample_deposit_tx = Inr ''memo''"
    using extractAttachedMsg_skip [of "[\<lparr>to_Value = 7, to_PkScript = [1]\<rparr>]" "[memo_out ''memo'']"]
      extractAttachedMsg_memo [of "''memo''" "[]"]
    by (simp add: extractAttachedMsgFromTx_def sample_deposit_tx_def OP_RETURN_def del: extractAttachedMsg.simps)
  then show ?thesis
    by (simp add: is_deposit_def)
      (simp add: sample_deposit_tx_def extractPaymentAddrStrFromPkScript_def sample_parse_def)
qed

lemma sample_upto9: "[1..9::int] = [1, 2, 3, 4, 5, 6, 7, 8, 9]"
  by code_simp

lemma sample_credited: "filter (credited sample_parse ''addr'') (block_outputs [sample_deposit_tx]) =
   [(sample_deposit_tx, \<lparr>to_Value = 7, to_PkScript = [1]\<rparr>)]"
proof -
  have "extractAttachedMsgFromTx sample_deposit_tx = Inr ''memo''"
    using sample_deposit by (auto simp: is_deposit_def)
  moreover have "extractPaymentAddrStrFromPkScript sample_parse [1] = Inr ''addr''"
    "extractPaymentAddrStrFromPkScript sample_parse (to_PkScript (memo_out m)) = Inr []" for m
    by (simp_all add: extractPaymentAddrStrFromPkScript_def sample_parse_def memo_out_def OP_RETURN_def)
  moreover have "block_outputs [sample_deposit_tx] =
      [(sample_deposit_tx, \<lparr>to_Value = 7, to_PkScript = [1]\<rparr>), (sample_deposit_tx, memo_out ''memo'')]"
    by (simp add: block_outputs_def sample_deposit_tx_def)
  ultimately show ?thesis by (simp add: credited_def)
qed

theorem btc_deposits_exact_witness:
  "\<exists>b'. processBtcDeposits sample_parse sample_btc ''addr'' (newBaseChain (newChainConfig ''u'' ''addr'')) = Ret b' \<and>
    map sh_RequestTx (ch_shields b') = [''t''] \<and> map sh_Amount (ch_shields b') = [7]"
proof -
  let ?blk = "\<lambda>i. if i = 9 then [sample_deposit_tx] else []" and ?b = "newBaseChain (newChainConfig ''u'' ''addr'')"
  have "itoa i = itoa 9 \<longleftrightarrow> i = 9" for i by simp
  then have h: "\<exists>h. bl_hash sample_btc i = Inr h \<and> bl_block sample_btc h = Inr (?blk i)" for i
    by (simp add: sample_btc_def)
  have n: "bl_count sample_btc = Inr 9" by (simp add: sample_btc_def)
  obtain ds where r: "processBtcDeposits sample_parse sample_btc ''addr'' ?b = Ret (?b\<lparr>ch_shields := ch_shields ?b @ concat ds\<rparr>)"
    and ds: "list_all2 (\<lambda>i. list_all2 (deposit_record ''addr'') (filter (credited sample_parse ''addr'') (block_outputs (?blk i)))) [1..9] ds"
    using btc_deposits_exact [OF n _ h, of sample_parse "''addr''" ?b] by auto
  have e: "block_outputs [] = []" by (simp add: block_outputs_def)
  obtain d where d: "concat ds = [d]" "deposit_record ''addr'' (sample_deposit_tx, \<lparr>to_Value = 7, to_PkScript = [1]\<rparr>) d"
    using ds unfolding sample_upto9 by (auto simp: list_all2_Cons1 sample_credited e)
  have "ch_shields ?b = []" by (simp add: newBaseChain_def)
  with r d show ?thesis by (auto simp: deposit_record_def sample_deposit_tx_def)
qed

lemma sample_scan:
  "scan_heights sample_parse sample_btc v [1..9] b =
     b\<lparr>ch_shields := ch_shields b @ deposits_of_block sample_parse v [sample_deposit_tx]\<rparr>"
proof -
  have "itoa i = itoa 9 \<longleftrightarrow> i = 9" for i by simp
  then have "\<exists>h. bl_hash sample_btc i = Inr h \<and> bl_block sample_btc h = Inr (if i = 9 then [sample_deposit_tx] else [])" for i
    by (simp add: sample_btc_def)
  moreover note sample_upto9
  moreover have "deposits_of_block sample_parse v [] = []" by (simp add: deposits_of_block_def)
  ultimately show ?thesis
    using scan_heights_all [of "[1..9]" sample_btc "\<lambda>i. if i = 9 then [sample_deposit_tx] else []" sample_parse v b] by simp
qed

lemma sample_no_address: "is_deposit sample_parse [] [sample_deposit_tx]
   \<lparr>sh_RequestTx = ''t'', sh_Amount = 0, sh_ToAddr = [], sh_IncognitoAddress = ''memo'', sh_MetaData = metaData\<rparr>"
  using sample_deposit
  by (auto simp: is_deposit_def sample_deposit_tx_def extractPaymentAddrStrFromPkScript_def sample_parse_def memo_out_def
      OP_RETURN_def)

lemma btc_no_address_reported_sample:
  "\<exists>b'. btc_Scan sample_parse (Inr sample_btc) (newBaseChain (newChainConfig ''u'' [])) = Ret b' \<and>
     ch_shields b' \<noteq> [] \<and> (\<forall>d\<in>set (ch_shields b'). sh_ToAddr d = [])"
proof -
  let ?b = "newBaseChain (newChainConfig ''u'' [])"
  let ?b' = "?b\<lparr>ch_shields := ch_shields ?b @ deposits_of_block sample_parse [] [sample_deposit_tx]\<rparr>"
  have r: "btc_Scan sample_parse (Inr sample_btc) ?b = Ret ?b'"
    using sample_scan [of "[]" ?b]
    by (simp add: btc_Scan_def processBtcDeposits_def sample_btc_def BTCBlockConfirmations_def newBaseChain_def newChainConfig_def)
  have c: "initChains [(BtcChainId, ''u'')] = Ret ([(''btc'', BtcChain ?b)], 0)" "mget [(''btc'', BtcChain ?b)] ''btc'' = Some (BtcChain ?b)"
    by (simp_all add: initChains_def BtcChainId_def mput_def)
  have p: "[] \<notin> set as" if "sample_parse s = Inr as" for s as
    using that by (auto simp: sample_parse_def split: if_splits)
  have "sh_ToAddr d = []" if "d \<in> set (ch_shields ?b')" for d
    by (rule conjunct1 [OF btc_no_address_reported [OF c r that]]) (rule p)
  moreover have "ch_shields ?b' \<noteq> []"
    using sample_no_address unfolding deposits_of_block_iff [symmetric] by auto
  ultimately show ?thesis using r by blast
qed

lemma start_instruction_panics_sample:
  "\<exists>m. parseAndProcessInstructions sample_http (\<lambda>m u b. Inr []) 1 (newBaseChain (newChainConfig ''u'' [])) 0 = Panic m"
  by (rule start_instruction_panics [where configs = "[]" and cs = "[]" and pre = "[]" and args = "[]" and rest = "[]"])
    (simp_all add: initChains_def getBeaconInstructions_def post_json_def sample_http_def)

lemma incognito_scan_stuck_sample:
  "incognito_Scan (sample_http\<lparr>x_json_best := (\<lambda>b. Inr 0)\<rparr>) [IncTick, IncPoll (\<lambda>m u b. Inr []), IncPoll (\<lambda>m u b. Inl (ErrExt ''EOF''))]
     (newBaseChain (newChainConfig ''u'' []), 0) = Ret (newBaseChain (newChainConfig ''u'' []), 0)"
  by (rule incognito_scan_stuck) (auto simp: getCurrentBeaconHeight_def post_json_def sample_http_def)

end
