(* ===== verification/Join_Props.thy ===== *)
theory Join_Props
  imports Party_Coordinator
begin

text \<open>
  Properties of the party coordination: the choice of the leader, the counting of requests, what
  the join functions return, and the agreement of leader and members.
\<close>

section \<open>The leader\<close>

lemma fold_mput_get:
  "mget (fold (\<lambda>el. mput (f el) el) xs m) k = (case mget (map (\<lambda>el. (f el, el)) (rev xs)) k of None \<Rightarrow> mget m k | Some v \<Rightarrow> Some v)"
  by (induction xs arbitrary: m) (auto simp: map_add_Some_iff map_of_append map_add_def split: option.splits)

lemma leaderNode_pick:
  assumes "pIDs \<noteq> []" "inj_on f (set pIDs)"
  shows "\<exists>p\<in>set pIDs. f p = hd (sort (map f pIDs)) \<and>
    mget (fold (\<lambda>el. mput (f el) el) pIDs []) (hd (sort (map f pIDs))) = Some p"
proof -
  have "hd (sort (map f pIDs)) \<in> set (sort (map f pIDs))"
    using assms(1) by (intro hd_in_set) (metis length_0_conv length_map length_sort)
  then obtain p where p: "p \<in> set pIDs" "f p = hd (sort (map f pIDs))" by auto
  have "mget (map (\<lambda>el. (f el, el)) (rev pIDs)) (f p) = Some p"
  proof (cases "mget (map (\<lambda>el. (f el, el)) (rev pIDs)) (f p)")
    case None
    then show ?thesis using p(1) by (auto simp: mget_None_iff image_image)
  next
    case (Some q)
    then have "q \<in> set pIDs" "f q = f p" using map_of_SomeD [OF Some] by auto
    with Some p(1) assms(2) show ?thesis by (simp add: inj_on_eq_iff)
  qed
  with p show ?thesis by (auto simp: fold_mput_get)
qed

text \<open>All nodes elect the same leader: as long as the hashes of the candidates are distinct,
  \<open>LeaderNode\<close> returns a candidate, and every reordering of the candidate list elects the same
  one; it fails exactly when the list or the message id is empty or the height is zero.\<close>

lemma leaderNode_agreement:
  assumes "mset ps = mset qs" "inj_on (leader_hash x msgID h) (set ps)"
  shows "leaderNode x msgID h ps = leaderNode x msgID h qs \<and>
    (if ps = [] \<or> msgID = [] \<or> h = 0
     then leaderNode x msgID h ps = Inl (ErrText ''invalid input for finding the leader'')
     else \<exists>p\<in>set ps. leaderNode x msgID h ps = Inr p)"
proof -
  let ?f = "leader_hash x msgID h"
  have set: "set ps = set qs" and len: "length ps = length qs"
    using assms(1) by (metis set_mset_mset, metis size_mset)
  show ?thesis
  proof (cases "ps = [] \<or> msgID = [] \<or> h = 0")
    case True
    with len show ?thesis by (auto simp: leaderNode_def)
  next
    case False
    then have ne: "ps \<noteq> []" "qs \<noteq> []" "msgID \<noteq> []" "h \<noteq> 0" using len by auto
    have sorted: "sort (map ?f ps) = sort (map ?f qs)"
      by (rule properties_for_sort) (use assms(1) in simp_all)
    obtain p where p: "p \<in> set ps" "?f p = hd (sort (map ?f ps))"
      "mget (fold (\<lambda>el. mput (?f el) el) ps []) (hd (sort (map ?f ps))) = Some p"
      using leaderNode_pick [OF ne(1) assms(2)] by blast
    obtain q where q: "q \<in> set qs" "?f q = hd (sort (map ?f qs))"
      "mget (fold (\<lambda>el. mput (?f el) el) qs []) (hd (sort (map ?f qs))) = Some q"
      using leaderNode_pick [OF ne(2)] assms(2) set by auto
    have "p = q" using assms(2) p(1,2) q(1,2) sorted set by (metis inj_on_eq_iff)
    then show ?thesis using ne p q by (auto simp: leaderNode_def Let_def)
  qed
qed

lemma leaderNode_agreement_sample:
  "leaderNode sample_conv ''m'' 7 [''b'', ''a''] = leaderNode sample_conv ''m'' 7 [''a'', ''b'']"
proof -
  have "inj_on (leader_hash sample_conv ''m'' 7) (set [''b'', ''a''])"
    by (auto simp: inj_on_def leader_hash_def sample_conv_def str_bytes_def
        dest!: arg_cong [where f = hex_decode])
       (simp_all add: hex_decode_encode)
  then show ?thesis using leaderNode_agreement [of "[''b'', ''a'']" "[''a'', ''b'']" sample_conv "''m''" 7]
    by (simp add: add_mset_commute)
qed

section \<open>Counting the requests\<close>

definition online :: "peer_status \<Rightarrow> peer_id set" where
  "online ps = {p. mget (ps_response ps) p = Some True}"

definition known :: "peer_status \<Rightarrow> peer_id set" where
  "known ps = fst ` set (ps_response ps)"

lemma online_sub: "online ps \<subseteq> known ps"
  unfolding online_def known_def by (auto dest: map_of_SomeD simp: rev_image_eqI)

lemma finite_known [simp]: "finite (known ps)"
  by (simp add: known_def)

lemma finite_online [simp]: "finite (online ps)"
  using online_sub finite_known by (rule finite_subset)

lemma peers_response_spec:
  "wf_map m \<Longrightarrow> wf_map (peers_response ns me m) \<and>
   fst ` set (peers_response ns me m) = fst ` set m \<union> (set ns - {me}) \<and>
   (\<forall>p. mget (peers_response ns me m) p = Some True \<longrightarrow> mget m p = Some True)"
proof (induction ns arbitrary: m)
  case (Cons el ns)
  have "wf_map (if el = me then m else mput el False m)" using Cons.prems by simp
  from Cons.IH [OF this] show ?case by (auto split: if_splits)
qed simp

lemma newPeerStatus_known: "known (newPeerStatus ns me l t) = set ns - {me}"
  and newPeerStatus_online: "online (newPeerStatus ns me l t) = {}"
  and newPeerStatus_wf: "wf_map (ps_response (newPeerStatus ns me l t))"
  using peers_response_spec [of "[]" ns me] by (auto simp: newPeerStatus_def known_def online_def)

lemma newPeerStatus_fields [simp]:
  "ps_threshold (newPeerStatus ns me l t) = t" "ps_leader (newPeerStatus ns me l t) = l"
  "ps_reqCount (newPeerStatus ns me l t) = 0" "ps_notify (newPeerStatus ns me l t) = 0"
  "ps_leaderResponse (newPeerStatus ns me l t) = None"
  by (simp_all add: newPeerStatus_def)

lemma updatePeer_known [simp]: "known (snd (updatePeer p ps)) = known ps"
proof (cases "mget (ps_response ps) p")
  case (Some v)
  then have "p \<in> fst ` set (ps_response ps)" by (metis mget_None_iff option.distinct(1))
  then show ?thesis by (auto simp: updatePeer_def known_def Let_def split: option.splits)
qed (simp add: updatePeer_def)

text \<open>The invariant of a group with a leader.\<close>

definition group_ok :: "peer_status \<Rightarrow> bool" where
  "group_ok ps \<longleftrightarrow> wf_map (ps_response ps) \<and> ps_leader ps \<noteq> NONE \<and> 0 < ps_threshold ps \<and>
     ps_reqCount ps = int (card (online ps)) \<and> ps_reqCount ps \<le> ps_threshold ps"

lemma online_put: "online (ps\<lparr>ps_response := mput p True (ps_response ps), ps_reqCount := c\<rparr>) = insert p (online ps)"
  by (auto simp: online_def)

lemma updatePeer_cases:
  assumes "group_ok ps"
  obtains (unknown) e where "p \<notin> known ps" "updatePeer p ps = (Inl e, ps)"
  | (full) "p \<in> known ps" "ps_reqCount ps = ps_threshold ps" "updatePeer p ps = (Inr False, ps)"
  | (again) "p \<in> online ps" "ps_reqCount ps < ps_threshold ps" "updatePeer p ps = (Inr False, ps)"
  | (new) ps' where "p \<in> known ps" "p \<notin> online ps" "ps_reqCount ps < ps_threshold ps"
      "updatePeer p ps = (Inr (ps_threshold ps = ps_reqCount ps + 1), ps')"
      "online ps' = insert p (online ps)" "ps_reqCount ps' = ps_reqCount ps + 1" "group_ok ps'"
      "ps_threshold ps' = ps_threshold ps"
proof (cases "mget (ps_response ps) p")
  case None
  have "updatePeer p ps = (Inl (ErrText ''key not found''), ps)"
    unfolding updatePeer_def None by simp
  moreover have "p \<notin> known ps" using None unfolding known_def mget_None_iff .
  ultimately show ?thesis by (intro unknown)
next
  case (Some v)
  then have kn: "p \<in> known ps" by (metis known_def mget_None_iff option.distinct(1))
  consider "ps_threshold ps \<le> ps_reqCount ps" | "ps_reqCount ps < ps_threshold ps" "v"
    | "ps_reqCount ps < ps_threshold ps" "\<not> v" by linarith
  then show ?thesis
  proof cases
    case 1
    with assms Some kn show ?thesis by (intro full) (auto simp: group_ok_def updatePeer_def)
  next
    case 2
    with assms Some show ?thesis by (intro again) (auto simp: group_ok_def updatePeer_def online_def)
  next
    case 3
    let ?ps' = "ps\<lparr>ps_response := mput p True (ps_response ps), ps_reqCount := ps_reqCount ps + 1\<rparr>"
    have no: "p \<notin> online ps" using Some 3 by (simp add: online_def)
    have "updatePeer p ps = (Inr (ps_threshold ps = ps_reqCount ps + 1), ?ps')"
      using assms Some 3 by (auto simp: group_ok_def updatePeer_def Let_def)
    moreover have "group_ok ?ps'"
      using assms 3 no online_put [where ps = ps and p = p and c = "ps_reqCount ps + 1"] by (simp add: group_ok_def)
    ultimately show ?thesis using kn no 3(1) online_put [where ps = ps and p = p] by (intro new [of ?ps']) simp_all
  qed
qed

lemma updatePeer_ok [tss_inv]: "group_ok ps \<Longrightarrow> group_ok (snd (updatePeer p ps))"
  by (cases rule: updatePeer_cases [of ps p]) simp_all

interpretation requests: step_mono "\<lambda>ps p. snd (updatePeer p ps)" group_ok "\<lambda>_. True" "\<lambda>ps. card (online ps)"
proof
  fix ps p assume ok: "group_ok ps"
  then show "group_ok (snd (updatePeer p ps))" by (rule updatePeer_ok)
  show "card (online ps) \<le> card (online (snd (updatePeer p ps)))"
    using ok by (cases rule: updatePeer_cases [of ps p]) (auto intro: card_insert_le)
qed

text \<open>The answers to a sequence of requests.\<close>

definition update_run :: "peer_id list \<Rightarrow> peer_status \<Rightarrow> bool res list \<times> peer_status" where
  "update_run reqs ps = foldl (\<lambda>(rs, ps) p. let (r, ps') = updatePeer p ps in (rs @ [r], ps')) ([], ps) reqs"

lemma update_run_snd: "snd (update_run reqs ps) = foldl (\<lambda>ps p. snd (updatePeer p ps)) ps reqs"
  by (induction reqs rule: rev_induct) (auto simp: update_run_def case_prod_unfold Let_def)

lemma update_run_snoc:
  "update_run (reqs @ [p]) ps = (let (rs, ps1) = update_run reqs ps; (r, ps2) = updatePeer p ps1 in (rs @ [r], ps2))"
  by (simp add: update_run_def case_prod_unfold Let_def)

lemma update_run_spec:
  assumes "group_ok ps" "online ps = {}" "update_run reqs ps = (rs, ps')"
  shows "group_ok ps' \<and> known ps' = known ps \<and> ps_threshold ps' = ps_threshold ps \<and>
    online ps' \<subseteq> set reqs \<inter> known ps \<and>
    int (card (online ps')) = min (ps_threshold ps) (int (card (set reqs \<inter> known ps))) \<and>
    count_list rs (Inr True) = (if ps_threshold ps \<le> int (card (set reqs \<inter> known ps)) then 1 else 0)"
  using assms(3)
proof (induction reqs arbitrary: rs ps' rule: rev_induct)
  case Nil
  with assms show ?case by (auto simp: update_run_def group_ok_def)
next
  case (snoc p reqs)
  obtain rs1 ps1 where r1: "update_run reqs ps = (rs1, ps1)" by fastforce
  note IH = snoc.IH [OF r1]
  let ?S = "set reqs \<inter> known ps"
  have fin: "finite ?S" by simp
  have run: "rs = rs1 @ [fst (updatePeer p ps1)]" "ps' = snd (updatePeer p ps1)"
    using snoc.prems r1 by (simp_all add: update_run_snoc case_prod_unfold Let_def)
  from IH have ok: "group_ok ps1" and kn: "known ps1 = known ps" by simp_all
  have req: "ps_reqCount ps1 = int (card (online ps1))" using ok by (simp add: group_ok_def)
  from ok show ?case
  proof (cases rule: updatePeer_cases [where p = p])
    case (unknown e)
    then have "set (reqs @ [p]) \<inter> known ps = ?S" using kn by auto
    with IH show ?thesis unfolding run unknown(2) by simp
  next
    case full
    have "ps_threshold ps \<le> int (card ?S)" using IH full(2) req by linarith
    moreover have "card ?S \<le> card (set (reqs @ [p]) \<inter> known ps)" by (intro card_mono) auto
    ultimately have "ps_threshold ps \<le> int (card (set (reqs @ [p]) \<inter> known ps))" by linarith
    with IH \<open>ps_threshold ps \<le> int (card ?S)\<close> show ?thesis unfolding run full(3) by auto
  next
    case again
    have "p \<in> ?S" using again(1) IH by auto
    then have "set (reqs @ [p]) \<inter> known ps = ?S" by auto
    with IH show ?thesis unfolding run again(3) by simp
  next
    case (new ps2)
    have lt: "int (card (online ps1)) < ps_threshold ps" using new(3) req IH by simp
    then have eq: "card (online ps1) = card ?S" using IH by linarith
    then have on: "online ps1 = ?S" using IH fin by (intro card_subset_eq) auto
    have S': "set (reqs @ [p]) \<inter> known ps = insert p ?S" using new(1) kn by auto
    have card': "card (insert p ?S) = Suc (card ?S)" using new(2) on fin by simp
    have kn2: "known ps2 = known ps" using updatePeer_known [of p ps1] new(4) kn by simp
    have c0: "count_list rs1 (Inr True) = 0" using IH lt eq by simp
    show ?thesis
      using new(5-8) IH kn2 lt eq req c0 card' unfolding run new(4) S' on by auto
  qed
qed

text \<open>C20. The leader counts each peer once: for a group with a leader and a positive threshold \<open>t\<close>,
  after any sequence of requests (repeated, late or from strangers) the peers marked online are
  \<open>t\<close> of the known peers that asked, or all of them if they are fewer, and \<open>updatePeer\<close> has
  announced the formed party exactly once if \<open>t\<close> distinct peers asked, and never otherwise.\<close>

theorem updatePeer_counts:
  assumes "l \<noteq> NONE" "0 < t" "update_run reqs (newPeerStatus ns me l t) = (rs, ps')"
  shows "online ps' \<subseteq> set reqs \<inter> (set ns - {me}) \<and>
    int (card (online ps')) = min t (int (card (set reqs \<inter> (set ns - {me})))) \<and>
    ps_reqCount ps' = int (card (online ps')) \<and>
    count_list rs (Inr True) = (if t \<le> int (card (set reqs \<inter> (set ns - {me}))) then 1 else 0)"
proof -
  let ?ps = "newPeerStatus ns me l t"
  have "group_ok ?ps" using assms(1,2) newPeerStatus_wf [of ns me l t] newPeerStatus_online [of ns me l t]
    by (simp add: group_ok_def)
  from update_run_spec [OF this newPeerStatus_online assms(3)] show ?thesis
    by (simp add: newPeerStatus_known group_ok_def)
qed

theorem updatePeer_counts_witness:
  "count_list (fst (update_run [''b'', ''b'', ''x'', ''c'', ''d''] (newPeerStatus [''a'', ''b'', ''c'', ''d''] ''a'' ''a'' 2)))
     (Inr True) = 1"
proof -
  obtain rs ps' where r: "update_run [''b'', ''b'', ''x'', ''c'', ''d''] (newPeerStatus [''a'', ''b'', ''c'', ''d''] ''a'' ''a'' 2) = (rs, ps')"
    by fastforce
  have "set [''b'', ''b'', ''x'', ''c'', ''d''] \<inter> (set [''a'', ''b'', ''c'', ''d''] - {''a''}) = {''b'', ''c'', ''d''}" by auto
  with updatePeer_counts [OF _ _ r] r show ?thesis by (simp add: NONE_def)
qed

section \<open>What the handlers do to a group\<close>

definition has :: "(peer_status \<Rightarrow> bool) \<Rightarrow> string \<Rightarrow> coordinator \<Rightarrow> bool" where
  "has P k pc \<longleftrightarrow> (\<exists>g. pc_getGroup pc k = Some g \<and> P g)"

text \<open>The stream \<open>s\<close> carries the response \<open>r\<close> to the message \<open>k\<close> and comes from \<open>leader\<close>.\<close>

definition leader_msg :: "'e p2p_ext_scheme \<Rightarrow> bool \<Rightarrow> string \<Rightarrow> string \<Rightarrow> net_stream \<Rightarrow> leader_comm \<Rightarrow> bool" where
  "leader_msg x d k leader s r \<longleftrightarrow>
     (\<exists>payload. fst (readStreamWithBuffer d s) = Inr payload \<and> x_unmarshal_leader x payload = Inr r) \<and>
     lc_msg_type r = ''response'' \<and> lc_id r = k \<and> x_peer_string x (ns_remote s) = leader"

text \<open>Predicates that the counters and requests do not touch.\<close>

definition group_stable :: "(peer_status \<Rightarrow> bool) \<Rightarrow> bool" where
  "group_stable P \<longleftrightarrow> (\<forall>g p. P g \<longrightarrow> P (snd (updatePeer p g))) \<and>
     (\<forall>g n. P g \<longrightarrow> P (g\<lparr>ps_notify := n\<rparr>)) \<and> (\<forall>g n. P g \<longrightarrow> P (g\<lparr>ps_newFound := n\<rparr>))"

lemma groups_get_addStream [simp]: "pc_getGroup (pc_addStream i st pc) k = pc_getGroup pc k"
  by (simp add: pc_addStream_def pc_getGroup_def)

lemma groups_get_put [simp]: "pc_getGroup (pc_putGroup i g pc) k = (if k = i then Some g else pc_getGroup pc k)"
  by (simp add: pc_putGroup_def pc_getGroup_def)

lemma deadline_simps [simp]:
  "pc_deadline (pc_addStream i st pc) = pc_deadline pc" "pc_deadline (pc_putGroup i g pc) = pc_deadline pc"
  "pc_hostID (pc_addStream i st pc) = pc_hostID pc" "pc_hostID (pc_putGroup i g pc) = pc_hostID pc"
  by (simp_all add: pc_addStream_def pc_putGroup_def)

lemma processReq_has:
  "has P k pc \<Longrightarrow> group_stable P \<Longrightarrow> has P k (processReqMsg m s pc)"
  by (auto simp: has_def processReqMsg_def Let_def group_stable_def split: option.splits prod.splits sum.splits)
    (metis snd_conv)+

lemma handleStream_has: "has P k pc \<Longrightarrow> group_stable P \<Longrightarrow> has P k (handleStream x s pc)"
  by (auto simp: has_def handleStream_def Let_def group_stable_def split: option.splits prod.splits sum.splits)
    (metis snd_conv)+

lemma read_remote: "ns_remote (snd (readStreamWithBuffer d s)) = ns_remote s"
  by (auto simp: readStreamWithBuffer_def read_frame_def stream_reset_def readFull_def
      split: option.splits prod.splits sum.splits)

lemma processResp_has:
  assumes "has P k pc" "group_stable P"
    and "\<And>g. P g \<Longrightarrow> lc_id m = k \<Longrightarrow> x_peer_string x (ns_remote s) = ps_leader g \<Longrightarrow> P (g\<lparr>ps_leaderResponse := Some m\<rparr>)"
  shows "has P k (snd (snd (processRespMsg x m s pc)))"
proof -
  obtain g where g: "pc_getGroup pc k = Some g" "P g" using assms(1) by (auto simp: has_def)
  show ?thesis
  proof (cases "lc_id m = k \<and> x_peer_string x (ns_remote s) = ps_leader g")
    case True
    then have "P (g\<lparr>ps_leaderResponse := Some m, ps_notify := n\<rparr>)" for n
      using assms(2,3) g(2) by (simp add: group_stable_def)
    with True g show ?thesis by (simp add: has_def processRespMsg_def Let_def)
  next
    case False
    with g show ?thesis by (auto simp: has_def processRespMsg_def Let_def split: option.splits)
  qed
qed

lemma background_has:
  assumes "has P k pc" "group_stable P" "\<And>net pc'. pc_groups (send net pc') = pc_groups pc'"
    and "\<And>g s r. P g \<Longrightarrow> e = WStream s \<Longrightarrow> leader_msg x (pc_deadline pc) k (ps_leader g) s r \<Longrightarrow>
      P (g\<lparr>ps_leaderResponse := Some r\<rparr>)"
  shows "has P k (background x send e pc)"
proof (cases e)
  case (WStream s)
  obtain r s1 where rd: "readStreamWithBuffer (pc_deadline pc) s = (r, s1)" by fastforce
  have rem: "ns_remote s1 = ns_remote s" using read_remote [of "pc_deadline pc" s] rd by simp
  have "has P k (snd (handleStreamWithLeader x s pc))"
  proof (cases "\<exists>payload m. r = Inr payload \<and> x_unmarshal_join x payload \<in> range Inr \<and>
      x_unmarshal_leader x payload = Inr m \<and> lc_msg_type m = ''response''")
    case True
    then obtain payload m j where m: "r = Inr payload" "x_unmarshal_join x payload = Inr j"
      "x_unmarshal_leader x payload = Inr m" "lc_msg_type m = ''response''" by auto
    have "has P k (snd (snd (processRespMsg x m s1 pc)))"
    proof (rule processResp_has [OF assms(1,2)])
      fix g assume g: "P g" "lc_id m = k" "x_peer_string x (ns_remote s1) = ps_leader g"
      then have "leader_msg x (pc_deadline pc) k (ps_leader g) s m"
        using m rd rem by (simp add: leader_msg_def)
      with g(1) WStream show "P (g\<lparr>ps_leaderResponse := Some m\<rparr>)" by (intro assms(4))
    qed
    then show ?thesis using m rd by (simp add: handleStreamWithLeader_def case_prod_unfold Let_def)
  next
    case False
    have "has P k (pc_addStream i st pc)" for i st using assms(1) by (simp add: has_def)
    moreover have "has P k (processReqMsg m' s1 pc)" for m' using assms(1,2) by (rule processReq_has)
    ultimately show ?thesis using False rd
      by (auto simp: handleStreamWithLeader_def split: sum.splits)
  qed
  then show ?thesis by (simp add: WStream)
next
  case (WStreamLeaderless s)
  then show ?thesis using handleStream_has [OF assms(1,2)] by simp
next
  case (WSend net)
  then show ?thesis using assms(1,3) by (simp add: has_def pc_getGroup_def)
qed (use assms(1) in simp_all)

lemma take_notify_has:
  "has P k pc \<Longrightarrow> group_stable P \<Longrightarrow> take_notify i pc = Some pc' \<Longrightarrow> has P k pc'"
  by (auto simp: has_def take_notify_def group_stable_def split: option.splits if_splits)

lemma take_notify_fields:
  "take_notify i pc = Some pc' \<Longrightarrow> pc_deadline pc' = pc_deadline pc \<and> pc_hostID pc' = pc_hostID pc"
  by (auto simp: take_notify_def split: option.splits if_splits)

lemma handlers_fields:
  "pc_deadline (processReqMsg m s pc) = pc_deadline pc" "pc_hostID (processReqMsg m s pc) = pc_hostID pc"
  "pc_deadline (handleStream x s pc) = pc_deadline pc" "pc_hostID (handleStream x s pc) = pc_hostID pc"
  "pc_deadline (snd (handleStreamWithLeader x s pc)) = pc_deadline pc"
  "pc_hostID (snd (handleStreamWithLeader x s pc)) = pc_hostID pc"
  by (simp_all add: processReqMsg_def processRespMsg_def handleStream_def handleStreamWithLeader_def Let_def
      split: option.splits prod.splits sum.splits)

text \<open>A sending goroutine touches neither the groups nor the identity of the coordinator.\<close>

definition quiet :: "(network \<Rightarrow> coordinator \<Rightarrow> coordinator) \<Rightarrow> bool" where
  "quiet send \<longleftrightarrow> (\<forall>net pc. pc_groups (send net pc) = pc_groups pc \<and> pc_deadline (send net pc) = pc_deadline pc \<and>
     pc_hostID (send net pc) = pc_hostID pc)"

lemma background_fields:
  "quiet send \<Longrightarrow> pc_deadline (background x send e pc) = pc_deadline pc \<and>
    pc_hostID (background x send e pc) = pc_hostID pc"
  by (cases e) (simp_all add: handlers_fields quiet_def)

definition responses :: "'e p2p_ext_scheme \<Rightarrow> bool \<Rightarrow> string \<Rightarrow> string \<Rightarrow> wait_event list \<Rightarrow> leader_comm set" where
  "responses x d k leader es = {r. \<exists>s. WStream s \<in> set es \<and> leader_msg x d k leader s r}"

lemma fold_background_has:
  assumes "has P k pc" "group_stable P" "quiet send" "pc_deadline pc = d"
    and "\<And>g r. P g \<Longrightarrow> r \<in> responses x d k (ps_leader g) es \<Longrightarrow> P (g\<lparr>ps_leaderResponse := Some r\<rparr>)"
  shows "has P k (fold (background x send) es pc) \<and> pc_hostID (fold (background x send) es pc) = pc_hostID pc"
  using assms
proof (induction es arbitrary: pc)
  case (Cons e es)
  have "has P k (background x send e pc)"
  proof (rule background_has [OF Cons.prems(1,2)])
    show "pc_groups (send net pc') = pc_groups pc'" for net pc'
      using Cons.prems(3) by (simp add: quiet_def)
    fix g s r assume a: "P g" "e = WStream s" "leader_msg x (pc_deadline pc) k (ps_leader g) s r"
    then have "r \<in> responses x d k (ps_leader g) (e # es)"
      unfolding responses_def Cons.prems(4) by auto
    with a(1) show "P (g\<lparr>ps_leaderResponse := Some r\<rparr>)" by (rule Cons.prems(5))
  qed
  moreover have "pc_deadline (background x send e pc) = d" "pc_hostID (background x send e pc) = pc_hostID pc"
    using background_fields [OF Cons.prems(3), of x e pc] Cons.prems(4) by simp_all
  ultimately have "has P k (fold (background x send) es (background x send e pc)) \<and>
      pc_hostID (fold (background x send) es (background x send e pc)) = pc_hostID (background x send e pc)"
    using Cons.prems by (intro Cons.IH) (auto simp: responses_def)
  then show ?case using \<open>pc_hostID (background x send e pc) = pc_hostID pc\<close> by simp
qed simp

lemma responses_mono: "set es \<subseteq> set fs \<Longrightarrow> responses x d k l es \<subseteq> responses x d k l fs"
  by (auto simp: responses_def)

lemma quiet_none [simp]: "quiet (\<lambda>_ pc. pc)"
  by (simp add: quiet_def)

lemma senderWait_has:
  assumes "senderWait x send b es pc = Some pc'" "has P k pc" "group_stable P" "quiet send" "pc_deadline pc = d"
    and "\<And>g r. P g \<Longrightarrow> r \<in> responses x d k (ps_leader g) es \<Longrightarrow> P (g\<lparr>ps_leaderResponse := Some r\<rparr>)"
  shows "has P k pc' \<and> pc_hostID pc' = pc_hostID pc"
  using assms
proof (induction es arbitrary: pc)
  case (Cons e es)
  have sub: "responses x d k l es \<subseteq> responses x d k l (e # es)" for l by (rule responses_mono) auto
  have resp: "\<And>g r. P g \<Longrightarrow> r \<in> responses x d k (ps_leader g) es \<Longrightarrow> P (g\<lparr>ps_leaderResponse := Some r\<rparr>)"
    using Cons.prems(6) sub by blast
  show ?case
  proof (cases "e = WSender \<and> b")
    case True
    with fold_background_has [OF Cons.prems(2,3) quiet_none Cons.prems(5) resp] Cons.prems(1) show ?thesis by auto
  next
    case False
    have bg: "has P k (background x send e pc)" "pc_deadline (background x send e pc) = d"
      "pc_hostID (background x send e pc) = pc_hostID pc"
      using fold_background_has [where es = "[e]" and x = x, OF Cons.prems(2-5)] responses_mono [of "[e]" "e # es" x d k]
        background_fields [OF Cons.prems(4), of x e pc] Cons.prems(5,6) by (simp_all add: subset_iff)
    have "senderWait x send b es (background x send e pc) = Some pc'" using False Cons.prems(1) by (simp split: if_splits)
    from Cons.IH [OF this bg(1) Cons.prems(3,4) bg(2) resp] bg(3) show ?thesis by simp
  qed
qed simp

lemma memberWait_has:
  assumes "memberWait x send i es pc = Some (sig, pc')" "has P k pc" "group_stable P" "quiet send" "pc_deadline pc = d"
    and "\<And>g r. P g \<Longrightarrow> r \<in> responses x d k (ps_leader g) es \<Longrightarrow> P (g\<lparr>ps_leaderResponse := Some r\<rparr>)"
  shows "has P k pc' \<and> pc_hostID pc' = pc_hostID pc"
  using assms
proof (induction es arbitrary: pc)
  case (Cons e es)
  have sub: "responses x d k l es \<subseteq> responses x d k l (e # es)" for l by (rule responses_mono) auto
  have resp: "\<And>g r. P g \<Longrightarrow> r \<in> responses x d k (ps_leader g) es \<Longrightarrow> P (g\<lparr>ps_leaderResponse := Some r\<rparr>)"
    using Cons.prems(6) sub by blast
  have fin: "has P k pc' \<and> pc_hostID pc' = pc_hostID pc1"
    if "has P k pc1" "pc_deadline pc1 = d" "senderWait x send True es pc1 = Some pc'" for pc1
    using senderWait_has [OF that(3,1) Cons.prems(3,4) that(2) resp] .
  have IH: "has P k pc1 \<Longrightarrow> memberWait x send i es pc1 = Some (sig, pc') \<Longrightarrow> pc_deadline pc1 = d \<Longrightarrow>
      has P k pc' \<and> pc_hostID pc' = pc_hostID pc1" for pc1
    using Cons.IH Cons.prems(3,4) resp by blast
  have bg: "has P k (background x send e pc)" "pc_deadline (background x send e pc) = d"
    "pc_hostID (background x send e pc) = pc_hostID pc"
    using fold_background_has [where es = "[e]" and x = x, OF Cons.prems(2-5)] responses_mono [of "[e]" "e # es" x d k]
      background_fields [OF Cons.prems(4), of x e pc] Cons.prems(5,6) by (simp_all add: subset_iff)
  show ?case
  proof (cases e)
    case WNotify
    show ?thesis
    proof (cases "take_notify i pc")
      case None
      with IH [OF Cons.prems(2)] Cons.prems(1,5) WNotify show ?thesis by simp
    next
      case (Some pc1)
      then have "has P k pc1" "pc_deadline pc1 = d" "pc_hostID pc1 = pc_hostID pc"
        using take_notify_has [OF Cons.prems(2,3)] take_notify_fields Cons.prems(5) by blast+
      with fin [of pc1] Some WNotify Cons.prems(1) show ?thesis by auto
    qed
  next
    case WTimeout
    with fin [OF Cons.prems(2,5)] Cons.prems(1) show ?thesis by auto
  next
    case (WSig s)
    with fin [OF Cons.prems(2,5)] Cons.prems(1) show ?thesis by auto
  next
    case (WStream s)
    with IH [OF bg(1) _ bg(2)] bg(3) Cons.prems(1) show ?thesis by simp
  next
    case (WStreamLeaderless s)
    with IH [OF bg(1) _ bg(2)] bg(3) Cons.prems(1) show ?thesis by simp
  next
    case (WSend net)
    with IH [OF bg(1) _ bg(2)] bg(3) Cons.prems(1) show ?thesis by simp
  next
    case WSender
    with IH [OF bg(1) _ bg(2)] bg(3) Cons.prems(1) show ?thesis by simp
  qed
qed simp

lemma leaderWait_has:
  assumes "leaderWait x i sg es pc = Some (sig, pc')" "has P k pc" "group_stable P" "pc_deadline pc = d"
    and "\<And>g r. P g \<Longrightarrow> r \<in> responses x d k (ps_leader g) es \<Longrightarrow> P (g\<lparr>ps_leaderResponse := Some r\<rparr>)"
  shows "has P k pc' \<and> pc_hostID pc' = pc_hostID pc"
  using assms
proof (induction es arbitrary: pc sg)
  case (Cons e es)
  let ?send = "\<lambda>_ pc. pc"
  have q: "quiet ?send" by (simp add: quiet_def)
  have resp: "\<And>g r. P g \<Longrightarrow> r \<in> responses x d k (ps_leader g) es \<Longrightarrow> P (g\<lparr>ps_leaderResponse := Some r\<rparr>)"
    using Cons.prems(5) responses_mono [of es "e # es" x d k] by (simp add: subset_iff)
  note fin = fold_background_has [OF _ Cons.prems(3) q _ resp]
  have IH: "has P k pc1 \<Longrightarrow> leaderWait x i sg es pc1 = Some (sig, pc') \<Longrightarrow> pc_deadline pc1 = d \<Longrightarrow>
      has P k pc' \<and> pc_hostID pc' = pc_hostID pc1" for pc1 sg
    using Cons.IH Cons.prems(3) resp by blast
  have bg: "has P k (background x ?send e pc)" "pc_deadline (background x ?send e pc) = d"
    "pc_hostID (background x ?send e pc) = pc_hostID pc"
    using fold_background_has [where es = "[e]" and x = x, OF Cons.prems(2,3) q Cons.prems(4)] responses_mono [of "[e]" "e # es" x d k]
      background_fields [OF q, of x e pc] Cons.prems(4,5) by (simp_all add: subset_iff)
  show ?case
  proof (cases e)
    case WNotify
    show ?thesis
    proof (cases "take_notify i pc")
      case None
      with IH [OF Cons.prems(2)] Cons.prems(1,4) WNotify show ?thesis by simp
    next
      case (Some pc1)
      then have "has P k pc1" "pc_deadline pc1 = d" "pc_hostID pc1 = pc_hostID pc"
        using take_notify_has [OF Cons.prems(2,3)] take_notify_fields Cons.prems(4) by blast+
      with fin [where pc = pc1] Some WNotify Cons.prems(1) show ?thesis by auto
    qed
  next
    case WTimeout
    with fin [OF Cons.prems(2,4)] Cons.prems(1) show ?thesis by auto
  next
    case (WSig s)
    with IH [OF Cons.prems(2) _ Cons.prems(4)] Cons.prems(1) show ?thesis by simp
  next
    case (WStream s)
    with IH [OF bg(1) _ bg(2)] bg(3) Cons.prems(1) show ?thesis by simp
  next
    case (WStreamLeaderless s)
    with IH [OF bg(1) _ bg(2)] bg(3) Cons.prems(1) show ?thesis by simp
  next
    case (WSend net)
    with IH [OF bg(1) _ bg(2)] bg(3) Cons.prems(1) show ?thesis by simp
  next
    case WSender
    with IH [OF bg(1) _ bg(2)] bg(3) Cons.prems(1) show ?thesis by simp
  qed
qed simp

section \<open>What the leader returns\<close>

lemma sendMsgToPeer_quiet:
  "pc_groups (snd (sendMsgToPeer net b i p pr rsp pc)) = pc_groups pc \<and>
   pc_deadline (snd (sendMsgToPeer net b i p pr rsp pc)) = pc_deadline pc \<and>
   pc_hostID (snd (sendMsgToPeer net b i p pr rsp pc)) = pc_hostID pc"
  by (auto simp: sendMsgToPeer_def pc_addStream_def Let_def split: open_result.splits prod.splits option.splits)

lemma send_to_peers_quiet:
  "pc_groups (send_to_peers net b i pr rsp ps pc) = pc_groups pc \<and>
   pc_deadline (send_to_peers net b i pr rsp ps pc) = pc_deadline pc \<and>
   pc_hostID (send_to_peers net b i pr rsp ps pc) = pc_hostID pc"
  by (induction ps arbitrary: pc) (simp_all add: sendMsgToPeer_quiet)

lemma quiet_leader: "quiet (\<lambda>net pc. snd (sendRequestToLeader x net msg l pc))"
proof -
  have "pc_groups (snd (sendRequestToLeader x net msg l pc)) = pc_groups pc \<and>
     pc_deadline (snd (sendRequestToLeader x net msg l pc)) = pc_deadline pc \<and>
     pc_hostID (snd (sendRequestToLeader x net msg l pc)) = pc_hostID pc" for net pc
    using sendMsgToPeer_quiet [of net _ "lc_id msg" l joinPartyProtocolWithLeader False pc]
    by (auto simp: sendRequestToLeader_def Let_def split: sum.splits prod.splits option.splits) (metis snd_conv)+
  then show ?thesis by (simp add: quiet_def)
qed

lemma quiet_all: "quiet (\<lambda>net pc. sendRequestToAll net i b ps pc)"
  by (simp add: quiet_def sendRequestToAll_def send_to_peers_quiet)

lemma getPeersStatus_online:
  assumes "wf_map (ps_response g)"
  shows "set (fst (getPeersStatus g)) = online g" "distinct (fst (getPeersStatus g))"
    "length (fst (getPeersStatus g)) = card (online g)"
proof -
  show s: "set (fst (getPeersStatus g)) = online g"
  proof
    show "set (fst (getPeersStatus g)) \<subseteq> online g"
      using assms by (auto simp: getPeersStatus_def online_def wf_map_set_iff [symmetric])
    show "online g \<subseteq> set (fst (getPeersStatus g))"
      using assms by (force simp: getPeersStatus_def online_def wf_map_set_iff [symmetric])
  qed
  show d: "distinct (fst (getPeersStatus g))"
    using assms by (simp add: getPeersStatus_def wf_map_def distinct_map_filter)
  show "length (fst (getPeersStatus g)) = card (online g)"
    using distinct_card [OF d] s by simp
qed

definition led_group :: "peer_id set \<Rightarrow> int \<Rightarrow> peer_status \<Rightarrow> bool" where
  "led_group D t g \<longleftrightarrow> group_ok g \<and> known g = D \<and> ps_threshold g = t"

lemma updatePeer_threshold: "group_ok g \<Longrightarrow> ps_threshold (snd (updatePeer p g)) = ps_threshold g"
  by (cases rule: updatePeer_cases [where p = p and ps = g]) simp_all

lemma led_group_stable: "group_stable (led_group D t)"
  by (auto simp: group_stable_def led_group_def updatePeer_ok updatePeer_threshold)
    (auto simp: group_ok_def known_def online_def)

lemma led_group_response: "led_group D t g \<Longrightarrow> led_group D t (g\<lparr>ps_leaderResponse := r\<rparr>)"
  by (simp add: led_group_def group_ok_def known_def online_def)

lemma led_group_new:
  "l \<noteq> NONE \<Longrightarrow> 0 < t \<Longrightarrow> led_group (set ns - {me}) t (newPeerStatus ns me l t)"
  using newPeerStatus_wf [of ns me l t] newPeerStatus_online [of ns me l t] newPeerStatus_known [of ns me l t]
  by (simp add: led_group_def group_ok_def)

text \<open>C5. A party that the leader declares formed is a quorum of the committee: when
  \<open>joinPartyLeader\<close> returns without error, whatever streams, signatures and timers came in
  between, it returns exactly \<open>threshold + 1\<close> distinct nodes, itself among them and the others from
  the given peers; when it returns a timeout it returns fewer.\<close>

theorem leader_forms_quorum:
  assumes "joinPartyLeader x net msgID peers t es pc = Some ((onlines, err), pc')"
    and "pc_getPeerIDs x peers = Inr ids" "0 < t" "x_peer_string x (pc_hostID pc) \<noteq> NONE"
    and "err = None \<or> err = Some ErrJoinPartyTimeout"
  shows "distinct onlines \<and> pc_hostID pc \<in> set onlines \<and> set onlines \<subseteq> insert (pc_hostID pc) (set ids) \<and>
    (if err = None then int (length onlines) = t + 1 else int (length onlines) \<le> t)"
proof -
  let ?g = "newPeerStatus ids (pc_hostID pc) (x_peer_string x (pc_hostID pc)) t"
  let ?pc1 = "pc_putGroup msgID ?g pc"
  let ?P = "led_group (set ids - {pc_hostID pc}) t"
  obtain sig pc2 where w: "leaderWait x msgID [] es ?pc1 = Some (sig, pc2)"
    using assms(1,2) by (auto simp: joinPartyLeader_def createJoinPartyGroups_def split: option.splits)
  have start: "has ?P msgID ?pc1" using assms(3,4) by (simp add: has_def led_group_new)
  have "has ?P msgID pc2 \<and> pc_hostID pc2 = pc_hostID ?pc1"
    using w start led_group_stable refl led_group_response by (rule leaderWait_has)
  then obtain g where g: "pc_getGroup pc2 msgID = Some g" "?P g" and host: "pc_hostID pc2 = pc_hostID pc"
    by (auto simp: has_def)
  have wf: "wf_map (ps_response g)" and req: "int (card (online g)) \<le> t"
    using g(2) by (auto simp: led_group_def group_ok_def)
  have sub: "online g \<subseteq> set ids - {pc_hostID pc}" using g(2) online_sub [of g] by (auto simp: led_group_def)
  note on = getPeersStatus_online [OF wf]
  let ?on = "fst (getPeersStatus g) @ [pc_hostID pc]"
  have err: "onlines = ?on" "err = (if int (length ?on) < t + 1 then Some ErrJoinPartyTimeout else None)"
    using assms(1,2,5) w g(1) host
    by (auto simp: joinPartyLeader_def createJoinPartyGroups_def Let_def split: if_splits)
  have "distinct ?on" using on sub by auto
  with err on sub req show ?thesis by (auto split: if_splits)
qed

section \<open>Leader and members agree\<close>

definition trusts :: "leader_comm set \<Rightarrow> string \<Rightarrow> peer_status \<Rightarrow> bool" where
  "trusts R l g \<longleftrightarrow> ps_leader g = l \<and> (\<forall>r. ps_leaderResponse g = Some r \<longrightarrow> r \<in> R)"

lemma trusts_stable: "group_stable (trusts R l)"
  by (auto simp: group_stable_def trusts_def updatePeer_def Let_def split: option.splits)

lemma member_trusts_leader:
  assumes "joinPartyMember x msgID leader t es pc = Some ((pIDs, None), pc')"
  obtains r where "r \<in> responses x (pc_deadline pc) msgID leader es" "lc_type r = RespSuccess"
    "pc_getPeerIDs x (lc_peers r) = Inr pIDs" "t \<le> int (length pIDs)"
proof -
  let ?R = "responses x (pc_deadline pc) msgID leader es"
  obtain ids where ids: "pc_getPeerIDs x [leader] = Inr ids"
    using assms by (cases "pc_getPeerIDs x [leader]") (simp_all add: joinPartyMember_def createJoinPartyGroups_def)
  let ?pc1 = "pc_putGroup msgID (newPeerStatus ids (pc_hostID pc) leader t) pc"
  obtain L where L: "x_peer_decode x leader = Inr L" using ids by (auto split: sum.splits)
  let ?send = "\<lambda>net pc. snd (sendRequestToLeader x net
      \<lparr>lc_id = msgID, lc_msg_type = [], lc_type = RespUnknown, lc_peers = []\<rparr> L pc)"
  obtain sig pc2 where w: "memberWait x ?send msgID es ?pc1 = Some (sig, pc2)"
    using assms ids L
    by (auto simp: joinPartyMember_def createJoinPartyGroups_def Let_def split: option.splits)
  have "has (trusts ?R leader) msgID pc2 \<and> pc_hostID pc2 = pc_hostID ?pc1"
  proof (rule memberWait_has [OF w _ trusts_stable quiet_leader])
    show "has (trusts ?R leader) msgID ?pc1" by (simp add: has_def trusts_def)
    show "pc_deadline ?pc1 = pc_deadline pc" by simp
    fix g r assume "trusts ?R leader g" "r \<in> responses x (pc_deadline pc) msgID (ps_leader g) es"
    then show "trusts ?R leader (g\<lparr>ps_leaderResponse := Some r\<rparr>)" by (auto simp: trusts_def)
  qed
  then obtain g where g: "pc_getGroup pc2 msgID = Some g" "trusts ?R leader g" by (auto simp: has_def)
  show ?thesis
  proof (cases "ps_leaderResponse g")
    case None
    with assms ids L w g(1) show ?thesis
      by (simp add: joinPartyMember_def createJoinPartyGroups_def Let_def)
  next
    case (Some r)
    show ?thesis
    proof (rule that)
      show "r \<in> ?R" using g(2) Some by (simp add: trusts_def)
      show "lc_type r = RespSuccess" "pc_getPeerIDs x (lc_peers r) = Inr pIDs" "t \<le> int (length pIDs)"
        using assms ids L w g(1) Some
        by (simp_all add: joinPartyMember_def createJoinPartyGroups_def Let_def split: if_splits sum.splits)
    qed
  qed
qed

lemma getPeerIDs_strings:
  "(\<And>p. p \<in> set ps \<Longrightarrow> x_peer_decode x (x_peer_string x p) = Inr p) \<Longrightarrow>
   pc_getPeerIDs x (map (x_peer_string x) ps) = Inr ps"
  by (induction ps) simp_all

text \<open>What the leader sends: in the wait it sends nothing, and after it one response with the list it
  returns.\<close>

lemma handlers_sent:
  "pc_sent (processReqMsg m s pc) = pc_sent pc" "pc_sent (handleStream x s pc) = pc_sent pc"
  "pc_sent (snd (handleStreamWithLeader x s pc)) = pc_sent pc"
  by (simp_all add: processReqMsg_def processRespMsg_def handleStream_def handleStreamWithLeader_def Let_def
      pc_addStream_def pc_putGroup_def split: option.splits prod.splits sum.splits)

lemma background_sent: "pc_sent (background x (\<lambda>_ pc. pc) e pc) = pc_sent pc"
  by (cases e) (simp_all add: handlers_sent)

lemma fold_background_sent: "pc_sent (fold (background x (\<lambda>_ pc. pc)) es pc) = pc_sent pc"
  by (induction es arbitrary: pc) (simp_all add: background_sent)

lemma take_notify_sent: "take_notify i pc = Some pc' \<Longrightarrow> pc_sent pc' = pc_sent pc"
  by (auto simp: take_notify_def pc_putGroup_def split: option.splits if_splits)

lemma leaderWait_sent: "leaderWait x i sg es pc = Some (sig, pc') \<Longrightarrow> pc_sent pc' = pc_sent pc"
proof (induction x i sg es pc rule: leaderWait.induct)
  case (2 x i sg es pc)
  then show ?case by (cases "take_notify i pc") (auto simp: fold_background_sent take_notify_sent)
qed (auto simp: fold_background_sent handlers_sent)

lemma send_to_peers_sent:
  "\<exists>l. pc_sent (send_to_peers net buf i protoc r ps pc) = pc_sent pc @ l \<and> (\<forall>(p, q, b)\<in>set l. b = buf)"
proof (induction ps arbitrary: pc)
  case (Cons p ps)
  let ?pc = "if p = pc_hostID pc then pc else snd (sendMsgToPeer net buf i p protoc r pc)"
  have "\<exists>k. pc_sent ?pc = pc_sent pc @ k \<and> (\<forall>(p, q, b)\<in>set k. b = buf)"
    by (auto simp: sendMsgToPeer_def pc_addStream_def Let_def split: open_result.splits prod.splits option.splits)
  then obtain k where "pc_sent ?pc = pc_sent pc @ k" "\<forall>(p, q, b)\<in>set k. b = buf" by blast
  moreover obtain l where "pc_sent (send_to_peers net buf i protoc r ps ?pc) = pc_sent ?pc @ l"
    "\<forall>(p, q, b)\<in>set l. b = buf" using Cons.IH [of ?pc] by blast
  ultimately show ?case by (intro exI [of _ "k @ l"]) auto
qed simp

lemma leader_sends:
  assumes "joinPartyLeader x net msgID peers t es pc = Some ((onlines, err), pc')"
    and "(p, protoc, payload) \<in> set (drop (length (pc_sent pc)) (pc_sent pc'))"
  shows "x_marshal_leader x ((leader_response x msgID onlines t)\<lparr>lc_msg_type := ''response''\<rparr>) = Inr payload"
    and "err = (if int (length onlines) < t + 1 then Some ErrJoinPartyTimeout else None)"
proof -
  have new: "pc_sent pc' \<noteq> pc_sent pc" using assms(2) by auto
  obtain ids where ids: "pc_getPeerIDs x peers = Inr ids"
    using assms(1) new by (cases "pc_getPeerIDs x peers") (auto simp: joinPartyLeader_def createJoinPartyGroups_def)
  let ?pc1 = "pc_putGroup msgID (newPeerStatus ids (pc_hostID pc) (x_peer_string x (pc_hostID pc)) t) pc"
  obtain sig pc2 where w: "leaderWait x msgID [] es ?pc1 = Some (sig, pc2)"
    using assms(1) ids by (auto simp: joinPartyLeader_def createJoinPartyGroups_def split: option.splits)
  have sent: "pc_sent pc2 = pc_sent pc" using leaderWait_sent [OF w] by (simp add: pc_putGroup_def)
  let ?m = "(leader_response x msgID onlines t)\<lparr>lc_msg_type := ''response''\<rparr>"
  have r: "pc' = sendResponseToAll x net (leader_response x msgID onlines t) ids pc2"
    and e: "err = (if int (length onlines) < t + 1 then Some ErrJoinPartyTimeout else None)"
    using assms(1) ids w new sent
    by (auto simp: joinPartyLeader_def createJoinPartyGroups_def Let_def split: if_splits)
  obtain buf where buf: "x_marshal_leader x ?m = Inr buf"
    using r new sent by (cases "x_marshal_leader x ?m") (auto simp: sendResponseToAll_def Let_def)
  with send_to_peers_sent [of net buf "lc_id ?m" joinPartyProtocolWithLeader True ids pc2] r sent
  obtain l where "pc_sent pc' = pc_sent pc @ l" "\<forall>(p, q, b)\<in>set l. b = buf"
    by (auto simp: sendResponseToAll_def Let_def)
  with assms(2) have "payload = buf" by auto
  with buf show "x_marshal_leader x ?m = Inr payload" by simp
  show "err = (if int (length onlines) < t + 1 then Some ErrJoinPartyTimeout else None)" by (rule e)
qed

text \<open>C17. Leader and members agree on the party: let \<open>joinPartyLeader\<close> of the leader return a list and
  \<open>joinPartyMember\<close> of a member return without error, and let every response of the leader that
  reached the member during its wait be one that the leader's coordinator wrote to a stream to
  this member in that call.  Then the member returns exactly the list the leader returns, the
  leader's call has no error, and the member took the list from a response of the leader, never
  from anybody else; protobuf decodes what it encoded and peer ids survive their string form.\<close>

theorem join_agreement:
  assumes "joinPartyLeader x' net msgID peers t' les lpc = Some ((onlines, lerr), lpc')"
    and "joinPartyMember x msgID leader t es pc = Some ((pIDs, None), pc')"
    and "\<And>s payload r. WStream s \<in> set es \<Longrightarrow> fst (readStreamWithBuffer (pc_deadline pc) s) = Inr payload \<Longrightarrow>
      leader_msg x (pc_deadline pc) msgID leader s r \<Longrightarrow>
      \<exists>protoc. (pc_hostID pc, protoc, payload) \<in> set (drop (length (pc_sent lpc)) (pc_sent lpc'))"
    and "\<And>m b. x_marshal_leader x' m = Inr b \<Longrightarrow> x_unmarshal_leader x b = Inr m"
    and "\<And>p. p \<in> set onlines \<Longrightarrow> x_peer_decode x (x_peer_string x' p) = Inr p"
  shows "pIDs = onlines \<and> lerr = None \<and>
    (\<exists>s r. WStream s \<in> set es \<and> leader_msg x (pc_deadline pc) msgID leader s r \<and> lc_type r = RespSuccess)"
proof -
  obtain r where r: "r \<in> responses x (pc_deadline pc) msgID leader es" "lc_type r = RespSuccess"
    "pc_getPeerIDs x (lc_peers r) = Inr pIDs"
    using assms(2) by (rule member_trusts_leader)
  then obtain s where s: "WStream s \<in> set es" "leader_msg x (pc_deadline pc) msgID leader s r"
    by (auto simp: responses_def)
  obtain payload where p: "fst (readStreamWithBuffer (pc_deadline pc) s) = Inr payload" "x_unmarshal_leader x payload = Inr r"
    using s(2) by (auto simp: leader_msg_def)
  obtain protoc where sent: "(pc_hostID pc, protoc, payload) \<in> set (drop (length (pc_sent lpc)) (pc_sent lpc'))"
    using assms(3) [OF s(1) p(1) s(2)] by blast
  note l = leader_sends [OF assms(1) sent]
  have req: "r = (leader_response x' msgID onlines t')\<lparr>lc_msg_type := ''response''\<rparr>"
    using assms(4) [OF l(1)] p(2) by simp
  then have "lc_peers r = map (x_peer_string x') onlines" by (simp add: leader_response_def)
  moreover have "pc_getPeerIDs x (map (x_peer_string x') ps) = Inr ps" if "set ps \<subseteq> set onlines" for ps
    using that assms(5) by (induction ps) simp_all
  ultimately have "pIDs = onlines" using r(3) by simp
  moreover have "lerr = None" using l(2) req r(2) by (auto simp: leader_response_def split: if_splits)
  ultimately show ?thesis using s r(2) by blast
qed

section \<open>Joining without a leader\<close>

lemma updatePeer_notify [simp]: "ps_notify (snd (updatePeer p g)) = ps_notify g"
  by (simp add: updatePeer_def Let_def split: option.splits)

abbreviation silent :: "peer_status \<Rightarrow> bool" where
  "silent g \<equiv> ps_notify g = 0"

lemma handleStream_silent: "has silent k pc \<Longrightarrow> has silent k (handleStream x s pc)"
  by (auto simp: has_def handleStream_def Let_def split: option.splits prod.splits sum.splits)
    (metis updatePeer_notify snd_conv)+

definition leaderless_event :: "wait_event \<Rightarrow> bool" where
  "leaderless_event e = (case e of WStream s \<Rightarrow> False | WTimeout \<Rightarrow> False | _ \<Rightarrow> True)"

lemma retryWait_silent:
  "has silent k pc \<Longrightarrow> quiet send \<Longrightarrow> \<forall>e\<in>set es. leaderless_event e \<Longrightarrow> retryWait x send k es pc = None"
proof (induction es arbitrary: pc)
  case (Cons e es)
  show ?case
  proof (cases e)
    case WNotify
    have "take_notify k pc = None" using Cons.prems(1) by (auto simp: has_def take_notify_def)
    with Cons WNotify show ?thesis by simp
  next
    case (WStreamLeaderless s)
    with Cons show ?thesis by (simp add: handleStream_silent)
  next
    case (WSend net)
    have "has silent k (send net pc)" using Cons.prems(1,2) by (simp add: has_def quiet_def pc_getGroup_def)
    with Cons WSend show ?thesis by simp
  qed (use Cons in \<open>simp_all add: leaderless_event_def\<close>)
qed simp

text \<open>The leaderless join never ends early: \<open>HandleStream\<close> reports a new peer on \<open>newFound\<close>
  while \<open>JoinPartyWithRetry\<close> waits on \<open>notify\<close>, so after every sequence of join requests from the
  peers, even when all of them have answered, the call is still waiting; only its timeout ends
  it.\<close>

lemma leaderless_join_waits:
  assumes "x_marshal_join x msgID = Inr buf" "pc_getPeerIDs x peers = Inr ids"
    and "\<And>e. e \<in> set es \<Longrightarrow> leaderless_event e"
  shows "joinPartyWithRetry x net msgID peers es pc = None"
proof -
  let ?pc1 = "pc_putGroup msgID (newPeerStatus ids (pc_hostID pc) NONE 1) pc"
  have "has silent msgID ?pc1" by (simp add: has_def)
  then have "retryWait x (\<lambda>net pc. sendRequestToAll net msgID buf ps pc) msgID es ?pc1 = None" for ps
    using quiet_all assms(3) by (intro retryWait_silent) auto
  with assms(1,2) show ?thesis
    by (simp add: joinPartyWithRetry_def createJoinPartyGroups_def Let_def)
qed

section \<open>Witnesses\<close>

text \<open>A committee of \<open>a\<close>, \<open>b\<close> and \<open>c\<close>; the payload \<open>[1]\<close> is a request and \<open>[2]\<close> the response of a
  leader that found all three.\<close>

definition sample_comm :: common_ext where
  "sample_comm = conv_ext.extend sample_conv
     (common_ext.fields (\<lambda>b p bc. Inr OtherContent) (\<lambda>log call. None) pid_id
       (\<lambda>k m. Inr (k @ m)) (\<lambda>k m s. s = k @ m) (\<lambda>l. Inr []) (\<lambda>b. Inr []) (\<lambda>w. Inr [])
       (\<lambda>b. Inl (ErrExt ''empty'')) (\<lambda>c. Inr []) (\<lambda>b. Inl (ErrExt ''empty'')) (\<lambda>c. Inr [])
       (\<lambda>b. Inl (ErrExt ''empty'')) (\<lambda>n. Inr []) (\<lambda>b. Inl (ErrExt ''empty'')) (\<lambda>b. Inl (ErrExt ''empty'')))"

definition sample_p2p :: p2p_ext where
  "sample_p2p = common_ext.extend sample_comm
     (p2p_ext.fields (\<lambda>i. Inr (str_bytes i)) (\<lambda>b. Inr ''m'')
       (\<lambda>m. Inr [if lc_msg_type m = ''request'' then 1 else 2])
       (\<lambda>b. Inr (if b = [1] then \<lparr>lc_id = ''m'', lc_msg_type = ''request'', lc_type = RespUnknown, lc_peers = []\<rparr>
         else \<lparr>lc_id = ''m'', lc_msg_type = ''response'', lc_type = RespSuccess, lc_peers = [''b'', ''c'', ''a'']\<rparr>))
       (\<lambda>w. Inr (w_type w # w_payload w)))"

lemmas sample_p2p_defs = sample_p2p_def common_ext.extend_def p2p_ext.fields_def sample_comm_def
  conv_ext.extend_def common_ext.fields_def sample_conv_def

definition sample_stream :: "string \<Rightarrow> bytes \<Rightarrow> net_stream" where
  "sample_stream from b = (stream_of (frame b))\<lparr>ns_remote := from\<rparr>"

lemma sample_stream_read:
  "length b \<le> MaxPayload \<Longrightarrow> readStreamWithBuffer d (sample_stream p b) = (Inr b, (sample_stream p b)\<lparr>ns_in := []\<rparr>)"
  using read_one_chunk [of "sample_stream p b" b]
  by (simp add: readStreamWithBuffer_def sample_stream_def stream_of_def)

lemma sample_stream_remote [simp]: "ns_remote (sample_stream p b) = p"
  by (simp add: sample_stream_def)

definition no_network :: network where
  "no_network p protoc = OpenFailed (ErrExt ''unreachable'')"

theorem leader_forms_quorum_witness:
  "\<exists>onlines pc'. joinPartyLeader sample_p2p no_network ''m'' [''a'', ''b'', ''c''] 2
      [WStream (sample_stream ''b'' [1]), WStream (sample_stream ''c'' [1]), WNotify]
      (newPartyCoordinator ''a'' 0 True) = Some ((onlines, None), pc') \<and> length onlines = 3"
proof -
  obtain onlines pc' where r: "joinPartyLeader sample_p2p no_network ''m'' [''a'', ''b'', ''c''] 2
      [WStream (sample_stream ''b'' [1]), WStream (sample_stream ''c'' [1]), WNotify]
      (newPartyCoordinator ''a'' 0 True) = Some ((onlines, None), pc')"
    by (simp add: joinPartyLeader_def createJoinPartyGroups_def newPartyCoordinator_def sample_p2p_defs
        newPeerStatus_def handleStreamWithLeader_def sample_stream_read MaxPayload_def processReqMsg_def
        updatePeer_def NONE_def take_notify_def getPeersStatus_def mput_def sendResponseToAll_def Let_def)
  have "x_peer_string sample_p2p (pc_hostID (newPartyCoordinator ''a'' 0 True)) = ''a''"
    "pc_getPeerIDs sample_p2p [''a'', ''b'', ''c''] = Inr [''a'', ''b'', ''c'']"
    by (simp_all add: sample_p2p_defs newPartyCoordinator_def)
  with leader_forms_quorum [OF r] have "int (length onlines) = 3" by (simp add: NONE_def)
  with r show ?thesis by auto
qed

text \<open>The leader \<open>a\<close> and the member \<open>b\<close>; only the leader's response to the found party can be marshalled.\<close>

definition sample_response :: leader_comm where
  "sample_response = \<lparr>lc_id = ''m'', lc_msg_type = ''response'', lc_type = RespSuccess, lc_peers = [''b'', ''c'', ''a'']\<rparr>"

definition sample_agree :: p2p_ext where
  "sample_agree = sample_p2p\<lparr>x_marshal_leader := (\<lambda>m. if m = sample_response then Inr [2] else Inl (ErrExt ''not sent''))\<rparr>"

definition open_network :: network where
  "open_network p protoc = Opened (stream_of [])"

theorem join_agreement_witness:
  "\<exists>onlines lpc' pc'. joinPartyLeader sample_agree open_network ''m'' [''a'', ''b'', ''c''] 2
      [WStream (sample_stream ''b'' [1]), WStream (sample_stream ''c'' [1]), WNotify]
      (newPartyCoordinator ''a'' 0 True) = Some ((onlines, None), lpc') \<and>
    joinPartyMember sample_agree ''m'' ''a'' 2 [WStream (sample_stream ''a'' [2]), WNotify, WSender]
      (newPartyCoordinator ''b'' 0 True) = Some ((onlines, None), pc')"
proof -
  let ?les = "[WStream (sample_stream ''b'' [1]), WStream (sample_stream ''c'' [1]), WNotify]"
  let ?es = "[WStream (sample_stream ''a'' [2]), WNotify, WSender]"
  have w: "\<exists>cs. writeStreamWithBuffer True [2] (stream_of []) = (None, (stream_of [])\<lparr>ns_written := cs\<rparr>)"
    using write_ok [of "stream_of []" True "[2]"] by (auto simp: stream_of_def)
  obtain lpc' where l: "joinPartyLeader sample_agree open_network ''m'' [''a'', ''b'', ''c''] 2 ?les
      (newPartyCoordinator ''a'' 0 True) = Some (([''b'', ''c'', ''a''], None), lpc')"
    and sent: "pc_sent lpc' = [(''b'', joinPartyProtocolWithLeader, [2]), (''c'', joinPartyProtocolWithLeader, [2])]"
    using w by (auto simp: joinPartyLeader_def createJoinPartyGroups_def newPartyCoordinator_def sample_agree_def
        sample_p2p_defs newPeerStatus_def handleStreamWithLeader_def sample_stream_read MaxPayload_def processReqMsg_def
        updatePeer_def NONE_def take_notify_def getPeersStatus_def mput_def sendResponseToAll_def Let_def
        leader_response_def sample_response_def open_network_def sendMsgToPeer_def pc_addStream_def pc_putGroup_def
        pc_getGroup_def)
  obtain pIDs pc' where r: "joinPartyMember sample_agree ''m'' ''a'' 2 ?es
      (newPartyCoordinator ''b'' 0 True) = Some ((pIDs, None), pc')"
    by (simp add: joinPartyMember_def createJoinPartyGroups_def newPartyCoordinator_def sample_agree_def sample_p2p_defs
        newPeerStatus_def handleStreamWithLeader_def sample_stream_read MaxPayload_def processRespMsg_def
        take_notify_def case_prod_unfold Let_def)
  have dec: "x_unmarshal_leader sample_agree b = Inr m" if "x_marshal_leader sample_agree m = Inr b" for m b
    using that by (auto simp: sample_agree_def sample_p2p_defs sample_response_def split: if_splits)
  have "pIDs = [''b'', ''c'', ''a''] \<and> (None :: goerr option) = None \<and> (\<exists>s r. WStream s \<in> set ?es \<and>
      leader_msg sample_agree (pc_deadline (newPartyCoordinator ''b'' 0 True)) ''m'' ''a'' s r \<and> lc_type r = RespSuccess)"
  proof (rule join_agreement [OF l r])
    fix s payload r' assume "WStream s \<in> set ?es"
      "fst (readStreamWithBuffer (pc_deadline (newPartyCoordinator ''b'' 0 True)) s) = Inr payload"
    then have "payload = [2]" by (auto simp: sample_stream_read MaxPayload_def)
    then show "\<exists>protoc. (pc_hostID (newPartyCoordinator ''b'' 0 True), protoc, payload) \<in>
        set (drop (length (pc_sent (newPartyCoordinator ''a'' 0 True))) (pc_sent lpc'))"
      by (simp add: sent newPartyCoordinator_def)
  qed (use dec in \<open>simp_all add: sample_agree_def sample_p2p_defs\<close>)
  with l r show ?thesis by blast
qed

lemma leaderless_join_waits_sample:
  "joinPartyWithRetry sample_p2p no_network ''m'' [''a'', ''b'']
     [WStreamLeaderless (sample_stream ''b'' [1]), WSend no_network, WNotify] (newPartyCoordinator ''a'' 0 True) = None"
  by (rule leaderless_join_waits [where buf = "str_bytes ''m''" and ids = "[''a'', ''b'']"])
    (auto simp: sample_p2p_defs leaderless_event_def)

end
