(* ===== verification/Storage.thy ===== *)
theory Storage
  imports Join_Props
begin

text \<open>
  Package \<open>storage\<close> (\<open>storage/localstate_mgr.go\<close>): the key shares and the address book as files in
  one folder.  \<open>path/filepath\<close> is standard library and modelled; a file system is the contents of
  its files, its folders, and what the operating system answers when it refuses a call.  The save
  data of tss-lib is opaque, its JSON encoding and the parser of multiaddresses are parameters.
\<close>

section \<open>External functions\<close>

record local_state =
  ls_pubKey :: string
  ls_localData :: nat \<comment> \<open>the \<open>LocalPartySaveData\<close> object\<close>
  ls_participants :: "string list"
  ls_localParty :: string

text \<open>A multiaddress is its string.\<close>

record storage_ext = p2p_ext +
  x_marshal_state :: "local_state \<Rightarrow> bytes res"
  x_unmarshal_state :: "bytes \<Rightarrow> local_state res"
  x_multiaddr :: "string \<Rightarrow> string res" \<comment> \<open>\<open>maddr.NewMultiaddr\<close>\<close>

section \<open>Files\<close>

text \<open>\<open>filepath.Join\<close> of two parts that are not empty: \<open>Clean\<close> of the parts with a slash between.
  \<open>clean_push\<close> adds one element of the path, on a stack that holds the cleaned elements.\<close>

fun clean_push :: "bool \<Rightarrow> string \<Rightarrow> string list \<Rightarrow> string list" where
  "clean_push rooted el stk =
     (if el = [] \<or> el = ''.'' then stk
      else if el = ''..'' then
        (case stk of
           [] \<Rightarrow> if rooted then [] else [''..'']
         | t # below \<Rightarrow> if t = ''..'' then ''..'' # stk else below)
      else el # stk)"

definition path_clean :: "string \<Rightarrow> string" where
  "path_clean p =
     (let rooted = p \<noteq> [] \<and> hd p = CHR ''/'';
          s = (if rooted then ''/'' else []) @ str_join ''/'' (rev (fold (clean_push rooted) (split_on (CHR ''/'') p) []))
      in if s = [] then ''.'' else s)"

definition path_join :: "string \<Rightarrow> string \<Rightarrow> string" where
  "path_join folder name = path_clean (folder @ ''/'' @ name)"

record file_system =
  fs_files :: "(string, bytes) gomap"
  fs_dirs :: "string list"
  fs_stat_err :: "string \<Rightarrow> goerr option" \<comment> \<open>\<open>os.Stat\<close> fails other than by absence\<close>
  fs_mkdir_err :: "string \<Rightarrow> goerr option"
  fs_read_err :: "string \<Rightarrow> goerr option"
  fs_write_err :: "string \<Rightarrow> bytes \<Rightarrow> (goerr \<times> bytes option) option"
    \<comment> \<open>\<open>WriteFile\<close> fails, with the contents it leaves when it got as far as truncating\<close>

definition fs_lookup :: "file_system \<Rightarrow> string \<Rightarrow> bytes option" where
  "fs_lookup fs p = mget (fs_files fs) p"

definition fs_put :: "string \<Rightarrow> bytes \<Rightarrow> file_system \<Rightarrow> file_system" where
  "fs_put p b fs = fs\<lparr>fs_files := mput p b (fs_files fs)\<rparr>"

definition ErrNotExist :: goerr where "ErrNotExist = ErrExt ''file does not exist''"

definition os_Stat :: "file_system \<Rightarrow> string \<Rightarrow> goerr option" where
  "os_Stat fs p =
     (case fs_stat_err fs p of
        Some e \<Rightarrow> Some e
      | None \<Rightarrow> if fs_lookup fs p \<noteq> None \<or> p \<in> set (fs_dirs fs) then None else Some ErrNotExist)"

definition writeFile :: "string \<Rightarrow> bytes \<Rightarrow> file_system \<Rightarrow> goerr option \<times> file_system" where
  "writeFile p b fs =
     (case fs_write_err fs p b of
        None \<Rightarrow> (None, fs_put p b fs)
      | Some (e, None) \<Rightarrow> (Some e, fs)
      | Some (e, Some part) \<Rightarrow> (Some e, fs_put p part fs))"

definition readFile :: "file_system \<Rightarrow> string \<Rightarrow> bytes res" where
  "readFile fs p =
     (case fs_read_err fs p of
        Some e \<Rightarrow> Inl e
      | None \<Rightarrow> (case fs_lookup fs p of None \<Rightarrow> Inl ErrNotExist | Some b \<Rightarrow> Inr b))"

interpretation files: kv_store fs_lookup fs_put "\<lambda>fs. True"
  by unfold_locales (simp_all add: fs_lookup_def fs_put_def fun_eq_iff)

section \<open>FileStateMgr\<close>

text \<open>A manager is its folder.  An error of \<open>Stat\<close> other than absence is not looked at.\<close>

definition newFileStateMgr :: "string \<Rightarrow> file_system \<Rightarrow> string res \<times> file_system" where
  "newFileStateMgr folder fs =
     (if folder \<noteq> [] \<and> os_Stat fs folder = Some ErrNotExist then
        (case fs_mkdir_err fs folder of
           Some e \<Rightarrow> (Inl e, fs)
         | None \<Rightarrow> (Inr folder, fs\<lparr>fs_dirs := folder # fs_dirs fs\<rparr>))
      else (Inr folder, fs))"

definition state_file :: "string \<Rightarrow> string" where
  "state_file pubKey = ''localstate-'' @ pubKey @ ''.json''"

definition getFilePathName :: "'e conv_ext_scheme \<Rightarrow> string \<Rightarrow> string \<Rightarrow> string res" where
  "getFilePathName x folder pubKey =
     (case checkKeyOnCurve x pubKey of
        Inl e \<Rightarrow> Inl e
      | Inr ret \<Rightarrow>
         (if \<not> ret then Inl (ErrText ''invalid pubkey for file name'')
          else if folder \<noteq> [] then Inr (path_join folder (state_file pubKey))
          else Inr (state_file pubKey)))"

definition saveLocalState ::
  "'e storage_ext_scheme \<Rightarrow> string \<Rightarrow> local_state \<Rightarrow> file_system \<Rightarrow> goerr option \<times> file_system" where
  "saveLocalState x folder state fs =
     (case x_marshal_state x state of
        Inl e \<Rightarrow> (Some (ErrWrap ''fail to marshal KeygenLocalState to json'' e), fs)
      | Inr buf \<Rightarrow>
         (case getFilePathName x folder (ls_pubKey state) of
            Inl e \<Rightarrow> (Some e, fs)
          | Inr filePathName \<Rightarrow> writeFile filePathName buf fs))"

definition getLocalState ::
  "'e storage_ext_scheme \<Rightarrow> string \<Rightarrow> string \<Rightarrow> file_system \<Rightarrow> local_state res" where
  "getLocalState x folder pubKey fs =
     (if length pubKey = 0 then Inl (ErrText ''pub key is empty'')
      else (case getFilePathName x folder pubKey of
          Inl e \<Rightarrow> Inl e
        | Inr filePathName \<Rightarrow>
           (if os_Stat fs filePathName = Some ErrNotExist then Inl ErrNotExist
            else (case readFile fs filePathName of
                Inl e \<Rightarrow> Inl (ErrWrap ''file to read from file'' e)
              | Inr buf \<Rightarrow>
                 (case x_unmarshal_state x buf of
                    Inl e \<Rightarrow> Inl (ErrWrap ''fail to unmarshal KeygenLocalState'' e)
                  | Inr st \<Rightarrow> Inr st)))))"

text \<open>The records of an address book: one line per address that is not a loopback address.\<close>

fun addr_records :: "'e conv_ext_scheme \<Rightarrow> (peer_id \<times> string list) list \<Rightarrow> string list" where
  "addr_records x [] = []"
| "addr_records x ((p, addrs) # m) =
     map (\<lambda>a. a @ ''/p2p/'' @ x_peer_string x p) (filter (\<lambda>a. \<not> str_contains a ''127.0.0.1'') addrs)
       @ addr_records x m"

definition newline :: char where "newline = CHR 0x0A"

definition address_book :: "string \<Rightarrow> string" where
  "address_book folder = path_join folder ''address_book.seed''"

definition saveAddressBook ::
  "'e conv_ext_scheme \<Rightarrow> string \<Rightarrow> (peer_id, string list) gomap \<Rightarrow> file_system \<Rightarrow> goerr option \<times> file_system" where
  "saveAddressBook x folder address fs =
     (if length folder < 1 then (Some (ErrText ''base file path is invalid''), fs)
      else writeFile (address_book folder)
             (str_bytes (concat (map (\<lambda>r. r @ [newline]) (addr_records x address)))) fs)"

fun parse_records :: "'e storage_ext_scheme \<Rightarrow> string list \<Rightarrow> string list res" where
  "parse_records x [] = Inr []"
| "parse_records x (el # els) =
     (if length el = 0 then parse_records x els
      else (case x_multiaddr x el of
          Inl e \<Rightarrow> Inl (ErrWrap ''invalid address in address book'' e)
        | Inr a \<Rightarrow> (case parse_records x els of Inl e \<Rightarrow> Inl e | Inr as \<Rightarrow> Inr (a # as))))"

definition retrieveP2PAddresses :: "'e storage_ext_scheme \<Rightarrow> string \<Rightarrow> file_system \<Rightarrow> string list res" where
  "retrieveP2PAddresses x folder fs =
     (if length folder < 1 then Inl (ErrText ''base file path is invalid'')
      else (case os_Stat fs (address_book folder) of
          Some e \<Rightarrow> Inl e
        | None \<Rightarrow>
           (case readFile fs (address_book folder) of
              Inl e \<Rightarrow> Inl e
            | Inr input \<Rightarrow> parse_records x (split_on newline (bytes_str input)))))"

section \<open>File names\<close>

text \<open>Joining a plain file name to a folder appends it to a text that depends on the folder only.\<close>

definition plain_name :: "string \<Rightarrow> bool" where
  "plain_name n \<longleftrightarrow> CHR ''/'' \<notin> set n \<and> n \<noteq> [] \<and> n \<noteq> ''.'' \<and> n \<noteq> ''..''"

lemma split_on_snoc: "c \<notin> set n \<Longrightarrow> split_on c (f @ c # n) = split_on c f @ [n]"
  by (induction f) (auto simp: split_on_no_sep split: list.splits)

lemma str_join_snoc: "str_join sep (xs @ [n]) = (if xs = [] then n else str_join sep xs @ sep @ n)"
  by (induction sep xs rule: str_join.induct) auto

lemma path_join_plain: "\<exists>pre. \<forall>n. plain_name n \<longrightarrow> path_join folder n = pre @ n"
proof -
  let ?rooted = "folder = [] \<or> hd folder = CHR ''/''"
  let ?stk = "rev (fold (clean_push ?rooted) (split_on (CHR ''/'') folder) [])"
  let ?pre = "(if ?rooted then ''/'' else []) @ (if ?stk = [] then [] else str_join ''/'' ?stk @ ''/'')"
  have "path_join folder n = ?pre @ n" if n: "plain_name n" for n
  proof -
    have "(folder @ ''/'' @ n \<noteq> [] \<and> hd (folder @ ''/'' @ n) = CHR ''/'') \<longleftrightarrow> ?rooted" by (cases folder) auto
    moreover have "split_on (CHR ''/'') (folder @ ''/'' @ n) = split_on (CHR ''/'') folder @ [n]"
      using n split_on_snoc [of "CHR ''/''" n folder] by (simp add: plain_name_def)
    ultimately show ?thesis
      using n by (simp add: path_join_def path_clean_def plain_name_def str_join_snoc del: append_Cons)
  qed
  then show ?thesis by blast
qed

lemma path_join_inject: "plain_name m \<Longrightarrow> plain_name n \<Longrightarrow> path_join f m = path_join f n \<longleftrightarrow> m = n"
  using path_join_plain [of f] by force

lemma plain_state_file: "CHR ''/'' \<notin> set k \<Longrightarrow> plain_name (state_file k)"
  by (simp add: plain_name_def state_file_def)

lemma plain_address_book: "plain_name ''address_book.seed''"
  by (simp add: plain_name_def)

lemma state_file_inject [simp]: "state_file k = state_file k' \<longleftrightarrow> k = k'"
  by (simp add: state_file_def)

lemma state_file_not_book: "state_file k \<noteq> ''address_book.seed''"
  by (simp add: state_file_def)

section \<open>Frame of a write\<close>

lemma writeFile_other: "p' \<noteq> p \<Longrightarrow> fs_lookup (snd (writeFile p' b fs)) p = fs_lookup fs p"
  by (auto simp: writeFile_def files.get_put split: option.splits)

lemma fs_put_errs [simp]:
  "fs_stat_err (fs_put p b fs) = fs_stat_err fs" "fs_read_err (fs_put p b fs) = fs_read_err fs"
  by (simp_all add: fs_put_def)

lemma writeFile_errs [simp]:
  "fs_stat_err (snd (writeFile p b fs)) = fs_stat_err fs" "fs_read_err (snd (writeFile p b fs)) = fs_read_err fs"
  by (auto simp: writeFile_def split: option.splits)

lemma writeFile_same: "writeFile p b fs = (None, fs1) \<Longrightarrow> fs_lookup fs1 p = Some b"
  by (auto simp: writeFile_def files.get_put split: option.splits)

text \<open>What the components that use the storage rely on: its errors and everything but the files
  stay as they are, and a call touches one file.\<close>

definition calm :: "file_system \<Rightarrow> bool" where
  "calm fs \<longleftrightarrow> (\<forall>p. fs_stat_err fs p = None) \<and> (\<forall>p. fs_read_err fs p = None)"

lemma calm_writeFile [tss_inv]: "calm fs \<Longrightarrow> calm (snd (writeFile p b fs))"
  by (simp add: calm_def)

lemma calm_saveLocalState [tss_inv]: "calm fs \<Longrightarrow> calm (snd (saveLocalState x folder st fs))"
  by (auto simp: saveLocalState_def calm_writeFile split: sum.splits)

lemma calm_saveAddressBook [tss_inv]: "calm fs \<Longrightarrow> calm (snd (saveAddressBook x folder m fs))"
  by (simp add: saveAddressBook_def calm_writeFile)

text \<open>The documented form of a key: bech32 text has no slash.\<close>

definition slash_free :: "'e conv_ext_scheme \<Rightarrow> bool" where
  "slash_free x \<longleftrightarrow> (\<forall>k. checkKeyOnCurve x k = Inr True \<longrightarrow> CHR ''/'' \<notin> set k)"

lemma getFilePathName_inject:
  assumes "slash_free x" "getFilePathName x folder k = Inr p" "getFilePathName x folder k' = Inr p"
  shows "k = k'"
proof -
  have "checkKeyOnCurve x k = Inr True" "checkKeyOnCurve x k' = Inr True"
    using assms(2,3) by (auto simp: getFilePathName_def split: sum.splits if_splits)
  with assms have "plain_name (state_file k)" "plain_name (state_file k')"
    by (simp_all add: slash_free_def plain_state_file)
  with assms(2,3) show ?thesis
    by (auto simp: getFilePathName_def path_join_inject split: sum.splits if_splits)
qed

lemma getFilePathName_not_book:
  assumes "slash_free x" "getFilePathName x folder k = Inr p" "folder \<noteq> []"
  shows "p \<noteq> address_book folder"
proof -
  have "checkKeyOnCurve x k = Inr True"
    using assms(2) by (auto simp: getFilePathName_def split: sum.splits if_splits)
  with assms(1) have "plain_name (state_file k)" by (simp add: slash_free_def plain_state_file)
  with assms(2,3) show ?thesis
    by (auto simp: getFilePathName_def address_book_def path_join_inject plain_address_book state_file_not_book
        split: sum.splits if_splits)
qed

section \<open>The storage keeps what is saved\<close>

datatype storage_op = SaveState local_state | SaveBook "(peer_id, string list) gomap"

fun storage_step :: "'e storage_ext_scheme \<Rightarrow> string \<Rightarrow> storage_op \<Rightarrow> file_system \<Rightarrow> file_system" where
  "storage_step x folder (SaveState st) fs = snd (saveLocalState x folder st fs)"
| "storage_step x folder (SaveBook m) fs = snd (saveAddressBook x folder m fs)"

lemma calm_storage_step [tss_inv]: "calm fs \<Longrightarrow> calm (storage_step x folder op fs)"
  by (cases op) (simp_all add: tss_inv)

lemma storage_step_other:
  assumes "slash_free x" "getFilePathName x folder k = Inr p" "\<And>st. op = SaveState st \<Longrightarrow> ls_pubKey st \<noteq> k"
  shows "fs_lookup (storage_step x folder op fs) p = fs_lookup fs p"
proof (cases op)
  case (SaveState st)
  then have "q \<noteq> p" if "getFilePathName x folder (ls_pubKey st) = Inr q" for q
    using getFilePathName_inject [OF assms(1,2)] assms(3) that by blast
  with SaveState show ?thesis
    by (auto simp: saveLocalState_def writeFile_other split: sum.splits)
next
  case (SaveBook m)
  with getFilePathName_not_book [OF assms(1,2)] show ?thesis
    by (auto simp: saveAddressBook_def Suc_le_eq intro!: writeFile_other)
qed

lemma storage_run_other:
  assumes "slash_free x" "getFilePathName x folder k = Inr p" "\<And>st. SaveState st \<in> set ops \<Longrightarrow> ls_pubKey st \<noteq> k"
  shows "fs_lookup (fold (storage_step x folder) ops fs) p = fs_lookup fs p"
  using assms(3) by (induction ops arbitrary: fs) (simp_all add: storage_step_other [OF assms(1,2)])

lemma calm_storage_run [tss_inv]: "calm fs \<Longrightarrow> calm (fold (storage_step x folder) ops fs)"
  by (induction ops arbitrary: fs) (simp_all add: calm_storage_step)

lemma getLocalState_lookup:
  assumes "calm fs" "k \<noteq> []" "getFilePathName x folder k = Inr p" "fs_lookup fs p = Some b"
    "x_unmarshal_state x b = Inr st"
  shows "getLocalState x folder k fs = Inr st"
  using assms by (simp add: getLocalState_def calm_def readFile_def os_Stat_def)

lemma saveLocalState_file:
  assumes "saveLocalState x folder st fs = (None, fs1)"
  obtains p b where "getFilePathName x folder (ls_pubKey st) = Inr p" "x_marshal_state x st = Inr b"
    "fs_lookup fs1 p = Some b"
  using assms by (auto simp: saveLocalState_def split: sum.splits dest: writeFile_same)

lemma state_survives:
  assumes "\<And>st b. x_marshal_state x st = Inr b \<Longrightarrow> x_unmarshal_state x b = Inr st"
    and "slash_free x" "calm fs" "saveLocalState x folder st fs = (None, fs1)" "ls_pubKey st \<noteq> []"
    and "\<And>st'. SaveState st' \<in> set ops \<Longrightarrow> ls_pubKey st' \<noteq> ls_pubKey st"
  shows "getLocalState x folder (ls_pubKey st) (fold (storage_step x folder) ops fs1) = Inr st"
proof -
  obtain p b where p: "getFilePathName x folder (ls_pubKey st) = Inr p" and "x_marshal_state x st = Inr b"
    and b: "fs_lookup fs1 p = Some b"
    using saveLocalState_file [OF assms(4)] by blast
  then have "x_unmarshal_state x b = Inr st" by (simp add: assms(1))
  moreover have "fs_lookup (fold (storage_step x folder) ops fs1) p = Some b"
    using storage_run_other [OF assms(2) p assms(6)] b by simp
  moreover have "calm fs1" using calm_saveLocalState [OF assms(3), of x folder st] by (simp add: assms(4))
  ultimately show ?thesis using getLocalState_lookup [OF calm_storage_run] p assms(5) by blast
qed

text \<open>C34. A key share that was saved is read back: once \<open>SaveLocalState\<close> has succeeded, \<open>GetLocalState\<close>
  of that pool key returns exactly the saved state, whatever is saved afterwards for other pool
  keys and as the address book, and even when those writes fail or are cut short.\<close>

theorem saved_state_survives:
  assumes "\<And>st b. x_marshal_state x st = Inr b \<Longrightarrow> x_unmarshal_state x b = Inr st"
    and "slash_free x" "calm fs" "saveLocalState x folder st fs = (None, fs1)" "ls_pubKey st \<noteq> []"
    and "\<And>st'. SaveState st' \<in> set ops \<Longrightarrow> ls_pubKey st' \<noteq> ls_pubKey st"
  shows "getLocalState x folder (ls_pubKey st) (fold (storage_step x folder) ops fs1) = Inr st"
  using assms by (rule state_survives)

lemma split_records:
  "(\<And>r. r \<in> set rs \<Longrightarrow> newline \<notin> set r) \<Longrightarrow>
     split_on newline (concat (map (\<lambda>r. r @ [newline]) rs)) = rs @ [[]]"
  by (induction rs) (simp_all add: split_on_append_sep)

lemma parse_records_all:
  "(\<And>r. r \<in> set rs \<Longrightarrow> r \<noteq> [] \<and> x_multiaddr x r = Inr r) \<Longrightarrow> parse_records x (rs @ [[]]) = Inr rs"
  by (induction rs) simp_all

lemma addr_records_not_Nil: "r \<in> set (addr_records x m) \<Longrightarrow> r \<noteq> []"
  by (induction x m rule: addr_records.induct) auto

text \<open>The address book round trip: after \<open>SaveAddressBook\<close> has succeeded, \<open>RetrieveP2PAddresses\<close>
  returns one record for each address of each peer that is not a loopback address, in the order
  in which they were written, provided such a record is a multiaddress without a line break.\<close>

lemma address_book_roundtrip:
  assumes "calm fs" "saveAddressBook x folder m fs = (None, fs1)"
    and "\<And>r. r \<in> set (addr_records x m) \<Longrightarrow> newline \<notin> set r \<and> x_multiaddr x r = Inr r"
  shows "retrieveP2PAddresses x folder fs1 = Inr (addr_records x m)"
proof -
  have f: "folder \<noteq> []" and w: "writeFile (address_book folder)
      (str_bytes (concat (map (\<lambda>r. r @ [newline]) (addr_records x m)))) fs = (None, fs1)"
    using assms(2) by (auto simp: saveAddressBook_def split: if_splits)
  have "calm fs1" using calm_saveAddressBook [OF assms(1), of x folder m] by (simp add: assms(2))
  with f writeFile_same [OF w] show ?thesis
    using assms(3) addr_records_not_Nil [of _ x m]
    by (simp add: retrieveP2PAddresses_def calm_def os_Stat_def readFile_def split_records parse_records_all Suc_le_eq)
qed

section \<open>Samples\<close>

definition sample_state :: "string \<Rightarrow> local_state" where
  "sample_state k = \<lparr>ls_pubKey = k, ls_localData = 5, ls_participants = [''a'', ''b'', ''c''], ls_localParty = ''a''\<rparr>"

definition sample_storage :: storage_ext where
  "sample_storage = p2p_ext.extend
     (sample_p2p\<lparr>x_unmarshal_acc_pk := (\<lambda>s. if s = [] \<or> CHR ''/'' \<in> set s then Inl (ErrExt ''invalid'') else Inr (str_bytes s)),
        x_parse_pub := (\<lambda>b. Inr (1, 10))\<rparr>)
     (storage_ext.fields
       (\<lambda>st. if st = sample_state (ls_pubKey st) then Inr (str_bytes (ls_pubKey st)) else Inl (ErrExt ''unsupported''))
       (\<lambda>b. Inr (sample_state (bytes_str b)))
       (\<lambda>s. Inr s))"

lemmas sample_storage_defs = sample_storage_def p2p_ext.extend_def storage_ext.fields_def sample_p2p_defs

definition sample_fs :: file_system where
  "sample_fs = \<lparr>fs_files = [], fs_dirs = [''/d''], fs_stat_err = (\<lambda>p. None), fs_mkdir_err = (\<lambda>p. None),
     fs_read_err = (\<lambda>p. None), fs_write_err = (\<lambda>p b. if length b = 2 then Some (ErrExt ''full'', Some []) else None)\<rparr>"

lemma calm_sample: "calm sample_fs"
  by (simp add: calm_def sample_fs_def)

lemma slash_free_sample: "slash_free sample_storage"
  by (auto simp: slash_free_def checkKeyOnCurve_def sample_storage_defs)

theorem saved_state_survives_witness:
  "\<exists>fs1. saveLocalState sample_storage ''/d'' (sample_state ''p'') sample_fs = (None, fs1) \<and>
     getLocalState sample_storage ''/d'' ''p'' (fold (storage_step sample_storage ''/d'')
       [SaveState (sample_state ''qq''), SaveBook [(''b'', [''/ip4/1.2.3.4''])]] fs1) = Inr (sample_state ''p'')"
proof -
  obtain fs1 where "saveLocalState sample_storage ''/d'' (sample_state ''p'') sample_fs = (None, fs1)"
    by (simp add: saveLocalState_def sample_storage_defs sample_state_def getFilePathName_def
        checkKeyOnCurve_def writeFile_def sample_fs_def str_bytes_def)
  moreover from this have "getLocalState sample_storage ''/d'' (ls_pubKey (sample_state ''p''))
      (fold (storage_step sample_storage ''/d'')
        [SaveState (sample_state ''qq''), SaveBook [(''b'', [''/ip4/1.2.3.4''])]] fs1) = Inr (sample_state ''p'')"
    by (intro saved_state_survives [OF _ slash_free_sample calm_sample])
      (auto simp: sample_storage_defs sample_state_def split: if_splits)
  ultimately show ?thesis by (auto simp: sample_state_def)
qed

lemma address_book_roundtrip_sample:
  "\<exists>fs1. saveAddressBook sample_storage ''/d'' [(''b'', [''/ip4/1.2.3.4'', ''/ip4/127.0.0.1''])] sample_fs = (None, fs1) \<and>
     retrieveP2PAddresses sample_storage ''/d'' fs1 = Inr [''/ip4/1.2.3.4/p2p/b'']"
proof -
  obtain fs1 where s: "saveAddressBook sample_storage ''/d'' [(''b'', [''/ip4/1.2.3.4'', ''/ip4/127.0.0.1''])] sample_fs
      = (None, fs1)"
    by (simp add: saveAddressBook_def sample_storage_defs writeFile_def sample_fs_def str_bytes_def)
  have "retrieveP2PAddresses sample_storage ''/d'' fs1 =
      Inr (addr_records sample_storage [(''b'', [''/ip4/1.2.3.4'', ''/ip4/127.0.0.1''])])"
    by (rule address_book_roundtrip [OF calm_sample s]) (simp add: sample_storage_defs newline_def)
  with s show ?thesis by (simp add: sample_storage_defs)
qed

end
