(* ===== verification/Recovery.thy ===== *)
theory Recovery
  imports Storage "HOL-Library.Word"
begin

text \<open>
  \<open>cmd/tss-recovery\<close>: the command that rebuilds a private key from the share files of a committee and
  exports it as an encrypted key file.  The reconstruction of the sharing library, PBKDF2, the AES
  key stream and Keccak are parameters, random bytes and the UUID are arguments.
\<close>

unbundle bit_operations_syntax

section \<open>Reading the shares\<close>

text \<open>A share is its identifier and its value; both are nil in the zero value of the state.\<close>

type_synonym vss_share = "nat option \<times> nat option"

record recovery_ext =
  x_share_of :: "nat \<Rightarrow> vss_share" \<comment> \<open>\<open>ShareID\<close> and \<open>Xi\<close> of the save data\<close>
  x_reconstruct :: "int \<Rightarrow> vss_share list \<Rightarrow> nat res" \<comment> \<open>with the threshold of the shares\<close>
  x_scalar_point :: "nat \<Rightarrow> nat \<times> nat"
  x_scalar_bytes :: "nat \<Rightarrow> bytes" \<comment> \<open>\<open>Serialize\<close> of the private key\<close>
  x_pbkdf2 :: "bytes \<Rightarrow> bytes \<Rightarrow> nat \<Rightarrow> nat \<Rightarrow> bytes"
  x_aes_stream :: "bytes \<Rightarrow> bytes \<Rightarrow> nat \<Rightarrow> bytes res"
  x_keccak512 :: "bytes \<Rightarrow> bytes"

definition getTssSecretFile :: "'e storage_ext_scheme \<Rightarrow> file_system \<Rightarrow> string \<Rightarrow> local_state res" where
  "getTssSecretFile x fs file =
     (case os_Stat fs file of
        Some e \<Rightarrow> Inl e
      | None \<Rightarrow>
     (case readFile fs file of
        Inl e \<Rightarrow> Inl (ErrWrap ''file to read from file'' e)
      | Inr buf \<Rightarrow>
         (case x_unmarshal_state x buf of
            Inl e \<Rightarrow> Inl (ErrWrap ''fail to unmarshal KeygenLocalState'' e)
          | Inr localState \<Rightarrow> Inr localState)))"

text \<open>A file that cannot be read leaves the zero value.\<close>

definition share_of_file :: "'e storage_ext_scheme \<Rightarrow> recovery_ext \<Rightarrow> file_system \<Rightarrow> string \<Rightarrow> vss_share" where
  "share_of_file x rx fs file =
     (case getTssSecretFile x fs file of Inl e \<Rightarrow> (None, None) | Inr st \<Rightarrow> x_share_of rx (ls_localData st))"

definition recovery_getTssPubKey :: "'e conv_ext_scheme \<Rightarrow> (nat \<times> nat) option \<Rightarrow> (string \<times> bytes) res" where
  "recovery_getTssPubKey x p =
     (case p of
        None \<Rightarrow> Inl (ErrText ''invalid points'')
      | Some xy \<Rightarrow>
         (case x_marshal_acc_pk x (x_compress x xy) of
            Inl e \<Rightarrow> Inl e
          | Inr pubKey \<Rightarrow> Inr (pubKey, x_address x (x_compress x xy))))"

section \<open>The encrypted key\<close>

record key_store =
  kst_Cipher :: string
  kst_CipherText :: string
  kst_IV :: string
  kst_KDF :: string
  kst_prf :: string
  kst_dklen :: nat
  kst_salt :: string
  kst_c :: nat
  kst_MAC :: string
  kst_Id :: string
  kst_Version :: nat

definition aesCTRXOR :: "recovery_ext \<Rightarrow> bytes \<Rightarrow> bytes \<Rightarrow> bytes \<Rightarrow> bytes res" where
  "aesCTRXOR rx key inText iv =
     (case x_aes_stream rx key iv (length inText) of
        Inl e \<Rightarrow> Inl e
      | Inr stream \<Rightarrow> Inr (map2 (XOR) inText stream))"

definition exportKeyStore ::
  "recovery_ext \<Rightarrow> bytes res \<Rightarrow> bytes res \<Rightarrow> string res \<Rightarrow> bytes \<Rightarrow> string \<Rightarrow> key_store res" where
  "exportKeyStore rx randomSalt randomIv uuid privKey password =
     (case randomSalt of Inl e \<Rightarrow> Inl e | Inr salt \<Rightarrow>
     (case randomIv of Inl e \<Rightarrow> Inl e | Inr iv \<Rightarrow>
     (let derivedKey = x_pbkdf2 rx (str_bytes password) salt 262144 32;
          encryptKey = take 32 derivedKey
      in case aesCTRXOR rx encryptKey privKey iv of Inl e \<Rightarrow> Inl e | Inr cipherText \<Rightarrow>
     (let mac = x_keccak512 rx (take 16 (drop 16 derivedKey) @ cipherText) in
      case uuid of Inl e \<Rightarrow> Inl e | Inr i \<Rightarrow>
        Inr \<lparr>kst_Cipher = ''aes-256-ctr'', kst_CipherText = hex_encode cipherText, kst_IV = hex_encode iv,
          kst_KDF = ''pbkdf2'', kst_prf = ''hmac-sha256'', kst_dklen = 32, kst_salt = hex_encode salt, kst_c = 262144,
          kst_MAC = hex_encode mac, kst_Id = i, kst_Version = 1\<rparr>))))"

section \<open>The command\<close>

text \<open>The flag \<open>n\<close> is dereferenced before the flags are parsed, so it has its default.\<close>

definition recovery_n :: nat where "recovery_n = 3"

definition recover_key :: "'e storage_ext_scheme \<Rightarrow> recovery_ext \<Rightarrow> file_system \<Rightarrow> string list \<Rightarrow> nat outcome" where
  "recover_key x rx fs files =
     (let vssShares = map (share_of_file x rx fs) files in
      if length vssShares < recovery_n then Panic ''slice bounds out of range''
      else (case x_reconstruct rx (int recovery_n - 1) (take recovery_n vssShares) of
          Inl e \<Rightarrow> Panic ''nil pointer dereference''
        | Inr tssPrivateKey \<Rightarrow> Ret tssPrivateKey))"

definition export_file ::
  "recovery_ext \<Rightarrow> bytes res \<Rightarrow> bytes res \<Rightarrow> string res \<Rightarrow> (key_store option \<Rightarrow> bytes) \<Rightarrow> string \<Rightarrow> string \<Rightarrow> nat
     \<Rightarrow> file_system \<Rightarrow> file_system" where
  "export_file rx randomSalt randomIv uuid json export password privKey fs =
     (if 0 < length export \<and> 8 \<le> length password then
        (let keyfile = (case exportKeyStore rx randomSalt randomIv uuid (x_scalar_bytes rx privKey) password of
             Inl e \<Rightarrow> None | Inr k \<Rightarrow> Some k)
         in snd (writeFile export (json keyfile) fs))
      else fs)"

text \<open>The private key, the public key that is printed and the files.\<close>

definition recovery_main ::
  "'e storage_ext_scheme \<Rightarrow> recovery_ext \<Rightarrow> bytes res \<Rightarrow> bytes res \<Rightarrow> string res \<Rightarrow> (key_store option \<Rightarrow> bytes) \<Rightarrow> string
     \<Rightarrow> string \<Rightarrow> string list \<Rightarrow> file_system \<Rightarrow> (nat \<times> (string \<times> bytes) res \<times> file_system) outcome" where
  "recovery_main x rx randomSalt randomIv uuid json export password files fs =
     out_bind (recover_key x rx fs files) (\<lambda>privKey.
       Ret (privKey, recovery_getTssPubKey x (Some (x_scalar_point rx privKey)),
         export_file rx randomSalt randomIv uuid json export password privKey fs))"

section \<open>The key file\<close>

text \<open>What a reader of the format does: derive the key, check the MAC, decrypt.\<close>

definition open_key_store :: "recovery_ext \<Rightarrow> key_store \<Rightarrow> string \<Rightarrow> bytes option" where
  "open_key_store rx k password =
     (case (hex_decode (kst_salt k), hex_decode (kst_IV k), hex_decode (kst_CipherText k)) of
        (Some salt, Some iv, Some cipherText) \<Rightarrow>
          (let derivedKey = x_pbkdf2 rx (str_bytes password) salt (kst_c k) (kst_dklen k) in
           if hex_encode (x_keccak512 rx (take 16 (drop 16 derivedKey) @ cipherText)) \<noteq> kst_MAC k then None
           else (case aesCTRXOR rx (take 32 derivedKey) cipherText iv of Inl e \<Rightarrow> None | Inr p \<Rightarrow> Some p))
      | _ \<Rightarrow> None)"

lemma xor_twice: "length a = length s \<Longrightarrow> map2 (XOR) (map2 (XOR) a s) s = (a :: bytes)"
proof (induction a s rule: list_induct2)
  case (Cons x xs y ys)
  have "(x XOR y) XOR y = x" by (simp add: xor.assoc)
  with Cons show ?case by simp
qed simp

text \<open>C36. The exported key file opens with its password and yields the private key: for every key, salt,
  initialisation vector and password, whenever the export succeeds, deriving the key from the stored
  parameters, checking the MAC and decrypting returns the exported bytes, provided that the key
  stream has the length that is asked for.\<close>

theorem key_store_roundtrip:
  assumes "exportKeyStore rx randomSalt randomIv uuid privKey password = Inr k"
    and "\<And>key iv n s. x_aes_stream rx key iv n = Inr s \<Longrightarrow> length s = n"
  shows "open_key_store rx k password = Some privKey"
proof -
  obtain salt iv i where s: "randomSalt = Inr salt" "randomIv = Inr iv" "uuid = Inr i"
    using assms(1) by (auto simp: exportKeyStore_def Let_def split: sum.splits)
  let ?d = "x_pbkdf2 rx (str_bytes password) salt 262144 32"
  obtain st where st: "x_aes_stream rx (take 32 ?d) iv (length privKey) = Inr st"
    using assms(1) s by (auto simp: exportKeyStore_def aesCTRXOR_def Let_def split: sum.splits)
  have l: "length st = length privKey" by (rule assms(2) [OF st])
  have k: "k = \<lparr>kst_Cipher = ''aes-256-ctr'', kst_CipherText = hex_encode (map2 (XOR) privKey st), kst_IV = hex_encode iv,
          kst_KDF = ''pbkdf2'', kst_prf = ''hmac-sha256'', kst_dklen = 32, kst_salt = hex_encode salt, kst_c = 262144,
          kst_MAC = hex_encode (x_keccak512 rx (take 16 (drop 16 ?d) @ map2 (XOR) privKey st)), kst_Id = i, kst_Version = 1\<rparr>"
    using assms(1) s st by (simp add: exportKeyStore_def aesCTRXOR_def Let_def)
  show ?thesis
    using l st by (simp add: open_key_store_def k hex_decode_encode aesCTRXOR_def Let_def xor_twice)
qed

section \<open>Which committees can be recovered\<close>

text \<open>A polynomial over the integers modulo the group order, by its coefficients.\<close>

definition poly_at :: "nat \<Rightarrow> nat list \<Rightarrow> nat \<Rightarrow> nat" where
  "poly_at q cs z = foldr (\<lambda>c a. c + z * a) cs 0 mod q"

text \<open>The documented behaviour of \<open>ReConstruct\<close> for threshold 2: three shares at different points give the
  secret of a polynomial of degree at most 2.\<close>

definition reconstructs :: "recovery_ext \<Rightarrow> nat \<Rightarrow> bool" where
  "reconstructs rx q \<longleftrightarrow>
     (\<forall>cs ids. cs \<noteq> [] \<longrightarrow> length cs \<le> 3 \<longrightarrow> length ids = 3 \<longrightarrow> distinct ids \<longrightarrow> (\<forall>i\<in>set ids. 0 < i \<and> i < q) \<longrightarrow>
        x_reconstruct rx 2 (map (\<lambda>i. (Some i, Some (poly_at q cs i))) ids) = Inr (hd cs mod q))"

text \<open>The recovery tool rebuilds the key of a committee of at most four parties from any three
  of its share files: a keygen of \<open>n\<close> parties shares the key with a polynomial of the degree that
  \<open>GetThreshold\<close> gives, which is at most 2 exactly when \<open>n\<close> is at most 4, and the tool always uses
  the first three files and ignores the others.\<close>

lemma recovery_small_committees:
  assumes "getThreshold (int n) = Inr t" "1 \<le> n" "n < 2 ^ 51" "length cs = nat (t + 1)" "3 \<le> length files"
    and "\<And>i. i < 3 \<Longrightarrow> share_of_file x rx fs (files ! i) = (Some (ids ! i), Some (poly_at q cs (ids ! i)))"
    and "length ids = 3" "distinct ids" "\<And>i. i \<in> set ids \<Longrightarrow> 0 < i \<and> i < q" "reconstructs rx q"
  shows "(length cs \<le> 3 \<longleftrightarrow> n \<le> 4) \<and> (n \<le> 4 \<longrightarrow> recover_key x rx fs files = Ret (hd cs mod q))"
proof -
  have t: "t = int ((2 * n + 2) div 3) - 1" using assms(1,3) getThreshold_int [of n] by simp
  then have l: "length cs = (2 * n + 2) div 3" using assms(4) by simp
  then have c: "length cs \<le> 3 \<longleftrightarrow> n \<le> 4" by linarith
  have ne: "cs \<noteq> []" using l assms(2) by auto
  have "recover_key x rx fs files = Ret (hd cs mod q)" if "n \<le> 4"
  proof -
    have "take 3 (map (share_of_file x rx fs) files) = map (\<lambda>i. (Some i, Some (poly_at q cs i))) ids"
      using assms(5-7) by (intro nth_equalityI) auto
    moreover have "x_reconstruct rx 2 (map (\<lambda>i. (Some i, Some (poly_at q cs i))) ids) = Inr (hd cs mod q)"
      using assms(7-10) ne c that unfolding reconstructs_def by simp
    ultimately show ?thesis using assms(5) by (simp add: recover_key_def recovery_n_def)
  qed
  with c show ?thesis by blast
qed

section \<open>The properties on concrete inputs\<close>

text \<open>Interpolation at 0 modulo 4: for the points 1, 2 and 3 the weights are the integers 3, -3 and 1.\<close>

definition weight4 :: "nat \<Rightarrow> nat" where
  "weight4 i = (if i = 1 then 3 else 1)"

fun lagrange4 :: "vss_share list \<Rightarrow> nat res" where
  "lagrange4 [(Some i, Some a), (Some j, Some b), (Some k, Some c)] = Inr ((weight4 i * a + weight4 j * b + weight4 k * c) mod 4)"
| "lagrange4 ss = Inl (ErrExt ''not enough shares'')"

definition sample_recovery :: recovery_ext where
  "sample_recovery = \<lparr>x_share_of = (\<lambda>d. (Some (d mod 4), Some (poly_at 4 [3, 1, 2] (d mod 4)))), x_reconstruct = (\<lambda>t. lagrange4),
     x_scalar_point = (\<lambda>k. (1, k)), x_scalar_bytes = (\<lambda>k. [of_nat k]), x_pbkdf2 = (\<lambda>p s c n. replicate n 7),
     x_aes_stream = (\<lambda>k iv n. Inr (replicate n 9)), x_keccak512 = (\<lambda>b. b)\<rparr>"

lemma poly_at4:
  assumes "cs \<noteq> []" "length cs \<le> 3"
  shows "\<exists>b c. \<forall>z. poly_at 4 cs z = (hd cs + z * b + z * z * c) mod 4"
proof -
  obtain a ds where a: "cs = a # ds" using assms(1) by (cases cs) auto
  consider "ds = []" | b where "ds = [b]" | b c where "ds = [b, c]"
    using assms(2) a by (cases ds; cases "tl ds") auto
  then show ?thesis
  proof cases
    case 1
    then show ?thesis by (intro exI [of _ 0]) (simp add: a poly_at_def)
  next
    case (2 b)
    then show ?thesis by (intro exI [of _ b] exI [of _ 0]) (simp add: a poly_at_def)
  next
    case (3 b c)
    then have "\<forall>z. poly_at 4 cs z = (hd cs + z * b + z * z * c) mod 4"
      by (simp add: a poly_at_def distrib_left mult.assoc add.assoc)
    then show ?thesis by blast
  qed
qed

lemma lagrange4_three:
  assumes "cs \<noteq> []" "length cs \<le> 3"
  shows "(3 * poly_at 4 cs 1 + poly_at 4 cs 2 + poly_at 4 cs 3) mod 4 = hd cs mod 4"
proof -
  obtain b c where p: "\<And>z. poly_at 4 cs z = (hd cs + z * b + z * z * c) mod 4" using poly_at4 [OF assms] by blast
  have l: "(3 * (u mod 4) + v mod 4 + w mod 4) mod 4 = (3 * u + v + w) mod 4" for u v w :: nat
    by (intro mod_add_cong mod_mult_cong) (rule refl mod_mod_trivial)+
  have "3 * (hd cs + 1 * b + 1 * 1 * c) + (hd cs + 2 * b + 2 * 2 * c) + (hd cs + 3 * b + 3 * 3 * c) =
      hd cs + 4 * (hd cs + 2 * b + 4 * c)" by simp
  then show ?thesis by (simp only: p l mod_mult_self2)
qed

lemma three_points:
  assumes "length ids = 3" "distinct ids" "\<forall>i\<in>set ids. 0 < i \<and> i < (4 :: nat)"
  shows "ids \<in> {[1, 2, 3], [1, 3, 2], [2, 1, 3], [2, 3, 1], [3, 1, 2], [3, 2, 1]}"
proof -
  obtain i j k where ids: "ids = [i, j, k]" using assms(1) by (auto simp: numeral_3_eq_3 length_Suc_conv)
  have "i \<in> {1, 2, 3}" "j \<in> {1, 2, 3}" "k \<in> {1, 2, 3}" using assms(3) ids by auto
  then show ?thesis using assms(2) ids by auto
qed

lemma sample_reconstructs: "reconstructs sample_recovery 4"
proof -
  have "lagrange4 (map (\<lambda>i. (Some i, Some (poly_at 4 cs i))) ids) = Inr (hd cs mod 4)"
    if "cs \<noteq> []" "length cs \<le> 3" "length ids = 3" "distinct ids" "\<forall>i\<in>set ids. 0 < i \<and> i < 4" for cs ids
    using three_points [OF that(3-5)] lagrange4_three [OF that(1,2)] by (auto simp: weight4_def add_ac)
  then show ?thesis by (simp add: reconstructs_def sample_recovery_def)
qed

theorem key_store_roundtrip_witness:
  "\<exists>k. exportKeyStore sample_recovery (Inr [1, 2]) (Inr [3]) (Inr ''id'') [10, 20] ''password'' = Inr k \<and>
     kst_CipherText k = hex_encode [3, 29] \<and> open_key_store sample_recovery k ''password'' = Some [10, 20]"
proof -
  obtain k where k: "exportKeyStore sample_recovery (Inr [1, 2]) (Inr [3]) (Inr ''id'') [10, 20] ''password'' = Inr k"
      "kst_CipherText k = hex_encode [3, 29]"
    by (simp add: exportKeyStore_def sample_recovery_def aesCTRXOR_def Let_def)
  moreover have "open_key_store sample_recovery k ''password'' = Some [10, 20]"
    by (rule key_store_roundtrip [OF k(1)]) (auto simp: sample_recovery_def)
  ultimately show ?thesis by blast
qed

text \<open>A keygen of four parties has threshold 2; the tool gets four files, the last one unreadable.\<close>

definition recovery_dir :: file_system where
  "recovery_dir = fold (\<lambda>(p, b). fs_put p b) [(''f1'', [1]), (''f2'', [2]), (''f3'', [3])] sample_fs"

definition sample_share_ext :: storage_ext where
  "sample_share_ext = sample_storage\<lparr>x_unmarshal_state :=
     (\<lambda>b. Inr \<lparr>ls_pubKey = ''p'', ls_localData = unat (hd b), ls_participants = [], ls_localParty = []\<rparr>)\<rparr>"

lemma recovery_small_committees_sample:
  "recover_key sample_share_ext sample_recovery recovery_dir [''f1'', ''f2'', ''f3'', ''f4''] = Ret 3"
proof -
  let ?files = "[''f1'', ''f2'', ''f3'', ''f4'']"
  have s: "map (share_of_file sample_share_ext sample_recovery recovery_dir) [''f1'', ''f2'', ''f3''] =
      map (\<lambda>i. (Some i, Some (poly_at 4 [3, 1, 2] i))) [1, 2, 3]"
    by (simp add: share_of_file_def getTssSecretFile_def os_Stat_def readFile_def recovery_dir_def fs_put_def fs_lookup_def
        sample_fs_def sample_share_ext_def sample_recovery_def)
  have f: "share_of_file sample_share_ext sample_recovery recovery_dir (?files ! i) =
      (Some ([1, 2, 3] ! i), Some (poly_at 4 [3, 1, 2] ([1, 2, 3] ! i)))" if "i < 3" for i
  proof -
    have "i \<in> {0, 1, 2}" using that by auto
    then show ?thesis using s by auto
  qed
  have t: "getThreshold (int 4) = Inr 2" using getThreshold_int [of 4] by simp
  have l: "length [3, 1, 2 :: nat] = nat (2 + 1)" by code_simp
  have q: "0 < i \<and> i < 4" if "i \<in> set [1, 2, 3 :: nat]" for i using that by auto
  have d: "1 \<le> (4 :: nat)" "(4 :: nat) < 2 ^ 51" "3 \<le> length ?files" "length [1, 2, 3 :: nat] = 3" "distinct [1, 2, 3 :: nat]" by simp_all
  have "4 \<le> (4 :: nat) \<longrightarrow> recover_key sample_share_ext sample_recovery recovery_dir ?files = Ret (hd [3, 1, 2] mod 4)"
    by (rule conjunct2 [OF recovery_small_committees [OF t d(1,2) l d(3) f d(4,5) q sample_reconstructs]])
  then show ?thesis by simp
qed

end
