(* ===== verification/Committee.thy ===== *)
theory Committee
  imports Conversion
begin

text \<open>
  The tables of a ceremony, built by \<open>GetParties\<close>, \<open>SetupPartyIDMap\<close> and \<open>SetupIDMaps\<close> of
  \<open>conversion/conversion.go\<close> one after the other, as \<open>GenerateNewKey\<close> and \<open>SignMessage\<close> do: what the
  message loop, the broadcasts and the blame policies rely on when they look a party up.
\<close>

section \<open>The parties\<close>

lemma getParties_ids:
  assumes "party_lib x" "getParties x f keys lk = Inr (ps, p)"
  shows "mset (map pid_id ps) = mset (map (itoa \<circ> int) [0..<length keys])"
    and "pid_id p \<in> set (map pid_id ps)"
proof -
  from assms(2) obtain qs where q: "getParties_loop x f lk 0 (sort keys) None [] = Inr (Some p, qs)"
    "ps = x_sort_parties x qs" by (auto simp: getParties_def split: sum.splits option.splits)
  obtain bs where bs: "map (x_unmarshal_acc_pk x) (sort keys) = map Inr bs"
    "qs = map (\<lambda>(j, b). x_new_party x (f + j) (itoa (int j)) [] (be_nat b)) (zip [0..<length keys] bs)"
    using getParties_loop_Inr [OF q(1)] by auto
  have len: "length bs = length keys" using arg_cong [OF bs(1), of length] by simp
  have "map pid_id qs = map (itoa \<circ> int) (map fst (zip [0..<length keys] bs))"
    using assms(1) by (simp add: bs(2) party_lib_def case_prod_beta comp_def)
  also have "\<dots> = map (itoa \<circ> int) [0..<length keys]" using len by simp
  finally have ids: "map pid_id qs = map (itoa \<circ> int) [0..<length keys]" .
  have sp: "mset (map pid_id ps) = mset (map pid_id qs)"
    using assms(1) q(2) by (simp add: party_lib_def)
  then show "mset (map pid_id ps) = mset (map (itoa \<circ> int) [0..<length keys])" using ids by metis
  have "p \<in> set qs" using getParties_loop_local [OF q(1)] by auto
  then have "pid_id p \<in> set (map pid_id qs)" by simp
  with sp show "pid_id p \<in> set (map pid_id ps)" by (metis set_mset_mset)
qed

lemma getParties_distinct:
  assumes "party_lib x" "getParties x f keys lk = Inr (ps, p)"
  shows "distinct (map pid_id ps)" "length ps = length keys"
proof -
  have "distinct (map (itoa \<circ> int) [0..<length keys])" by (simp add: distinct_map inj_on_def)
  then show "distinct (map pid_id ps)"
    using getParties_ids(1) [OF assms] by (metis mset_eq_imp_distinct_iff)
  show "length ps = length keys"
    using arg_cong [OF getParties_ids(1) [OF assms], of size] by simp
qed

section \<open>The maps\<close>

lemma setupPartyIDMap_loop_wf: "wf_map m \<Longrightarrow> wf_map (setupPartyIDMap_loop ps m)"
  by (induction ps m rule: setupPartyIDMap_loop.induct) simp_all

lemma setupPartyIDMap_wf [tss_inv]: "wf_map (setupPartyIDMap ps)"
  by (simp add: setupPartyIDMap_def setupPartyIDMap_loop_wf)

lemma setupPartyIDMap_iff:
  assumes "distinct (map pid_id ps)"
  shows "mget (setupPartyIDMap ps) i = Some q \<longleftrightarrow> q \<in> set ps \<and> pid_id q = i"
proof -
  have "distinct (map fst (rev (map (\<lambda>p. (pid_id p, p)) ps)))"
    using assms by (simp add: rev_map [symmetric] comp_def)
  from map_of_eq_Some_iff [OF this, of i q]
  have "map_of (rev (map (\<lambda>p. (pid_id p, p)) ps)) i = Some q \<longleftrightarrow> (i, q) \<in> set (map (\<lambda>p. (pid_id p, p)) ps)"
    by simp
  then show ?thesis by (auto simp: setupPartyIDMap_def setupPartyIDMap_loop_get)
qed

lemma length_setupPartyIDMap:
  assumes "distinct (map pid_id ps)"
  shows "length (setupPartyIDMap ps) = length ps"
proof -
  have "fst ` set (setupPartyIDMap ps) = dom (mget (setupPartyIDMap ps))" by (simp add: dom_map_of_conv_image_fst)
  also have "\<dots> = set (map pid_id ps)" by (auto simp: dom_def setupPartyIDMap_iff [OF assms])
  finally show ?thesis
    using length_wf_map [OF setupPartyIDMap_wf, of ps] distinct_card [OF assms] by simp
qed

lemma setupIDMaps_wf: "setupIDMaps x ps out = (e, out') \<Longrightarrow> wf_map out \<Longrightarrow> wf_map out'"
  by (induction x ps out rule: setupIDMaps.induct) (auto split: sum.splits)

lemma setupIDMaps_converts:
  "setupIDMaps x ps out = (None, out') \<Longrightarrow> (i, q) \<in> set ps \<Longrightarrow> \<exists>d. getPeerIDFromPartyID x (Some q) = Inr d"
  by (induction x ps out rule: setupIDMaps.induct) (auto split: sum.splits)

text \<open>C19. The tables of a ceremony are well formed: when \<open>GetParties\<close> succeeds, the party ids are the
  decimal numbers below the number of keys, the party map has exactly one entry for each of them, files
  every party under its own id and holds the local party's; and when \<open>SetupIDMaps\<close> succeeds as well, the
  table of peers has a unique entry for exactly the same ids, each of them the peer whose id is
  computed from the public key of the party filed under that id.\<close>

theorem committee_well_formed:
  assumes "party_lib x" "getParties x f keys lk = Inr (ps, p)"
    and "setupIDMaps x (setupPartyIDMap ps) [] = (None, peers)"
  shows "wf_map (setupPartyIDMap ps) \<and> length (setupPartyIDMap ps) = length keys \<and>
    (\<forall>i. mget (setupPartyIDMap ps) i \<noteq> None \<longleftrightarrow> (\<exists>n<length keys. i = itoa (int n))) \<and>
    (\<forall>i q. mget (setupPartyIDMap ps) i = Some q \<longleftrightarrow> q \<in> set ps \<and> pid_id q = i) \<and>
    mget (setupPartyIDMap ps) (pid_id p) \<noteq> None \<and>
    wf_map peers \<and>
    (\<forall>i d. mget peers i = Some d \<longleftrightarrow>
       (\<exists>q. mget (setupPartyIDMap ps) i = Some q \<and> getPeerIDFromPartyID x (Some q) = Inr d)) \<and>
    (\<forall>i. mget peers i = None \<longleftrightarrow> mget (setupPartyIDMap ps) i = None)"
proof -
  note d = getParties_distinct [OF assms(1,2)]
  note iff = setupPartyIDMap_iff [OF d(1)]
  have ids: "set (map pid_id ps) = itoa ` int ` {0..<length keys}"
    using arg_cong [OF getParties_ids(1) [OF assms(1,2)], of set_mset] by (simp add: image_image)
  have dom: "mget (setupPartyIDMap ps) i \<noteq> None \<longleftrightarrow> i \<in> set (map pid_id ps)" for i
    using iff [of i] by (auto simp: image_iff)
  have peer: "mget peers i = (case mget (setupPartyIDMap ps) i of
      Some q \<Rightarrow> (case getPeerIDFromPartyID x (Some q) of Inl e \<Rightarrow> None | Inr d \<Rightarrow> Some d) | None \<Rightarrow> None)" for i
    using setupIDMaps_Inr [OF assms(3), of i] setupPartyIDMap_wf [of ps]
    by (cases "mget (setupPartyIDMap ps) i") (simp_all add: wf_map_def)
  have conv: "\<exists>d. getPeerIDFromPartyID x (Some q) = Inr d" if "mget (setupPartyIDMap ps) i = Some q" for i q
    using setupIDMaps_converts [OF assms(3)] map_of_SomeD [OF that] .
  have "\<forall>i. mget (setupPartyIDMap ps) i \<noteq> None \<longleftrightarrow> (\<exists>n<length keys. i = itoa (int n))"
    unfolding dom ids by auto
  moreover have "\<forall>i d. mget peers i = Some d \<longleftrightarrow>
       (\<exists>q. mget (setupPartyIDMap ps) i = Some q \<and> getPeerIDFromPartyID x (Some q) = Inr d)"
    unfolding peer by (auto split: option.splits sum.splits)
  moreover have "\<forall>i. mget peers i = None \<longleftrightarrow> mget (setupPartyIDMap ps) i = None"
    unfolding peer using conv by (fastforce split: option.splits sum.splits)
  moreover have "mget (setupPartyIDMap ps) (pid_id p) \<noteq> None"
    unfolding dom by (rule getParties_ids(2) [OF assms(1,2)])
  moreover have "wf_map peers" using setupIDMaps_wf [OF assms(3)] by simp
  ultimately show ?thesis using iff setupPartyIDMap_wf length_setupPartyIDMap [OF d(1)] d(2) by simp
qed

definition sample_member :: "nat \<Rightarrow> party_id" where
  "sample_member n = \<lparr>pid_ref = n, pid_id = itoa (int n), pid_moniker = [], pid_key = [97 + of_nat n], pid_index = -1\<rparr>"

lemma sample_committee:
  "getParties sample_conv 0 [''b'', ''a''] ''a'' = Inr ([sample_member 0, sample_member 1], sample_member 0)"
  "setupIDMaps sample_conv (setupPartyIDMap [sample_member 0, sample_member 1]) [] = (None, [(''0'', ''a''), (''1'', ''b'')])"
  by code_simp+

theorem committee_well_formed_witness:
  "\<exists>ps p peers. getParties sample_conv 0 [''b'', ''a''] ''a'' = Inr (ps, p) \<and>
     setupIDMaps sample_conv (setupPartyIDMap ps) [] = (None, peers) \<and>
     length (setupPartyIDMap ps) = 2 \<and> mget peers ''1'' \<noteq> None"
proof -
  note w = committee_well_formed [OF party_lib_sample sample_committee]
  have "length (setupPartyIDMap [sample_member 0, sample_member 1]) = 2" using w by simp
  moreover have "mget [(''0'', ''a''), (''1'', ''b'')] ''1'' \<noteq> None" by simp
  ultimately show ?thesis using sample_committee by blast
qed

end
