(* ===== verification/Clock.thy ===== *)
theory Clock
  imports Tss_Prelude
begin

text \<open>
  The clock of a wait.  The waits of the program are selects with a timer, run in this development over
  the list of the events the select receives.  Here that list is made from what arrives and when: the
  timer's event enters it as soon as an arrival is later than the deadline, or at the end of the time
  that is looked at.  A select inside a loop calls \<open>time.After\<close> in every iteration, so an event that
  takes the loop round once more sets a new deadline.
\<close>

section \<open>Runs with a timer\<close>

text \<open>\<open>limit\<close> is the duration of the timer, \<open>restarts\<close> tells which events start it again, \<open>d\<close> is the
  deadline and \<open>h\<close> the end of the time that is looked at.  The handling of an event takes no time.
  After the timer the remaining arrivals follow.\<close>

fun clocked :: "nat \<Rightarrow> ('e \<Rightarrow> bool) \<Rightarrow> 'e \<Rightarrow> nat \<Rightarrow> nat \<Rightarrow> (nat \<times> 'e) list \<Rightarrow> 'e list" where
  "clocked limit restarts timer d h [] = (if d \<le> h then [timer] else [])"
| "clocked limit restarts timer d h ((at, e) # as) =
     (if d < at \<and> d \<le> h then timer # map snd (filter (\<lambda>(at, e). at \<le> h) ((at, e) # as))
      else if h < at then []
      else e # clocked limit restarts timer (if restarts e then at + limit else d) h as)"

text \<open>A wait: its timer, the time that is looked at, and what arrives, stamped with the time since the
  wait began.\<close>

record 'e timed =
  tm_limit :: nat
  tm_until :: nat
  tm_arrivals :: "(nat \<times> 'e) list"

definition run_of :: "('e \<Rightarrow> bool) \<Rightarrow> 'e \<Rightarrow> 'e timed \<Rightarrow> 'e list" where
  "run_of restarts timer w = clocked (tm_limit w) restarts timer (tm_limit w) (tm_until w) (tm_arrivals w)"

text \<open>The time by which the timer has fired: its duration, once more for every arrival that restarts it.\<close>

definition latest :: "('e \<Rightarrow> bool) \<Rightarrow> 'e timed \<Rightarrow> nat" where
  "latest restarts w = tm_limit w * Suc (length (filter (\<lambda>a. restarts (snd a)) (tm_arrivals w)))"

definition in_time :: "('e \<Rightarrow> bool) \<Rightarrow> 'e timed \<Rightarrow> bool" where
  "in_time restarts w \<longleftrightarrow> latest restarts w \<le> tm_until w"

text \<open>\<open>e\<close> arrives, or it arrives after the timer must have fired.\<close>

definition arrives :: "'e \<Rightarrow> 'e timed \<Rightarrow> bool" where
  "arrives e w \<longleftrightarrow> (\<exists>at \<le> tm_until w. (at, e) \<in> set (tm_arrivals w))"

definition arrives_late :: "('e \<Rightarrow> bool) \<Rightarrow> 'e \<Rightarrow> 'e timed \<Rightarrow> bool" where
  "arrives_late restarts e w \<longleftrightarrow> (\<exists>at \<le> tm_until w. latest restarts w < at \<and> (at, e) \<in> set (tm_arrivals w))"

section \<open>The timer fires\<close>

text \<open>\<open>b\<close> occurs after the first \<open>a\<close>.\<close>

fun follows :: "'e \<Rightarrow> 'e \<Rightarrow> 'e list \<Rightarrow> bool" where
  "follows a b [] = False"
| "follows a b (e # es) = (if e = a then b \<in> set es else follows a b es)"

lemma follows_set: "follows a b es \<Longrightarrow> a \<in> set es \<and> b \<in> set es"
  by (induction es) (auto split: if_splits)

lemma clocked_timer:
  "d + limit * length (filter (\<lambda>a. restarts (snd a)) as) \<le> h \<Longrightarrow> timer \<in> set (clocked limit restarts timer d h as)"
proof (induction as arbitrary: d)
  case (Cons a as)
  obtain at e where a: "a = (at, e)" by fastforce
  show ?case
  proof (cases "d < at")
    case True
    with Cons.prems a show ?thesis by simp
  next
    case False
    with Cons.prems a Cons.IH [of "if restarts e then at + limit else d"] show ?thesis by (auto split: if_splits)
  qed
qed simp

lemma clocked_arrives:
  assumes "d + limit * length (filter (\<lambda>a. restarts (snd a)) as) \<le> h" "(t, b) \<in> set as" "t \<le> h"
  shows "b \<in> set (clocked limit restarts timer d h as)"
  using assms
proof (induction as arbitrary: d)
  case (Cons a as)
  obtain at e where a: "a = (at, e)" by fastforce
  show ?case
  proof (cases "d < at")
    case True
    with Cons.prems a show ?thesis by force
  next
    case False
    then have "d + limit * length (filter (\<lambda>a. restarts (snd a)) as) \<le> h"
      "restarts e \<Longrightarrow> at + limit + limit * length (filter (\<lambda>a. restarts (snd a)) as) \<le> h"
      using Cons.prems(1) a by (auto split: if_splits)
    with False Cons.prems a Cons.IH show ?thesis by auto
  qed
qed simp

lemma clocked_late:
  assumes "d + limit * length (filter (\<lambda>a. restarts (snd a)) as) < t" "(t, b) \<in> set as" "t \<le> h" "b \<noteq> timer"
  shows "follows timer b (clocked limit restarts timer d h as)"
  using assms
proof (induction as arbitrary: d)
  case (Cons a as)
  obtain at e where a: "a = (at, e)" by fastforce
  show ?case
  proof (cases "d < at")
    case True
    with Cons.prems a show ?thesis by force
  next
    case False
    let ?d = "if restarts e then at + limit else d"
    have le: "?d + limit * length (filter (\<lambda>a. restarts (snd a)) as) < t" using False Cons.prems(1) a by auto
    have mem: "(t, b) \<in> set as" using False Cons.prems(1,2) a by auto
    have rest: "follows timer b (clocked limit restarts timer ?d h as)"
      by (rule Cons.IH [OF le mem Cons.prems(3,4)])
    have "at \<le> h" using False Cons.prems(1,3) by simp
    with False rest follows_set [OF rest] show ?thesis by (auto simp: a)
  qed
qed simp

lemma run_of_timer: "in_time restarts w \<Longrightarrow> timer \<in> set (run_of restarts timer w)"
  unfolding run_of_def in_time_def latest_def by (rule clocked_timer) simp

lemma run_of_arrives: "in_time restarts w \<Longrightarrow> arrives e w \<Longrightarrow> e \<in> set (run_of restarts timer w)"
  unfolding run_of_def in_time_def latest_def arrives_def by (auto intro: clocked_arrives)

lemma run_of_late: "arrives_late restarts e w \<Longrightarrow> e \<noteq> timer \<Longrightarrow> follows timer e (run_of restarts timer w)"
  unfolding run_of_def arrives_late_def latest_def by (auto intro: clocked_late)

text \<open>Until an arrival is later than the deadline there is no timer.\<close>

lemma clocked_early:
  assumes "\<forall>a\<in>set as. fst a \<le> d" "h < d" "\<forall>a\<in>set as. fst a \<le> h \<and> \<not> restarts (snd a)"
  shows "clocked limit restarts timer d h as = map snd as"
  using assms by (induction as) auto

end
