(* ===== verification/Tss_Common.thy ===== *)
theory Tss_Common
  imports Tss_State
begin

text \<open>
  Package \<open>common\<close>, second half: the message handlers of \<open>common/tss.go\<close>.  A handler returns its
  error (\<open>None\<close> for nil) and the new state; \<open>Panic\<close> where the Go code panics.  A cache item is
  the object in the map of unconfirmed messages under its key, so a handler that mutates the
  item stores it back under that key.
\<close>

section \<open>Jobs\<close>

text \<open>\<open>processInvalidMsgBlame\<close>.  The loop of the source indexes \<open>invalidMsgs\<close>, which has one entry
  per culprit, in step with the public keys.\<close>

definition invalid_node :: "string \<Rightarrow> wire_message option \<Rightarrow> blame_node" where
  "invalid_node pk invalidMsg =
     (case invalidMsg of
        None \<Rightarrow> newNode pk [] []
      | Some im \<Rightarrow> newNode pk (wm_msg im) (wm_sig im))"

definition processInvalidMsgBlame ::
  "'e common_ext_scheme \<Rightarrow> string \<Rightarrow> round_info \<Rightarrow> tss_error \<Rightarrow> tss_state \<Rightarrow> tss_result" where
  "processInvalidMsgBlame x roundInfo rnd err t =
     (let unicast = checkUnicast rnd;
          t1 = t\<lparr>t_culprits := t_culprits t @ te_culprits err\<rparr>;
          culpritsID = map pid_id (te_culprits err);
          invalidMsgs = map (\<lambda>i. roundMgr_Get (m_roundMgr (t_blameMgr t)) (cache_key i roundInfo)) culpritsID
      in out_bind (deref (t_partyInfo t)) (\<lambda>pi.
           case accPubKeysFromPartyIDs x culpritsID (pi_id_map pi) of
             Inl e \<Rightarrow>
               Ret (Some (ErrText ''error in getting the blame nodes''),
                    with_blame (setBlame TssBrokenMsg [] unicast) t1)
           | Inr pubkeys \<Rightarrow>
               Ret (Some (ErrWrap ''fail to set bytes to local party'' (te_cause err)),
                    with_blame (setBlame TssBrokenMsg (map2 invalid_node pubkeys invalidMsgs) unicast) t1)))"

text \<open>The body of the loop of \<open>doTssJob\<close>: one job.  \<open>UpdateFromBytes\<close> is entered in the log.\<close>

definition doTssJob :: "'e common_ext_scheme \<Rightarrow> tss_job \<Rightarrow> tss_state \<Rightarrow> tss_state outcome" where
  "doTssJob x j t =
     (case getMsgRound x (j_wire j) (j_party j) (j_broadcast j) of
        Inl e \<Rightarrow> Ret t
      | Inr rnd0 \<Rightarrow>
         (let rnd = rnd0\<lparr>ri_ident := j_ident j\<rparr>;
              call = (pt_ref (j_local j), j_wire j, j_party j, j_broadcast j);
              errUp = x_update x (t_calls t) call;
              t1 = t\<lparr>t_calls := t_calls t @ [call]\<rparr>
          in (case errUp of
                Some e \<Rightarrow> out_bind (processInvalidMsgBlame x (ri_msg rnd) rnd e t1) (\<lambda>(_, t2). Ret t2)
              | None \<Rightarrow> Ret (with_mgr (updateAcceptShare rnd (pid_id (j_party j))) t1))))"

text \<open>The workers take jobs while the producer runs: \<open>runPicks\<close> finishes the queued jobs with the
  given positions (positions outside the queue stand for no job), \<open>drain\<close> finishes all.\<close>

fun runPicks ::
  "'e common_ext_scheme \<Rightarrow> nat list \<Rightarrow> tss_job list \<Rightarrow> tss_state \<Rightarrow> (tss_job list \<times> tss_state) outcome" where
  "runPicks x [] q t = Ret (q, t)"
| "runPicks x (i # is) q t =
     (if i < length q
      then out_bind (doTssJob x (q ! i) t) (\<lambda>t'. runPicks x is (take i q @ drop (Suc i) q) t')
      else runPicks x is q t)"

fun runAll :: "'e common_ext_scheme \<Rightarrow> tss_job list \<Rightarrow> tss_state \<Rightarrow> tss_state outcome" where
  "runAll x [] t = Ret t"
| "runAll x (j # js) t = out_bind (doTssJob x j t) (runAll x js)"

definition drain ::
  "'e common_ext_scheme \<Rightarrow> nat list \<Rightarrow> tss_job list \<Rightarrow> tss_state \<Rightarrow> tss_state outcome" where
  "drain x picks q t = out_bind (runPicks x picks q t) (\<lambda>(q', t'). runAll x q' t')"

text \<open>A worker of an abandoned channel takes its next job.\<close>

definition runLeaked :: "'e common_ext_scheme \<Rightarrow> nat \<Rightarrow> tss_state \<Rightarrow> tss_state outcome" where
  "runLeaked x i t =
     (if i < length (t_leaked t)
      then doTssJob x (t_leaked t ! i)
             (t\<lparr>t_leaked := take i (t_leaked t) @ drop (Suc i) (t_leaked t)\<rparr>)
      else Ret t)"

section \<open>updateLocal\<close>

text \<open>The loop over the bulk message: \<open>n\<close> counts its iterations, \<open>q\<close> are the queued jobs.  On an
  early return the channel stays open and its jobs stay with the workers.  The last argument of
  \<open>updateLocal_early\<close> is the error.\<close>

definition updateLocal_early :: "tss_job list \<Rightarrow> goerr \<Rightarrow> tss_state \<Rightarrow> tss_result" where
  "updateLocal_early q e t = Ret (Some e, t\<lparr>t_leaked := t_leaked t @ q\<rparr>)"

fun updateLocal_loop ::
  "'e common_ext_scheme \<Rightarrow> (nat \<Rightarrow> nat list) \<Rightarrow> party_info \<Rightarrow> party_id \<Rightarrow> nat \<Rightarrow> bulk_wire_msg list
     \<Rightarrow> tss_job list \<Rightarrow> tss_state \<Rightarrow> tss_result" where
  "updateLocal_loop x picks pi from n [] q t = out_bind (drain x (picks n) q t) (\<lambda>t'. Ret (None, t'))"
| "updateLocal_loop x picks pi from n (bm # bms) q t =
     out_bind (runPicks x (picks n) q t) (\<lambda>(q, t).
       case mget (pi_party_map pi) (bk_ident bm) of
         None \<Rightarrow> updateLocal_early q (ErrText ''cannot find the party'') t
       | Some localMsgParty \<Rightarrow>
         out_bind (deref (bk_routing bm)) (\<lambda>rt.
         out_bind (deref (r_from rt)) (\<lambda>_.
           case mget (pi_id_map pi) (pid_id from) of
             None \<Rightarrow> updateLocal_early q (ErrText ''cannot find the party to handle the message'') t
           | Some partyID \<Rightarrow>
             (case getMsgRound x (bk_msg bm) partyID (r_broadcast rt) of
                Inl e \<Rightarrow> updateLocal_early q e t
              | Inr rnd0 \<Rightarrow>
                 (let rnd = rnd0\<lparr>ri_ident := bk_ident bm\<rparr> in
                  if checkMsgDuplication rnd (pid_id partyID) (t_blameMgr t)
                  then updateLocal_loop x picks pi from (Suc n) bms q t
                  else if \<exists>c\<in>set (t_culprits t). pid_ref c = pid_ref partyID
                  then updateLocal_early q (ErrText TssBrokenMsg) t
                  else updateLocal_loop x picks pi from (Suc n) bms
                    (q @ [newJob localMsgParty (bk_msg bm) (ri_ident rnd) partyID (r_broadcast rt)]) t)))))"

text \<open>For a party that is not in the map the source formats \<open>partyID.Id\<close> of a nil pointer.\<close>

definition updateLocal ::
  "'e common_ext_scheme \<Rightarrow> (nat \<Rightarrow> nat list) \<Rightarrow> wire_message option \<Rightarrow> tss_state \<Rightarrow> tss_result" where
  "updateLocal x picks wireMsg t =
     (case wireMsg of
        None \<Rightarrow> Ret (Some (ErrText ''invalid wireMsg''), t)
      | Some w \<Rightarrow>
     (case wm_routing w of
        None \<Rightarrow> Ret (Some (ErrText ''invalid wireMsg''), t)
      | Some rt \<Rightarrow>
     (case r_from rt of
        None \<Rightarrow> Ret (Some (ErrText ''invalid wireMsg''), t)
      | Some from \<Rightarrow>
     (case t_partyInfo t of
        None \<Rightarrow> Ret (None, t)
      | Some pi \<Rightarrow>
     (case mget (pi_id_map pi) (pid_id from) of
        None \<Rightarrow> Panic ''nil pointer dereference''
      | Some partyID \<Rightarrow>
     (case mget (t_partyIDtoP2PID t) (pid_id from) of
        None \<Rightarrow> Ret (Some (ErrText ''fail to find the peer''), t)
      | Some dataOwnerPeerID \<Rightarrow>
         (let t1 = (if \<not> r_broadcast rt
                    then with_mgr (setLastUnicastPeer dataOwnerPeerID (wm_round w)) t else t)
          in (case x_unmarshal_bulk x (wm_msg w) of
                Inl e \<Rightarrow> Ret (Some e, t1)
              | Inr bulkMsg \<Rightarrow> updateLocal_loop x picks pi from 0 bulkMsg [] t1))))))))"

section \<open>Hash confirmation\<close>

definition checkDupAndUpdateVerMsg ::
  "confirm_message \<Rightarrow> string \<Rightarrow> tss_state \<Rightarrow> bool \<times> confirm_message" where
  "checkDupAndUpdateVerMsg bMsg peerID t =
     (case tryGetLocalCacheItem (c_key bMsg) t of
        None \<Rightarrow> (True, bMsg\<lparr>c_p2pid := peerID\<rparr>)
      | Some item \<Rightarrow>
         (if mget (ci_confirmed item) peerID \<noteq> None then (False, bMsg)
          else (True, bMsg\<lparr>c_p2pid := peerID\<rparr>)))"

definition getMsgHash ::
  "((string \<times> int) list \<Rightarrow> (string \<times> int) list) \<Rightarrow> cache_item \<Rightarrow> int \<Rightarrow> string res" where
  "getMsgHash rng item threshold =
     (case getHighestFreq rng (ci_confirmed item) of
        Inl e \<Rightarrow> Inl ErrHashCheck
      | Inr (hash, freq) \<Rightarrow> if freq < threshold - 1 then Inl ErrHashInconsistency else Inr hash)"

text \<open>\<open>hashCheck\<close> may drop the entry of the data owner from the item.\<close>

definition hashCheck ::
  "'e conv_ext_scheme \<Rightarrow> ((string \<times> int) list \<Rightarrow> (string \<times> int) list) \<Rightarrow> (string, peer_id) gomap
     \<Rightarrow> cache_item \<Rightarrow> int \<Rightarrow> (goerr option \<times> cache_item) outcome" where
  "hashCheck x rng ids item threshold =
     out_bind (deref (ci_msg item)) (\<lambda>w.
     out_bind (deref (wm_routing w)) (\<lambda>rt.
     out_bind (deref (r_from rt)) (\<lambda>dataOwner.
       case mget ids (pid_id dataOwner) of
         None \<Rightarrow> Ret (Some (ErrText ''error in find the data Owner P2PID''), item)
       | Some dataOwnerP2PID \<Rightarrow>
         (if totalConfirmParty item < threshold then Ret (Some ErrNotEnoughPeer, item)
          else if mget (ci_confirmed item) (x_peer_string x dataOwnerP2PID) \<noteq> None
          then Ret (Some ErrHashFromOwner,
                 item\<lparr>ci_confirmed := mdel (x_peer_string x dataOwnerP2PID) (ci_confirmed item)\<rparr>)
          else (case getMsgHash rng item threshold of
                  Inl e \<Rightarrow> Ret (Some e, item)
                | Inr hash \<Rightarrow>
                    Ret (if ci_hash item = hash then None else Some ErrNotMajority, item))))))"

fun decode_confirmers ::
  "'e conv_ext_scheme \<Rightarrow> string \<Rightarrow> (string, string) gomap \<Rightarrow> peer_id list res" where
  "decode_confirmers x targetHash [] = Inr []"
| "decode_confirmers x targetHash ((p, h) # m) =
     (if h = targetHash then
        (case x_peer_decode x p of
           Inl e \<Rightarrow> Inl e
         | Inr q \<Rightarrow>
            (case decode_confirmers x targetHash m of Inl e \<Rightarrow> Inl e | Inr qs \<Rightarrow> Inr (q # qs)))
      else decode_confirmers x targetHash m)"

definition requestShareFromPeer ::
  "'e common_ext_scheme \<Rightarrow> ((string \<times> int) list \<Rightarrow> (string \<times> int) list) \<Rightarrow> cache_item \<Rightarrow> int \<Rightarrow> string
     \<Rightarrow> msg_type \<Rightarrow> tss_state \<Rightarrow> goerr option \<times> tss_state" where
  "requestShareFromPeer x rng item threshold key msgType t =
     (case getMsgHash rng item threshold of
        Inl e \<Rightarrow> (None, t)
      | Inr targetHash \<Rightarrow>
         (case decode_confirmers x targetHash (ci_confirmed item) of
            Inl e \<Rightarrow> (Some e, t)
          | Inr peersIDs \<Rightarrow>
             (let t1 = with_mgr (\<lambda>m. m\<lparr>m_shareMgr := shareMgr_Set targetHash (m_shareMgr m)\<rparr>) t;
                  req = (\<lambda>ty. \<lparr>tc_req_hash = targetHash, tc_req_key = key, tc_req_type = ty, tc_msg = None\<rparr>)
              in if msgType = TSSKeyGenVerMsg
                 then processRequestMsgFromPeer x peersIDs (Some (req TSSKeyGenMsg)) True t1
                 else if msgType = TSSKeySignVerMsg
                 then processRequestMsgFromPeer x peersIDs (Some (req TSSKeySignMsg)) True t1
                 else if msgType = TSSKeySignMsg \<or> msgType = TSSKeyGenMsg
                 then processRequestMsgFromPeer x peersIDs (Some (req msgType)) True t1
                 else (None, t1))))"

definition applyShare ::
  "'e common_ext_scheme \<Rightarrow> run_env \<Rightarrow> cache_item \<Rightarrow> int \<Rightarrow> string \<Rightarrow> msg_type \<Rightarrow> tss_state \<Rightarrow> tss_result" where
  "applyShare x env item threshold key msgType t =
     out_bind (deref (ci_msg item)) (\<lambda>w.
     out_bind (deref (wm_routing w)) (\<lambda>rt.
     (let unicast = \<not> r_broadcast rt in
     out_bind (hashCheck x (re_freq env) (t_partyIDtoP2PID t) item threshold) (\<lambda>(err, item1).
       let t1 = updateLocalUnconfirmedMessages key item1 t in
       case err of
         Some e \<Rightarrow>
           (if errors_is e ErrNotEnoughPeer then Ret (None, t1)
            else if errors_is e ErrNotMajority then
              (let item2 = item1\<lparr>ci_msg := None\<rparr>;
                   t2 = updateLocalUnconfirmedMessages key item2 t1
               in Ret (requestShareFromPeer x (re_freq_req env) item2 threshold key msgType t2))
            else
              out_bind (tssWrongShareBlame x (t_blameMgr t1) w) (\<lambda>r. case r of
                  Inl _ \<Rightarrow>
                    Ret (Some (ErrWrap ''error in getting the blame nodes'' ErrHashCheck),
                         with_blame (setBlame HashCheckFail [] unicast) t1)
                | Inr blamePk \<Rightarrow>
                    Ret (Some ErrHashCheck,
                         with_blame (setBlame HashCheckFail [newNode blamePk (wm_msg w) (wm_sig w)] unicast) t1)))
       | None \<Rightarrow>
           (let t2 = with_mgr (\<lambda>m. m\<lparr>m_roundMgr := roundMgr_Set key w (m_roundMgr m)\<rparr>) t1 in
            out_bind (updateLocal x (re_picks env) (Some w) t2) (\<lambda>(e, t3). case e of
                Some d \<Rightarrow> Ret (Some (ErrWrap ''fail to update the message to local party'' d), t3)
              | None \<Rightarrow> Ret (None, removeKey key t3)))))))"

definition processVerMsg ::
  "'e common_ext_scheme \<Rightarrow> run_env \<Rightarrow> confirm_message option \<Rightarrow> msg_type \<Rightarrow> tss_state \<Rightarrow> tss_result" where
  "processVerMsg x env bcm msgType t =
     (case bcm of
        None \<Rightarrow> Ret (None, t)
      | Some b \<Rightarrow>
     (case t_partyInfo t of
        None \<Rightarrow> Ret (Some (ErrText ''can't process ver msg , local party is not ready''), t)
      | Some pi \<Rightarrow>
         (let key = c_key b;
              item0 = (case tryGetLocalCacheItem key t of
                         None \<Rightarrow> newLocalCacheItem None (c_hash b) | Some i \<Rightarrow> i);
              item = updateConfirmList (c_p2pid b) (c_hash b) item0;
              t1 = updateLocalUnconfirmedMessages key item t
          in (case getThreshold (int (length (pi_id_map pi))) of
                Inl e \<Rightarrow> Ret (Some e, t1)
              | Inr threshold \<Rightarrow>
                 (if ci_msg item = None
                  then Ret (requestShareFromPeer x (re_freq_req env) item threshold key msgType t1)
                  else applyShare x env item threshold key msgType t1)))))"

section \<open>Broadcasting hashes\<close>

definition getBroadcastMessageType :: "msg_type \<Rightarrow> msg_type" where
  "getBroadcastMessageType ty =
     (if ty = TSSKeyGenMsg then TSSKeyGenVerMsg
      else if ty = TSSKeySignMsg then TSSKeySignVerMsg else UnknownMsg)"

definition broadcastHashToPeers ::
  "'e common_ext_scheme \<Rightarrow> string \<Rightarrow> string \<Rightarrow> peer_id list \<Rightarrow> msg_type \<Rightarrow> tss_state
     \<Rightarrow> goerr option \<times> tss_state" where
  "broadcastHashToPeers x key msgHash peerIDs msgType t =
     (if peerIDs = [] then (Some (ErrText ''fail to get any peer ID''), t)
      else (case x_marshal_confirm x \<lparr>c_p2pid = [], c_key = key, c_hash = msgHash\<rparr> of
          Inl e \<Rightarrow> (Some (ErrWrap ''fail to marshal borad cast confirm message'' e), t)
        | Inr buf \<Rightarrow>
           (None, renderToP2P
             \<lparr>b_wrapped = \<lparr>w_type = msgType, w_msgid = t_msgID t, w_payload = buf\<rparr>,
              b_peers = peerIDs\<rparr> t)))"

definition receiverBroadcastHashToPeers ::
  "'e common_ext_scheme \<Rightarrow> wire_message \<Rightarrow> msg_type \<Rightarrow> tss_state \<Rightarrow> tss_result" where
  "receiverBroadcastHashToPeers x w msgType t =
     out_bind (deref (wm_routing w)) (\<lambda>rt.
     out_bind (deref (r_from rt)) (\<lambda>from.
       case mget (t_partyIDtoP2PID t) (pid_id from) of
         None \<Rightarrow> Ret (Some (ErrText ''error in find the data owner peerID''), t)
       | Some dataOwnerPeerID \<Rightarrow>
          Ret (broadcastHashToPeers x (cache_key (pid_id from) (wm_round w))
            (bytesToHashString x (wm_msg w)) (filter (\<lambda>el. el \<noteq> dataOwnerPeerID) (t_p2pPeers t))
            (getBroadcastMessageType msgType) t)))"

section \<open>processTSSMsg\<close>

definition processTSSMsg ::
  "'e common_ext_scheme \<Rightarrow> run_env \<Rightarrow> wire_message option \<Rightarrow> msg_type \<Rightarrow> bool \<Rightarrow> tss_state \<Rightarrow> tss_result" where
  "processTSSMsg x env wireMsg msgType forward t =
     (case wireMsg of
        None \<Rightarrow> Ret (Some (ErrText ''invalid wireMsg''), t)
      | Some w \<Rightarrow>
     (case wm_routing w of
        None \<Rightarrow> Ret (Some (ErrText ''invalid wireMsg''), t)
      | Some rt \<Rightarrow>
     (case r_from rt of
        None \<Rightarrow> Ret (Some (ErrText ''invalid wireMsg''), t)
      | Some from \<Rightarrow>
     out_bind (deref (t_partyInfo t)) (\<lambda>pi.
       case mget (pi_id_map pi) (pid_id from) of
         None \<Rightarrow> Ret (Some (ErrText ''error in find the data owner''), t)
       | Some dataOwner \<Rightarrow>
         (if \<not> verifySignature x (pid_key dataOwner) (wm_msg w) (wm_sig w) (t_msgID t)
          then Ret (Some (ErrText ''signature verify failed''), t)
          else if \<not> r_broadcast rt then updateLocal x (re_picks env) (Some w) t
          else
            out_bind (if \<not> forward then receiverBroadcastHashToPeers x w msgType t else Ret (None, t))
              (\<lambda>(_, t1).
               let key = cache_key (pid_id from) (wm_round w);
                   msgHash = bytesToHashString x (wm_msg w);
                   item0 = (case tryGetLocalCacheItem key t1 of
                              None \<Rightarrow> newLocalCacheItem (Some w) msgHash
                            | Some i \<Rightarrow> if ci_msg i = None
                                then i\<lparr>ci_msg := Some w, ci_hash := msgHash\<rparr> else i);
                   item = updateConfirmList (t_localPeerID t1) msgHash item0;
                   t2 = updateLocalUnconfirmedMessages key item t1
               in (case getThreshold (int (length (pi_id_map pi))) of
                     Inl e \<Rightarrow> Ret (Some e, t2)
                   | Inr threshold \<Rightarrow> applyShare x env item threshold key msgType t2)))))))"

section \<open>ProcessOneMessage\<close>

definition processTaskDone :: "'e common_ext_scheme \<Rightarrow> bytes \<Rightarrow> string \<Rightarrow> tss_state \<Rightarrow> tss_result" where
  "processTaskDone x payload peerID t =
     (case x_unmarshal_notifier x payload of
        Inl e \<Rightarrow> Ret (None, t)
      | Inr n \<Rightarrow>
         (if \<not> tn_done n then Ret (None, t)
          else if mget (t_finishedPeers t) peerID = Some True
          then Ret (Some (ErrText ''duplicated notification from peer ignored''), t)
          else
            (let t1 = t\<lparr>t_finishedPeers := mput peerID True (t_finishedPeers t)\<rparr> in
             out_bind (deref (t_partyInfo t1)) (\<lambda>pi.
               if int (length (t_finishedPeers t1)) = int (length (pi_id_map pi)) - 1
               then (if t_taskDone t1 then Panic ''close of closed channel''
                     else Ret (None, t1\<lparr>t_taskDone := True\<rparr>))
               else Ret (None, t1)))))"

definition processControlMsg ::
  "'e common_ext_scheme \<Rightarrow> run_env \<Rightarrow> bytes \<Rightarrow> string \<Rightarrow> tss_state \<Rightarrow> tss_result" where
  "processControlMsg x env payload peerID t =
     (case x_unmarshal_control x payload of
        Inl e \<Rightarrow> Ret (Some (ErrWrap ''fail to unmarshal wire message'' e), t)
      | Inr c \<Rightarrow>
         (if tc_msg c = None then
            (case x_peer_decode x peerID of
               Inl e \<Rightarrow> Ret (Some e, t)
             | Inr decoded \<Rightarrow> Ret (processRequestMsgFromPeer x [decoded] (Some c) False t))
          else
            (let (exist, sm) = shareMgr_QueryAndDelete (tc_req_hash c) (m_shareMgr (t_blameMgr t));
                 t1 = with_mgr (\<lambda>m. m\<lparr>m_shareMgr := sm\<rparr>) t
             in if \<not> exist then Ret (None, t1)
                else processTSSMsg x env (tc_msg c) (tc_req_type c) True t1)))"

definition processOneMessage ::
  "'e common_ext_scheme \<Rightarrow> run_env \<Rightarrow> wrapped_message option \<Rightarrow> string \<Rightarrow> tss_state \<Rightarrow> tss_result" where
  "processOneMessage x env wrappedMsg peerID t =
     (case wrappedMsg of
        None \<Rightarrow> Ret (Some (ErrText ''invalid wireMessage''), t)
      | Some wm \<Rightarrow>
         (if w_type wm = TSSKeyGenMsg \<or> w_type wm = TSSKeySignMsg then
            (case x_unmarshal_wire x (w_payload wm) of
               Inl e \<Rightarrow> Ret (Some (ErrWrap ''fail to unmarshal wire message'' e), t)
             | Inr w \<Rightarrow> processTSSMsg x env (Some w) (w_type wm) False t)
          else if w_type wm = TSSKeyGenVerMsg \<or> w_type wm = TSSKeySignVerMsg then
            (case x_unmarshal_confirm x (w_payload wm) of
               Inl e \<Rightarrow> Ret (Some (ErrText ''fail to unmarshal broadcast confirm message''), t)
             | Inr b \<Rightarrow>
                (let (ret, b') = checkDupAndUpdateVerMsg b peerID t in
                 if ret then processVerMsg x env (Some b') (w_type wm) t else Ret (None, t)))
          else if w_type wm = TSSTaskDone then processTaskDone x (w_payload wm) peerID t
          else if w_type wm = TSSControlMsg then processControlMsg x env (w_payload wm) peerID t
          else Ret (None, t)))"

section \<open>ProcessInboundMessages\<close>

text \<open>What the loop and the workers of abandoned channels do: the loop receives the payload of a
  p2p message and the string of its sender, or the finish signal (or the closing of the
  channel), or a worker takes a job.\<close>

datatype inbound_event =
    InMessage run_env bytes string
  | InFinish
  | LeakedJob nat

fun processInboundMessages ::
  "'e common_ext_scheme \<Rightarrow> inbound_event list \<Rightarrow> tss_state \<Rightarrow> tss_state outcome" where
  "processInboundMessages x [] t = Ret t"
| "processInboundMessages x (InFinish # es) t = Ret t"
| "processInboundMessages x (LeakedJob i # es) t =
     out_bind (runLeaked x i t) (processInboundMessages x es)"
| "processInboundMessages x (InMessage env payload peerID # es) t =
     (case x_unmarshal_wrapped x payload of
        Inl e \<Rightarrow> processInboundMessages x es t
      | Inr wm \<Rightarrow>
         out_bind (processOneMessage x env (Some wm) peerID t) (\<lambda>(_, t'). processInboundMessages x es t'))"

section \<open>ProcessOutCh\<close>

fun lookup_peers :: "(string, peer_id) gomap \<Rightarrow> party_id list \<Rightarrow> peer_id list" where
  "lookup_peers ids [] = []"
| "lookup_peers ids (p # ps) =
     (case mget ids (pid_id p) of
        None \<Rightarrow> lookup_peers ids ps | Some q \<Rightarrow> q # lookup_peers ids ps)"

definition sendBulkMsg ::
  "'e common_ext_scheme \<Rightarrow> string \<Rightarrow> msg_type \<Rightarrow> bulk_wire_msg list \<Rightarrow> tss_state \<Rightarrow> tss_result" where
  "sendBulkMsg x wiredMsgType tssMsgType wiredMsgList t =
     (case wiredMsgList of
        [] \<Rightarrow> Panic ''index out of range''
      | m0 # _ \<Rightarrow>
     (case x_marshal_bulk x wiredMsgList of
        Inl e \<Rightarrow> Ret (Some (ErrWrap ''error in marshal the cachedWireMsg'' e), t)
      | Inr buf \<Rightarrow>
     (case generateSignature x buf (t_msgID t) (t_privateKey t) of
        Inl e \<Rightarrow> Ret (Some e, t)
      | Inr sig \<Rightarrow>
     (case x_marshal_wire x \<lparr>wm_routing = bk_routing m0, wm_round = wiredMsgType, wm_msg = buf, wm_sig = sig\<rparr> of
        Inl e \<Rightarrow> Ret (Some (ErrWrap ''fail to convert tss msg to wire bytes'' e), t)
      | Inr wireBytes \<Rightarrow>
         out_bind (deref (bk_routing m0)) (\<lambda>r.
           Ret (None, renderToP2P
             \<lparr>b_wrapped = \<lparr>w_type = tssMsgType, w_msgid = t_msgID t, w_payload = wireBytes\<rparr>,
              b_peers = (if r_to r = [] then t_p2pPeers t
                         else lookup_peers (t_partyIDtoP2PID t) (r_to r))\<rparr> t))))))"

text \<open>Append to the list cached under a key.\<close>

definition cache_append ::
  "string \<Rightarrow> bulk_wire_msg \<Rightarrow> (string, bulk_wire_msg list) gomap \<Rightarrow> (string, bulk_wire_msg list) gomap" where
  "cache_append k b m = mput k ((case mget m k of None \<Rightarrow> [] | Some l \<Rightarrow> l) @ [b]) m"

text \<open>The two \<open>Range\<close> loops: an entry whose list is complete is sent and, when that succeeded,
  deleted.\<close>

fun flush_unicast ::
  "'e common_ext_scheme \<Rightarrow> msg_type \<Rightarrow> (string \<times> bulk_wire_msg list) list \<Rightarrow> tss_state \<Rightarrow> tss_state outcome" where
  "flush_unicast x ty [] t = Ret t"
| "flush_unicast x ty ((key, l) # es) t =
     (if int (length l) = t_msgNum t then
        out_bind (sendBulkMsg x (hd (split_on (CHR '':'') key)) ty l t) (\<lambda>(e, t1).
          flush_unicast x ty es
            (if e = None then t1\<lparr>t_cachedUnicast := mdel key (t_cachedUnicast t1)\<rparr> else t1))
      else flush_unicast x ty es t)"

fun flush_broadcast ::
  "'e common_ext_scheme \<Rightarrow> msg_type \<Rightarrow> (string \<times> bulk_wire_msg list) list \<Rightarrow> tss_state \<Rightarrow> tss_state outcome" where
  "flush_broadcast x ty [] t = Ret t"
| "flush_broadcast x ty ((key, l) # es) t =
     (if int (length l) = t_msgNum t then
        out_bind (sendBulkMsg x key ty l t) (\<lambda>(e, t1).
          flush_broadcast x ty es
            (if e = None then t1\<lparr>t_cachedBroadcast := mdel key (t_cachedBroadcast t1)\<rparr> else t1))
      else flush_broadcast x ty es t)"

definition processOutCh ::
  "'e common_ext_scheme \<Rightarrow> btss_message \<Rightarrow> msg_type \<Rightarrow> tss_state \<Rightarrow> tss_result" where
  "processOutCh x msg msgType t =
     (case bm_wire msg of
        Inl e \<Rightarrow> Ret (Some (ErrWrap ''fail to get wire bytes'' e), t)
      | Inr (msgData, r) \<Rightarrow>
         (let b = newBulkWireMsg msgData (bm_moniker msg) (Some r) in
          out_bind
            (if r_broadcast r
             then Ret (t\<lparr>t_cachedBroadcast := cache_append (bm_type msg) b (t_cachedBroadcast t)\<rparr>)
             else (case r_to r of
                 [] \<Rightarrow> Panic ''index out of range''
               | to # _ \<Rightarrow>
                  Ret (t\<lparr>t_cachedUnicast :=
                    cache_append (bm_type msg @ '':'' @ x_party_string x to) b (t_cachedUnicast t)\<rparr>)))
            (\<lambda>t1. out_bind (flush_unicast x msgType (t_cachedUnicast t1) t1)
            (\<lambda>t2. out_bind (flush_broadcast x msgType (t_cachedBroadcast t2) t2)
            (\<lambda>t3. Ret (None, t3))))))"

end
