(* ===== verification/Tss_Safety.thy ===== *)
theory Tss_Safety
  imports Tss_Common
begin

text \<open>
  Safety of the message handlers of \<open>common/tss.go\<close>: an invariant of the ceremony state that every
  handler keeps under every message and every schedule of its workers.  From it follow the one cause
  of a panic (an entry without routing in a bulk message that a party signed), that the completion
  channel is closed at most once, and that only signed shares reach the tss-lib parties.
\<close>

section \<open>The invariant\<close>

text \<open>The message \<open>w\<close> is filed under its own cache key and carries a valid signature of the party
  it says it is from.\<close>

definition share_ok ::
  "'e common_ext_scheme \<Rightarrow> party_info \<Rightarrow> string \<Rightarrow> string \<Rightarrow> wire_message \<Rightarrow> bool" where
  "share_ok x pi mid k w \<longleftrightarrow>
     (\<exists>rt p q. wm_routing w = Some rt \<and> r_from rt = Some p \<and> k = cache_key (pid_id p) (wm_round w) \<and>
        mget (pi_id_map pi) (pid_id p) = Some q \<and>
        verifySignature x (pid_key q) (wm_msg w) (wm_sig w) mid)"

text \<open>The handlers keep such messages in the state and apply them later.  \<open>W\<close> tells which wire messages
  the node has received so far; in \<open>share_in\<close> and the predicates below, everything kept is one of
  them.\<close>

definition share_in ::
  "(wire_message \<Rightarrow> bool) \<Rightarrow> 'e common_ext_scheme \<Rightarrow> party_info \<Rightarrow> string \<Rightarrow> string \<Rightarrow> wire_message \<Rightarrow> bool" where
  "share_in W x pi mid k w \<longleftrightarrow> share_ok x pi mid k w \<and> W w"

text \<open>The bytes \<open>b\<close> are an entry of a bulk message that was received and that party \<open>p\<close> signed.\<close>

definition signed_in ::
  "(wire_message \<Rightarrow> bool) \<Rightarrow> 'e common_ext_scheme \<Rightarrow> party_info \<Rightarrow> string \<Rightarrow> bytes \<Rightarrow> party_id \<Rightarrow> bool" where
  "signed_in W x pi mid b p \<longleftrightarrow>
     (\<exists>i w bulk bm. W w \<and> mget (pi_id_map pi) i = Some p \<and>
        verifySignature x (pid_key p) (wm_msg w) (wm_sig w) mid \<and>
        x_unmarshal_bulk x (wm_msg w) = Inr bulk \<and> bm \<in> set bulk \<and> bk_msg bm = b)"

definition item_in ::
  "(wire_message \<Rightarrow> bool) \<Rightarrow> 'e common_ext_scheme \<Rightarrow> party_info \<Rightarrow> string \<Rightarrow> string \<Rightarrow> cache_item \<Rightarrow> bool" where
  "item_in W x pi mid k item \<longleftrightarrow>
     (\<forall>w. ci_msg item = Some w \<longrightarrow>
        share_in W x pi mid k w \<and> ci_hash item = bytesToHashString x (wm_msg w)) \<and>
     wf_map (ci_confirmed item)"

definition job_in ::
  "(wire_message \<Rightarrow> bool) \<Rightarrow> 'e common_ext_scheme \<Rightarrow> party_info \<Rightarrow> string \<Rightarrow> tss_job \<Rightarrow> bool" where
  "job_in W x pi mid j \<longleftrightarrow> signed_in W x pi mid (j_wire j) (j_party j)"

definition finished_ok :: "party_info \<Rightarrow> tss_state \<Rightarrow> bool" where
  "finished_ok pi t \<longleftrightarrow> wf_map (t_finishedPeers t) \<and>
     (\<forall>p v. mget (t_finishedPeers t) p = Some v \<longrightarrow> v) \<and>
     (t_taskDone t \<longrightarrow> length (pi_id_map pi) \<le> Suc (length (t_finishedPeers t)))"

definition tss_in ::
  "(wire_message \<Rightarrow> bool) \<Rightarrow> 'e common_ext_scheme \<Rightarrow> party_info \<Rightarrow> string \<Rightarrow> tss_state \<Rightarrow> bool" where
  "tss_in W x pi mid t \<longleftrightarrow>
     t_partyInfo t = Some pi \<and> t_msgID t = mid \<and> m_partyInfo (t_blameMgr t) \<noteq> None \<and>
     wf_map (t_unConfirmed t) \<and>
     (\<forall>k item. mget (t_unConfirmed t) k = Some item \<longrightarrow> item_in W x pi mid k item) \<and>
     wf_map (m_roundMgr (t_blameMgr t)) \<and>
     (\<forall>k w. mget (m_roundMgr (t_blameMgr t)) k = Some w \<longrightarrow> share_in W x pi mid k w) \<and>
     (\<forall>r b p f. (r, b, p, f) \<in> set (t_calls t) \<longrightarrow> signed_in W x pi mid b p) \<and>
     (\<forall>j\<in>set (t_leaked t). job_in W x pi mid j) \<and>
     finished_ok pi t"

text \<open>The invariant for a node of which it does not matter when it received what it keeps.\<close>

abbreviation tss_ok :: "'e common_ext_scheme \<Rightarrow> party_info \<Rightarrow> string \<Rightarrow> tss_state \<Rightarrow> bool" where
  "tss_ok \<equiv> tss_in (\<lambda>_. True)"

lemma tss_ok_party: "tss_in W x pi mid t \<Longrightarrow> t_partyInfo t = Some pi"
  and tss_ok_mgr_party: "tss_in W x pi mid t \<Longrightarrow> \<exists>q. m_partyInfo (t_blameMgr t) = Some q"
  and tss_ok_msgID: "tss_in W x pi mid t \<Longrightarrow> t_msgID t = mid"
  and tss_ok_item: "tss_in W x pi mid t \<Longrightarrow> tryGetLocalCacheItem k t = Some item \<Longrightarrow> item_in W x pi mid k item"
  and tss_ok_round: "tss_in W x pi mid t \<Longrightarrow> roundMgr_Get (m_roundMgr (t_blameMgr t)) k = Some w \<Longrightarrow>
    share_in W x pi mid k w"
  by (auto simp: tss_in_def tryGetLocalCacheItem_def roundMgr_Get_def)

lemma tss_ok_render [simp]: "tss_in W x pi mid (renderToP2P m t) = tss_in W x pi mid t"
  by (simp add: renderToP2P_def tss_in_def finished_ok_def)

lemma tss_ok_with_mgr:
  "m_partyInfo (f (t_blameMgr t)) = m_partyInfo (t_blameMgr t) \<Longrightarrow>
   m_roundMgr (f (t_blameMgr t)) = m_roundMgr (t_blameMgr t) \<Longrightarrow>
   tss_in W x pi mid (with_mgr f t) = tss_in W x pi mid t"
  by (simp add: with_mgr_def tss_in_def finished_ok_def)

lemma tss_ok_with_blame [simp]: "tss_in W x pi mid (with_blame f t) = tss_in W x pi mid t"
  unfolding with_blame_def by (rule tss_ok_with_mgr) simp_all

lemma tss_ok_accept [simp]:
  "tss_in W x pi mid (with_mgr (updateAcceptShare r i) t) = tss_in W x pi mid t"
  by (rule tss_ok_with_mgr) (simp_all add: updateAcceptShare_def split: option.splits)

lemma tss_ok_unicast [simp]:
  "tss_in W x pi mid (with_mgr (setLastUnicastPeer p r) t) = tss_in W x pi mid t"
  by (rule tss_ok_with_mgr) (simp_all add: setLastUnicastPeer_def split: option.splits)

lemma tss_ok_shareMgr [simp]:
  "tss_in W x pi mid (with_mgr (\<lambda>m. m\<lparr>m_shareMgr := f m\<rparr>) t) = tss_in W x pi mid t"
  by (rule tss_ok_with_mgr) simp_all

lemma tss_ok_culprits [simp]: "tss_in W x pi mid (t\<lparr>t_culprits := cs\<rparr>) = tss_in W x pi mid t"
  by (simp add: tss_in_def finished_ok_def)

lemma tss_ok_put_item [tss_inv]:
  "tss_in W x pi mid t \<Longrightarrow> item_in W x pi mid k item \<Longrightarrow>
   tss_in W x pi mid (updateLocalUnconfirmedMessages k item t)"
  by (auto simp: updateLocalUnconfirmedMessages_def tss_in_def finished_ok_def)

lemma tss_ok_removeKey [tss_inv]: "tss_in W x pi mid t \<Longrightarrow> tss_in W x pi mid (removeKey k t)"
  by (auto simp: removeKey_def tss_in_def finished_ok_def)

lemma tss_ok_set_round [tss_inv]:
  "tss_in W x pi mid t \<Longrightarrow> share_in W x pi mid k w \<Longrightarrow>
   tss_in W x pi mid (with_mgr (\<lambda>m. m\<lparr>m_roundMgr := roundMgr_Set k w (m_roundMgr m)\<rparr>) t)"
  by (auto simp: with_mgr_def roundMgr_Set_def tss_in_def finished_ok_def)

lemma tss_ok_call [tss_inv]:
  "tss_in W x pi mid t \<Longrightarrow> signed_in W x pi mid b p \<Longrightarrow>
   tss_in W x pi mid (t\<lparr>t_calls := t_calls t @ [(r, b, p, f)]\<rparr>)"
  by (auto simp: tss_in_def finished_ok_def)

lemma tss_ok_leaked [tss_inv]:
  "tss_in W x pi mid t \<Longrightarrow> (\<And>j. j \<in> set js \<Longrightarrow> job_in W x pi mid j) \<Longrightarrow>
   tss_in W x pi mid (t\<lparr>t_leaked := js\<rparr>)"
  by (auto simp: tss_in_def finished_ok_def)

lemma tss_ok_leakedD: "tss_in W x pi mid t \<Longrightarrow> j \<in> set (t_leaked t) \<Longrightarrow> job_in W x pi mid j"
  by (simp add: tss_in_def)

section \<open>Jobs\<close>

lemma processInvalidMsgBlame_ok:
  assumes "tss_in W x pi mid t"
  shows "ret_ok (\<lambda>(e, t'). e \<noteq> None \<and> tss_in W x pi mid t') (processInvalidMsgBlame x r rnd err t)"
  using assms tss_ok_party [OF assms]
  by (auto simp: processInvalidMsgBlame_def Let_def split: sum.splits)

lemma doTssJob_ok:
  assumes "tss_in W x pi mid t" "job_in W x pi mid j"
  shows "ret_ok (tss_in W x pi mid) (doTssJob x j t)"
proof (cases "getMsgRound x (j_wire j) (j_party j) (j_broadcast j)")
  case (Inl e)
  with assms show ?thesis by (simp add: doTssJob_def)
next
  case (Inr rnd0)
  let ?call = "(pt_ref (j_local j), j_wire j, j_party j, j_broadcast j)"
  have t1: "tss_in W x pi mid (t\<lparr>t_calls := t_calls t @ [?call]\<rparr>)"
    using assms by (auto simp: job_in_def intro: tss_ok_call)
  show ?thesis
  proof (cases "x_update x (t_calls t) ?call")
    case None
    with Inr t1 show ?thesis by (simp add: doTssJob_def Let_def)
  next
    case (Some e)
    show ?thesis using Inr Some
      by (auto simp: doTssJob_def Let_def intro!: ret_ok_bind [OF processInvalidMsgBlame_ok [OF t1]])
  qed
qed

lemma runPicks_ok:
  assumes "tss_in W x pi mid t" "\<forall>j\<in>set q. job_in W x pi mid j"
  shows "ret_ok (\<lambda>(q', t'). tss_in W x pi mid t' \<and> set q' \<subseteq> set q) (runPicks x is q t)"
  using assms
proof (induction x "is" q t rule: runPicks.induct)
  case (2 x i "is" q t)
  show ?case
  proof (cases "i < length q")
    case True
    then have "job_in W x pi mid (q ! i)" using "2.prems" by simp
    have sub: "set (take i q @ drop (Suc i) q) \<subseteq> set q"
      by (metis (no_types) Un_least set_append set_drop_subset set_take_subset)
    show ?thesis
      unfolding runPicks.simps if_P [OF True]
    proof (rule ret_ok_bind [OF doTssJob_ok [OF "2.prems"(1) \<open>job_in W x pi mid (q ! i)\<close>]])
      fix t' assume t': "tss_in W x pi mid t'"
      have "ret_ok (\<lambda>(q', t''). tss_in W x pi mid t'' \<and> set q' \<subseteq> set (take i q @ drop (Suc i) q))
          (runPicks x is (take i q @ drop (Suc i) q) t')"
        by (rule "2.IH"(1) [OF True t']) (use "2.prems"(2) sub in blast)
      then show "ret_ok (\<lambda>(q', t'). tss_in W x pi mid t' \<and> set q' \<subseteq> set q)
          (runPicks x is (take i q @ drop (Suc i) q) t')"
        by (rule ret_ok_mono) (use sub in blast)
    qed
  qed (use "2" in simp)
qed simp

lemma runAll_ok:
  assumes "tss_in W x pi mid t" "\<forall>j\<in>set q. job_in W x pi mid j"
  shows "ret_ok (tss_in W x pi mid) (runAll x q t)"
  using assms
proof (induction x q t rule: runAll.induct)
  case (2 x j js t)
  have "job_in W x pi mid j" using "2.prems" by simp
  show ?case unfolding runAll.simps
    by (rule ret_ok_bind [OF doTssJob_ok [OF "2.prems"(1) \<open>job_in W x pi mid j\<close>]])
      (use "2" in simp)
qed simp

lemma drain_ok:
  assumes "tss_in W x pi mid t" "\<forall>j\<in>set q. job_in W x pi mid j"
  shows "ret_ok (tss_in W x pi mid) (drain x is q t)"
  unfolding drain_def
  by (rule ret_ok_bind [OF runPicks_ok [OF assms]]) (use assms(2) in \<open>auto intro!: runAll_ok\<close>)

lemma runLeaked_ok:
  assumes "tss_in W x pi mid t"
  shows "ret_ok (tss_in W x pi mid) (runLeaked x i t)"
proof (cases "i < length (t_leaked t)")
  case True
  have "set (take i (t_leaked t) @ drop (Suc i) (t_leaked t)) \<subseteq> set (t_leaked t)"
    by (metis (no_types) Un_least set_append set_drop_subset set_take_subset)
  then have "tss_in W x pi mid (t\<lparr>t_leaked := take i (t_leaked t) @ drop (Suc i) (t_leaked t)\<rparr>)"
    using assms tss_ok_leakedD by (blast intro: tss_ok_leaked)
  moreover have "job_in W x pi mid (t_leaked t ! i)" using True by (intro tss_ok_leakedD [OF assms]) simp
  ultimately show ?thesis using True by (simp add: runLeaked_def doTssJob_ok)
qed (use assms in \<open>simp add: runLeaked_def\<close>)

section \<open>updateLocal\<close>

text \<open>JSON may leave out the routing of an entry of a bulk message; the handlers dereference it.\<close>

definition malformed :: "'e common_ext_scheme \<Rightarrow> wire_message \<Rightarrow> bool" where
  "malformed x w \<longleftrightarrow> (case x_unmarshal_bulk x (wm_msg w) of
       Inl e \<Rightarrow> False
     | Inr bulk \<Rightarrow> \<exists>bm\<in>set bulk. (case bk_routing bm of None \<Rightarrow> True | Some rt \<Rightarrow> r_from rt = None))"

text \<open>The one cause of a panic: a message that was received, that a party of the ceremony signed for
  this ceremony, and that has such an entry.\<close>

definition nil_entry ::
  "(wire_message \<Rightarrow> bool) \<Rightarrow> 'e common_ext_scheme \<Rightarrow> party_info \<Rightarrow> string \<Rightarrow> bool" where
  "nil_entry W x pi mid \<longleftrightarrow> (\<exists>k w. share_in W x pi mid k w \<and> malformed x w)"

definition nil_panic ::
  "(wire_message \<Rightarrow> bool) \<Rightarrow> 'e common_ext_scheme \<Rightarrow> party_info \<Rightarrow> string \<Rightarrow> string \<Rightarrow> bool" where
  "nil_panic W x pi mid s \<longleftrightarrow> s = ''nil pointer dereference'' \<and> nil_entry W x pi mid"

abbreviation keeps_ok where
  "keeps_ok W x pi mid r \<equiv> ret_or (nil_panic W x pi mid) (\<lambda>(e, t'). tss_in W x pi mid t') r"

lemma updateLocal_early_ok:
  "tss_in W x pi mid t \<Longrightarrow> \<forall>j\<in>set q. job_in W x pi mid j \<Longrightarrow> keeps_ok W x pi mid (updateLocal_early q e t)"
  by (auto simp: updateLocal_early_def intro!: tss_ok_leaked dest: tss_ok_leakedD)

lemma updateLocal_loop_ok:
  assumes "tss_in W x pi mid t" "\<forall>j\<in>set q. job_in W x pi mid j"
    and "\<And>bm. bm \<in> set bms \<Longrightarrow> (\<exists>rt p. bk_routing bm = Some rt \<and> r_from rt = Some p) \<or> nil_entry W x pi mid"
    and "\<And>bm p. bm \<in> set bms \<Longrightarrow> mget (pi_id_map pi) (pid_id from) = Some p \<Longrightarrow>
      signed_in W x pi mid (bk_msg bm) p"
  shows "keeps_ok W x pi mid (updateLocal_loop x picks pi from n bms q t)"
  using assms
proof (induction bms arbitrary: n q t)
  case Nil
  show ?case
    by simp (rule ret_or_bind_ok [OF drain_ok [OF Nil.prems(1,2)]], simp)
next
  case (Cons bm bms)
  have rt: "nil_entry W x pi mid" if "bk_routing bm = None \<or> (\<exists>rt. bk_routing bm = Some rt \<and> r_from rt = None)"
    using Cons.prems(3) [of bm] that by auto
  show ?case unfolding updateLocal_loop.simps
  proof (rule ret_or_bind_ok [OF runPicks_ok [OF Cons.prems(1,2)]], goal_cases)
    case (1 qt)
    then obtain q' t' where qt: "qt = (q', t')" "tss_in W x pi mid t'" "\<forall>j\<in>set q'. job_in W x pi mid j"
      using Cons.prems(2) by (cases qt) auto
    note early = updateLocal_early_ok [OF qt(2,3)]
    have IH: "keeps_ok W x pi mid (updateLocal_loop x picks pi from (Suc n) bms q'' t')"
      if "\<forall>j\<in>set q''. job_in W x pi mid j" for q''
      by (rule Cons.IH [OF qt(2) that]) (use Cons.prems(3,4) in auto)
    have job: "\<forall>j\<in>set (q' @ [newJob l (bk_msg bm) i pid b]). job_in W x pi mid j"
      if "mget (pi_id_map pi) (pid_id from) = Some pid" for l i pid b
      using qt(3) Cons.prems(4) [of bm pid] that by (simp add: job_in_def newJob_def)
    show ?case
    proof (cases "bk_routing bm = None \<or> (\<exists>rt. bk_routing bm = Some rt \<and> r_from rt = None)")
      case True
      have "nil_panic W x pi mid ''nil pointer dereference''" using rt [OF True] by (simp add: nil_panic_def)
      with early True show ?thesis by (auto simp: qt(1) split: option.splits)
    next
      case False
      then obtain rt p where "bk_routing bm = Some rt" "r_from rt = Some p" by auto
      with early IH [OF qt(3)] IH [OF job] show ?thesis
        by (simp add: qt(1) Let_def split: option.splits sum.splits)
    qed
  qed
qed

text \<open>The message was received, and its sender is a party of the ceremony and signed it.\<close>

definition wire_in :: "(wire_message \<Rightarrow> bool) \<Rightarrow> 'e common_ext_scheme \<Rightarrow> party_info \<Rightarrow> string \<Rightarrow> wire_message \<Rightarrow> bool" where
  "wire_in W x pi mid w \<longleftrightarrow> (\<exists>k. share_in W x pi mid k w)"

lemma updateLocal_ok:
  assumes "tss_in W x pi mid t" "wire_in W x pi mid w"
  shows "keeps_ok W x pi mid (updateLocal x picks (Some w) t)"
proof -
  obtain rt p q where w: "wm_routing w = Some rt" "r_from rt = Some p"
    "mget (pi_id_map pi) (pid_id p) = Some q" "verifySignature x (pid_key q) (wm_msg w) (wm_sig w) mid" "W w"
    using assms(2) by (auto simp: wire_in_def share_in_def share_ok_def)
  show ?thesis
  proof (cases "mget (t_partyIDtoP2PID t) (pid_id p)")
    case None
    with w assms(1) tss_ok_party [OF assms(1)] show ?thesis by (simp add: updateLocal_def)
  next
    case (Some d)
    let ?t1 = "if \<not> r_broadcast rt then with_mgr (setLastUnicastPeer d (wm_round w)) t else t"
    have t1: "tss_in W x pi mid ?t1" using assms(1) by simp
    show ?thesis
    proof (cases "x_unmarshal_bulk x (wm_msg w)")
      case (Inl e)
      with w Some t1 tss_ok_party [OF assms(1)] show ?thesis by (simp add: updateLocal_def)
    next
      case (Inr bulk)
      have "keeps_ok W x pi mid (updateLocal_loop x picks pi p 0 bulk [] ?t1)"
      proof (rule updateLocal_loop_ok [OF t1])
        show "(\<exists>rt p. bk_routing bm = Some rt \<and> r_from rt = Some p) \<or> nil_entry W x pi mid"
          if "bm \<in> set bulk" for bm
        proof (cases "malformed x w")
          case True
          with assms(2) show ?thesis by (auto simp: nil_entry_def wire_in_def)
        next
          case False
          with Inr that show ?thesis by (auto simp: malformed_def split: option.splits)
        qed
        show "signed_in W x pi mid (bk_msg bm) p'"
          if "bm \<in> set bulk" "mget (pi_id_map pi) (pid_id p) = Some p'" for bm p'
          using w Inr that unfolding signed_in_def by fastforce
      qed simp
      then show ?thesis using w Some Inr tss_ok_party [OF assms(1)] by (simp add: updateLocal_def)
    qed
  qed
qed

section \<open>Hash confirmation\<close>

lemma processRequest_ok:
  "tss_in W x pi mid t \<Longrightarrow> tss_in W x pi mid (snd (processRequestMsgFromPeer x ps m r t))"
  by (auto simp: processRequestMsgFromPeer_def Let_def split: option.splits sum.splits)

lemma requestShare_ok:
  "tss_in W x pi mid t \<Longrightarrow> tss_in W x pi mid (snd (requestShareFromPeer x rng item th key ty t))"
  by (simp add: requestShareFromPeer_def Let_def processRequest_ok split: sum.splits)

lemma hashCheck_ok:
  assumes "item_in W x pi mid k item" "ci_msg item = Some w"
  shows "ret_ok (\<lambda>(e, item'). item_in W x pi mid k item' \<and> ci_msg item' = Some w)
    (hashCheck x rng ids item th)"
proof -
  obtain rt p where "wm_routing w = Some rt" "r_from rt = Some p"
    using assms by (auto simp: item_in_def share_in_def share_ok_def)
  with assms show ?thesis
    by (auto simp: hashCheck_def item_in_def split: option.splits sum.splits)
qed

lemma applyShare_ok:
  assumes "tss_in W x pi mid t" "item_in W x pi mid key item" "ci_msg item = Some w"
  shows "keeps_ok W x pi mid (applyShare x env item th key ty t)"
proof -
  obtain rt p where w: "wm_routing w = Some rt" "r_from rt = Some p" and share: "share_in W x pi mid key w"
    using assms(2,3) by (auto simp: item_in_def share_in_def share_ok_def)
  show ?thesis
    unfolding applyShare_def assms(3) w(1) deref_simps out_bind_simps Let_def
  proof (rule ret_or_bind_ok [OF hashCheck_ok [OF assms(2,3)]], goal_cases)
    case (1 r)
    then obtain e item1 where r: "r = (e, item1)" and i1: "item_in W x pi mid key item1" by (cases r) auto
    let ?t1 = "updateLocalUnconfirmedMessages key item1 t"
    have t1: "tss_in W x pi mid ?t1" using assms(1) i1 by (rule tss_ok_put_item)
    let ?t2 = "updateLocalUnconfirmedMessages key (item1\<lparr>ci_msg := None\<rparr>) ?t1"
    have t2: "tss_in W x pi mid ?t2" by (rule tss_ok_put_item [OF t1]) (use i1 in \<open>auto simp: item_in_def\<close>)
    let ?t3 = "with_mgr (\<lambda>m. m\<lparr>m_roundMgr := roundMgr_Set key w (m_roundMgr m)\<rparr>) ?t1"
    have t3: "tss_in W x pi mid ?t3" using t1 share by (rule tss_ok_set_round)
    have "keeps_ok W x pi mid (updateLocal x (re_picks env) (Some w) ?t3)"
      using t3 share by (intro updateLocal_ok) (auto simp: wire_in_def)
    then have upd: "keeps_ok W x pi mid (out_bind (updateLocal x (re_picks env) (Some w) ?t3) (\<lambda>(e, t3). case e of
                Some d \<Rightarrow> Ret (Some (ErrWrap ''fail to update the message to local party'' d), t3)
              | None \<Rightarrow> Ret (None, removeKey key t3)))"
      by (rule ret_or_bind) (auto intro: tss_ok_removeKey split: option.splits)
    obtain q where q: "m_partyInfo (t_blameMgr ?t1) = Some q" using tss_ok_mgr_party [OF t1] by blast
    have req: "tss_in W x pi mid (snd (requestShareFromPeer x (re_freq_req env) (item1\<lparr>ci_msg := None\<rparr>) th key ty ?t2))"
      using t2 by (rule requestShare_ok)
    have blm: "keeps_ok W x pi mid (out_bind (tssWrongShareBlame x (t_blameMgr ?t1) w) (\<lambda>r. case r of
                  Inl _ \<Rightarrow>
                    Ret (Some (ErrWrap ''error in getting the blame nodes'' ErrHashCheck),
                         with_blame (setBlame HashCheckFail [] (\<not> r_broadcast rt)) ?t1)
                | Inr blamePk \<Rightarrow>
                    Ret (Some ErrHashCheck,
                         with_blame (setBlame HashCheckFail [newNode blamePk (wm_msg w) (wm_sig w)] (\<not> r_broadcast rt)) ?t1)))"
      using t1 w q by (auto simp: tssWrongShareBlame_def split: option.splits sum.splits)
    show ?case
      using t1 req blm upd by (simp add: r case_prod_unfold split: option.split)
  qed
qed

lemma item_ok_new: "item_in W x pi mid k (newLocalCacheItem None h)"
  by (simp add: newLocalCacheItem_def item_in_def)

lemma item_ok_confirmI:
  "item_in W x pi mid k item \<Longrightarrow> item_in W x pi mid k (updateConfirmList p h item)"
  by (auto simp: item_in_def updateConfirmList_def)

lemma ci_msg_updateConfirmList [simp]: "ci_msg (updateConfirmList p h item) = ci_msg item"
  by (simp add: updateConfirmList_def)

lemma processVerMsg_ok:
  assumes "tss_in W x pi mid t"
  shows "keeps_ok W x pi mid (processVerMsg x env b ty t)"
proof (cases b)
  case None
  with assms show ?thesis by (simp add: processVerMsg_def)
next
  case (Some c)
  let ?base = "case tryGetLocalCacheItem (c_key c) t of None \<Rightarrow> newLocalCacheItem None (c_hash c) | Some i \<Rightarrow> i"
  let ?item = "updateConfirmList (c_p2pid c) (c_hash c) ?base"
  let ?t1 = "updateLocalUnconfirmedMessages (c_key c) ?item t"
  have "item_in W x pi mid (c_key c) ?base"
    using tss_ok_item [OF assms(1)] by (auto simp: item_ok_new split: option.splits)
  then have item: "item_in W x pi mid (c_key c) ?item" by (rule item_ok_confirmI)
  then have t1: "tss_in W x pi mid ?t1" using assms(1) by (intro tss_ok_put_item)
  show ?thesis
  proof (cases "getThreshold (int (length (pi_id_map pi)))")
    case (Inl e)
    with Some t1 tss_ok_party [OF assms(1)] show ?thesis by (simp add: processVerMsg_def Let_def)
  next
    case (Inr th)
    show ?thesis
    proof (cases "ci_msg ?item")
      case None
      with Some Inr t1 tss_ok_party [OF assms(1)] show ?thesis
        by (simp add: processVerMsg_def Let_def requestShare_ok case_prod_unfold)
    next
      case (Some w)
      show ?thesis using applyShare_ok [OF t1 item Some, of env th ty] Inr Some \<open>b = Some c\<close>
          tss_ok_party [OF assms(1)]
        by (simp add: processVerMsg_def Let_def)
    qed
  qed
qed

section \<open>processTSSMsg and ProcessOneMessage\<close>

lemma broadcastHash_ok:
  "tss_in W x pi mid t \<Longrightarrow> tss_in W x pi mid (snd (broadcastHashToPeers x k h ps ty t))"
  by (simp add: broadcastHashToPeers_def split: sum.splits)

lemma receiverBroadcast_ok:
  assumes "tss_in W x pi mid t" "share_in W x pi mid k w"
  shows "keeps_ok W x pi mid (receiverBroadcastHashToPeers x w ty t)"
  using assms broadcastHash_ok [OF assms(1)]
  by (auto simp: receiverBroadcastHashToPeers_def share_in_def share_ok_def case_prod_unfold split: option.splits)

text \<open>The entry that a broadcast is filed under, with the message in it.\<close>

definition filed_item :: "'e common_ext_scheme \<Rightarrow> string \<Rightarrow> wire_message \<Rightarrow> tss_state \<Rightarrow> cache_item" where
  "filed_item x key w t = (let msgHash = bytesToHashString x (wm_msg w) in
     updateConfirmList (t_localPeerID t) msgHash
       (case tryGetLocalCacheItem key t of
          None \<Rightarrow> newLocalCacheItem (Some w) msgHash
        | Some i \<Rightarrow> if ci_msg i = None then i\<lparr>ci_msg := Some w, ci_hash := msgHash\<rparr> else i))"

lemma filed_item_ok:
  assumes "tss_in W x pi mid t" "share_in W x pi mid key w"
  shows "item_in W x pi mid key (filed_item x key w t)" "ci_msg (filed_item x key w t) \<noteq> None"
proof -
  let ?base = "case tryGetLocalCacheItem key t of
      None \<Rightarrow> newLocalCacheItem (Some w) (bytesToHashString x (wm_msg w))
    | Some i \<Rightarrow> if ci_msg i = None then i\<lparr>ci_msg := Some w, ci_hash := bytesToHashString x (wm_msg w)\<rparr> else i"
  have "item_in W x pi mid key ?base"
    using assms(2) tss_ok_item [OF assms(1), of key]
    by (auto simp: item_in_def newLocalCacheItem_def split: option.splits)
  then show "item_in W x pi mid key (filed_item x key w t)" by (simp add: filed_item_def Let_def item_ok_confirmI)
  have "ci_msg ?base \<noteq> None" by (simp add: newLocalCacheItem_def split: option.split)
  then show "ci_msg (filed_item x key w t) \<noteq> None" by (simp add: filed_item_def Let_def updateConfirmList_def)
qed

lemma file_broadcast_ok:
  assumes "tss_in W x pi mid t" "share_in W x pi mid key w"
  shows "keeps_ok W x pi mid (case getThreshold n of
      Inl e \<Rightarrow> Ret (Some e, updateLocalUnconfirmedMessages key (filed_item x key w t) t)
    | Inr threshold \<Rightarrow> applyShare x env (filed_item x key w t) threshold key ty
        (updateLocalUnconfirmedMessages key (filed_item x key w t) t))"
proof -
  have t2: "tss_in W x pi mid (updateLocalUnconfirmedMessages key (filed_item x key w t) t)"
    using assms(1) filed_item_ok(1) [OF assms(1,2)] by (rule tss_ok_put_item)
  obtain w' where w': "ci_msg (filed_item x key w t) = Some w'" using filed_item_ok(2) [OF assms(1,2)] by blast
  have "keeps_ok W x pi mid (applyShare x env (filed_item x key w t) th key ty
      (updateLocalUnconfirmedMessages key (filed_item x key w t) t))" for th
    by (rule applyShare_ok [OF t2 filed_item_ok(1) [OF assms(1,2)] w'])
  with t2 show ?thesis by (auto split: sum.splits)
qed

lemma processTSSMsg_broadcast:
  assumes "wm = Some w" "wm_routing w = Some rt" "r_from rt = Some p" "t_partyInfo t = Some pi"
    and "mget (pi_id_map pi) (pid_id p) = Some q" "r_broadcast rt"
    and "verifySignature x (pid_key q) (wm_msg w) (wm_sig w) (t_msgID t)"
  shows "processTSSMsg x env wm ty fw t =
    out_bind (if \<not> fw then receiverBroadcastHashToPeers x w ty t else Ret (None, t)) (\<lambda>(_, t1).
      let key = cache_key (pid_id p) (wm_round w); item = filed_item x key w t1; t2 = updateLocalUnconfirmedMessages key item t1
      in case getThreshold (int (length (pi_id_map pi))) of
           Inl e \<Rightarrow> Ret (Some e, t2) | Inr threshold \<Rightarrow> applyShare x env item threshold key ty t2)"
  using assms by (simp add: processTSSMsg_def filed_item_def Let_def)

lemma processTSSMsg_ok:
  assumes "tss_in W x pi mid t" "\<And>w. wm = Some w \<Longrightarrow> W w"
  shows "keeps_ok W x pi mid (processTSSMsg x env wm ty fw t)"
proof -
  note pty = tss_ok_party [OF assms(1)]
  consider "\<nexists>w rt p q. wm = Some w \<and> wm_routing w = Some rt \<and> r_from rt = Some p \<and>
      mget (pi_id_map pi) (pid_id p) = Some q \<and> verifySignature x (pid_key q) (wm_msg w) (wm_sig w) (t_msgID t)"
    | w rt p q where "wm = Some w" "wm_routing w = Some rt" "r_from rt = Some p"
      "mget (pi_id_map pi) (pid_id p) = Some q" "verifySignature x (pid_key q) (wm_msg w) (wm_sig w) (t_msgID t)" by blast
  then show ?thesis
  proof cases
    case 1
    with assms(1) pty show ?thesis by (auto simp: processTSSMsg_def split: option.splits)
  next
    case 2
    have share: "share_in W x pi mid (cache_key (pid_id p) (wm_round w)) w"
      using 2 tss_ok_msgID [OF assms(1)] assms(2) by (auto simp: share_in_def share_ok_def)
    show ?thesis
    proof (cases "r_broadcast rt")
      case False
      have "keeps_ok W x pi mid (updateLocal x (re_picks env) (Some w) t)"
        using share by (intro updateLocal_ok assms(1)) (auto simp: wire_in_def)
      with 2 False pty show ?thesis by (simp add: processTSSMsg_def)
    next
      case True
      have pre: "keeps_ok W x pi mid (if \<not> fw then receiverBroadcastHashToPeers x w ty t else Ret (None, t))"
        using receiverBroadcast_ok [OF assms(1) share] assms(1) by simp
      show ?thesis unfolding processTSSMsg_broadcast [OF 2(1-3) pty 2(4) True 2(5)]
        by (rule ret_or_bind [OF pre]) (auto simp: Let_def intro!: file_broadcast_ok [OF _ share])
    qed
  qed
qed

lemma finished_put:
  assumes "finished_ok pi t" "mget (t_finishedPeers t) p \<noteq> Some True"
  shows "finished_ok pi (t\<lparr>t_finishedPeers := mput p True (t_finishedPeers t)\<rparr>)"
    and "length (mput p True (t_finishedPeers t)) = Suc (length (t_finishedPeers t))"
proof -
  have none: "mget (t_finishedPeers t) p = None"
    using assms by (cases "mget (t_finishedPeers t) p") (auto simp: finished_ok_def)
  have wf: "wf_map (t_finishedPeers t)" using assms(1) by (simp add: finished_ok_def)
  show len: "length (mput p True (t_finishedPeers t)) = Suc (length (t_finishedPeers t))"
    using length_mput [OF wf] none by simp
  show "finished_ok pi (t\<lparr>t_finishedPeers := mput p True (t_finishedPeers t)\<rparr>)"
    using assms(1) len by (auto simp: finished_ok_def)
qed

lemma tss_ok_finished:
  assumes "tss_in W x pi mid t"
  shows "tss_in W x pi mid (t\<lparr>t_finishedPeers := fp, t_taskDone := d\<rparr>) \<longleftrightarrow>
    finished_ok pi (t\<lparr>t_finishedPeers := fp, t_taskDone := d\<rparr>)"
  using assms by (simp add: tss_in_def)

lemma ret_ok_imp_or: "ret_ok P r \<Longrightarrow> ret_or C P r"
  by (cases r) simp_all

lemma processTaskDone_ok:
  assumes "tss_in W x pi mid t"
  shows "ret_ok (\<lambda>(e, t'). tss_in W x pi mid t') (processTaskDone x b p t)"
proof (cases "\<exists>n. x_unmarshal_notifier x b = Inr n \<and> tn_done n \<and> mget (t_finishedPeers t) p \<noteq> Some True")
  case False
  with assms show ?thesis by (auto simp: processTaskDone_def split: sum.splits)
next
  case True
  then obtain n where n: "x_unmarshal_notifier x b = Inr n" "tn_done n"
    "mget (t_finishedPeers t) p \<noteq> Some True" by blast
  have fin: "finished_ok pi t" using assms by (simp add: tss_in_def)
  let ?t1 = "t\<lparr>t_finishedPeers := mput p True (t_finishedPeers t)\<rparr>"
  note put = finished_put [OF fin n(3)]
  have ok1: "tss_in W x pi mid ?t1"
    using tss_ok_finished [OF assms, where fp = "mput p True (t_finishedPeers t)" and d = "t_taskDone t"] put(1) by simp
  show ?thesis
  proof (cases "int (length (t_finishedPeers ?t1)) = int (length (pi_id_map pi)) - 1")
    case True
    then have "\<not> t_taskDone t" using put(2) fin by (auto simp: finished_ok_def)
    moreover have "tss_in W x pi mid (?t1\<lparr>t_taskDone := True\<rparr>)"
      using tss_ok_finished [OF assms, where fp = "mput p True (t_finishedPeers t)" and d = True] put(1) True
      by (auto simp: finished_ok_def split: if_splits)
    ultimately show ?thesis
      using n True tss_ok_party [OF assms] by (simp add: processTaskDone_def Let_def)
  next
    case False
    then show ?thesis
      using n ok1 tss_ok_party [OF assms] by (simp add: processTaskDone_def Let_def)
  qed
qed

text \<open>The wire message that a wrapped message, the payload of a p2p message or an event carries.\<close>

definition carried_msg :: "'e common_ext_scheme \<Rightarrow> bytes \<Rightarrow> wire_message \<Rightarrow> bool" where
  "carried_msg x payload w \<longleftrightarrow> x_unmarshal_wire x payload = Inr w \<or>
     (case x_unmarshal_control x payload of Inl e \<Rightarrow> False | Inr c \<Rightarrow> tc_msg c = Some w)"

fun carried :: "'e common_ext_scheme \<Rightarrow> inbound_event \<Rightarrow> wire_message \<Rightarrow> bool" where
  "carried x (InMessage env payload peerID) w =
     (case x_unmarshal_wrapped x payload of Inl e \<Rightarrow> False | Inr wm \<Rightarrow> carried_msg x (w_payload wm) w)"
| "carried x InFinish w = False"
| "carried x (LeakedJob i) w = False"

definition received_in :: "'e common_ext_scheme \<Rightarrow> inbound_event list \<Rightarrow> wire_message \<Rightarrow> bool" where
  "received_in x es w \<longleftrightarrow> (\<exists>e\<in>set es. carried x e w)"

lemma processControlMsg_ok:
  assumes "tss_in W x pi mid t" "\<And>w. carried_msg x b w \<Longrightarrow> W w"
  shows "keeps_ok W x pi mid (processControlMsg x env b p t)"
proof (cases "x_unmarshal_control x b")
  case (Inl e)
  with assms(1) show ?thesis by (simp add: processControlMsg_def)
next
  case (Inr c)
  let ?t1 = "\<lambda>sm. with_mgr (\<lambda>m. m\<lparr>m_shareMgr := sm\<rparr>) t"
  have "keeps_ok W x pi mid (processTSSMsg x env (tc_msg c) (tc_req_type c) True (?t1 sm))" for sm
    using assms Inr by (intro processTSSMsg_ok) (auto simp: carried_msg_def)
  with assms(1) Inr show ?thesis
    by (auto simp: processControlMsg_def Let_def case_prod_unfold processRequest_ok split: sum.split)
qed

lemma processOneMessage_ok:
  assumes "tss_in W x pi mid t" "\<And>m w. wm = Some m \<Longrightarrow> carried_msg x (w_payload m) w \<Longrightarrow> W w"
  shows "keeps_ok W x pi mid (processOneMessage x env wm p t)"
proof (cases wm)
  case None
  with assms(1) show ?thesis by (simp add: processOneMessage_def)
next
  case (Some m)
  have share: "keeps_ok W x pi mid (processTSSMsg x env (Some w) ty False t)"
    if "x_unmarshal_wire x (w_payload m) = Inr w" for w ty
    using that assms Some by (intro processTSSMsg_ok) (auto simp: carried_msg_def)
  have "keeps_ok W x pi mid (processControlMsg x env (w_payload m) p t)"
    using assms Some by (intro processControlMsg_ok) auto
  with share show ?thesis
    using assms(1) processVerMsg_ok [OF assms(1)] ret_ok_imp_or [OF processTaskDone_ok [OF assms(1)]]
    by (simp add: Some processOneMessage_def Let_def case_prod_unfold split: sum.split)
qed

lemma processInboundMessages_in:
  "tss_in W x pi mid t \<Longrightarrow> (\<And>w. received_in x es w \<Longrightarrow> W w) \<Longrightarrow>
   ret_or (nil_panic W x pi mid) (tss_in W x pi mid) (processInboundMessages x es t)"
proof (induction x es t rule: processInboundMessages.induct)
  case (3 x i es t)
  have sub: "\<And>w. received_in x es w \<Longrightarrow> W w" using "3.prems"(2) by (simp add: received_in_def)
  show ?case unfolding processInboundMessages.simps
    by (rule ret_or_bind_ok [OF runLeaked_ok [OF "3.prems"(1)]]) (rule "3.IH", use sub in simp_all)
next
  case (4 x env payload peerID es t)
  have sub: "\<And>w. received_in x es w \<Longrightarrow> W w" using "4.prems"(2) by (auto simp: received_in_def)
  show ?case
  proof (cases "x_unmarshal_wrapped x payload")
    case (Inl e)
    with 4 sub show ?thesis by simp
  next
    case (Inr wm)
    have one: "keeps_ok W x pi mid (processOneMessage x env (Some wm) peerID t)"
      by (rule processOneMessage_ok [OF "4.prems"(1)], rule "4.prems"(2)) (use Inr in \<open>auto simp: received_in_def\<close>)
    then show ?thesis unfolding processInboundMessages.simps Inr sum.case
      by (rule ret_or_bind) (use "4.IH"(2) [OF Inr] sub in \<open>auto split: prod.splits\<close>)
  qed
qed simp_all

lemma processInboundMessages_ok:
  "tss_ok x pi mid t \<Longrightarrow> processInboundMessages x es t = Ret t' \<Longrightarrow> tss_ok x pi mid t'"
  using processInboundMessages_in [of "\<lambda>_. True" x pi mid t es] by simp

section \<open>The loop behind the interface of a step function\<close>

text \<open>One event on a state; an event that panics leaves the state (the program is gone).\<close>

definition inbound_step :: "'e common_ext_scheme \<Rightarrow> tss_state \<Rightarrow> inbound_event \<Rightarrow> tss_state" where
  "inbound_step x t e = (case processInboundMessages x [e] t of Ret t' \<Rightarrow> t' | Panic s \<Rightarrow> t)"

interpretation ceremony: step_inv "inbound_step x" "tss_in W x pi mid" "\<lambda>e. \<forall>w. carried x e w \<longrightarrow> W w"
  for x :: "'e common_ext_scheme" and W pi mid
proof
  fix t e assume "tss_in W x pi mid t" "\<forall>w. carried x e w \<longrightarrow> W w"
  then show "tss_in W x pi mid (inbound_step x t e)"
    using processInboundMessages_in [of W x pi mid t "[e]"]
    by (auto simp: inbound_step_def received_in_def split: outcome.splits)
qed

end
