(* ===== verification/Hash_Agreement.thy ===== *)
theory Hash_Agreement
  imports Tss_Safety
begin

text \<open>
  What the hash confirmation of \<open>common/tss.go\<close> (\<open>getHighestFreq\<close>, \<open>getMsgHash\<close>, \<open>hashCheck\<close>)
  guarantees: the votes a broadcast needs before it is applied, when two nodes must agree on it,
  and why a ceremony of four has no such guarantee.
\<close>

section \<open>The most frequent hash\<close>

definition freq_of :: "(string, int) gomap \<Rightarrow> string \<Rightarrow> int" where
  "freq_of freq n = (case mget freq n of None \<Rightarrow> 0 | Some c \<Rightarrow> c)"

lemma freq_count_of: "freq_of (freq_count ns freq) n = freq_of freq n + int (count_list ns n)"
  by (induction ns freq rule: freq_count.induct) (auto simp: freq_of_def)

lemma freq_count_wf [tss_inv]: "wf_map freq \<Longrightarrow> wf_map (freq_count ns freq)"
  by (induction ns freq rule: freq_count.induct) auto

lemma freq_count_dom: "fst ` set (freq_count ns freq) = fst ` set freq \<union> set ns"
  by (induction ns freq rule: freq_count.induct) auto

lemma freq_count_entry:
  "(n, c) \<in> set (freq_count ns []) \<longleftrightarrow> n \<in> set ns \<and> c = int (count_list ns n)"
proof -
  have wf: "wf_map (freq_count ns [])" by (simp add: freq_count_wf)
  have "mget (freq_count ns []) n = Some c \<longleftrightarrow> n \<in> set ns \<and> c = int (count_list ns n)"
    using freq_count_of [of ns "[]" n] freq_count_dom [of ns "[]"] mget_None_iff [of "freq_count ns []" n]
    by (cases "mget (freq_count ns []) n") (auto simp: freq_of_def)
  then show ?thesis using wf by (simp add: wf_map_set_iff)
qed

lemma freq_max_spec:
  "freq_max es (d, m) = (d', m') \<Longrightarrow>
     m \<le> m' \<and> (\<forall>k c. (k, c) \<in> set es \<longrightarrow> c \<le> m') \<and> ((d', m') \<in> set es \<or> (d', m') = (d, m))"
proof (induction es arbitrary: d m)
  case (Cons e es)
  obtain k c where e: "e = (k, c)" by fastforce
  show ?case using Cons.IH [of k c] Cons.IH [of d m] Cons.prems
    by (cases "m < c") (auto simp: e)
qed simp

text \<open>The number of peers that confirmed a hash.\<close>

definition votes :: "(string, string) gomap \<Rightarrow> string \<Rightarrow> nat" where
  "votes m h = card {p. mget m p = Some h}"

lemma votes_count: "wf_map m \<Longrightarrow> count_list (map snd m) h = votes m h"
proof (induction m)
  case Nil
  then show ?case by (simp add: votes_def)
next
  case (Cons e m)
  obtain p g where e: "e = (p, g)" by fastforce
  have wf: "wf_map m" and p: "mget m p = None"
    using Cons.prems by (auto simp: e wf_map_def mget_None_iff)
  have fin: "finite {q. mget m q = Some h}"
    by (rule finite_subset [OF _ finite_dom_map_of [of m]]) auto
  have "{q. mget (e # m) q = Some h} = (if g = h then insert p {q. mget m q = Some h} else {q. mget m q = Some h})"
    using p by (auto simp: e)
  then have "votes (e # m) h = (if g = h then Suc (votes m h) else votes m h)"
    using fin p by (simp add: votes_def)
  then show ?case using Cons.IH [OF wf] by (simp add: e)
qed

lemma getHighestFreq_max:
  assumes "wf_map cl" "\<And>l. mset (rng l) = mset l" "getHighestFreq rng cl = Inr (h, f)"
  shows "f = int (votes cl h) \<and> 0 < votes cl h \<and> (\<forall>g. votes cl g \<le> votes cl h)"
proof -
  let ?es = "rng (freq_count (map snd cl) [])"
  have cl: "cl \<noteq> []" and fm: "freq_max ?es ([], -1) = (h, f)"
    using assms(3) by (auto simp: getHighestFreq_def split: if_splits)
  have set: "(n, c) \<in> set ?es \<longleftrightarrow> n \<in> snd ` set cl \<and> c = int (votes cl n)" for n c
    using mset_eq_setD [OF assms(2)] votes_count [OF assms(1), of n]
    by (simp add: freq_count_entry)
  from freq_max_spec [OF fm] have f: "-1 \<le> f" "\<And>n. n \<in> snd ` set cl \<Longrightarrow> int (votes cl n) \<le> f"
    "h \<in> snd ` set cl \<and> f = int (votes cl h) \<or> (h, f) = ([], -1)"
    using set by auto
  obtain n where n: "n \<in> snd ` set cl" using cl by (cases cl) auto
  have "0 \<le> f" using f(2) [OF n] by (metis of_nat_0_le_iff order_trans)
  with f(3) have h: "h \<in> snd ` set cl" "f = int (votes cl h)" by auto
  have le: "votes cl g \<le> votes cl h" for g
  proof (cases "g \<in> snd ` set cl")
    case True
    with f(2) [of g] h(2) show ?thesis by simp
  next
    case False
    then have "count_list (map snd cl) g = 0" by (simp add: count_list_0_iff)
    with votes_count [OF assms(1), of g] show ?thesis by simp
  qed
  have "count_list (map snd cl) h \<noteq> 0" using h(1) by (simp add: count_list_0_iff)
  with votes_count [OF assms(1), of h] h(2) le show ?thesis by simp
qed

lemma getHighestFreq_ex: "cl \<noteq> [] \<Longrightarrow> \<exists>h f. getHighestFreq rng cl = Inr (h, f)"
  by (cases "freq_max (rng (freq_count (map snd cl) [])) ([], -1)") (simp add: getHighestFreq_def)

section \<open>What an accepted broadcast was confirmed by\<close>

lemma hashCheck_accepts:
  assumes "hashCheck x rng ids item th = Ret (None, item')"
    and "wf_map (ci_confirmed item)" "\<And>l. mset (rng l) = mset l"
  obtains w rt p ow where "ci_msg item = Some w" "wm_routing w = Some rt" "r_from rt = Some p"
    "mget ids (pid_id p) = Some ow" "item' = item" "th \<le> int (length (ci_confirmed item))"
    "mget (ci_confirmed item) (x_peer_string x ow) = None"
    "th - 1 \<le> int (votes (ci_confirmed item) (ci_hash item))"
    "\<And>h. votes (ci_confirmed item) h \<le> votes (ci_confirmed item) (ci_hash item)"
proof -
  from assms(1) obtain w rt p where w: "ci_msg item = Some w" "wm_routing w = Some rt" "r_from rt = Some p"
    by (auto simp: hashCheck_def out_bind_Ret_iff deref_Ret_iff)
  with assms(1) obtain ow where ow: "mget ids (pid_id p) = Some ow"
    by (cases "mget ids (pid_id p)") (auto simp: hashCheck_def)
  have rest: "item' = item" "th \<le> totalConfirmParty item"
      "mget (ci_confirmed item) (x_peer_string x ow) = None"
      "getMsgHash rng item th = Inr (ci_hash item)"
    using assms(1) w ow by (simp_all add: hashCheck_def split: if_splits sum.splits)
  from rest(4) obtain f where f: "getHighestFreq rng (ci_confirmed item) = Inr (ci_hash item, f)" "th - 1 \<le> f"
    by (auto simp: getMsgHash_def split: sum.splits if_splits)
  note m = getHighestFreq_max [OF assms(2,3) f(1)]
  show ?thesis using m f(2) rest by (intro that [OF w ow]) (auto simp: totalConfirmParty_def)
qed

lemma hashCheck_majority_accepts:
  assumes "wf_map (ci_confirmed item)" "\<And>l. mset (rng l) = mset l"
    and "ci_msg item = Some w" "wm_routing w = Some rt" "r_from rt = Some p" "mget ids (pid_id p) = Some ow"
    and c: "th \<le> int (length (ci_confirmed item))" "ci_confirmed item \<noteq> []"
    "mget (ci_confirmed item) (x_peer_string x ow) = None"
    "th - 1 \<le> int (votes (ci_confirmed item) (ci_hash item))"
    "\<forall>h. h \<noteq> ci_hash item \<longrightarrow> votes (ci_confirmed item) h < votes (ci_confirmed item) (ci_hash item)"
  shows "hashCheck x rng ids item th = Ret (None, item)"
proof -
  obtain h f where f: "getHighestFreq rng (ci_confirmed item) = Inr (h, f)"
    using getHighestFreq_ex [OF c(2)] by blast
  note m = getHighestFreq_max [OF assms(1,2) f]
  have "h = ci_hash item" using m c(5) by (metis leD)
  with f m c(4) have "getMsgHash rng item th = Inr (ci_hash item)" by (simp add: getMsgHash_def)
  with assms show ?thesis by (simp add: hashCheck_def totalConfirmParty_def)
qed

text \<open>C3. \<open>hashCheck\<close> accepts a broadcast exactly on a majority of confirmations: when it accepts,
  at least \<open>threshold\<close> peers have confirmed some hash, the data owner is not one of them, at least
  \<open>threshold - 1\<close> of them confirmed the hash of the message in hand and no other hash has more
  votes; conversely, when these hold and every other hash has strictly fewer votes, it accepts
  whatever the order of the map.\<close>

theorem hashCheck_majority:
  assumes "wf_map (ci_confirmed item)" "\<And>l. mset (rng l) = mset l"
    and "ci_msg item = Some w" "wm_routing w = Some rt" "r_from rt = Some p" "mget ids (pid_id p) = Some ow"
  shows "(hashCheck x rng ids item th = Ret (None, item') \<longrightarrow>
      item' = item \<and> th \<le> int (length (ci_confirmed item)) \<and>
      mget (ci_confirmed item) (x_peer_string x ow) = None \<and>
      th - 1 \<le> int (votes (ci_confirmed item) (ci_hash item)) \<and>
      (\<forall>h. votes (ci_confirmed item) h \<le> votes (ci_confirmed item) (ci_hash item)))
    \<and> (th \<le> int (length (ci_confirmed item)) \<and> ci_confirmed item \<noteq> [] \<and>
      mget (ci_confirmed item) (x_peer_string x ow) = None \<and>
      th - 1 \<le> int (votes (ci_confirmed item) (ci_hash item)) \<and>
      (\<forall>h. h \<noteq> ci_hash item \<longrightarrow> votes (ci_confirmed item) h < votes (ci_confirmed item) (ci_hash item))
      \<longrightarrow> hashCheck x rng ids item th = Ret (None, item))"
proof (intro conjI impI; (elim conjE)?)
  assume acc: "hashCheck x rng ids item th = Ret (None, item')"
  from acc assms show "item' = item" "th \<le> int (length (ci_confirmed item))"
    "mget (ci_confirmed item) (x_peer_string x ow) = None"
    "th - 1 \<le> int (votes (ci_confirmed item) (ci_hash item))"
    "\<forall>h. votes (ci_confirmed item) h \<le> votes (ci_confirmed item) (ci_hash item)"
    by (auto elim!: hashCheck_accepts)
qed (use hashCheck_majority_accepts [OF assms] in blast)

text \<open>The witness: of four parties, \<open>b\<close> and \<open>c\<close> confirm the message of party \<open>0\<close>.\<close>

definition sample_ids_p2p :: "(string, peer_id) gomap" where
  "sample_ids_p2p = [(''0'', ''a''), (''1'', ''b''), (''2'', ''c''), (''3'', ''d'')]"

definition sample_item :: "string \<Rightarrow> (string, string) gomap \<Rightarrow> cache_item" where
  "sample_item h cl = \<lparr>ci_msg = Some (sample_wire 0 KEYGEN1), ci_hash = h, ci_confirmed = cl\<rparr>"

lemma sample_wire_from:
  "wm_routing (sample_wire i r) = Some \<lparr>r_from = Some (sample_party i), r_to = [], r_broadcast = True\<rparr>"
  by (simp add: sample_wire_def)

lemma votes_upd: "votes [] h = 0" "wf_map ((p, g) # m) \<Longrightarrow> votes ((p, g) # m) h = (if g = h then Suc (votes m h) else votes m h)"
  using votes_count [of "(p, g) # m" h] votes_count [of m h]
  by (auto simp: votes_def wf_map_def)

theorem hashCheck_majority_witness:
  "hashCheck sample_conv rev sample_ids_p2p (sample_item ''h'' [(''b'', ''h''), (''c'', ''h'')]) 2 =
     Ret (None, sample_item ''h'' [(''b'', ''h''), (''c'', ''h'')])"
  by (rule hashCheck_majority [where w = "sample_wire 0 KEYGEN1" and p = "sample_party 0" and ow = "''a''"
        and rt = "\<lparr>r_from = Some (sample_party 0), r_to = [], r_broadcast = True\<rparr>", THEN conjunct2, THEN mp])
    (simp_all add: sample_item_def sample_wire_from sample_ids_p2p_def sample_party_def nat_digits_sample
      sample_conv_def votes_upd wf_map_def)

section \<open>Agreement between two nodes\<close>

lemma votes_le:
  "wf_map m \<Longrightarrow> fst ` set m \<subseteq> V \<Longrightarrow> {p. mget m p = Some h} \<subseteq> V"
  by (force simp: wf_map_set_iff [symmetric])

text \<open>C16. Large ceremonies agree: let two nodes accept a broadcast of the same owner by hash
  confirmation, with \<open>V\<close> the voters (at most \<open>n - 1\<close>, the owner has no vote) and \<open>F\<close> the voters
  that may have told the two nodes different hashes.  When \<open>2 * (threshold - 1)\<close> exceeds
  \<open>n - 1 + card F\<close>, with the threshold of \<open>GetThreshold\<close>, both accepted the same hash.\<close>

theorem hash_agreement:
  assumes "getThreshold (int n) = Inr th"
    and "hashCheck x rng ids a th = Ret (None, a')" "hashCheck x' rng' ids' b th = Ret (None, b')"
    and "\<And>l. mset (rng l) = mset l" "\<And>l. mset (rng' l) = mset l"
    and "wf_map (ci_confirmed a)" "wf_map (ci_confirmed b)"
    and "fst ` set (ci_confirmed a) \<subseteq> V" "fst ` set (ci_confirmed b) \<subseteq> V" "finite V" "card V < n"
    and "F \<subseteq> V" "\<And>v h h'. v \<in> V - F \<Longrightarrow> mget (ci_confirmed a) v = Some h \<Longrightarrow>
      mget (ci_confirmed b) v = Some h' \<Longrightarrow> h = h'"
    and "int n - 1 + int (card F) < 2 * (th - 1)"
  shows "ci_hash a = ci_hash b"
proof -
  let ?A = "{p. mget (ci_confirmed a) p = Some (ci_hash a)}" and ?B = "{p. mget (ci_confirmed b) p = Some (ci_hash b)}"
  have sub: "?A \<subseteq> V" "?B \<subseteq> V" by (rule votes_le [OF assms(6,8)], rule votes_le [OF assms(7,9)])
  have arith: "f < i" if "t - 1 \<le> int ca" "t - 1 \<le> int cb" "ca + cb = u + i" "u \<le> cv" "cv < n"
    "int n - 1 + int f < 2 * (t - 1)" for t ca cb u i cv f
    using that by presburger
  have "th - 1 \<le> int (card ?A)" using assms(2,6,4) by (rule hashCheck_accepts) (simp add: votes_def)
  moreover have "th - 1 \<le> int (card ?B)" using assms(3,7,5) by (rule hashCheck_accepts) (simp add: votes_def)
  moreover have "card ?A + card ?B = card (?A \<union> ?B) + card (?A \<inter> ?B)"
    using sub assms(10) by (intro card_Un_Int) (auto intro: finite_subset)
  moreover have "card (?A \<union> ?B) \<le> card V" using sub assms(10) by (intro card_mono) auto
  ultimately have "card F < card (?A \<inter> ?B)" using assms(11,14) by (rule arith)
  then have "\<not> ?A \<inter> ?B \<subseteq> F"
    using card_mono [of F "?A \<inter> ?B"] assms(10,12) finite_subset [of F V] by auto
  then obtain v where "v \<in> ?A" "v \<in> ?B" "v \<notin> F" by auto
  with sub assms(13) [of v] show ?thesis by auto
qed

text \<open>A ceremony of four has no such agreement: its threshold is 2, so two confirmations that
  contradict each other are enough, and the tie is decided by the order of a Go map.  The node
  that holds the message with the first hash may accept it while a node that holds the other
  message, with the very same confirmations, accepts that one; and the first node may also
  refuse.\<close>

lemma four_parties_split:
  assumes "p \<noteq> q" "h1 \<noteq> h2"
    and "wm_routing w = Some rt" "r_from rt = Some f" "mget ids (pid_id f) = Some ow"
    and "x_peer_string x ow \<noteq> p" "x_peer_string x ow \<noteq> q"
    and "\<And>h. item h = \<lparr>ci_msg = Some w, ci_hash = h, ci_confirmed = [(p, h1), (q, h2)]\<rparr>"
  shows "getThreshold 4 = Inr 2 \<and>
    hashCheck x (\<lambda>l. l) ids (item h1) 2 = Ret (None, item h1) \<and>
    hashCheck x rev ids (item h2) 2 = Ret (None, item h2) \<and>
    hashCheck x rev ids (item h1) 2 = Ret (Some ErrNotMajority, item h1)"
proof -
  have "getThreshold 4 = Inr 2" using getThreshold_int [of 4] by simp
  then show ?thesis
    using assms by (simp add: hashCheck_def totalConfirmParty_def getMsgHash_def getHighestFreq_def mput_def)
qed

lemma four_parties_split_sample:
  "hashCheck sample_conv (\<lambda>l. l) sample_ids_p2p (sample_item ''h'' [(''b'', ''h''), (''c'', ''g'')]) 2 =
     Ret (None, sample_item ''h'' [(''b'', ''h''), (''c'', ''g'')]) \<and>
   hashCheck sample_conv rev sample_ids_p2p (sample_item ''h'' [(''b'', ''h''), (''c'', ''g'')]) 2 =
     Ret (Some ErrNotMajority, sample_item ''h'' [(''b'', ''h''), (''c'', ''g'')])"
  using four_parties_split [of "''b''" "''c''" "''h''" "''g''" "sample_wire 0 KEYGEN1"
      "\<lparr>r_from = Some (sample_party 0), r_to = [], r_broadcast = True\<rparr>" "sample_party 0"
      sample_ids_p2p "''a''" sample_conv "\<lambda>h. sample_item h [(''b'', ''h''), (''c'', ''g'')]"]
  by (simp add: sample_item_def sample_wire_from sample_ids_p2p_def sample_party_def nat_digits_sample sample_conv_def)

text \<open>The witness of agreement: twelve parties, threshold 7, eleven voters.\<close>

definition sample_voters :: "(string, string) gomap" where
  "sample_voters = map (\<lambda>i. ([char_of (98 + i)], ''h'')) [0..<11::nat]"

theorem hash_agreement_witness:
  "ci_hash (sample_item ''h'' sample_voters) = ci_hash (sample_item ''h'' (rev sample_voters))"
proof (rule hash_agreement [where n = 12 and th = 7 and V = "fst ` set sample_voters" and F = "{}"])
  show "getThreshold (int 12) = Inr 7" using getThreshold_int [of 12] by simp
  have v: "sample_voters = [(''b'', ''h''), (''c'', ''h''), (''d'', ''h''), (''e'', ''h''), (''f'', ''h''),
      (''g'', ''h''), (''h'', ''h''), (''i'', ''h''), (''j'', ''h''), (''k'', ''h''), (''l'', ''h'')]"
    by code_simp
  show "hashCheck sample_conv (\<lambda>l. l) sample_ids_p2p (sample_item ''h'' sample_voters) 7 =
      Ret (None, sample_item ''h'' sample_voters)"
    by (simp add: v hashCheck_def totalConfirmParty_def getMsgHash_def getHighestFreq_def mput_def
      sample_item_def sample_wire_from sample_ids_p2p_def sample_party_def nat_digits_sample sample_conv_def)
  show "hashCheck sample_conv (\<lambda>l. l) sample_ids_p2p (sample_item ''h'' (rev sample_voters)) 7 =
      Ret (None, sample_item ''h'' (rev sample_voters))"
    by (simp add: v hashCheck_def totalConfirmParty_def getMsgHash_def getHighestFreq_def mput_def
      sample_item_def sample_wire_from sample_ids_p2p_def sample_party_def nat_digits_sample sample_conv_def)
  show "wf_map (ci_confirmed (sample_item ''h'' sample_voters))"
    "wf_map (ci_confirmed (sample_item ''h'' (rev sample_voters)))"
    by (simp_all add: v sample_item_def wf_map_def)
  show "card (fst ` set sample_voters) < 12"
    using card_length [of "map fst sample_voters"] by (simp add: sample_voters_def image_image)
  show "h = h'" if "mget (ci_confirmed (sample_item ''h'' sample_voters)) p = Some h"
    "mget (ci_confirmed (sample_item ''h'' (rev sample_voters))) p = Some h'" for p h h'
    using that by (auto simp: v sample_item_def split: if_splits)
qed (auto simp: sample_item_def)

end
