(* ===== verification/Tss_Props.thy ===== *)
theory Tss_Props
  imports Hash_Agreement
begin

text \<open>
  Properties of a whole ceremony (\<open>ProcessInboundMessages\<close>) and of the application of shares
  (\<open>updateLocal\<close> with its worker pool, \<open>processInvalidMsgBlame\<close>), over the invariant of
  \<open>Tss_Safety\<close>.
\<close>

section \<open>A ceremony that starts\<close>

definition ceremony_start :: "party_info \<Rightarrow> string \<Rightarrow> tss_state \<Rightarrow> bool" where
  "ceremony_start pi mid t \<longleftrightarrow>
     t_partyInfo t = Some pi \<and> t_msgID t = mid \<and> m_partyInfo (t_blameMgr t) \<noteq> None \<and>
     t_unConfirmed t = [] \<and> m_roundMgr (t_blameMgr t) = [] \<and> t_calls t = [] \<and> t_leaked t = [] \<and>
     t_finishedPeers t = [] \<and> \<not> t_taskDone t"

lemma ceremony_start_ok: "ceremony_start pi mid t \<Longrightarrow> tss_in W x pi mid t"
  by (simp add: ceremony_start_def tss_in_def finished_ok_def)

text \<open>The sample of the external functions, extended to the ceremony: a JSON text is a list of
  fields, a signature is the key followed by the message, every party accepts every share.\<close>

definition sample_common :: common_ext where
  "sample_common = conv_ext.extend sample_conv
     (common_ext.fields
       (\<lambda>b p bc. if b = [] then Inl (ErrExt ''empty'') else
          Inr (if b = [1] then KGRound1Message else if b = [2] then KGRound2Message1 else OtherContent))
       (\<lambda>log call. None) pid_id
       (\<lambda>k m. Inr (k @ m)) (\<lambda>k m s. s = k @ m)
       (\<lambda>l. Inr (concat (map bk_msg l)))
       (\<lambda>b. Inr (map (\<lambda>c. \<lparr>bk_msg = [c], bk_ident = ''m'', bk_routing = (if c = 0 then None else
            Some \<lparr>r_from = Some (sample_party 1), r_to = [], r_broadcast = False\<rparr>)\<rparr>) (filter (\<lambda>c. c < 9) b)))
       (\<lambda>w. Inr (wm_msg w)) (\<lambda>b. if b = [] then Inl (ErrExt ''empty'') else
          Inr \<lparr>wm_routing = Some \<lparr>r_from = Some (sample_party 1), r_to = [], r_broadcast = False\<rparr>,
               wm_round = KEYGEN2aUnicast, wm_msg = b, wm_sig = 98 # b\<rparr>)
       (\<lambda>c. Inr (str_bytes (c_hash c))) (\<lambda>b. Inr \<lparr>c_p2pid = [], c_key = [], c_hash = bytes_str b\<rparr>)
       (\<lambda>c. Inr []) (\<lambda>b. Inl (ErrExt ''empty'')) (\<lambda>n. Inr [if tn_done n then 1 else 0])
       (\<lambda>b. Inr \<lparr>tn_done = (b = [1])\<rparr>)
       (\<lambda>b. case b of [] \<Rightarrow> Inl (ErrExt ''empty'') | c # cs \<Rightarrow>
          Inr \<lparr>w_type = c, w_msgid = [], w_payload = cs\<rparr>))"

text \<open>The same functions, with decoded bulk messages that always have a routing.\<close>

definition sample_wf :: common_ext where
  "sample_wf = sample_common\<lparr>x_unmarshal_bulk := (\<lambda>b. Inr (map (\<lambda>c. \<lparr>bk_msg = [c], bk_ident = ''m'',
     bk_routing = Some \<lparr>r_from = Some (sample_party 1), r_to = [], r_broadcast = False\<rparr>\<rparr>) b))\<rparr>"

lemmas sample_common_defs = sample_common_def conv_ext.extend_def common_ext.fields_def sample_conv_def

definition sample_info :: party_info where
  "sample_info = \<lparr>pi_party_map = [(''m'', \<lparr>pt_ref = 7, pt_id = sample_party 0\<rparr>)], pi_id_map = sample_ids\<rparr>"

definition sample_start :: tss_state where
  "sample_start = \<lparr>t_partyInfo = Some sample_info, t_partyIDtoP2PID = sample_ids_p2p, t_unConfirmed = [],
     t_localPeerID = ''a'', t_channel = True, t_sent = [], t_p2pPeers = [''b'', ''c'', ''d''], t_msgID = [],
     t_privateKey = [97], t_taskDone = False,
     t_blameMgr = newBlameManager\<lparr>m_partyInfo := Some sample_info, m_localPartyID := ''0''\<rparr>,
     t_finishedPeers = [], t_culprits = [], t_cachedBroadcast = [], t_cachedUnicast = [], t_msgNum = 2,
     t_calls = [], t_leaked = []\<rparr>"

lemma sample_start_ok: "ceremony_start sample_info [] sample_start"
  by (simp add: ceremony_start_def sample_start_def newBlameManager_def)


text \<open>Both cases occur: three completion messages and a share whose entries are complete, and a share
  whose entry has no routing.\<close>

abbreviation sample_env :: run_env where
  "sample_env \<equiv> \<lparr>re_freq = rev, re_freq_req = rev, re_picks = (\<lambda>_. [])\<rparr>"


text \<open>C2. Only signed shares count: after any sequence of events in a ceremony, every share that was
  handed to a tss-lib party is an entry of a bulk message which one of these events brought and
  which carries a valid signature, for this ceremony's id, of the very party it is attributed
  to; and every message kept for the blame was brought by one of the events, is filed under its own
  cache key and is signed by the party it is from.\<close>

theorem only_signed_shares:
  assumes "ceremony_start pi mid t" "t' = foldl (inbound_step x) t es"
  shows "(\<forall>r b p f. (r, b, p, f) \<in> set (t_calls t') \<longrightarrow> signed_in (received_in x es) x pi mid b p) \<and>
    (\<forall>k w. roundMgr_Get (m_roundMgr (t_blameMgr t')) k = Some w \<longrightarrow>
       received_in x es w \<and> share_ok x pi mid k w)"
proof -
  have "tss_in (received_in x es) x pi mid t'"
    unfolding assms(2)
    by (rule ceremony.inv_run [OF ceremony_start_ok [OF assms(1)]]) (auto simp: received_in_def)
  then show ?thesis by (auto simp: tss_in_def roundMgr_Get_def share_in_def)
qed

theorem only_signed_shares_witness:
  "signed_in (received_in sample_wf [InMessage sample_env [0, 2] ''b'']) sample_wf sample_info [] [2] (sample_party 1)"
proof -
  define t' where "t' = foldl (inbound_step sample_wf) sample_start [InMessage sample_env [0, 2] ''b'']"
  have "(7, [2], sample_party 1, False) \<in> set (t_calls t')"
    by (simp add: t'_def inbound_step_def sample_wf_def sample_common_defs processOneMessage_def msg_type_defs
        processTSSMsg_def sample_start_def sample_info_def sample_ids_def sample_ids_p2p_def sample_party_def
        nat_digits_sample verifySignature_def updateLocal_def getMsgRound_def newJob_def drain_def doTssJob_def
        checkMsgDuplication_def with_mgr_def setLastUnicastPeer_def newBlameManager_def)
  then show ?thesis
    using only_signed_shares [OF sample_start_ok t'_def] by blast
qed

text \<open>One participant can stop the others: a correctly signed unicast
  message of a party of the ceremony whose bulk holds an entry with no routing makes
  \<open>ProcessOneMessage\<close> panic in every receiver that knows the message identifier.\<close>

lemma nil_routing_panics:
  assumes "t_partyInfo t = Some pi" "w_type wm = TSSKeyGenMsg \<or> w_type wm = TSSKeySignMsg"
    and "x_unmarshal_wire x (w_payload wm) = Inr w" "wm_routing w = Some rt" "r_from rt = Some p"
    and "\<not> r_broadcast rt" "mget (pi_id_map pi) (pid_id p) = Some q"
    and "verifySignature x (pid_key q) (wm_msg w) (wm_sig w) (t_msgID t)"
    and "mget (t_partyIDtoP2PID t) (pid_id p) = Some d"
    and "x_unmarshal_bulk x (wm_msg w) = Inr (bm # bms)"
    and "mget (pi_party_map pi) (bk_ident bm) = Some loc" "bk_routing bm = None"
  shows "processOneMessage x env (Some wm) peer t = Panic ''nil pointer dereference''"
proof -
  have "runPicks x is [] t' = Ret ([], t')" for "is" t'
    by (induction "is") simp_all
  then have "updateLocal x (re_picks env) (Some w) t = Panic ''nil pointer dereference''"
    using assms by (simp add: updateLocal_def)
  with assms show ?thesis
    by (auto simp: processOneMessage_def processTSSMsg_def)
qed

lemma nil_routing_panics_sample:
  "processOneMessage sample_common \<lparr>re_freq = rev, re_freq_req = rev, re_picks = (\<lambda>_. [])\<rparr>
     (Some \<lparr>w_type = TSSKeyGenMsg, w_msgid = [], w_payload = [0]\<rparr>) ''b'' sample_start =
     Panic ''nil pointer dereference''"
  by (rule nil_routing_panics [where pi = sample_info and w = "\<lparr>wm_routing = Some \<lparr>r_from = Some (sample_party 1),
        r_to = [], r_broadcast = False\<rparr>, wm_round = KEYGEN2aUnicast, wm_msg = [0], wm_sig = [98, 0]\<rparr>"
        and p = "sample_party 1" and q = "sample_party 1" and bms = "[]"
        and rt = "\<lparr>r_from = Some (sample_party 1), r_to = [], r_broadcast = False\<rparr>"
        and bm = "\<lparr>bk_msg = [0], bk_ident = ''m'', bk_routing = None\<rparr>"])
    (simp_all add: sample_start_def sample_common_defs sample_info_def sample_ids_def sample_ids_p2p_def
      sample_party_def nat_digits_sample verifySignature_def)

section \<open>The worker pool\<close>

text \<open>A job that parses and that its party accepts.\<close>

definition job_round :: "'e common_ext_scheme \<Rightarrow> tss_job \<Rightarrow> round_info option" where
  "job_round x j = (case getMsgRound x (j_wire j) (j_party j) (j_broadcast j) of
     Inl e \<Rightarrow> None | Inr r \<Rightarrow> Some (r\<lparr>ri_ident := j_ident j\<rparr>))"

definition job_call :: "tss_job \<Rightarrow> update_call" where
  "job_call j = (pt_ref (j_local j), j_wire j, j_party j, j_broadcast j)"

definition good_job :: "'e common_ext_scheme \<Rightarrow> tss_job \<Rightarrow> bool" where
  "good_job x j \<longleftrightarrow> job_round x j \<noteq> None \<and> (\<forall>log. x_update x log (job_call j) = None)"

definition job_share :: "'e common_ext_scheme \<Rightarrow> tss_job \<Rightarrow> round_info \<times> string" where
  "job_share x j = (the (job_round x j), pid_id (j_party j))"

text \<open>What a state has when the jobs of a queue are added to it.\<close>

definition pool_rel ::
  "'e common_ext_scheme \<Rightarrow> tss_job list \<Rightarrow> tss_state \<Rightarrow> tss_job list \<Rightarrow> tss_state \<Rightarrow> bool" where
  "pool_rel x q t q' t' \<longleftrightarrow>
     mset (t_calls t') + mset (map job_call q') = mset (t_calls t) + mset (map job_call q) \<and>
     accepted_set (t_blameMgr t') \<union> job_share x ` set q' = accepted_set (t_blameMgr t) \<union> job_share x ` set q \<and>
     t_partyInfo t' = t_partyInfo t \<and> t_culprits t' = t_culprits t \<and> t_leaked t' = t_leaked t \<and>
     t_unConfirmed t' = t_unConfirmed t \<and> m_blame (t_blameMgr t') = m_blame (t_blameMgr t) \<and>
     (\<forall>j\<in>set q'. j \<in> set q)"

lemma pool_rel_refl: "pool_rel x q t q t"
  by (simp add: pool_rel_def)

lemma pool_rel_trans: "pool_rel x q t q1 t1 \<Longrightarrow> pool_rel x q1 t1 q2 t2 \<Longrightarrow> pool_rel x q t q2 t2"
  by (simp add: pool_rel_def)

lemma accepted_set_update:
  "accepted_set (updateAcceptShare r i m) = insert (r, i) (accepted_set m)"
  by (auto simp: accepted_set_def checkMsgDuplication_update)

lemma doTssJob_good:
  assumes "good_job x j"
  obtains t' where "doTssJob x j t = Ret t'" "t_calls t' = t_calls t @ [job_call j]"
    "accepted_set (t_blameMgr t') = insert (job_share x j) (accepted_set (t_blameMgr t))"
    "t_partyInfo t' = t_partyInfo t" "t_culprits t' = t_culprits t" "t_leaked t' = t_leaked t"
    "t_unConfirmed t' = t_unConfirmed t" "m_blame (t_blameMgr t') = m_blame (t_blameMgr t)"
proof -
  obtain r where r: "getMsgRound x (j_wire j) (j_party j) (j_broadcast j) = Inr r"
    using assms by (auto simp: good_job_def job_round_def split: sum.splits)
  let ?t' = "with_mgr (updateAcceptShare (r\<lparr>ri_ident := j_ident j\<rparr>) (pid_id (j_party j)))
      (t\<lparr>t_calls := t_calls t @ [job_call j]\<rparr>)"
  have "doTssJob x j t = Ret ?t'"
    using assms r by (simp add: doTssJob_def good_job_def job_call_def Let_def)
  moreover have "m_blame (updateAcceptShare a b m) = m_blame m" for a b m
    by (simp add: updateAcceptShare_def split: option.splits)
  ultimately show ?thesis
    using r by (intro that [of ?t']) (simp_all add: with_mgr_def accepted_set_update job_share_def job_round_def)
qed

lemma pool_job:
  assumes "good_job x j" "mset q = add_mset j (mset q')"
  obtains t' where "doTssJob x j t = Ret t'" "pool_rel x q t q' t'"
proof -
  obtain t' where t': "doTssJob x j t = Ret t'" "t_calls t' = t_calls t @ [job_call j]"
    "accepted_set (t_blameMgr t') = insert (job_share x j) (accepted_set (t_blameMgr t))"
    "t_partyInfo t' = t_partyInfo t" "t_culprits t' = t_culprits t" "t_leaked t' = t_leaked t"
    "t_unConfirmed t' = t_unConfirmed t" "m_blame (t_blameMgr t') = m_blame (t_blameMgr t)"
    using assms(1) by (rule doTssJob_good)
  have "set q = insert j (set q')" using assms(2) by (metis set_mset_add_mset_insert set_mset_mset)
  with t' assms(2) show ?thesis by (intro that [OF t'(1)]) (auto simp: pool_rel_def)
qed

lemma mset_pick: "i < length q \<Longrightarrow> mset q = add_mset (q ! i) (mset (take i q @ drop (Suc i) q))"
  by (metis id_take_nth_drop mset.simps(2) mset_append union_mset_add_mset_right)

lemma runPicks_good:
  "\<forall>j\<in>set q. good_job x j \<Longrightarrow> \<exists>q' t'. runPicks x is q t = Ret (q', t') \<and> pool_rel x q t q' t'"
proof (induction "is" arbitrary: q t)
  case Nil
  then show ?case by (simp add: pool_rel_refl)
next
  case (Cons i "is")
  show ?case
  proof (cases "i < length q")
    case True
    let ?q = "take i q @ drop (Suc i) q"
    have g: "good_job x (q ! i)" using Cons.prems True by simp
    obtain t1 where t1: "doTssJob x (q ! i) t = Ret t1" "pool_rel x q t ?q t1"
      using g mset_pick [OF True] by (rule pool_job)
    have "\<forall>j\<in>set ?q. good_job x j" using t1(2) Cons.prems by (simp add: pool_rel_def)
    then obtain q' t' where "runPicks x is ?q t1 = Ret (q', t')" "pool_rel x ?q t1 q' t'"
      using Cons.IH by blast
    with t1 True show ?thesis by (auto intro: pool_rel_trans)
  qed (use Cons in simp)
qed

lemma runAll_good:
  "\<forall>j\<in>set q. good_job x j \<Longrightarrow> \<exists>t'. runAll x q t = Ret t' \<and> pool_rel x q t [] t'"
proof (induction q arbitrary: t)
  case Nil
  then show ?case by (simp add: pool_rel_refl)
next
  case (Cons j q)
  obtain t1 where t1: "doTssJob x j t = Ret t1" "pool_rel x (j # q) t q t1"
    by (rule pool_job [of x j "j # q" q t]) (use Cons.prems in simp_all)
  obtain t' where "runAll x q t1 = Ret t'" "pool_rel x q t1 [] t'" using Cons by fastforce
  with t1 show ?case by (auto intro: pool_rel_trans)
qed

lemma drain_good:
  assumes "\<forall>j\<in>set q. good_job x j"
  shows "\<exists>t'. drain x is q t = Ret t' \<and> pool_rel x q t [] t'"
proof -
  obtain q1 t1 where 1: "runPicks x is q t = Ret (q1, t1)" "pool_rel x q t q1 t1"
    using runPicks_good [OF assms] by blast
  have "\<forall>j\<in>set q1. good_job x j" using 1(2) assms by (simp add: pool_rel_def)
  then obtain t' where "runAll x q1 t1 = Ret t'" "pool_rel x q1 t1 [] t'" using runAll_good by blast
  with 1 show ?thesis by (auto simp: drain_def intro: pool_rel_trans)
qed

lemma pool_rel_append: "pool_rel x q t q' t' \<Longrightarrow> pool_rel x (q @ r) t (q' @ r) t'"
  by (auto simp: pool_rel_def image_Un)

text \<open>The job an entry of a bulk message becomes.\<close>

definition bulk_job :: "party_info \<Rightarrow> party_id \<Rightarrow> bulk_wire_msg \<Rightarrow> tss_job" where
  "bulk_job pi q bm = newJob (the (mget (pi_party_map pi) (bk_ident bm))) (bk_msg bm) (bk_ident bm) q
     (r_broadcast (the (bk_routing bm)))"

definition good_entry :: "'e common_ext_scheme \<Rightarrow> party_info \<Rightarrow> party_id \<Rightarrow> bulk_wire_msg \<Rightarrow> bool" where
  "good_entry x pi q bm \<longleftrightarrow>
     (\<exists>rt p loc. bk_routing bm = Some rt \<and> r_from rt = Some p \<and> mget (pi_party_map pi) (bk_ident bm) = Some loc) \<and>
     good_job x (bulk_job pi q bm)"

lemma good_entry_round:
  assumes "good_entry x pi q bm"
  obtains rt p loc r where "bk_routing bm = Some rt" "r_from rt = Some p"
    "mget (pi_party_map pi) (bk_ident bm) = Some loc" "getMsgRound x (bk_msg bm) q (r_broadcast rt) = Inr r"
    "job_share x (bulk_job pi q bm) = (r\<lparr>ri_ident := bk_ident bm\<rparr>, pid_id q)"
    "bulk_job pi q bm = newJob loc (bk_msg bm) (bk_ident bm) q (r_broadcast rt)"
  using assms that
  by (auto simp: good_entry_def good_job_def job_round_def job_share_def bulk_job_def newJob_def
      split: sum.splits)

lemma updateLocal_loop_good:
  assumes "mget (pi_id_map pi) (pid_id from) = Some q" "\<forall>bm\<in>set bms. good_entry x pi q bm"
    and "\<forall>j\<in>set qu. good_job x j" "t_culprits t = []"
    and "distinct (map (job_share x \<circ> bulk_job pi q) bms)"
    and "(accepted_set (t_blameMgr t) \<union> job_share x ` set qu) \<inter> job_share x ` bulk_job pi q ` set bms = {}"
  shows "\<exists>t'. updateLocal_loop x picks pi from n bms qu t = Ret (None, t') \<and>
    pool_rel x (qu @ map (bulk_job pi q) bms) t [] t'"
  using assms
proof (induction bms arbitrary: n qu t)
  case Nil
  obtain t' where "drain x (picks n) qu t = Ret t'" "pool_rel x qu t [] t'"
    using drain_good [OF Nil.prems(3)] by blast
  then show ?case by simp
next
  case (Cons bm bms)
  obtain q1 t1 where 1: "runPicks x (picks n) qu t = Ret (q1, t1)" "pool_rel x qu t q1 t1"
    using runPicks_good [OF Cons.prems(3)] by blast
  have "good_entry x pi q bm" using Cons.prems(2) by simp
  then obtain rt p loc r where r: "bk_routing bm = Some rt" "r_from rt = Some p"
    "mget (pi_party_map pi) (bk_ident bm) = Some loc" "getMsgRound x (bk_msg bm) q (r_broadcast rt) = Inr r"
    "job_share x (bulk_job pi q bm) = (r\<lparr>ri_ident := bk_ident bm\<rparr>, pid_id q)"
    "bulk_job pi q bm = newJob loc (bk_msg bm) (bk_ident bm) q (r_broadcast rt)"
    by (rule good_entry_round)
  have acc: "accepted_set (t_blameMgr t1) \<union> job_share x ` set q1 = accepted_set (t_blameMgr t) \<union> job_share x ` set qu"
    and culp: "t_culprits t1 = []" and sub: "\<forall>j\<in>set q1. j \<in> set qu"
    using 1(2) Cons.prems(4) by (simp_all add: pool_rel_def)
  have "job_share x (bulk_job pi q bm) \<notin> accepted_set (t_blameMgr t1)"
    using acc Cons.prems(6) by auto
  then have nodup: "\<not> checkMsgDuplication (r\<lparr>ri_ident := bk_ident bm\<rparr>) (pid_id q) (t_blameMgr t1)"
    by (simp add: r(5) accepted_set_def)
  have step: "updateLocal_loop x picks pi from n (bm # bms) qu t =
      updateLocal_loop x picks pi from (Suc n) bms (q1 @ [bulk_job pi q bm]) t1"
    using 1(1) r Cons.prems(1) nodup culp by (simp add: Let_def)
  have "\<exists>t'. updateLocal_loop x picks pi from (Suc n) bms (q1 @ [bulk_job pi q bm]) t1 = Ret (None, t') \<and>
      pool_rel x ((q1 @ [bulk_job pi q bm]) @ map (bulk_job pi q) bms) t1 [] t'"
  proof (rule Cons.IH)
    show "\<forall>j\<in>set (q1 @ [bulk_job pi q bm]). good_job x j"
      using sub Cons.prems(2,3) by (auto simp: good_entry_def)
    show "(accepted_set (t_blameMgr t1) \<union> job_share x ` set (q1 @ [bulk_job pi q bm])) \<inter>
        job_share x ` bulk_job pi q ` set bms = {}"
      using acc Cons.prems(5,6) by auto
  qed (use Cons.prems culp in auto)
  moreover have "pool_rel x (qu @ map (bulk_job pi q) (bm # bms)) t
      ((q1 @ [bulk_job pi q bm]) @ map (bulk_job pi q) bms) t1"
    using pool_rel_append [OF 1(2), of "map (bulk_job pi q) (bm # bms)"] by simp
  ultimately show ?case using step pool_rel_trans by metis
qed

lemma updateLocal_good:
  assumes "t_partyInfo t = Some pi" "wm_routing w = Some rt" "r_from rt = Some p"
    and "mget (pi_id_map pi) (pid_id p) = Some q" "mget (t_partyIDtoP2PID t) (pid_id p) = Some d"
    and "x_unmarshal_bulk x (wm_msg w) = Inr bulk" "\<And>bm. bm \<in> set bulk \<Longrightarrow> good_entry x pi q bm"
    and "t_culprits t = []" "distinct (map (job_share x \<circ> bulk_job pi q) bulk)"
    and "accepted_set (t_blameMgr t) \<inter> job_share x ` bulk_job pi q ` set bulk = {}"
  shows "\<exists>t'. updateLocal x picks (Some w) t = Ret (None, t') \<and>
    mset (t_calls t') = mset (t_calls t) + mset (map (job_call \<circ> bulk_job pi q) bulk) \<and>
    accepted_set (t_blameMgr t') = accepted_set (t_blameMgr t) \<union> job_share x ` bulk_job pi q ` set bulk \<and>
    t_leaked t' = t_leaked t \<and> t_unConfirmed t' = t_unConfirmed t \<and>
    m_blame (t_blameMgr t') = m_blame (t_blameMgr t)"
proof -
  let ?t1 = "if \<not> r_broadcast rt then with_mgr (setLastUnicastPeer d (wm_round w)) t else t"
  have s: "accepted_set (setLastUnicastPeer d r m) = accepted_set m" "m_blame (setLastUnicastPeer d r m) = m_blame m" for r m
    by (auto simp: setLastUnicastPeer_def accepted_set_def checkMsgDuplication_def split: option.splits)
  have t1: "accepted_set (t_blameMgr ?t1) = accepted_set (t_blameMgr t)" "t_culprits ?t1 = t_culprits t"
    "t_calls ?t1 = t_calls t" "t_leaked ?t1 = t_leaked t" "t_unConfirmed ?t1 = t_unConfirmed t"
    "m_blame (t_blameMgr ?t1) = m_blame (t_blameMgr t)"
    by (simp_all add: with_mgr_def s)
  have "\<exists>t'. updateLocal_loop x picks pi p 0 bulk [] ?t1 = Ret (None, t') \<and>
      pool_rel x ([] @ map (bulk_job pi q) bulk) ?t1 [] t'"
    by (rule updateLocal_loop_good) (use assms t1 in simp_all)
  then obtain t' where t': "updateLocal_loop x picks pi p 0 bulk [] ?t1 = Ret (None, t')"
    "pool_rel x (map (bulk_job pi q) bulk) ?t1 [] t'" by auto
  have "updateLocal x picks (Some w) t = Ret (None, t')"
    using assms t'(1) by (simp add: updateLocal_def Let_def)
  moreover have "mset (t_calls t') = mset (t_calls t) + mset (map (job_call \<circ> bulk_job pi q) bulk)"
    using t'(2) t1(3) by (simp add: pool_rel_def)
  ultimately show ?thesis using t'(2) t1 by (simp add: pool_rel_def)
qed

text \<open>C21. The worker pool of \<open>updateLocal\<close> is schedule independent on good input: for a bulk message
  of a known party whose entries parse, name distinct rounds and messages that were not accepted
  yet, and are accepted by tss-lib, every schedule of the workers ends without error, hands each
  entry to its party exactly once, records exactly these shares as accepted, and leaves the
  blame, the cache and no queued job behind.\<close>

theorem updateLocal_any_schedule:
  assumes "t_partyInfo t = Some pi" "wm_routing w = Some rt" "r_from rt = Some p"
    and "mget (pi_id_map pi) (pid_id p) = Some q" "mget (t_partyIDtoP2PID t) (pid_id p) = Some d"
    and "x_unmarshal_bulk x (wm_msg w) = Inr bulk" "\<And>bm. bm \<in> set bulk \<Longrightarrow> good_entry x pi q bm"
    and "t_culprits t = []" "distinct (map (job_share x \<circ> bulk_job pi q) bulk)"
    and "accepted_set (t_blameMgr t) \<inter> job_share x ` bulk_job pi q ` set bulk = {}"
  shows "\<exists>t'. updateLocal x picks (Some w) t = Ret (None, t') \<and>
    mset (t_calls t') = mset (t_calls t) + mset (map (job_call \<circ> bulk_job pi q) bulk) \<and>
    accepted_set (t_blameMgr t') = accepted_set (t_blameMgr t) \<union> job_share x ` bulk_job pi q ` set bulk \<and>
    t_leaked t' = t_leaked t \<and> t_unConfirmed t' = t_unConfirmed t \<and>
    m_blame (t_blameMgr t') = m_blame (t_blameMgr t)"
  by (rule updateLocal_good [OF assms])

text \<open>For the witnesses: a unicast of party \<open>1\<close> with the given bytes as the entries of its bulk.\<close>

definition sample_unicast :: "bytes \<Rightarrow> wire_message" where
  "sample_unicast b = \<lparr>wm_routing = Some \<lparr>r_from = Some (sample_party 1), r_to = [], r_broadcast = False\<rparr>,
     wm_round = KEYGEN2aUnicast, wm_msg = b, wm_sig = 98 # b\<rparr>"

definition sample_entry :: "byte \<Rightarrow> bulk_wire_msg" where
  "sample_entry c = \<lparr>bk_msg = [c], bk_ident = ''m'',
     bk_routing = Some \<lparr>r_from = Some (sample_party 1), r_to = [], r_broadcast = False\<rparr>\<rparr>"

lemma sample_bulk: "x_unmarshal_bulk sample_wf b = Inr (map sample_entry b)"
  by (simp add: sample_wf_def sample_entry_def)

lemma sample_good_entry:
  assumes "c = 1 \<or> c = 2"
  shows "good_entry sample_wf sample_info (sample_party 1) (sample_entry c)"
    and "job_share sample_wf (bulk_job sample_info (sample_party 1) (sample_entry c)) =
      (\<lparr>ri_index = (if c = 1 then 0 else 1), ri_msg = (if c = 1 then KEYGEN1 else KEYGEN2aUnicast), ri_ident = ''m''\<rparr>, ''1'')"
  using assms
  by (auto simp: good_entry_def good_job_def job_round_def job_share_def bulk_job_def newJob_def sample_entry_def
      sample_info_def getMsgRound_def sample_wf_def sample_common_defs sample_party_def nat_digits_sample)

lemma sample_start_state:
  "t_partyInfo sample_start = Some sample_info" "t_culprits sample_start = []"
  "mget (pi_id_map sample_info) ''1'' = Some (sample_party 1)" "pid_id (sample_party (Suc 0)) = ''1''"
  "mget (t_partyIDtoP2PID sample_start) ''1'' = Some ''b''" "accepted_set (t_blameMgr sample_start) = {}"
  by (simp_all add: sample_start_def sample_info_def sample_ids_def sample_ids_p2p_def sample_party_def
      nat_digits_sample accepted_set_def checkMsgDuplication_def newBlameManager_def)

theorem updateLocal_any_schedule_witness:
  "\<exists>t'. updateLocal sample_wf (\<lambda>n. [n]) (Some (sample_unicast [1, 2])) sample_start = Ret (None, t') \<and>
     length (t_calls t') = 2"
proof -
  let ?j = "bulk_job sample_info (sample_party 1)"
  have "\<exists>t'. updateLocal sample_wf (\<lambda>n. [n]) (Some (sample_unicast [1, 2])) sample_start = Ret (None, t') \<and>
    mset (t_calls t') = mset (t_calls sample_start) + mset (map (job_call \<circ> ?j) (map sample_entry [1, 2])) \<and>
    accepted_set (t_blameMgr t') = accepted_set (t_blameMgr sample_start) \<union>
      job_share sample_wf ` ?j ` set (map sample_entry [1, 2]) \<and>
    t_leaked t' = t_leaked sample_start \<and> t_unConfirmed t' = t_unConfirmed sample_start \<and>
    m_blame (t_blameMgr t') = m_blame (t_blameMgr sample_start)"
  proof (rule updateLocal_any_schedule [where p = "sample_party 1" and d = "''b''"])
    show "wm_routing (sample_unicast [1, 2]) = Some \<lparr>r_from = Some (sample_party 1), r_to = [], r_broadcast = False\<rparr>"
      by (simp add: sample_unicast_def)
    show "x_unmarshal_bulk sample_wf (wm_msg (sample_unicast [1, 2])) = Inr (map sample_entry [1, 2])"
      by (simp add: sample_bulk sample_unicast_def)
    show "distinct (map (job_share sample_wf \<circ> ?j) (map sample_entry [1, 2]))"
      by (simp add: sample_good_entry(2) [where c = 1, simplified] sample_good_entry(2) [where c = 2, simplified])
    show "good_entry sample_wf sample_info (sample_party 1) bm" if "bm \<in> set (map sample_entry [1, 2])" for bm
      using that sample_good_entry(1) [of 1] sample_good_entry(1) [of 2] by auto
    show "mget (pi_id_map sample_info) (pid_id (sample_party 1)) = Some (sample_party 1)"
      "mget (t_partyIDtoP2PID sample_start) (pid_id (sample_party 1)) = Some ''b''"
      using sample_start_state by simp_all
  qed (simp_all add: sample_start_state)
  then obtain t' where t': "updateLocal sample_wf (\<lambda>n. [n]) (Some (sample_unicast [1, 2])) sample_start = Ret (None, t')"
    "mset (t_calls t') = mset (t_calls sample_start) + mset (map (job_call \<circ> ?j) (map sample_entry [1, 2]))" by blast
  have "length (t_calls t') = 2"
    using arg_cong [OF t'(2), of size] by (simp add: sample_start_def)
  with t'(1) show ?thesis by blast
qed

text \<open>It is not on a bulk message that holds the same entry twice, although the source means to
  let a message be updated only once: the duplicate check reads the accepted shares while the
  first copy may still be queued.  If the workers are late the entry is handed to its party
  twice, if they are quick once.\<close>

lemma duplicate_entry_race:
  assumes "t_partyInfo t = Some pi" "wm_routing w = Some rt" "r_from rt = Some p"
    and "mget (pi_id_map pi) (pid_id p) = Some q" "mget (t_partyIDtoP2PID t) (pid_id p) = Some d"
    and "x_unmarshal_bulk x (wm_msg w) = Inr [bm, bm]" "good_entry x pi q bm"
    and "t_culprits t = []" "job_share x (bulk_job pi q bm) \<notin> accepted_set (t_blameMgr t)"
  shows "(\<exists>t'. updateLocal x (\<lambda>_. []) (Some w) t = Ret (None, t') \<and>
      t_calls t' = t_calls t @ [job_call (bulk_job pi q bm), job_call (bulk_job pi q bm)]) \<and>
    (\<exists>t'. updateLocal x (\<lambda>n. if n = 1 then [0] else []) (Some w) t = Ret (None, t') \<and>
      t_calls t' = t_calls t @ [job_call (bulk_job pi q bm)])"
proof -
  let ?j = "bulk_job pi q bm"
  let ?t1 = "if \<not> r_broadcast rt then with_mgr (setLastUnicastPeer d (wm_round w)) t else t"
  have s: "accepted_set (setLastUnicastPeer d r m) = accepted_set m" for r m
    by (auto simp: setLastUnicastPeer_def accepted_set_def checkMsgDuplication_def split: option.splits)
  have t1: "accepted_set (t_blameMgr ?t1) = accepted_set (t_blameMgr t)" "t_culprits ?t1 = []" "t_calls ?t1 = t_calls t"
    using assms(8) by (simp_all add: with_mgr_def s)
  obtain rt' p' loc r where r: "bk_routing bm = Some rt'" "r_from rt' = Some p'"
    "mget (pi_party_map pi) (bk_ident bm) = Some loc" "getMsgRound x (bk_msg bm) q (r_broadcast rt') = Inr r"
    "job_share x ?j = (r\<lparr>ri_ident := bk_ident bm\<rparr>, pid_id q)"
    "?j = newJob loc (bk_msg bm) (bk_ident bm) q (r_broadcast rt')"
    using assms(7) by (rule good_entry_round)
  have nodup: "\<not> checkMsgDuplication (r\<lparr>ri_ident := bk_ident bm\<rparr>) (pid_id q) (t_blameMgr ?t1)"
  proof -
    have "(r\<lparr>ri_ident := bk_ident bm\<rparr>, pid_id q) \<notin> accepted_set (t_blameMgr ?t1)"
      using assms(9) unfolding t1(1) r(5) .
    then show ?thesis unfolding accepted_set_def by simp
  qed
  have good: "good_job x ?j" using assms(7) by (simp add: good_entry_def)
  obtain t2 where t2: "doTssJob x ?j ?t1 = Ret t2" "t_calls t2 = t_calls ?t1 @ [job_call ?j]"
    "accepted_set (t_blameMgr t2) = insert (job_share x ?j) (accepted_set (t_blameMgr ?t1))"
    "t_culprits t2 = t_culprits ?t1"
    using good by (rule doTssJob_good)
  obtain t3 where t3: "doTssJob x ?j t2 = Ret t3" "t_calls t3 = t_calls t2 @ [job_call ?j]"
    using good by (rule doTssJob_good)
  have dup: "checkMsgDuplication (r\<lparr>ri_ident := bk_ident bm\<rparr>) (pid_id q) (t_blameMgr t2)"
    using t2(3) by (auto simp: r(5) accepted_set_def)
  have "updateLocal_loop x (\<lambda>_. []) pi p 0 [bm, bm] [] ?t1 = Ret (None, t3)"
    using r assms(4) nodup t1(2) t2(1) t3(1) by (simp add: Let_def drain_def)
  moreover have "updateLocal_loop x (\<lambda>n. if n = 1 then [0] else []) pi p 0 [bm, bm] [] ?t1 = Ret (None, t2)"
    using r assms(4) nodup t1(2) t2(1) dup by (simp add: Let_def drain_def)
  ultimately show ?thesis
    using assms(1-6) t1(3) t2(2) t3(2) by (simp add: updateLocal_def Let_def)
qed

lemma duplicate_entry_race_sample:
  "\<exists>t'. updateLocal sample_wf (\<lambda>_. []) (Some (sample_unicast [1, 1])) sample_start = Ret (None, t') \<and>
     length (t_calls t') = 2"
  using duplicate_entry_race [of sample_start sample_info "sample_unicast [1, 1]"
      "\<lparr>r_from = Some (sample_party 1), r_to = [], r_broadcast = False\<rparr>" "sample_party 1" "sample_party 1" "''b''"
      sample_wf "sample_entry 1"] sample_good_entry(1) [of 1]
  by (auto simp: sample_start_state sample_bulk sample_unicast_def) (auto simp: sample_start_def)

section \<open>Evidence against culprits\<close>

lemma map2_map_map: "map2 f (map g xs) (map h xs) = map (\<lambda>z. f (g z) (h z)) xs"
  by (induction xs) simp_all

text \<open>C29. Blame with evidence: when tss-lib names culprits, \<open>processInvalidMsgBlame\<close> appends one
  node per culprit under the reason of a broken share and remembers the culprits, and a node
  that carries data carries a message with a signature that verifies under the key of that
  very culprit for this ceremony; so an honest party cannot be accused with evidence it did not
  sign.\<close>

theorem invalid_share_evidence:
  assumes "tss_ok x pi mid t" "party_keys x (pi_id_map pi) K"
    and "pid_id ` set (te_culprits err) \<subseteq> fst ` set (pi_id_map pi)"
    and "\<And>i. i \<in> fst ` set (pi_id_map pi) \<Longrightarrow> CHR ''-'' \<notin> set i"
  shows "\<exists>t' nodes. processInvalidMsgBlame x rname rnd err t =
      Ret (Some (ErrWrap ''fail to set bytes to local party'' (te_cause err)), t') \<and>
    m_blame (t_blameMgr t') = setBlame TssBrokenMsg nodes (checkUnicast rnd) (m_blame (t_blameMgr t)) \<and>
    t_culprits t' = t_culprits t @ te_culprits err \<and>
    list_all2 (\<lambda>c nd. n_pubkey nd = K (pid_id c) \<and>
      (n_data nd \<noteq> [] \<or> n_sig nd \<noteq> [] \<longrightarrow>
        (\<exists>q. mget (pi_id_map pi) (pid_id c) = Some q \<and>
          verifySignature x (pid_key q) (n_data nd) (n_sig nd) mid))) (te_culprits err) nodes"
proof -
  let ?ids = "map pid_id (te_culprits err)"
  let ?get = "\<lambda>i. roundMgr_Get (m_roundMgr (t_blameMgr t)) (cache_key i rname)"
  define node :: "party_id \<Rightarrow> blame_node" where "node c = invalid_node (K (pid_id c)) (?get (pid_id c))" for c
  have keys: "accPubKeysFromPartyIDs x ?ids (pi_id_map pi) = Inr (map K ?ids)"
    using assms(3) by (intro accPubKeys_party_keys assms(2)) auto
  have ev: "n_pubkey (node c) = K (pid_id c) \<and> (n_data (node c) \<noteq> [] \<or> n_sig (node c) \<noteq> [] \<longrightarrow>
      (\<exists>q. mget (pi_id_map pi) (pid_id c) = Some q \<and>
        verifySignature x (pid_key q) (n_data (node c)) (n_sig (node c)) mid))"
    if c: "c \<in> set (te_culprits err)" for c
  proof (cases "?get (pid_id c)")
    case None
    then show ?thesis by (simp add: node_def invalid_node_def newNode_def)
  next
    case (Some w)
    from tss_ok_round [OF assms(1) Some] obtain p :: party_id and q where w: "cache_key (pid_id c) rname = cache_key (pid_id p) (wm_round w)"
      "mget (pi_id_map pi) (pid_id p) = Some q" "verifySignature x (pid_key q) (wm_msg w) (wm_sig w) mid"
      by (auto simp: share_in_def share_ok_def)
    have "pid_id p \<in> fst ` set (pi_id_map pi)" using w(2) by (metis mget_None_iff option.distinct(1))
    then have "pid_id c = pid_id p"
      using w(1) assms(3,4) c cache_key_inject by (metis image_subset_iff)
    with w Some show ?thesis by (simp add: node_def invalid_node_def newNode_def)
  qed
  let ?nodes = "map node (te_culprits err)"
  have "map2 invalid_node (map K ?ids) (map ?get ?ids) = ?nodes"
    by (simp add: map2_map_map node_def)
  then have "processInvalidMsgBlame x rname rnd err t = Ret (Some (ErrWrap ''fail to set bytes to local party'' (te_cause err)),
      with_blame (setBlame TssBrokenMsg ?nodes (checkUnicast rnd)) (t\<lparr>t_culprits := t_culprits t @ te_culprits err\<rparr>))"
    using keys tss_ok_party [OF assms(1)] by (simp add: processInvalidMsgBlame_def Let_def)
  moreover have "list_all2 (\<lambda>c nd. n_pubkey nd = K (pid_id c) \<and>
      (n_data nd \<noteq> [] \<or> n_sig nd \<noteq> [] \<longrightarrow>
        (\<exists>q. mget (pi_id_map pi) (pid_id c) = Some q \<and>
          verifySignature x (pid_key q) (n_data nd) (n_sig nd) mid))) (te_culprits err) ?nodes"
    using ev by (simp add: list_all2_conv_all_nth)
  ultimately show ?thesis by (force simp: with_blame_def with_mgr_def)
qed

theorem invalid_share_evidence_witness:
  "\<exists>t' nodes. processInvalidMsgBlame sample_common KEYGEN1 (sample_round 0 ''m'')
      \<lparr>te_culprits = [sample_party 2], te_cause = ErrExt ''bad''\<rparr> sample_start =
      Ret (Some (ErrWrap ''fail to set bytes to local party'' (ErrExt ''bad'')), t') \<and>
    m_blame (t_blameMgr t') = setBlame TssBrokenMsg nodes False (m_blame (t_blameMgr sample_start)) \<and>
    length nodes = 1"
proof -
  have "partyIDtoPubKey sample_common p = partyIDtoPubKey sample_conv p" for p
    by (cases p) (simp_all add: partyIDtoPubKey_def sample_common_defs)
  then have pk: "party_keys sample_common (pi_id_map sample_info) sample_key"
    using sample_party_keys by (simp add: party_keys_def sample_info_def)
  let ?err = "\<lparr>te_culprits = [sample_party 2], te_cause = ErrExt ''bad''\<rparr>"
  have ids: "fst ` set (pi_id_map sample_info) = {''0'', ''1'', ''2'', ''3''}"
    by (simp add: sample_info_def sample_ids_def)
  have culp: "pid_id ` set (te_culprits ?err) \<subseteq> fst ` set (pi_id_map sample_info)"
    by (simp add: ids sample_party_def nat_digits_sample)
  have dash: "CHR ''-'' \<notin> set i" if "i \<in> fst ` set (pi_id_map sample_info)" for i
    using that by (auto simp: ids)
  from invalid_share_evidence [OF ceremony_start_ok [OF sample_start_ok] pk culp dash,
      of KEYGEN1 "sample_round 0 ''m''"]
  obtain t' nodes where r: "processInvalidMsgBlame sample_common KEYGEN1 (sample_round 0 ''m'') ?err sample_start =
      Ret (Some (ErrWrap ''fail to set bytes to local party'' (te_cause ?err)), t')"
    "m_blame (t_blameMgr t') = setBlame TssBrokenMsg nodes (checkUnicast (sample_round 0 ''m'')) (m_blame (t_blameMgr sample_start))"
    "list_all2 (\<lambda>c nd. n_pubkey nd = sample_key (pid_id c) \<and>
      (n_data nd \<noteq> [] \<or> n_sig nd \<noteq> [] \<longrightarrow>
        (\<exists>q. mget (pi_id_map sample_info) (pid_id c) = Some q \<and>
          verifySignature sample_common (pid_key q) (n_data nd) (n_sig nd) []))) (te_culprits ?err) nodes"
    by blast
  have "length nodes = 1" using list_all2_lengthD [OF r(3)] by simp
  moreover have "\<not> checkUnicast (sample_round 0 ''m'')"
    by (simp add: checkUnicast_def sample_round_def KEYGEN1_def)
  ultimately show ?thesis using r(1,2) by auto
qed

section \<open>Outgoing messages\<close>

text \<open>A run of \<open>ProcessOutCh\<close> over the messages the parties produce.\<close>

fun outCh_run :: "'e common_ext_scheme \<Rightarrow> msg_type \<Rightarrow> btss_message list \<Rightarrow> tss_state \<Rightarrow> tss_state outcome" where
  "outCh_run x ty [] t = Ret t"
| "outCh_run x ty (m # ms) t = out_bind (processOutCh x m ty t) (\<lambda>(_, t'). outCh_run x ty ms t')"

text \<open>The bulk entry of a message.\<close>

definition bulk_of :: "btss_message \<Rightarrow> bulk_wire_msg" where
  "bulk_of m = (case bm_wire m of
      Inl e \<Rightarrow> newBulkWireMsg [] [] None
    | Inr (d, r) \<Rightarrow> newBulkWireMsg d (bm_moniker m) (Some r))"

definition round_broadcast :: "string \<Rightarrow> btss_message \<Rightarrow> bool" where
  "round_broadcast rty m \<longleftrightarrow> bm_type m = rty \<and>
     (\<exists>d r. bm_wire m = Inr (d, r) \<and> r_broadcast r \<and> r_to r = [])"

lemma outCh_collect:
  assumes "t_cachedUnicast t = []" "\<forall>m\<in>set ms. round_broadcast rty m"
    and "t_cachedBroadcast t = (if l = [] then [] else [(rty, l)])"
    and "int (length l + length ms) < t_msgNum t"
  shows "outCh_run x ty ms t = Ret (t\<lparr>t_cachedBroadcast :=
    (if l @ map bulk_of ms = [] then [] else [(rty, l @ map bulk_of ms)])\<rparr>)"
  using assms
proof (induction ms arbitrary: t l)
  case Nil
  then show ?case by simp
next
  case (Cons m ms)
  obtain d r where m: "bm_type m = rty" "bm_wire m = Inr (d, r)" "r_broadcast r"
    using Cons.prems(2) by (auto simp: round_broadcast_def)
  let ?t = "t\<lparr>t_cachedBroadcast := [(rty, l @ [bulk_of m])]\<rparr>"
  have "cache_append rty (bulk_of m) (t_cachedBroadcast t) = [(rty, l @ [bulk_of m])]"
    using Cons.prems(3) by (cases "l = []") (simp_all add: cache_append_def mput_def)
  then have "processOutCh x m ty t = Ret (None, ?t)"
    using m Cons.prems(1,4) by (simp add: processOutCh_def bulk_of_def Let_def)
  moreover have "outCh_run x ty ms ?t = Ret (?t\<lparr>t_cachedBroadcast :=
      (if (l @ [bulk_of m]) @ map bulk_of ms = [] then [] else [(rty, (l @ [bulk_of m]) @ map bulk_of ms)])\<rparr>)"
    by (rule Cons.IH) (use Cons.prems in auto)
  ultimately show ?case by simp
qed

text \<open>One bulk message per round: from empty caches, with \<open>msgNum\<close> messages to sign, fewer than
  \<open>msgNum\<close> broadcasts of a round are only collected and nothing is sent; the last one makes
  \<open>ProcessOutCh\<close> send exactly one message to all peers, which holds all of them in the order in
  which they were produced and is signed for the ceremony, and empties the cache.\<close>

lemma processOutCh_bulk:
  assumes "t_channel t" "t_cachedUnicast t = []" "t_cachedBroadcast t = []"
    and "\<forall>m\<in>set (ms @ [m]). round_broadcast rty m" "int (length ms) + 1 = t_msgNum t"
    and "x_marshal_bulk x (map bulk_of (ms @ [m])) = Inr buf"
    and "x_sign x (t_privateKey t) (buf @ str_bytes (t_msgID t)) = Inr sig"
    and "x_marshal_wire x \<lparr>wm_routing = bk_routing (bulk_of (hd (ms @ [m]))), wm_round = rty, wm_msg = buf,
      wm_sig = sig\<rparr> = Inr wire"
  shows "(\<exists>t1. outCh_run x ty ms t = Ret t1 \<and> t_sent t1 = t_sent t) \<and>
    outCh_run x ty (ms @ [m]) t = Ret (t\<lparr>t_sent := t_sent t @
      [\<lparr>b_wrapped = \<lparr>w_type = ty, w_msgid = t_msgID t, w_payload = wire\<rparr>, b_peers = t_p2pPeers t\<rparr>]\<rparr>)"
proof -
  let ?l = "map bulk_of (ms @ [m])"
  let ?t1 = "t\<lparr>t_cachedBroadcast := (if ms = [] then [] else [(rty, map bulk_of ms)])\<rparr>"
  have run: "outCh_run x ty ms t = Ret ?t1"
    using outCh_collect [of t ms rty "[]" x ty] assms(2-5) by simp
  have app: "outCh_run x ty (as @ [m]) s = out_bind (outCh_run x ty as s) (\<lambda>s'.
      out_bind (processOutCh x m ty s') (\<lambda>(_, s''). Ret s''))" for as s
    by (induction as arbitrary: s) (auto simp: out_bind_def split: outcome.splits)
  obtain d r where m: "bm_type m = rty" "bm_wire m = Inr (d, r)" "r_broadcast r"
    using assms(4) by (auto simp: round_broadcast_def)
  obtain h l' where l: "?l = h # l'" "h = bulk_of (hd (ms @ [m]))" by (cases ms) auto
  obtain rh where rh: "bk_routing h = Some rh" "r_to rh = []"
    using assms(4) l(2) by (cases ms) (auto simp: round_broadcast_def bulk_of_def newBulkWireMsg_def)
  let ?t2 = "t\<lparr>t_cachedBroadcast := [(rty, ?l)]\<rparr>"
  let ?b = "\<lparr>b_wrapped = \<lparr>w_type = ty, w_msgid = t_msgID t, w_payload = wire\<rparr>, b_peers = t_p2pPeers t\<rparr>"
  have "sendBulkMsg x rty ty ?l ?t2 = Ret (None, ?t2\<lparr>t_sent := t_sent t @ [?b]\<rparr>)"
    using assms rh unfolding l(1)
    by (simp add: sendBulkMsg_def generateSignature_def renderToP2P_def l)
  moreover have "int (length ?l) = t_msgNum ?t2" using assms(5) by simp
  ultimately have flush: "flush_broadcast x ty [(rty, ?l)] ?t2 = Ret (t\<lparr>t_sent := t_sent t @ [?b]\<rparr>)"
    using assms(3) by (simp add: mdel_def)
  have "cache_append rty (bulk_of m) (t_cachedBroadcast ?t1) = [(rty, ?l)]"
    by (cases "ms = []") (simp_all add: cache_append_def mput_def)
  moreover have "newBulkWireMsg d (bm_moniker m) (Some r) = bulk_of m" by (simp add: bulk_of_def m(2))
  ultimately have "processOutCh x m ty ?t1 = Ret (None, t\<lparr>t_sent := t_sent t @ [?b]\<rparr>)"
    using m flush assms(2) by (simp add: processOutCh_def Let_def)
  then show ?thesis by (simp add: run app)
qed

definition sample_out :: "byte \<Rightarrow> btss_message" where
  "sample_out c = \<lparr>bm_type = KEYGEN1, bm_broadcast = True, bm_moniker = ''m'',
     bm_wire = Inr ([c], \<lparr>r_from = Some (sample_party 0), r_to = [], r_broadcast = True\<rparr>)\<rparr>"

lemma processOutCh_bulk_sample:
  "outCh_run sample_wf TSSKeySignMsg [sample_out 1, sample_out 2] sample_start =
     Ret (sample_start\<lparr>t_sent := [\<lparr>b_wrapped = \<lparr>w_type = TSSKeySignMsg, w_msgid = [], w_payload = [1, 2]\<rparr>,
       b_peers = [''b'', ''c'', ''d'']\<rparr>]\<rparr>)"
  using processOutCh_bulk [of sample_start "[sample_out 1]" "sample_out 2" KEYGEN1 sample_wf "[1, 2]"
      "[97, 1, 2]" "[1, 2]" TSSKeySignMsg]
  by (simp add: sample_start_def round_broadcast_def sample_out_def bulk_of_def newBulkWireMsg_def sample_wf_def
      sample_common_defs)

end
