(* ===== verification/Signature_Notifier.thy ===== *)
theory Signature_Notifier
  imports Storage
begin

text \<open>
  The signature notifier of package \<open>keysign\<close> (\<open>notifier.go\<close>, \<open>signature_notifier.go\<close>): nodes
  that are not selected for a keysign ceremony wait for the signatures that the signers send
  them.  A notifier is an object with a response channel of capacity one; the objects are
  numbered and their channels kept in a store, because the waiting call holds its notifier after
  the handler has taken it out of the table.  ECDSA and protobuf are parameters.
\<close>

section \<open>External functions\<close>

text \<open>An \<open>ECSignature\<close> of tss-lib; a nil \<open>Signature\<close> field is \<open>None\<close>.\<close>

record ec_sig =
  es_signature :: "bytes option"
  es_recovery :: bytes
  es_r :: bytes
  es_s :: bytes
  es_m :: bytes

datatype keysign_status = KsUnknown | KsSuccess | KsFailed

record keysign_msg =
  km_id :: string
  km_signatures :: "bytes list"
  km_status :: keysign_status

record sign_ext = storage_ext +
  x_ecdsa_verify :: "nat \<times> nat \<Rightarrow> bytes \<Rightarrow> nat \<Rightarrow> nat \<Rightarrow> bool" \<comment> \<open>\<open>ecdsa.Verify\<close>\<close>
  x_marshal_ecsig :: "ec_sig \<Rightarrow> bytes res"
  x_unmarshal_ecsig :: "bytes \<Rightarrow> ec_sig res"
  x_marshal_keysign :: "keysign_msg \<Rightarrow> bytes res"
  x_unmarshal_keysign :: "bytes \<Rightarrow> keysign_msg res"

section \<open>notifier.go\<close>

record notifier =
  nf_ref :: nat
  nf_messageID :: string
  nf_messages :: "bytes list"
  nf_poolPubKey :: string

definition newNotifier :: "nat \<Rightarrow> string \<Rightarrow> bytes list \<Rightarrow> string \<Rightarrow> notifier res" where
  "newNotifier ref messageID msgs poolPubKey =
     (if length messageID = 0 then Inl (ErrText ''messageID is empty'')
      else if length msgs = 0 then Inl (ErrText ''messages are nil'')
      else if length poolPubKey = 0 then Inl (ErrText ''pool pubkey is empty'')
      else Inr \<lparr>nf_ref = ref, nf_messageID = messageID, nf_messages = msgs, nf_poolPubKey = poolPubKey\<rparr>)"

definition nf_verifySignature :: "'e sign_ext_scheme \<Rightarrow> notifier \<Rightarrow> ec_sig \<Rightarrow> bytes \<Rightarrow> bool res" where
  "nf_verifySignature x n data msg =
     (case x_unmarshal_acc_pk x (nf_poolPubKey n) of
        Inl e \<Rightarrow> Inl (ErrWrap ''fail to get pubkey from bech32 pubkey string'' e)
      | Inr pubKey \<Rightarrow>
         (case x_parse_pub x pubKey of
            Inl e \<Rightarrow> Inl e
          | Inr pub \<Rightarrow> Inr (x_ecdsa_verify x pub msg (be_nat (es_r data)) (be_nat (es_s data)))))"

text \<open>The loop of \<open>ProcessSignature\<close>: the \<open>i\<close>-th signature is checked against the \<open>i\<close>-th message.\<close>

fun verify_each :: "'e sign_ext_scheme \<Rightarrow> notifier \<Rightarrow> ec_sig list \<Rightarrow> bytes list \<Rightarrow> goerr option outcome" where
  "verify_each x n [] msgs = Ret None"
| "verify_each x n (s # ss) [] = Panic ''index out of range''"
| "verify_each x n (s # ss) (m # ms) =
     (if es_signature s = None then Ret (Some (ErrText ''keysign failed with nil signature''))
      else (case nf_verifySignature x n s m of
          Inl e \<Rightarrow> Ret (Some (ErrWrap ''fail to verify signature'' e))
        | Inr v \<Rightarrow> if \<not> v then Ret (Some (ErrText ''fail to verify signature'')) else verify_each x n ss ms))"

text \<open>The result tells whether the data was put into the response channel.\<close>

definition processSignature :: "'e sign_ext_scheme \<Rightarrow> notifier \<Rightarrow> ec_sig list \<Rightarrow> bool res outcome" where
  "processSignature x n data =
     (if length data \<noteq> 0 then
        out_bind (verify_each x n data (nf_messages n)) (\<lambda>e. case e of
            Some d \<Rightarrow> Ret (Inl d)
          | None \<Rightarrow> Ret (Inr True))
      else Ret (Inr False))"

section \<open>signature_notifier.go\<close>

definition signatureNotifierProtocol :: string where
  "signatureNotifierProtocol = ''/p2p/signatureNotifier''"

record sig_notifier =
  sn_hostID :: peer_id
  sn_notifiers :: "(string, notifier) gomap"
  sn_resp :: "(nat, ec_sig list list) gomap" \<comment> \<open>the response channels, by notifier object\<close>
  sn_next :: nat \<comment> \<open>the identity of the next notifier object\<close>
  sn_streams :: stream_mgr
  sn_deadline :: bool \<comment> \<open>the package variable \<open>ApplyDeadline\<close>\<close>
  sn_sent :: "(peer_id \<times> bytes) list" \<comment> \<open>what was written to opened streams\<close>

definition newSignatureNotifier :: "peer_id \<Rightarrow> bool \<Rightarrow> sig_notifier" where
  "newSignatureNotifier host deadline =
     \<lparr>sn_hostID = host, sn_notifiers = [], sn_resp = [], sn_next = 0, sn_streams = [], sn_deadline = deadline,
      sn_sent = []\<rparr>"

definition sn_getNotifier :: "sig_notifier \<Rightarrow> string \<Rightarrow> notifier option" where
  "sn_getNotifier sn i = mget (sn_notifiers sn) i"

definition addToNotifiers :: "notifier \<Rightarrow> sig_notifier \<Rightarrow> sig_notifier" where
  "addToNotifiers n sn = sn\<lparr>sn_notifiers := mput (nf_messageID n) n (sn_notifiers sn)\<rparr>"

definition deleteNotifier :: "string \<Rightarrow> sig_notifier \<Rightarrow> sig_notifier" where
  "deleteNotifier i sn = sn\<lparr>sn_notifiers := mdel i (sn_notifiers sn)\<rparr>"

definition removeNotifier :: "notifier \<Rightarrow> sig_notifier \<Rightarrow> sig_notifier" where
  "removeNotifier n sn = deleteNotifier (nf_messageID n) sn"

definition sn_addStream :: "string \<Rightarrow> net_stream \<Rightarrow> sig_notifier \<Rightarrow> sig_notifier" where
  "sn_addStream msgID st sn = sn\<lparr>sn_streams := addStream msgID (Some (ns_id st)) (sn_streams sn)\<rparr>"

definition sn_responses :: "sig_notifier \<Rightarrow> nat \<Rightarrow> ec_sig list list" where
  "sn_responses sn ref = (case mget (sn_resp sn) ref of None \<Rightarrow> [] | Some ds \<Rightarrow> ds)"

definition sn_respond :: "nat \<Rightarrow> ec_sig list \<Rightarrow> sig_notifier \<Rightarrow> sig_notifier" where
  "sn_respond ref d sn = sn\<lparr>sn_resp := mput ref (sn_responses sn ref @ [d]) (sn_resp sn)\<rparr>"

interpretation notifiers: kv_store_del sn_getNotifier "\<lambda>i n sn. sn\<lparr>sn_notifiers := mput i n (sn_notifiers sn)\<rparr>"
    "\<lambda>sn. True" deleteNotifier
  by unfold_locales (simp_all add: sn_getNotifier_def deleteNotifier_def fun_eq_iff)

fun unmarshal_ecsigs :: "'e sign_ext_scheme \<Rightarrow> bytes list \<Rightarrow> ec_sig list res" where
  "unmarshal_ecsigs x [] = Inr []"
| "unmarshal_ecsigs x (el # els) =
     (case x_unmarshal_ecsig x el of
        Inl e \<Rightarrow> Inl e
      | Inr s \<Rightarrow> (case unmarshal_ecsigs x els of Inl e \<Rightarrow> Inl e | Inr ss \<Rightarrow> Inr (s # ss)))"

text \<open>The handler replies before it decodes; a notifier that got valid data leaves the table.\<close>

definition sn_process :: "'e sign_ext_scheme \<Rightarrow> string \<Rightarrow> ec_sig list \<Rightarrow> sig_notifier \<Rightarrow> sig_notifier outcome" where
  "sn_process x msgID signatures sn =
     (case sn_getNotifier sn msgID of
        None \<Rightarrow> Ret sn
      | Some n \<Rightarrow>
         out_bind (processSignature x n signatures) (\<lambda>r. case r of
             Inl e \<Rightarrow> Ret sn
           | Inr finished \<Rightarrow>
              Ret (if finished then deleteNotifier msgID (sn_respond (nf_ref n) signatures sn) else sn)))"

definition sn_handleStream ::
  "'e sign_ext_scheme \<Rightarrow> net_stream \<Rightarrow> sig_notifier \<Rightarrow> (net_stream \<times> sig_notifier) outcome" where
  "sn_handleStream x stream sn =
     (case readStreamWithBuffer (sn_deadline sn) stream of
        (Inl e, s1) \<Rightarrow> Ret (s1, sn_addStream UNKNOWN stream sn)
      | (Inr payload, s1) \<Rightarrow>
         (let s2 = snd (writeStreamWithBuffer (sn_deadline sn) (str_bytes ''done'') s1) in
          case x_unmarshal_keysign x payload of
            Inl e \<Rightarrow> Ret (s2, sn_addStream UNKNOWN stream sn)
          | Inr msg \<Rightarrow>
             (let sn1 = sn_addStream (km_id msg) stream sn in
              case (if 0 < length (km_signatures msg) \<and> km_status msg = KsSuccess
                    then unmarshal_ecsigs x (km_signatures msg) else Inr []) of
                Inl e \<Rightarrow> Ret (s2, sn1)
              | Inr signatures \<Rightarrow>
                 out_bind (sn_process x (km_id msg) signatures sn1) (\<lambda>sn2. Ret (s2, sn2)))))"

section \<open>Sending\<close>

fun marshal_ecsigs :: "'e sign_ext_scheme \<Rightarrow> ec_sig list \<Rightarrow> bytes list res" where
  "marshal_ecsigs x [] = Inr []"
| "marshal_ecsigs x (s # ss) =
     (case x_marshal_ecsig x s of
        Inl e \<Rightarrow> Inl e
      | Inr b \<Rightarrow> (case marshal_ecsigs x ss of Inl e \<Rightarrow> Inl e | Inr bs \<Rightarrow> Inr (b # bs)))"

text \<open>A nil list of signatures is \<open>None\<close>.\<close>

definition keysign_message :: "'e sign_ext_scheme \<Rightarrow> string \<Rightarrow> ec_sig list option \<Rightarrow> keysign_msg res" where
  "keysign_message x messageID signatureData =
     (case signatureData of
        None \<Rightarrow> Inr \<lparr>km_id = messageID, km_signatures = [], km_status = KsFailed\<rparr>
      | Some sigs \<Rightarrow>
         (case marshal_ecsigs x sigs of
            Inl e \<Rightarrow> Inl (ErrWrap ''fail to marshal signature data to bytes'' e)
          | Inr bufs \<Rightarrow> Inr \<lparr>km_id = messageID, km_signatures = bufs, km_status = KsSuccess\<rparr>))"

definition sendOneMsgToPeer ::
  "'e sign_ext_scheme \<Rightarrow> network \<Rightarrow> string \<Rightarrow> ec_sig list option \<Rightarrow> peer_id \<Rightarrow> sig_notifier
     \<Rightarrow> goerr option \<times> sig_notifier" where
  "sendOneMsgToPeer x net messageID signatureData p sn =
     (case net p signatureNotifierProtocol of
        OpenFailed e \<Rightarrow> (Some (ErrWrap ''fail to create stream to peer'' e), sn)
      | OpenTimeout e \<Rightarrow> (Some (ErrWrap ''fail to create stream to peer'' e), sn)
      | Opened st \<Rightarrow>
         (let sn1 = sn_addStream messageID st sn in
          case keysign_message x messageID signatureData of
            Inl e \<Rightarrow> (Some e, sn1)
          | Inr ks \<Rightarrow>
             (case x_marshal_keysign x ks of
                Inl e \<Rightarrow> (Some (ErrWrap ''fail to marshal Keysign Signature to bytes'' e), sn1)
              | Inr ksBuf \<Rightarrow>
                 (case writeStreamWithBuffer (sn_deadline sn) ksBuf st of
                    (Some e, s1) \<Rightarrow> (Some (ErrWrap ''fail to write message to stream'' e), sn1)
                  | (None, s1) \<Rightarrow>
                     (let sn2 = sn1\<lparr>sn_sent := sn_sent sn1 @ [(p, ksBuf)]\<rparr> in
                      if ns_read_deadline s1 \<noteq> None then (ns_read_deadline s1, sn2)
                      else (if ns_in s1 = [] then Some (ns_in_err s1) else None, sn2))))))"

fun broadcastCommon ::
  "'e sign_ext_scheme \<Rightarrow> network \<Rightarrow> string \<Rightarrow> ec_sig list option \<Rightarrow> peer_id list \<Rightarrow> sig_notifier \<Rightarrow> sig_notifier" where
  "broadcastCommon x net messageID sig [] sn = sn"
| "broadcastCommon x net messageID sig (p # ps) sn =
     broadcastCommon x net messageID sig ps
       (if p = sn_hostID sn then sn else snd (sendOneMsgToPeer x net messageID sig p sn))"

definition broadcastSignature ::
  "'e sign_ext_scheme \<Rightarrow> network \<Rightarrow> string \<Rightarrow> ec_sig list option \<Rightarrow> peer_id list \<Rightarrow> sig_notifier
     \<Rightarrow> goerr option \<times> sig_notifier" where
  "broadcastSignature x net messageID sig peers sn = (None, broadcastCommon x net messageID sig peers sn)"

definition broadcastFailed ::
  "'e sign_ext_scheme \<Rightarrow> network \<Rightarrow> string \<Rightarrow> peer_id list \<Rightarrow> sig_notifier \<Rightarrow> goerr option \<times> sig_notifier" where
  "broadcastFailed x net messageID peers sn = (None, broadcastCommon x net messageID None peers sn)"

section \<open>WaitForSignature\<close>

text \<open>What happens while a call waits: the handler runs on a stream, or the select takes a value of
  the response channel, the timer or the signature channel.\<close>

datatype sig_event = SigStream net_stream | SigTake | SigTimeout | SigChan string

fun sigWait ::
  "'e sign_ext_scheme \<Rightarrow> nat \<Rightarrow> sig_event list \<Rightarrow> sig_notifier
     \<Rightarrow> ((ec_sig list \<times> goerr option) \<times> sig_notifier) outcome option" where
  "sigWait x ref [] sn = None"
| "sigWait x ref (SigStream s # es) sn =
     (case sn_handleStream x s sn of
        Panic m \<Rightarrow> Some (Panic m)
      | Ret (s1, sn1) \<Rightarrow> sigWait x ref es sn1)"
| "sigWait x ref (SigTake # es) sn =
     (case sn_responses sn ref of
        [] \<Rightarrow> sigWait x ref es sn
      | d # ds \<Rightarrow> Some (Ret ((d, None), sn\<lparr>sn_resp := mput ref ds (sn_resp sn)\<rparr>)))"
| "sigWait x ref (SigTimeout # es) sn = Some (Ret (([], Some (ErrText ''timeout: didn't receive signature'')), sn))"
| "sigWait x ref (SigChan r # es) sn = Some (Ret (([], Some ErrSigGenerated), sn))"

text \<open>The first component tells whether \<open>tWg.Done\<close> was called, on which the caller waits.\<close>

definition waitForSignature ::
  "'e sign_ext_scheme \<Rightarrow> string \<Rightarrow> bytes list \<Rightarrow> string \<Rightarrow> sig_event list \<Rightarrow> sig_notifier
     \<Rightarrow> bool \<times> ((ec_sig list \<times> goerr option) \<times> sig_notifier) outcome option" where
  "waitForSignature x messageID message poolPubKey es sn =
     (case newNotifier (sn_next sn) messageID message poolPubKey of
        Inl e \<Rightarrow> (False, Some (Ret (([], Some (ErrText ''fail to create notifier'')), sn)))
      | Inr n \<Rightarrow>
         (True, map_option (\<lambda>r. out_bind r (\<lambda>(d, sn1). Ret (d, removeNotifier n sn1)))
            (sigWait x (nf_ref n) es (addToNotifiers n (sn\<lparr>sn_next := Suc (sn_next sn)\<rparr>)))))"

definition sn_ReleaseStream :: "string \<Rightarrow> sig_notifier \<Rightarrow> nat list \<times> sig_notifier" where
  "sn_ReleaseStream msgID sn =
     (let (reset, sm) = releaseStream msgID (sn_streams sn) in (reset, sn\<lparr>sn_streams := sm\<rparr>))"

section \<open>What a waiting call returns\<close>

text \<open>A list of signatures for the messages of a notifier, position by position.\<close>

definition signatures_for :: "'e sign_ext_scheme \<Rightarrow> string \<Rightarrow> bytes list \<Rightarrow> ec_sig list \<Rightarrow> bool" where
  "signatures_for x pool msgs sigs \<longleftrightarrow>
     sigs \<noteq> [] \<and> length sigs \<le> length msgs \<and>
     (\<exists>b pub. x_unmarshal_acc_pk x pool = Inr b \<and> x_parse_pub x b = Inr pub \<and>
       (\<forall>i<length sigs. es_signature (sigs ! i) \<noteq> None \<and>
          x_ecdsa_verify x pub (msgs ! i) (be_nat (es_r (sigs ! i))) (be_nat (es_s (sigs ! i)))))"

lemma nf_verifySignature_True:
  "nf_verifySignature x n s m = Inr True \<longleftrightarrow>
     (\<exists>b pub. x_unmarshal_acc_pk x (nf_poolPubKey n) = Inr b \<and> x_parse_pub x b = Inr pub \<and>
       x_ecdsa_verify x pub m (be_nat (es_r s)) (be_nat (es_s s)))"
  by (auto simp: nf_verifySignature_def split: sum.splits)

lemma verify_each_None:
  "verify_each x n ss ms = Ret None \<longleftrightarrow>
     length ss \<le> length ms \<and>
     (\<forall>i<length ss. es_signature (ss ! i) \<noteq> None \<and> nf_verifySignature x n (ss ! i) (ms ! i) = Inr True)"
proof (induction ss arbitrary: ms)
  case (Cons s ss)
  show ?case
  proof (cases ms)
    case ms: (Cons m ms')
    then show ?thesis using Cons.IH [of ms'] by (auto simp: All_less_Suc2 split: sum.splits)
  qed simp
qed simp

lemma processSignature_True:
  "processSignature x n d = Ret (Inr True) \<longleftrightarrow> signatures_for x (nf_poolPubKey n) (nf_messages n) d"
proof (cases d)
  case (Cons s ss)
  have "processSignature x n d = Ret (Inr True) \<longleftrightarrow> verify_each x n d (nf_messages n) = Ret None"
    using Cons by (cases "verify_each x n d (nf_messages n)") (auto simp: processSignature_def split: option.splits)
  then show ?thesis
    using Cons by (auto simp: verify_each_None signatures_for_def nf_verifySignature_True)
qed (simp add: processSignature_def signatures_for_def)

text \<open>The invariant of the table: notifiers are older than the next object, a notifier in the table
  has an empty channel, and no channel holds more than its capacity.\<close>

definition sn_ok :: "sig_notifier \<Rightarrow> bool" where
  "sn_ok sn \<longleftrightarrow>
     (\<forall>k m. sn_getNotifier sn k = Some m \<longrightarrow>
        nf_ref m < sn_next sn \<and> nf_messageID m = k \<and> sn_responses sn (nf_ref m) = []) \<and>
     (\<forall>k k' m m'. sn_getNotifier sn k = Some m \<longrightarrow> sn_getNotifier sn k' = Some m' \<longrightarrow> nf_ref m = nf_ref m' \<longrightarrow> k = k') \<and>
     (\<forall>r. length (sn_responses sn r) \<le> 1) \<and> (\<forall>r. sn_next sn \<le> r \<longrightarrow> sn_responses sn r = [])"

text \<open>Two states that differ in streams and sent messages only.\<close>

lemma sn_frame [simp]:
  "sn_getNotifier (sn_addStream k st sn) = sn_getNotifier sn"
  "sn_responses (sn_addStream k st sn) = sn_responses sn"
  "sn_next (sn_addStream k st sn) = sn_next sn"
  "sn_deadline (sn_addStream k st sn) = sn_deadline sn"
  "sn_responses (deleteNotifier k sn) = sn_responses sn"
  "sn_next (deleteNotifier k sn) = sn_next sn"
  "sn_getNotifier (sn_respond r d sn) = sn_getNotifier sn"
  "sn_next (sn_respond r d sn) = sn_next sn"
  by (simp_all add: sn_addStream_def sn_getNotifier_def sn_responses_def deleteNotifier_def sn_respond_def fun_eq_iff)

lemma sn_responses_respond: "sn_responses (sn_respond r d sn) = (sn_responses sn)(r := sn_responses sn r @ [d])"
  by (auto simp: sn_respond_def sn_responses_def fun_eq_iff)

lemma sn_responses_take:
  "sn_responses (sn\<lparr>sn_resp := mput r ds (sn_resp sn)\<rparr>) = (sn_responses sn)(r := ds)"
  by (auto simp: sn_responses_def fun_eq_iff)

lemma sn_getNotifier_take [simp]: "sn_getNotifier (sn\<lparr>sn_resp := q\<rparr>) = sn_getNotifier sn"
  by (simp add: sn_getNotifier_def fun_eq_iff)

lemma sn_ok_addStream [tss_inv]: "sn_ok sn \<Longrightarrow> sn_ok (sn_addStream k st sn)"
  by (simp add: sn_ok_def)

lemma sn_ok_delete [tss_inv]: "sn_ok sn \<Longrightarrow> sn_ok (deleteNotifier k sn)"
  unfolding sn_ok_def by (simp add: notifiers.get_del)

lemma sn_ok_finish:
  assumes "sn_ok sn" "sn_getNotifier sn k = Some n"
  shows "sn_ok (deleteNotifier k (sn_respond (nf_ref n) d sn))"
proof -
  have "nf_ref m \<noteq> nf_ref n" if "sn_getNotifier sn k' = Some m" "k' \<noteq> k" for k' m
    using assms that unfolding sn_ok_def by metis
  moreover have "nf_ref n < sn_next sn" "sn_responses sn (nf_ref n) = []" using assms by (auto simp: sn_ok_def)
  ultimately show ?thesis
    using assms(1) by (auto simp: sn_ok_def notifiers.get_del sn_responses_respond)
qed

lemma sn_process_cases:
  assumes "sn_process x k d sn = Ret sn'"
  obtains "sn' = sn"
  | n where "sn_getNotifier sn k = Some n" "processSignature x n d = Ret (Inr True)"
      "sn' = deleteNotifier k (sn_respond (nf_ref n) d sn)"
proof (cases "sn_getNotifier sn k")
  case None
  with assms have "sn' = sn" by (simp add: sn_process_def)
  then show ?thesis by (rule that(1))
next
  case (Some n)
  with assms obtain r where r: "processSignature x n d = Ret r" by (auto simp: sn_process_def out_bind_Ret_iff)
  show ?thesis
  proof (cases "r = Inr True")
    case True
    with assms Some r have "sn' = deleteNotifier k (sn_respond (nf_ref n) d sn)" by (simp add: sn_process_def)
    with Some r True show ?thesis by (intro that(2)) simp_all
  next
    case False
    with assms Some r have "sn' = sn" by (cases r) (simp_all add: sn_process_def)
    then show ?thesis by (rule that(1))
  qed
qed

lemma sn_process_ok [tss_inv]: "sn_ok sn \<Longrightarrow> sn_process x k d sn = Ret sn' \<Longrightarrow> sn_ok sn'"
  by (erule sn_process_cases) (simp_all add: sn_ok_finish)

lemma sn_handleStream_cases:
  assumes "sn_handleStream x s sn = Ret (s', sn')"
  obtains k where "sn' = sn_addStream k s sn"
  | k d where "sn_process x k d (sn_addStream k s sn) = Ret sn'"
  using assms
  by (auto simp: sn_handleStream_def Let_def case_prod_unfold out_bind_Ret_iff split: sum.splits if_splits prod.splits)

lemma sn_handleStream_ok [tss_inv]: "sn_ok sn \<Longrightarrow> sn_handleStream x s sn = Ret (s', sn') \<Longrightarrow> sn_ok sn'"
  by (erule sn_handleStream_cases) (auto intro: sn_ok_addStream sn_process_ok)

text \<open>The invariant of a waiting call for the notifier \<open>n\<close>.\<close>

definition wait_ok :: "'e sign_ext_scheme \<Rightarrow> notifier \<Rightarrow> sig_notifier \<Rightarrow> bool" where
  "wait_ok x n sn \<longleftrightarrow> sn_ok sn \<and>
     (\<forall>k m. sn_getNotifier sn k = Some m \<longrightarrow> nf_ref m = nf_ref n \<longrightarrow> m = n) \<and>
     (\<forall>d\<in>set (sn_responses sn (nf_ref n)). signatures_for x (nf_poolPubKey n) (nf_messages n) d)"

lemma wait_ok_process:
  assumes "wait_ok x n sn" "sn_process x k d sn = Ret sn'"
  shows "wait_ok x n sn'"
  using assms(2)
proof (cases rule: sn_process_cases)
  case 1
  with assms(1) show ?thesis by simp
next
  case (2 m)
  have "sn_ok sn'" using assms by (auto simp: wait_ok_def intro: sn_process_ok)
  moreover have "m = n" if "nf_ref m = nf_ref n" using assms(1) 2 that by (simp add: wait_ok_def)
  ultimately show ?thesis
    using assms(1) 2
    by (auto simp: wait_ok_def notifiers.get_del sn_responses_respond processSignature_True split: if_splits)
qed

lemma wait_ok_handle: "wait_ok x n sn \<Longrightarrow> sn_handleStream x s sn = Ret (s', sn') \<Longrightarrow> wait_ok x n sn'"
proof (erule sn_handleStream_cases)
  fix k
  assume "wait_ok x n sn"
  then have a: "wait_ok x n (sn_addStream k s sn)" by (simp add: wait_ok_def sn_ok_addStream)
  { assume "sn' = sn_addStream k s sn" with a show "wait_ok x n sn'" by simp }
  { fix d assume "sn_process x k d (sn_addStream k s sn) = Ret sn'"
    with a show "wait_ok x n sn'" by (rule wait_ok_process) }
qed

lemma sigWait_ok:
  assumes "wait_ok x n sn" "sigWait x (nf_ref n) es sn = Some (Ret ((d, err), sn'))"
  shows "sn_ok sn' \<and> (err = None \<longrightarrow> signatures_for x (nf_poolPubKey n) (nf_messages n) d)"
  using assms
proof (induction x "nf_ref n" es sn rule: sigWait.induct)
  case (2 x s es sn)
  then obtain s1 sn1 where h: "sn_handleStream x s sn = Ret (s1, sn1)" by (auto split: outcome.splits)
  with "2.prems" "2.hyps" wait_ok_handle [OF "2.prems"(1) h] show ?case by simp
next
  case (3 x es sn)
  show ?case
  proof (cases "sn_responses sn (nf_ref n)")
    case Nil
    with 3 show ?thesis by simp
  next
    case (Cons e ds)
    with "3.prems" have "d = e" "err = None" "sn' = sn\<lparr>sn_resp := mput (nf_ref n) ds (sn_resp sn)\<rparr>" by auto
    moreover from this have "sn_responses sn' = (sn_responses sn)(nf_ref n := [])"
      using "3.prems"(1) Cons by (auto simp: sn_responses_take wait_ok_def sn_ok_def dest: spec [of _ "nf_ref n"])
    ultimately show ?thesis using "3.prems"(1) Cons by (auto simp: wait_ok_def sn_ok_def)
  qed
qed (auto simp: wait_ok_def)

lemma wait_ok_start:
  assumes "sn_ok sn" "newNotifier (sn_next sn) i ms pool = Inr n"
  shows "wait_ok x n (addToNotifiers n (sn\<lparr>sn_next := Suc (sn_next sn)\<rparr>))"
proof -
  have n: "nf_ref n = sn_next sn" "nf_messageID n = i"
    using assms(2) by (auto simp: newNotifier_def split: if_splits)
  let ?sn = "addToNotifiers n (sn\<lparr>sn_next := Suc (sn_next sn)\<rparr>)"
  have "sn_getNotifier ?sn = (sn_getNotifier sn)(i \<mapsto> n)" "sn_responses ?sn = sn_responses sn"
    "sn_next ?sn = Suc (sn_next sn)"
    by (simp_all add: addToNotifiers_def sn_getNotifier_def sn_responses_def n fun_eq_iff)
  moreover have lt: "nf_ref m < sn_next sn" if "sn_getNotifier sn k = Some m" for k m
    using assms(1) that by (auto simp: sn_ok_def)
  ultimately show ?thesis
    using assms(1) n by (auto simp: wait_ok_def sn_ok_def less_SucI split: if_splits dest: lt)
qed

text \<open>A node that is not a signer returns verified signatures only: when \<open>WaitForSignature\<close>
  returns without error, whatever streams were handled meanwhile, the result is a non empty list
  of signatures, no longer than the list of messages, and the signature at each position verifies
  under the pool key for the message at that position; the notifier has left the table and the
  table is consistent again.\<close>

lemma waitForSignature_verified:
  assumes "sn_ok sn" "waitForSignature x i msgs pool es sn = (started, Some (Ret ((sigs, None), sn')))"
  shows "signatures_for x pool msgs sigs \<and> sn_getNotifier sn' i = None \<and> sn_ok sn'"
proof -
  obtain n where n: "newNotifier (sn_next sn) i msgs pool = Inr n"
    using assms(2) by (auto simp: waitForSignature_def split: sum.splits)
  then have f: "nf_poolPubKey n = pool" "nf_messages n = msgs" "nf_messageID n = i"
    by (auto simp: newNotifier_def split: if_splits)
  let ?sn = "addToNotifiers n (sn\<lparr>sn_next := Suc (sn_next sn)\<rparr>)"
  obtain sn1 where "sigWait x (nf_ref n) es ?sn = Some (Ret ((sigs, None), sn1))" "sn' = removeNotifier n sn1"
    using assms(2) n by (auto simp: waitForSignature_def out_bind_Ret_iff)
  with sigWait_ok [OF wait_ok_start [OF assms(1) n]] have "sn_ok sn1" "signatures_for x pool msgs sigs"
    using f by blast+
  with \<open>sn' = _\<close> f show ?thesis
    by (simp add: removeNotifier_def notifiers.get_del sn_ok_delete)
qed

lemma verify_each_extra:
  "verify_each x n ss ms = Ret None \<Longrightarrow> length ss = length ms \<Longrightarrow>
     verify_each x n (ss @ [e]) ms = Panic ''index out of range''"
proof (induction ss arbitrary: ms)
  case (Cons s ss)
  then show ?case by (cases ms) (auto split: sum.splits if_splits)
qed simp

text \<open>The number of signatures is not checked: a notifier that waits for several messages accepts
  the valid signatures of a leading part of them as the complete result, and one more signature
  than there are messages, behind valid ones, makes \<open>ProcessSignature\<close> index out of range, which
  stops the node.\<close>

lemma processSignature_lengths:
  assumes "signatures_for x (nf_poolPubKey n) (nf_messages n) sigs" "length sigs = length (nf_messages n)"
  shows "(0 < k \<longrightarrow> processSignature x n (take k sigs) = Ret (Inr True)) \<and>
    processSignature x n (sigs @ [extra]) = Panic ''index out of range''"
proof -
  have v: "verify_each x n sigs (nf_messages n) = Ret None"
    using assms(1) by (auto simp: verify_each_None signatures_for_def nf_verifySignature_True)
  have "signatures_for x (nf_poolPubKey n) (nf_messages n) (take k sigs)" if "0 < k"
    using assms(1) that by (auto simp: signatures_for_def)
  with verify_each_extra [OF v assms(2)] show ?thesis
    by (auto simp: processSignature_True) (simp add: processSignature_def)
qed

section \<open>Samples\<close>

definition sample_sign :: sign_ext where
  "sample_sign = storage_ext.extend sample_storage
     (sign_ext.fields (\<lambda>pub m r s. m = [of_nat r]) (\<lambda>s. Inr (es_r s))
       (\<lambda>b. Inr \<lparr>es_signature = Some b, es_recovery = [], es_r = b, es_s = [1], es_m = b\<rparr>)
       (\<lambda>m. Inr (concat (km_signatures m)))
       (\<lambda>b. Inr \<lparr>km_id = ''m'', km_signatures = map (\<lambda>c. [c]) b, km_status = KsSuccess\<rparr>))"

lemmas sample_sign_defs = sample_sign_def storage_ext.extend_def sign_ext.fields_def sample_storage_defs

definition sample_sig :: "byte \<Rightarrow> ec_sig" where
  "sample_sig c = \<lparr>es_signature = Some [c], es_recovery = [], es_r = [c], es_s = [1], es_m = [c]\<rparr>"

lemma sn_ok_new: "sn_ok (newSignatureNotifier h d)"
  by (simp add: sn_ok_def newSignatureNotifier_def sn_getNotifier_def sn_responses_def)

lemma waitForSignature_verified_sample:
  "\<exists>sn'. waitForSignature sample_sign ''m'' [[3], [4]] ''p'' [SigStream (sample_stream ''b'' [3, 4]), SigTake]
      (newSignatureNotifier ''a'' True) = (True, Some (Ret (([sample_sig 3, sample_sig 4], None), sn'))) \<and>
    signatures_for sample_sign ''p'' [[3], [4]] [sample_sig 3, sample_sig 4]"
proof -
  obtain sn' where w: "waitForSignature sample_sign ''m'' [[3], [4]] ''p'' [SigStream (sample_stream ''b'' [3, 4]), SigTake]
      (newSignatureNotifier ''a'' True) = (True, Some (Ret (([sample_sig 3, sample_sig 4], None), sn')))"
    by (simp add: waitForSignature_def newNotifier_def newSignatureNotifier_def addToNotifiers_def
        sn_handleStream_def sample_stream_read MaxPayload_def sn_process_def sn_getNotifier_def sn_addStream_def
        processSignature_def nf_verifySignature_def sample_sign_defs be_nat_def sn_respond_def sn_responses_def
        deleteNotifier_def sample_sig_def Let_def)
  with waitForSignature_verified [OF sn_ok_new w] show ?thesis by blast
qed

lemma processSignature_lengths_sample:
  "processSignature sample_sign \<lparr>nf_ref = 0, nf_messageID = ''m'', nf_messages = [[3], [4]], nf_poolPubKey = ''p''\<rparr>
     [sample_sig 3] = Ret (Inr True)"
proof -
  have "signatures_for sample_sign ''p'' [[3], [4]] [sample_sig 3, sample_sig 4]"
    by (simp add: signatures_for_def sample_sign_defs sample_sig_def be_nat_def less_Suc_eq All_less_Suc2)
  then show ?thesis
    using processSignature_lengths [of sample_sign "\<lparr>nf_ref = 0, nf_messageID = ''m'', nf_messages = [[3], [4]],
      nf_poolPubKey = ''p''\<rparr>" "[sample_sig 3, sample_sig 4]" 1] by simp
qed

end
