(* ===== verification/Ceremony.thy ===== *)
theory Ceremony
  imports Clock Tss_Props Signature_Notifier
begin

text \<open>
  What the packages \<open>keygen\<close> and \<open>keysign\<close> do alike around \<open>common.TssCommon\<close>: they fill the
  party tables before a ceremony, name the nodes to blame when its timer fires, and wait for the
  other parties after it.  While a ceremony runs, the message loop \<open>ProcessInboundMessages\<close> runs
  beside it on the same state; its steps are events of the ceremony.
\<close>

section \<open>Status, requests and responses\<close>

datatype tss_status = NA | Success | Fail

record keygen_request =
  kgq_keys :: "string list"
  kgq_height :: int
  kgq_version :: string

definition newKeygenRequest :: "string list \<Rightarrow> int \<Rightarrow> string \<Rightarrow> keygen_request" where
  "newKeygenRequest keys blockHeight version =
     \<lparr>kgq_keys = keys, kgq_height = blockHeight, kgq_version = version\<rparr>"

text \<open>An address is its string.\<close>

record keygen_response =
  kgr_pubKey :: string
  kgr_address :: string
  kgr_status :: tss_status
  kgr_blame :: blame_info

definition newKeygenResponse :: "string \<Rightarrow> string \<Rightarrow> tss_status \<Rightarrow> blame_info \<Rightarrow> keygen_response" where
  "newKeygenResponse pk addr status blame =
     \<lparr>kgr_pubKey = pk, kgr_address = addr, kgr_status = status, kgr_blame = blame\<rparr>"

record keysign_request =
  ksq_pool :: string
  ksq_messages :: "string list"
  ksq_signers :: "string list"
  ksq_height :: int
  ksq_version :: string

definition newKeysignRequest ::
  "string \<Rightarrow> string list \<Rightarrow> int \<Rightarrow> string list \<Rightarrow> string \<Rightarrow> keysign_request" where
  "newKeysignRequest pk msgs blockHeight signers version =
     \<lparr>ksq_pool = pk, ksq_messages = msgs, ksq_signers = signers, ksq_height = blockHeight,
      ksq_version = version\<rparr>"

record signature =
  sg_msg :: string
  sg_r :: string
  sg_s :: string
  sg_recovery :: string

record keysign_response =
  ksr_signatures :: "signature list"
  ksr_status :: tss_status
  ksr_blame :: blame_info

definition newSignature :: "string \<Rightarrow> string \<Rightarrow> string \<Rightarrow> string \<Rightarrow> signature" where
  "newSignature msg r s recoveryID = \<lparr>sg_msg = msg, sg_r = r, sg_s = s, sg_recovery = recoveryID\<rparr>"

definition newKeysignResponse :: "signature list \<Rightarrow> tss_status \<Rightarrow> blame_info \<Rightarrow> keysign_response" where
  "newKeysignResponse signatures status blame =
     \<lparr>ksr_signatures = signatures, ksr_status = status, ksr_blame = blame\<rparr>"

section \<open>Setting a ceremony up\<close>

text \<open>The party tables: the result is \<open>False\<close> when a party has no peer id, which the callers answer
  with an error variable that is nil at that point.\<close>

definition setupCeremony ::
  "'e conv_ext_scheme \<Rightarrow> (string, party) gomap \<Rightarrow> party_id list \<Rightarrow> tss_state \<Rightarrow> (bool \<times> tss_state) outcome" where
  "setupCeremony x partyMap partiesID t =
     (let partyIDMap = setupPartyIDMap partiesID;
          (err1, m1) = setupIDMaps x partyIDMap (t_partyIDtoP2PID t);
          (err2, m2) = setupIDMaps x partyIDMap (m_partyIDtoP2PID (t_blameMgr t));
          t1 = with_mgr (\<lambda>m. m\<lparr>m_partyIDtoP2PID := m2\<rparr>) (t\<lparr>t_partyIDtoP2PID := m1\<rparr>)
      in if err1 \<noteq> None \<or> err2 \<noteq> None then Ret (False, t1)
         else out_bind (setPartyInfo partyMap partyIDMap (t_blameMgr t1)) (\<lambda>m.
              let t2 = setTssPartyInfo (Some \<lparr>pi_party_map = partyMap, pi_id_map = partyIDMap\<rparr>)
                         (t1\<lparr>t_blameMgr := m\<rparr>)
              in out_bind (getPeersID x (Some (t_partyIDtoP2PID t2)) (t_localPeerID t2)) (\<lambda>ps.
                   Ret (True, t2\<lparr>t_p2pPeers := ps\<rparr>))))"

section \<open>Blame on a timeout\<close>

text \<open>The orders in which the runtime ranges over the sets and maps of the three policies.\<close>

record blame_env =
  be_online :: "string list \<Rightarrow> string list"
  be_silent :: "string list \<Rightarrow> string list"
  be_groups :: "(string \<times> string list list) list \<Rightarrow> (string \<times> string list list) list"

definition ceremony_threshold :: "tss_state \<Rightarrow> int" where
  "ceremony_threshold t =
     (case getThreshold (int (length (t_p2pPeers t)) + 1) of Inl e \<Rightarrow> 0 | Inr th \<Rightarrow> th)"

text \<open>A policy whose result is only used when it names at least one and at most \<open>threshold\<close> nodes.\<close>

definition few :: "int \<Rightarrow> 'a list \<Rightarrow> bool" where
  "few threshold nodes \<longleftrightarrow> 0 < length nodes \<and> int (length nodes) \<le> threshold"

definition unicastStep ::
  "'e conv_ext_scheme \<Rightarrow> blame_env \<Rightarrow> string \<Rightarrow> string \<Rightarrow> tss_state \<Rightarrow> tss_state outcome" where
  "unicastStep x env failReason ty t =
     out_bind (getUnicastBlame x (be_online env) (t_blameMgr t) ty) (\<lambda>r.
       let nodes = (case r of Inl e \<Rightarrow> [] | Inr l \<Rightarrow> l) in
       Ret (if few (ceremony_threshold t) nodes then with_blame (setBlame failReason nodes True) t else t))"

definition broadcastStep ::
  "'e conv_ext_scheme \<Rightarrow> blame_env \<Rightarrow> string \<Rightarrow> tss_state \<Rightarrow> tss_state outcome" where
  "broadcastStep x env ty t =
     out_bind (getBroadcastBlame x (be_silent env) (t_blameMgr t) ty) (\<lambda>r.
       Ret (with_blame (addBlameNodes (case r of Inl e \<Rightarrow> [] | Inr l \<Rightarrow> l)) t))"

definition missingStep ::
  "'e conv_ext_scheme \<Rightarrow> blame_env \<Rightarrow> nat \<Rightarrow> tss_state \<Rightarrow> tss_state outcome" where
  "missingStep x env rounds t =
     (if bl_nodes (m_blame (t_blameMgr t)) = [] then
        out_bind (tssMissingShareBlame x (be_groups env) rounds (t_blameMgr t)) (\<lambda>(e, nodes, isUnicast).
          Ret (if few (ceremony_threshold t) nodes
               then with_blame (\<lambda>b. (addBlameNodes nodes b)\<lparr>bl_unicast := isUnicast\<rparr>) t else t))
      else Ret t)"

definition timeoutBlame ::
  "'e conv_ext_scheme \<Rightarrow> blame_env \<Rightarrow> string \<Rightarrow> string \<Rightarrow> nat \<Rightarrow> tss_state \<Rightarrow> tss_state outcome" where
  "timeoutBlame x env unicastType lastType rounds t =
     (let reason = bl_reason (m_blame (t_blameMgr t));
          failReason = (if reason = [] then TssTimeout else reason)
      in out_bind (unicastStep x env failReason unicastType t) (\<lambda>t1.
         out_bind (broadcastStep x env lastType t1) (missingStep x env rounds)))"

text \<open>The nodes a policy may name: the keys of the parties other than the local one, without
  evidence.\<close>

definition others :: "party_info \<Rightarrow> (string \<Rightarrow> string) \<Rightarrow> string \<Rightarrow> blame_node set" where
  "others pi K me = (\<lambda>i. newNode (K i) [] []) ` (fst ` set (pi_id_map pi) - {me})"

text \<open>What the policies find in the tables of a running ceremony.\<close>

definition policy_tables :: "'e conv_ext_scheme \<Rightarrow> party_info \<Rightarrow> (string \<Rightarrow> string) \<Rightarrow> nat \<Rightarrow> blame_mgr \<Rightarrow> bool" where
  "policy_tables x pi K rounds m \<longleftrightarrow>
     m_partyInfo m = Some pi \<and> party_keys x (pi_id_map pi) K \<and>
     fst ` set (m_partyIDtoP2PID m) \<subseteq> fst ` set (pi_id_map pi) \<and>
     (\<forall>ri v. (ri, v) \<in> set (m_acceptedShares m) \<longrightarrow> 0 \<le> ri_index ri \<and> ri_index ri < int rounds) \<and>
     (\<forall>k w. (k, w) \<in> set (m_roundMgr m) \<longrightarrow> (\<exists>rt p. wm_routing w = Some rt \<and> r_from rt = Some p))"

lemma policy_tables_with_blame [simp]:
  "policy_tables x pi K rounds (m\<lparr>m_blame := b\<rparr>) = policy_tables x pi K rounds m"
  by (simp add: policy_tables_def)

lemma roundMgr_GetByRound_Ret:
  "(\<And>k w. (k, w) \<in> set m \<Longrightarrow> \<exists>rt p. wm_routing w = Some rt \<and> r_from rt = Some p) \<Longrightarrow>
     \<exists>ids. roundMgr_GetByRound m r = Ret ids"
proof (induction m)
  case (Cons e m)
  obtain k w where "e = (k, w)" by fastforce
  moreover from this Cons.prems [of k w] obtain rt p where "wm_routing w = Some rt" "r_from rt = Some p" by auto
  moreover have "\<exists>ids. roundMgr_GetByRound m r = Ret ids" 
    using Cons.prems by (intro Cons.IH) (meson list.set_intros(2))
  ultimately show ?case by auto
qed simp

lemma partiesNotInList_others:
  "fst ` set ids \<subseteq> fst ` set (pi_id_map pi) \<Longrightarrow>
     (\<lambda>i. newNode (K i) [] []) ` set (partiesNotInList x me ids peers) \<subseteq> others pi K me"
  by (force simp: others_def partiesNotInList_def)

lemma getUnicastBlame_others:
  assumes "policy_tables x pi K rounds m"
  shows "\<exists>r. getUnicastBlame x rng m ty = Ret r \<and> (\<forall>l. r = Inr l \<longrightarrow> set l \<subseteq> others pi K (m_localPartyID m))"
proof -
  have lists: "getBlamePubKeysLists x m peers =
    Ret (Inr (map K (partiesInList x (m_partyIDtoP2PID m) peers),
              map K (partiesNotInList x (m_localPartyID m) (m_partyIDtoP2PID m) peers)))" for peers
    using assms by (intro getBlamePubKeysLists_party_keys) (auto simp: policy_tables_def)
  show ?thesis
  proof (cases "m_lastUnicastPeer m = [] \<or> mget (m_lastUnicastPeer m) ty = None")
    case True
    then show ?thesis by (auto simp: getUnicastBlame_def)
  next
    case False
    then obtain heard where h: "m_lastUnicastPeer m \<noteq> []" "mget (m_lastUnicastPeer m) ty = Some heard" by auto
    let ?is = "partiesNotInList x (m_localPartyID m) (m_partyIDtoP2PID m) (rng (remdups (map (x_peer_string x) heard)))"
    have "getUnicastBlame x rng m ty = Ret (Inr (map (\<lambda>i. newNode (K i) [] []) ?is))"
      using h by (simp add: getUnicastBlame_def lists comp_def)
    moreover have "(\<lambda>i. newNode (K i) [] []) ` set ?is \<subseteq> others pi K (m_localPartyID m)"
      using assms by (intro partiesNotInList_others) (simp add: policy_tables_def)
    ultimately show ?thesis by simp
  qed
qed

lemma getBroadcastBlame_others:
  assumes "policy_tables x pi K rounds m" "\<And>l. mset (rng l) = mset l"
  shows "\<exists>r. getBroadcastBlame x rng m ty = Ret r \<and> (\<forall>l. r = Inr l \<longrightarrow> set l \<subseteq> others pi K (m_localPartyID m))"
proof -
  have m: "m_partyInfo m = Some pi" "party_keys x (pi_id_map pi) K"
    using assms(1) by (auto simp: policy_tables_def)
  obtain ids where ids: "roundMgr_GetByRound (m_roundMgr m) ty = Ret ids"
    using roundMgr_GetByRound_Ret [of "m_roundMgr m" ty] assms(1) by (auto simp: policy_tables_def)
  show ?thesis
  proof (cases "ids = []")
    case True
    with m ids show ?thesis by (simp add: getBroadcastBlame_def tssTimeoutBlame_def)
  next
    case False
    obtain bl where "tssTimeoutBlame x rng m ty (pi_id_map pi) = Ret (Inr (map K bl))" "distinct bl"
      "set bl = fst ` set (pi_id_map pi) - {m_localPartyID m} - set ids"
      using tssTimeoutBlame_party_keys [OF m ids False assms(2)] .
    with m show ?thesis by (auto simp: getBroadcastBlame_def others_def)
  qed
qed

lemma groupShares_Ret:
  assumes "\<And>ri v. (ri, v) \<in> set m \<Longrightarrow> 0 \<le> ri_index ri \<and> ri_index ri < int rounds"
    and "\<And>k c. mget acc k = Some c \<Longrightarrow> length c = rounds"
  shows "\<exists>acc'. groupShares rounds m acc = Ret acc'"
  using assms
proof (induction m arbitrary: acc)
  case (Cons e m)
  obtain ri v where e: "e = (ri, v)" by fastforce
  let ?c = "case mget acc (ri_ident ri) of None \<Rightarrow> replicate rounds [] | Some c \<Rightarrow> c"
  have len: "length ?c = rounds" using Cons.prems(2) by (simp split: option.split)
  have "\<exists>acc'. groupShares rounds m (mput (ri_ident ri) (?c[nat (ri_index ri) := v]) acc) = Ret acc'"
    using Cons.prems len by (intro Cons.IH) (auto split: if_splits)
  with Cons.prems(1) [of ri v] len show ?case by (simp add: e Let_def)
qed simp

lemma missingShare_loop_others:
  assumes "policy_tables x pi K rounds m"
  shows "\<exists>e l u'. missingShare_loop x n m gs peers u nodes = Ret (e, l, u') \<and>
    set l \<subseteq> set nodes \<union> others pi K (m_localPartyID m)"
proof (induction gs arbitrary: peers u nodes)
  case (Cons g gs)
  obtain k cached where g: "g = (k, cached)" by fastforce
  obtain peers' u' where s: "searchMissing x n m 0 cached peers u = (peers', u')" by fastforce
  let ?pks = "partiesNotInList x (m_localPartyID m) (m_partyIDtoP2PID m) peers'"
  have sub: "(\<lambda>i. newNode (K i) [] []) ` set ?pks \<subseteq> others pi K (m_localPartyID m)"
    using assms by (intro partiesNotInList_others) (simp add: policy_tables_def)
  have "accPubKeysFromPartyIDs x ?pks (pi_id_map pi) = Inr (map K ?pks)"
    using assms by (intro accPubKeys_party_keys) (force simp: policy_tables_def partiesNotInList_def)+
  then have q: "getBlamePubKeysNotInList x m peers' = Ret (Inr (map K ?pks))"
    using assms by (simp add: getBlamePubKeysNotInList_def policy_tables_def)
  obtain e l u'' where "missingShare_loop x n m gs peers' u' (nodes @ map (\<lambda>i. newNode (K i) [] []) ?pks) = Ret (e, l, u'')"
    "set l \<subseteq> set (nodes @ map (\<lambda>i. newNode (K i) [] []) ?pks) \<union> others pi K (m_localPartyID m)"
    using Cons.IH by blast
  moreover from this(2) sub have "set l \<subseteq> set nodes \<union> others pi K (m_localPartyID m)" by auto
  ultimately show ?case by (simp add: g s q comp_def)
qed simp

lemma tssMissingShareBlame_others:
  assumes "policy_tables x pi K rounds m"
  shows "\<exists>e l u. tssMissingShareBlame x rng rounds m = Ret (e, l, u) \<and> set l \<subseteq> others pi K (m_localPartyID m)"
proof -
  have "\<exists>acc. groupShares rounds (m_acceptedShares m) [] = Ret acc"
    using assms by (intro groupShares_Ret; force simp: policy_tables_def)
  then obtain acc where "groupShares rounds (m_acceptedShares m) [] = Ret acc" by blast
  with missingShare_loop_others [OF assms, of rounds "rng acc" "[]" False "[]"] show ?thesis
    by (simp add: tssMissingShareBlame_def)
qed

lemma blameMgr_with_blame [simp]:
  "t_blameMgr (with_blame f t) = (t_blameMgr t)\<lparr>m_blame := f (m_blame (t_blameMgr t))\<rparr>"
  by (simp add: with_blame_def with_mgr_def)

lemma addBlameNodes_sub: "set (bl_nodes (addBlameNodes nds b)) \<subseteq> set (bl_nodes b) \<union> set nds"
  using addBlameNodes_prefix [of nds b] by auto

text \<open>One step of the policy: it returns, keeps the tables and names others only.\<close>

definition spares ::
  "'e conv_ext_scheme \<Rightarrow> party_info \<Rightarrow> (string \<Rightarrow> string) \<Rightarrow> nat \<Rightarrow> tss_state \<Rightarrow> tss_state \<Rightarrow> bool" where
  "spares x pi K rounds t t' \<longleftrightarrow>
     policy_tables x pi K rounds (t_blameMgr t') \<and> m_localPartyID (t_blameMgr t') = m_localPartyID (t_blameMgr t) \<and>
     set (bl_nodes (m_blame (t_blameMgr t'))) \<subseteq>
       set (bl_nodes (m_blame (t_blameMgr t))) \<union> others pi K (m_localPartyID (t_blameMgr t))"

lemma spares_trans: "spares x pi K rounds t t1 \<Longrightarrow> spares x pi K rounds t1 t2 \<Longrightarrow> spares x pi K rounds t t2"
  by (auto simp: spares_def)

lemma unicastStep_spares:
  assumes "policy_tables x pi K rounds (t_blameMgr t)"
  shows "ret_ok (spares x pi K rounds t) (unicastStep x env reason ty t)"
proof -
  obtain r where "getUnicastBlame x (be_online env) (t_blameMgr t) ty = Ret r"
    "\<And>l. r = Inr l \<Longrightarrow> set l \<subseteq> others pi K (m_localPartyID (t_blameMgr t))"
    using getUnicastBlame_others [OF assms] by blast
  with assms show ?thesis
    by (cases r) (auto simp: unicastStep_def spares_def setBlame_def few_def)
qed

lemma broadcastStep_spares:
  assumes "policy_tables x pi K rounds (t_blameMgr t)" "\<And>l. mset (be_silent env l) = mset l"
  shows "ret_ok (spares x pi K rounds t) (broadcastStep x env ty t)"
proof -
  obtain r where r: "getBroadcastBlame x (be_silent env) (t_blameMgr t) ty = Ret r"
    "\<And>l. r = Inr l \<Longrightarrow> set l \<subseteq> others pi K (m_localPartyID (t_blameMgr t))"
    using getBroadcastBlame_others [OF assms] by blast
  then have "set (case r of Inl e \<Rightarrow> [] | Inr l \<Rightarrow> l) \<subseteq> others pi K (m_localPartyID (t_blameMgr t))"
    by (cases r) auto
  then have "set (bl_nodes (addBlameNodes (case r of Inl e \<Rightarrow> [] | Inr l \<Rightarrow> l) (m_blame (t_blameMgr t)))) \<subseteq>
      set (bl_nodes (m_blame (t_blameMgr t))) \<union> others pi K (m_localPartyID (t_blameMgr t))"
    using addBlameNodes_sub [of "case r of Inl e \<Rightarrow> [] | Inr l \<Rightarrow> l" "m_blame (t_blameMgr t)"] by blast
  with r(1) assms(1) show ?thesis by (simp add: broadcastStep_def spares_def)
qed

lemma missingStep_spares:
  assumes "policy_tables x pi K rounds (t_blameMgr t)"
  shows "ret_ok (spares x pi K rounds t) (missingStep x env rounds t)"
proof -
  obtain e l u where l: "tssMissingShareBlame x (be_groups env) rounds (t_blameMgr t) = Ret (e, l, u)"
    "set l \<subseteq> others pi K (m_localPartyID (t_blameMgr t))"
    using tssMissingShareBlame_others [OF assms] by blast
  have "set (bl_nodes (addBlameNodes l (m_blame (t_blameMgr t)))) \<subseteq>
      set (bl_nodes (m_blame (t_blameMgr t))) \<union> others pi K (m_localPartyID (t_blameMgr t))"
    using addBlameNodes_sub [of l "m_blame (t_blameMgr t)"] l(2) by blast
  with l(1) assms show ?thesis by (auto simp: missingStep_def spares_def)
qed

text \<open>C18. A node never accuses itself on a timeout: with the tables of a ceremony, the three policies
  applied when the timer of a keygen or keysign fires return normally for every range order, and
  every node they add to the blame is the key of another party of the ceremony, without evidence.\<close>

theorem timeout_spares_self:
  assumes "policy_tables x pi K rounds (t_blameMgr t)" "\<And>l. mset (be_silent env l) = mset l"
  shows "\<exists>t'. timeoutBlame x env unicastType lastType rounds t = Ret t' \<and>
    set (bl_nodes (m_blame (t_blameMgr t'))) \<subseteq>
      set (bl_nodes (m_blame (t_blameMgr t))) \<union> others pi K (m_localPartyID (t_blameMgr t))"
proof -
  have "ret_ok (spares x pi K rounds t) (timeoutBlame x env unicastType lastType rounds t)"
    unfolding timeoutBlame_def Let_def
  proof (rule ret_ok_bind [OF unicastStep_spares [OF assms(1)]])
    fix t1 assume t1: "spares x pi K rounds t t1"
    then have "policy_tables x pi K rounds (t_blameMgr t1)" by (simp add: spares_def)
    then have b: "ret_ok (spares x pi K rounds t1) (broadcastStep x env lastType t1)"
      using assms(2) by (rule broadcastStep_spares)
    show "ret_ok (spares x pi K rounds t) (out_bind (broadcastStep x env lastType t1) (missingStep x env rounds))"
    proof (rule ret_ok_bind [OF b])
      fix t2 assume t2: "spares x pi K rounds t1 t2"
      then have "ret_ok (spares x pi K rounds t2) (missingStep x env rounds t2)"
        by (intro missingStep_spares) (simp add: spares_def)
      then show "ret_ok (spares x pi K rounds t) (missingStep x env rounds t2)"
        by (rule ret_ok_mono) (rule spares_trans [OF spares_trans [OF t1 t2]])
    qed
  qed
  then show ?thesis by (auto simp: ret_ok_iff spares_def)
qed

theorem timeout_spares_self_witness:
  "\<exists>t'. timeoutBlame sample_conv \<lparr>be_online = id, be_silent = rev, be_groups = id\<rparr> KEYGEN2aUnicast KEYGEN1 4
      (sample_start\<lparr>t_blameMgr := sample_mgr\<rparr>) = Ret t' \<and>
    set (bl_nodes (m_blame (t_blameMgr t'))) \<subseteq> {newNode ''b'' [] [], newNode ''c'' [] [], newNode ''d'' [] []}"
proof -
  have "policy_tables sample_conv \<lparr>pi_party_map = [], pi_id_map = sample_ids\<rparr> sample_key 4 sample_mgr"
    using sample_party_keys
    by (auto simp: policy_tables_def sample_mgr_def newBlameManager_def sample_wire_def sample_ids_def)
  moreover have "others \<lparr>pi_party_map = [], pi_id_map = sample_ids\<rparr> sample_key ''0'' =
      {newNode ''b'' [] [], newNode ''c'' [] [], newNode ''d'' [] []}"
    by (auto simp: others_def sample_ids_def sample_key_values)
  moreover have "bl_nodes (m_blame sample_mgr) = []" "m_localPartyID sample_mgr = ''0''"
    by (simp_all add: sample_mgr_def newBlameManager_def newBlame_def)
  ultimately show ?thesis
    using timeout_spares_self [of sample_conv "\<lparr>pi_party_map = [], pi_id_map = sample_ids\<rparr>" sample_key 4
      "sample_start\<lparr>t_blameMgr := sample_mgr\<rparr>" "\<lparr>be_online = id, be_silent = rev, be_groups = id\<rparr>"
      KEYGEN2aUnicast KEYGEN1] by simp
qed

section \<open>After the ceremony\<close>

text \<open>The end of \<open>GenerateNewKey\<close> and of \<open>SignMessage\<close>: a select on a timer of five seconds and on the
  channel that tells of the other parties' completion, both of whose cases close \<open>commStopChan\<close>; then
  \<open>Wait\<close> on the group of the two goroutines, the one that started the parties and the message loop.
  The message loop goes on until its select takes the closed \<open>commStopChan\<close>.\<close>

datatype finish_event =
    FinInbound inbound_event \<comment> \<open>a step of the message loop\<close>
  | FinTimer \<comment> \<open>the five seconds are over\<close>
  | FinDone \<comment> \<open>\<open>GetTaskDone\<close> is looked at\<close>
  | FinStarted \<comment> \<open>the goroutine that starts the parties is done with it\<close>
  | FinExit \<comment> \<open>the message loop looks at \<open>finishChan\<close>\<close>

record finish_state =
  fw_selected :: bool \<comment> \<open>the select is behind\<close>
  fw_stop :: bool \<comment> \<open>\<open>commStopChan\<close> is closed\<close>
  fw_started :: bool \<comment> \<open>the first goroutine has called \<open>Done\<close>\<close>
  fw_exited :: bool \<comment> \<open>the message loop has returned\<close>

definition finish_start :: "bool \<Rightarrow> finish_state" where
  "finish_start stopped = \<lparr>fw_selected = False, fw_stop = stopped, fw_started = False, fw_exited = False\<rparr>"

text \<open>A case of the select.\<close>

definition finish_select :: "finish_state \<Rightarrow> finish_state outcome" where
  "finish_select f =
     (if fw_selected f then Ret f
      else if fw_stop f then Panic ''close of closed channel''
      else Ret (f\<lparr>fw_selected := True, fw_stop := True\<rparr>))"

text \<open>When the ceremony failed the channel is closed, too, and nobody waits.\<close>

definition close_stop :: "bool \<Rightarrow> 'a \<Rightarrow> 'a outcome" where
  "close_stop stopped v = (if stopped then Panic ''close of closed channel'' else Ret v)"

definition wait_over :: "finish_state \<Rightarrow> bool" where
  "wait_over f \<longleftrightarrow> fw_selected f \<and> fw_started f \<and> fw_exited f"

text \<open>\<open>starting\<close> tells whether the start of the parties returns.\<close>

fun commFinish ::
  "'e common_ext_scheme \<Rightarrow> bool \<Rightarrow> finish_state \<Rightarrow> finish_event list \<Rightarrow> tss_state \<Rightarrow> tss_state outcome option" where
  "commFinish x starting f [] t = (if wait_over f then Some (Ret t) else None)"
| "commFinish x starting f (e # es) t =
     (if wait_over f then Some (Ret t)
      else (case e of
          FinInbound ev \<Rightarrow>
            (if fw_exited f then commFinish x starting f es t
             else (case processInboundMessages x [ev] t of
                 Panic m \<Rightarrow> Some (Panic m)
               | Ret t1 \<Rightarrow> commFinish x starting f es t1))
        | FinTimer \<Rightarrow>
            (case finish_select f of Panic m \<Rightarrow> Some (Panic m) | Ret f1 \<Rightarrow> commFinish x starting f1 es t)
        | FinDone \<Rightarrow>
            (if t_taskDone t
             then (case finish_select f of Panic m \<Rightarrow> Some (Panic m) | Ret f1 \<Rightarrow> commFinish x starting f1 es t)
             else commFinish x starting f es t)
        | FinStarted \<Rightarrow> commFinish x starting (f\<lparr>fw_started := fw_started f \<or> starting\<rparr>) es t
        | FinExit \<Rightarrow> commFinish x starting (f\<lparr>fw_exited := fw_exited f \<or> fw_stop f\<rparr>) es t))"

text \<open>The wait ends when the timer fires or the completion channel is closed, and then the message
  loop looks at its channel; the first goroutine may end at any time.\<close>

definition finishes :: "finish_state \<Rightarrow> finish_event list \<Rightarrow> bool" where
  "finishes f es \<longleftrightarrow> (fw_started f \<or> FinStarted \<in> set es) \<and> (fw_selected f \<longrightarrow> fw_stop f) \<and>
     (fw_exited f \<and> (fw_selected f \<or> FinTimer \<in> set es) \<or> fw_selected f \<and> FinExit \<in> set es \<or>
      follows FinTimer FinExit es)"

lemma finishes_step:
  "finishes f (FinInbound ev # es) \<Longrightarrow> finishes f es"
  "finishes f (FinStarted # es) \<Longrightarrow> finishes (f\<lparr>fw_started := fw_started f \<or> True\<rparr>) es"
  "finishes f (FinExit # es) \<Longrightarrow> finishes (f\<lparr>fw_exited := fw_exited f \<or> fw_stop f\<rparr>) es"
  "finishes f (FinTimer # es) \<Longrightarrow> finish_select f = Ret f1 \<Longrightarrow> finishes f1 es"
  "finishes f (FinDone # es) \<Longrightarrow> finishes f es"
  "finishes f (FinDone # es) \<Longrightarrow> finish_select f = Ret f1 \<Longrightarrow> finishes f1 es"
  by (auto simp: finishes_def finish_select_def split: if_splits dest: follows_set)

lemma commFinish_returns: "finishes f es \<Longrightarrow> commFinish x True f es t \<noteq> None"
proof (induction es arbitrary: f t)
  case Nil
  then show ?case by (auto simp: wait_over_def finishes_def)
next
  case (Cons e es)
  note IH = Cons.IH [simplified not_None_eq]
  show ?case
  proof (cases e)
    case (FinInbound ev)
    from Cons.prems [unfolded this] have "finishes f es" by (rule finishes_step)
    then show ?thesis using IH [of f] by (auto simp: FinInbound split: outcome.splits)
  next
    case FinTimer
    show ?thesis
      using IH [OF finishes_step(4) [OF Cons.prems [unfolded FinTimer]]] by (auto simp: FinTimer split: outcome.splits)
  next
    case FinDone
    show ?thesis
      using IH [OF finishes_step(5) [OF Cons.prems [unfolded FinDone]]]
        IH [OF finishes_step(6) [OF Cons.prems [unfolded FinDone]]] by (auto simp: FinDone split: outcome.splits)
  next
    case FinStarted
    show ?thesis using IH [OF finishes_step(2) [OF Cons.prems [unfolded FinStarted]]] by (auto simp: FinStarted)
  next
    case FinExit
    show ?thesis using IH [OF finishes_step(3) [OF Cons.prems [unfolded FinExit]]] by (auto simp: FinExit)
  qed
qed

lemma commFinish_ok:
  "tss_ok x pi mid t \<Longrightarrow> commFinish x starting f es t = Some (Ret t') \<Longrightarrow> tss_ok x pi mid t'"
proof (induction es arbitrary: f t)
  case (Cons e es)
  show ?case
  proof (cases "wait_over f")
    case False
    show ?thesis
    proof (cases e)
      case (FinInbound ev)
      show ?thesis
      proof (cases "fw_exited f")
        case True
        with Cons False FinInbound show ?thesis by simp
      next
        case nx: False
        then obtain t1 where "processInboundMessages x [ev] t = Ret t1" "commFinish x starting f es t1 = Some (Ret t')"
          using Cons.prems(2) False FinInbound by (auto simp del: processInboundMessages.simps split: outcome.splits)
        with Cons.IH processInboundMessages_ok [OF Cons.prems(1)] show ?thesis by blast
      qed
    next
      case FinTimer
      with Cons False show ?thesis by (auto split: outcome.splits)
    next
      case FinDone
      with Cons False show ?thesis by (auto split: outcome.splits if_splits)
    next
      case FinStarted
      with Cons False show ?thesis by auto
    next
      case FinExit
      with Cons False show ?thesis by auto
    qed
  qed (use Cons.prems in simp)
qed (simp split: if_splits)

text \<open>The wait of a run by the clock.\<close>

definition finish_in_time :: "finish_event timed \<Rightarrow> bool" where
  "finish_in_time w \<longleftrightarrow> in_time (\<lambda>_. False) w \<and> arrives FinStarted w \<and> arrives_late (\<lambda>_. False) FinExit w"

lemma finish_in_time_returns:
  assumes "finish_in_time w"
  shows "commFinish x True (finish_start stopped) (run_of (\<lambda>_. False) FinTimer w) t \<noteq> None"
proof (rule commFinish_returns)
  have "FinStarted \<in> set (run_of (\<lambda>_. False) FinTimer w)"
    using assms by (auto simp: finish_in_time_def intro: run_of_arrives)
  moreover have "follows FinTimer FinExit (run_of (\<lambda>_. False) FinTimer w)"
    using assms by (auto simp: finish_in_time_def intro: run_of_late)
  ultimately show "finishes (finish_start stopped) (run_of (\<lambda>_. False) FinTimer w)"
    by (simp add: finishes_def finish_start_def)
qed

end
