(* ===== verification/Keygen.thy ===== *)
theory Keygen
  imports Ceremony
begin

text \<open>
  Package \<open>keygen\<close> (\<open>keygen/tss_keygen.go\<close>): the generation of a new pool key.  \<open>processKeyGen\<close>
  is a run over the events its select receives, with the steps of the message loop between them;
  \<open>None\<close> means that the events do not end it.  The key generation party of tss-lib is an object
  whose messages and result arrive as events.
\<close>

section \<open>State and events\<close>

record save_data =
  sd_ref :: nat
  sd_pub :: "(nat \<times> nat) option" \<comment> \<open>\<open>ECDSAPub\<close>\<close>

datatype keygen_event =
    KgInbound inbound_event \<comment> \<open>a step of \<open>ProcessInboundMessages\<close>\<close>
  | KgErr \<comment> \<open>\<open>errChan\<close> is closed: the party did not start\<close>
  | KgStop
  | KgTimeout blame_env
  | KgOut btss_message
  | KgEnd save_data "(peer_id, string list) gomap"
      \<comment> \<open>the party finished; the addresses that \<open>ExportPeerAddress\<close> returns\<close>

record tss_keygen =
  tk_localNodePubKey :: string
  tk_preParams :: bool \<comment> \<open>not nil\<close>
  tk_common :: tss_state
  tk_folder :: string \<comment> \<open>the state manager\<close>
  tk_commStopped :: bool

definition newTssKeyGen ::
  "string \<Rightarrow> string \<Rightarrow> bool \<Rightarrow> bool \<Rightarrow> string \<Rightarrow> string \<Rightarrow> bytes \<Rightarrow> tss_keygen outcome" where
  "newTssKeyGen localP2PID localNodePubKey channel preParam msgID folder privateKey =
     out_bind (newTssCommon localP2PID channel msgID privateKey 1) (\<lambda>t.
       Ret \<lparr>tk_localNodePubKey = localNodePubKey, tk_preParams = preParam, tk_common = t, tk_folder = folder,
            tk_commStopped = False\<rparr>)"

section \<open>processKeyGen\<close>

definition keygenTimeout :: "'e conv_ext_scheme \<Rightarrow> blame_env \<Rightarrow> tss_state \<Rightarrow> (goerr \<times> tss_state) outcome" where
  "keygenTimeout x env t =
     (case m_lastMsg (t_blameMgr t) of
        None \<Rightarrow> Ret (ErrText ''timeout before shared message is generated'', t)
      | Some lastMsg \<Rightarrow>
         out_bind (timeoutBlame x env KEYGEN2aUnicast (bm_type lastMsg) TSSKEYGENROUNDS t) (\<lambda>t1.
           Ret (ErrTssTimeOut, t1)))"

text \<open>The end of the party's work: the others are told, the share is saved, then the addresses.\<close>

definition keygenEnd ::
  "'e storage_ext_scheme \<Rightarrow> string \<Rightarrow> local_state \<Rightarrow> save_data \<Rightarrow> (peer_id, string list) gomap
     \<Rightarrow> tss_state \<times> file_system \<Rightarrow> (((nat \<times> nat) option \<times> goerr option) \<times> tss_state \<times> file_system) outcome" where
  "keygenEnd x folder item msg address = (\<lambda>(t, fs).
     out_bind (deref (sd_pub msg)) (\<lambda>_.
       let t1 = snd (notifyTaskDone x t) in
       case getTssPubKey x (sd_pub msg) of
         Inl e \<Rightarrow> Ret ((None, Some (ErrWrap ''fail to get thorchain pubkey'' e)), t1, fs)
       | Inr (pubKey, _) \<Rightarrow>
          (case saveLocalState x folder (item\<lparr>ls_localData := sd_ref msg, ls_pubKey := pubKey\<rparr>) fs of
             (Some e, fs1) \<Rightarrow> Ret ((None, Some (ErrWrap ''fail to save keygen result to storage'' e)), t1, fs1)
           | (None, fs1) \<Rightarrow> Ret ((sd_pub msg, None), t1, snd (saveAddressBook x folder address fs1)))))"

fun processKeyGen ::
  "'e storage_ext_scheme \<Rightarrow> string \<Rightarrow> local_state \<Rightarrow> keygen_event list \<Rightarrow> tss_state \<times> file_system
     \<Rightarrow> (((nat \<times> nat) option \<times> goerr option) \<times> tss_state \<times> file_system) outcome option" where
  "processKeyGen x folder item [] st = None"
| "processKeyGen x folder item (KgInbound ev # es) (t, fs) =
     (case processInboundMessages x [ev] t of
        Panic m \<Rightarrow> Some (Panic m)
      | Ret t1 \<Rightarrow> processKeyGen x folder item es (t1, fs))"
| "processKeyGen x folder item (KgErr # es) st =
     Some (Ret ((None, Some (ErrText ''error channel closed fail to start local party'')), st))"
| "processKeyGen x folder item (KgStop # es) st = Some (Ret ((None, Some (ErrText ''received exit signal'')), st))"
| "processKeyGen x folder item (KgTimeout env # es) (t, fs) =
     Some (out_bind (keygenTimeout x env t) (\<lambda>(e, t1). Ret ((None, Some e), t1, fs)))"
| "processKeyGen x folder item (KgOut msg # es) (t, fs) =
     (case processOutCh x msg TSSKeyGenMsg (with_mgr (setLastMsg (Some msg)) t) of
        Panic m \<Rightarrow> Some (Panic m)
      | Ret (Some e, t1) \<Rightarrow> Some (Ret ((None, Some e), t1, fs))
      | Ret (None, t1) \<Rightarrow> processKeyGen x folder item es (t1, fs))"
| "processKeyGen x folder item (KgEnd msg address # es) st = Some (keygenEnd x folder item msg address st)"

section \<open>GenerateNewKey\<close>

text \<open>\<open>fin\<close> are the events after the loop; \<open>keyGenParty.Start\<close> is a call of tss-lib, which returns when the
  event \<open>FinStarted\<close> says so.  \<open>GetParties\<close> sorts the keys of the request in place, so
  the state that is saved has them in order.\<close>

definition keygen_item :: "string \<Rightarrow> string list \<Rightarrow> local_state" where
  "keygen_item localKey keys =
     \<lparr>ls_pubKey = [], ls_localData = 0, ls_participants = sort keys, ls_localParty = localKey\<rparr>"

definition generateNewKey ::
  "'e storage_ext_scheme \<Rightarrow> nat \<Rightarrow> keygen_request \<Rightarrow> keygen_event list \<Rightarrow> finish_event list
     \<Rightarrow> tss_keygen \<times> file_system
     \<Rightarrow> (((nat \<times> nat) option \<times> goerr option) \<times> tss_keygen \<times> file_system) outcome option" where
  "generateNewKey x fresh req es fin = (\<lambda>(tk, fs).
     (case getParties x fresh (kgq_keys req) (tk_localNodePubKey tk) of
        Inl e \<Rightarrow> Some (Ret ((None, Some (ErrWrap ''fail to get keygen parties'' e)), tk, fs))
      | Inr (partiesID, localPartyID) \<Rightarrow>
     (case getThreshold (int (length partiesID)) of
        Inl e \<Rightarrow> Some (Ret ((None, Some e), tk, fs))
      | Inr threshold \<Rightarrow>
         (if \<not> tk_preParams tk then Some (Ret ((None, Some (ErrText ''error, empty pre-parameters'')), tk, fs))
          else
            (case setupCeremony x [([], \<lparr>pt_ref = 0, pt_id = localPartyID\<rparr>)] partiesID (tk_common tk) of
               Panic m \<Rightarrow> Some (Panic m)
             | Ret (False, t1) \<Rightarrow> Some (Ret ((None, None), tk\<lparr>tk_common := t1\<rparr>, fs))
             | Ret (True, t1) \<Rightarrow>
            (case processKeyGen x (tk_folder tk) (keygen_item (tk_localNodePubKey tk) (kgq_keys req)) es (t1, fs) of
               None \<Rightarrow> None
             | Some (Panic m) \<Rightarrow> Some (Panic m)
             | Some (Ret ((r, Some e), t2, fs2)) \<Rightarrow>
                Some (close_stop (tk_commStopped tk) ((None, Some (ErrWrap ''fail to process key sign'' e)),
                  tk\<lparr>tk_common := t2, tk_commStopped := True\<rparr>, fs2))
             | Some (Ret ((r, None), t2, fs2)) \<Rightarrow>
                map_option (\<lambda>o3. out_bind o3 (\<lambda>t3.
                    Ret ((r, None), tk\<lparr>tk_common := t3, tk_commStopped := True\<rparr>, fs2)))
                  (commFinish x True (finish_start (tk_commStopped tk)) fin t2)))))))"

section \<open>Setting up\<close>

definition fresh_common :: "tss_state \<Rightarrow> bool" where
  "fresh_common t \<longleftrightarrow> t_unConfirmed t = [] \<and> m_roundMgr (t_blameMgr t) = [] \<and> t_calls t = [] \<and>
     t_leaked t = [] \<and> t_finishedPeers t = [] \<and> \<not> t_taskDone t"

lemma newTssCommon_fresh: "newTssCommon p ch i k n = Ret t \<Longrightarrow> fresh_common t \<and> t_msgID t = i"
  by (auto simp: newTssCommon_def fresh_common_def newBlameManager_def split: if_splits)

lemma setPartyInfo_Ret:
  "setPartyInfo pm im m = Ret m' \<longleftrightarrow>
     (\<exists>k p r. pm = (k, p) # r \<and>
        m' = m\<lparr>m_partyInfo := Some \<lparr>pi_party_map = pm, pi_id_map = im\<rparr>, m_localPartyID := pid_id (pt_id p)\<rparr>)"
  by (auto simp: setPartyInfo_def split: list.splits)

text \<open>A ceremony that was set up is at the start of the invariant of the message loop.\<close>

lemma setupCeremony_start:
  assumes "setupCeremony x pm ps t = Ret (True, t')" "fresh_common t"
  shows "ceremony_start \<lparr>pi_party_map = pm, pi_id_map = setupPartyIDMap ps\<rparr> (t_msgID t) t'"
proof -
  obtain e1 m1 where s1: "setupIDMaps x (setupPartyIDMap ps) (t_partyIDtoP2PID t) = (e1, m1)" by fastforce
  obtain e2 m2 where s2: "setupIDMaps x (setupPartyIDMap ps) (m_partyIDtoP2PID (t_blameMgr t)) = (e2, m2)" by fastforce
  show ?thesis
    using assms
    by (auto simp: setupCeremony_def s1 s2 Let_def out_bind_Ret_iff setPartyInfo_Ret setTssPartyInfo_def with_mgr_def
        fresh_common_def ceremony_start_def split: if_splits)
qed

section \<open>The loop keeps the invariant\<close>

text \<open>Sending leaves everything but the caches and the sent messages as it is.\<close>

definition core :: "tss_state \<Rightarrow> tss_state" where
  "core t = t\<lparr>t_sent := [], t_cachedBroadcast := [], t_cachedUnicast := []\<rparr>"

definition only_sends :: "tss_state \<Rightarrow> tss_state \<Rightarrow> bool" where
  "only_sends t t' \<longleftrightarrow> core t' = core t \<and> (\<exists>ms. t_sent t' = t_sent t @ ms)"

lemma only_sends_refl [simp]: "only_sends t t"
  by (simp add: only_sends_def)

lemma only_sends_trans: "only_sends t t1 \<Longrightarrow> only_sends t1 t2 \<Longrightarrow> only_sends t t2"
  by (auto simp: only_sends_def)

lemma core_cache [simp]: "core (t\<lparr>t_cachedUnicast := u\<rparr>) = core t" "core (t\<lparr>t_cachedBroadcast := b\<rparr>) = core t"
  by (simp_all add: core_def)

lemma only_sends_cache [simp]:
  "only_sends t (t1\<lparr>t_cachedUnicast := u\<rparr>) = only_sends t t1"
  "only_sends t (t1\<lparr>t_cachedBroadcast := b\<rparr>) = only_sends t t1"
  "only_sends (t\<lparr>t_cachedUnicast := u\<rparr>) t1 = only_sends t t1"
  "only_sends (t\<lparr>t_cachedBroadcast := b\<rparr>) t1 = only_sends t t1"
  by (simp_all add: only_sends_def)

lemma only_sends_render: "only_sends t (renderToP2P m t)"
  by (simp add: only_sends_def renderToP2P_def core_def)

lemma sendBulkMsg_only: "sendBulkMsg x r ty l t = Ret (e, t') \<Longrightarrow> only_sends t t'"
  by (auto simp: sendBulkMsg_def out_bind_Ret_iff only_sends_render split: list.splits sum.splits)

lemma flush_unicast_only: "flush_unicast x ty es t = Ret t' \<Longrightarrow> only_sends t t'"
proof (induction es arbitrary: t)
  case (Cons e es)
  obtain key l where e: "e = (key, l)" by fastforce
  show ?case
  proof (cases "int (length l) = t_msgNum t")
    case True
    with Cons.prems obtain r t1 where r: "sendBulkMsg x (hd (split_on (CHR '':'') key)) ty l t = Ret (r, t1)"
      "flush_unicast x ty es (if r = None then t1\<lparr>t_cachedUnicast := mdel key (t_cachedUnicast t1)\<rparr> else t1) = Ret t'"
      by (auto simp: e out_bind_Ret_iff)
    have "only_sends t t1" using r(1) by (rule sendBulkMsg_only)
    moreover have "only_sends t1 t'" using Cons.IH [OF r(2)] by (simp split: if_splits)
    ultimately show ?thesis by (rule only_sends_trans)
  next
    case False
    with Cons show ?thesis by (simp add: e)
  qed
qed simp

lemma flush_broadcast_only: "flush_broadcast x ty es t = Ret t' \<Longrightarrow> only_sends t t'"
proof (induction es arbitrary: t)
  case (Cons e es)
  obtain key l where e: "e = (key, l)" by fastforce
  show ?case
  proof (cases "int (length l) = t_msgNum t")
    case True
    with Cons.prems obtain r t1 where r: "sendBulkMsg x key ty l t = Ret (r, t1)"
      "flush_broadcast x ty es (if r = None then t1\<lparr>t_cachedBroadcast := mdel key (t_cachedBroadcast t1)\<rparr> else t1) = Ret t'"
      by (auto simp: e out_bind_Ret_iff)
    have "only_sends t t1" using r(1) by (rule sendBulkMsg_only)
    moreover have "only_sends t1 t'" using Cons.IH [OF r(2)] by (simp split: if_splits)
    ultimately show ?thesis by (rule only_sends_trans)
  next
    case False
    with Cons show ?thesis by (simp add: e)
  qed
qed simp

lemma processOutCh_only:
  assumes "processOutCh x msg ty t = Ret (e, t')"
  shows "only_sends t t'"
proof (cases "bm_wire msg")
  case (Inl d)
  with assms show ?thesis by (simp add: processOutCh_def)
next
  case (Inr w)
  obtain b r where w: "w = (b, r)" by fastforce
  obtain t1 t2 l1 l2 where t2: "flush_unicast x ty l1 t1 = Ret t2" "flush_broadcast x ty l2 t2 = Ret t'"
    and t1: "only_sends t t1"
    using assms by (auto simp: processOutCh_def Inr w Let_def out_bind_Ret_iff split: if_splits list.splits)
  have "only_sends t1 t2" "only_sends t2 t'"
    using flush_unicast_only [OF t2(1)] flush_broadcast_only [OF t2(2)] by simp_all
  with t1 only_sends_trans show ?thesis by blast
qed

lemma notifyTaskDone_only: "only_sends t (snd (notifyTaskDone x t))"
  by (simp add: notifyTaskDone_def only_sends_render split: sum.split)

lemma tss_ok_core [simp]: "tss_ok x pi mid (core t) = tss_ok x pi mid t"
  by (simp add: tss_in_def core_def finished_ok_def)

lemma tss_ok_only_sends: "only_sends t t' \<Longrightarrow> tss_ok x pi mid t' = tss_ok x pi mid t"
  unfolding only_sends_def by (metis tss_ok_core)

lemma tss_ok_setLastMsg [simp]: "tss_ok x pi mid (with_mgr (setLastMsg m) t) = tss_ok x pi mid t"
  by (rule tss_ok_with_mgr) (simp_all add: setLastMsg_def)

text \<open>A successful run ends with the party's result, and until then the files are untouched.\<close>

lemma processKeyGen_success:
  assumes "processKeyGen x folder item es (t, fs) = Some (Ret ((r, None), t', fs'))" "tss_ok x pi mid t"
  obtains msg address t0 where "KgEnd msg address \<in> set es" "tss_ok x pi mid t0"
    "keygenEnd x folder item msg address (t0, fs) = Ret ((r, None), t', fs')"
  using assms
proof (induction es arbitrary: t thesis)
  case (Cons e es)
  show ?case
  proof (cases e)
    case (KgInbound ev)
    obtain t1 where t1: "processInboundMessages x [ev] t = Ret t1"
      "processKeyGen x folder item es (t1, fs) = Some (Ret ((r, None), t', fs'))"
      using Cons.prems(2) KgInbound by (auto simp del: processInboundMessages.simps split: outcome.splits)
    from Cons.IH [OF _ t1(2) processInboundMessages_ok [OF Cons.prems(3) t1(1)]] Cons.prems(1)
    show ?thesis by (metis list.set_intros(2))
  next
    case (KgOut msg)
    then obtain t1 where t1: "processOutCh x msg TSSKeyGenMsg (with_mgr (setLastMsg (Some msg)) t) = Ret (None, t1)"
      "processKeyGen x folder item es (t1, fs) = Some (Ret ((r, None), t', fs'))"
      using Cons.prems(2) by (auto split: outcome.splits prod.splits option.splits)
    then have "tss_ok x pi mid t1"
      using tss_ok_only_sends [OF processOutCh_only [OF t1(1)], of x pi mid] Cons.prems(3) by simp
    from Cons.IH [OF _ t1(2) this] Cons.prems(1) show ?thesis by (metis list.set_intros(2))
  next
    case (KgEnd msg address)
    with Cons.prems show ?thesis by (intro Cons.prems(1)) auto
  qed (use Cons.prems(2) in \<open>auto simp: out_bind_Ret_iff\<close>)
qed simp

section \<open>A pool key that is reported is saved\<close>

text \<open>What \<open>keygenEnd\<close> has done when it reports a key.\<close>

lemma keygenEnd_success:
  assumes "keygenEnd x folder item msg address (t, fs) = Ret ((r, None), t', fs')"
  obtains pk addr fs1 where "getTssPubKey x r = Inr (pk, addr)" "r = sd_pub msg" "r \<noteq> None"
    "t' = snd (notifyTaskDone x t)"
    "saveLocalState x folder (item\<lparr>ls_localData := sd_ref msg, ls_pubKey := pk\<rparr>) fs = (None, fs1)"
    "fs' = snd (saveAddressBook x folder address fs1)"
  using assms
  by (auto simp: keygenEnd_def Let_def out_bind_Ret_iff deref_Ret_iff split: sum.splits prod.splits option.splits)

definition end_data :: "keygen_event list \<Rightarrow> save_data set" where
  "end_data es = {msg. \<exists>address. KgEnd msg address \<in> set es}"

text \<open>A pool key is reported only after its share is on disk: when \<open>GenerateNewKey\<close> returns a point
  without error, whatever messages and workers ran meanwhile, that point is the result of the
  local tss-lib party, and \<open>GetLocalState\<close> under the pool key of that point returns the state with
  the party's data, the sorted keys of the request and the local key; the ceremony is still
  consistent, so every share that entered it was signed by its sender.\<close>

lemma generateNewKey_saves:
  assumes "generateNewKey x fresh req es fin (tk, fs) = Some (Ret ((Some pt, None), tk', fs'))"
    and "fresh_common (tk_common tk)" "calm fs" "slash_free x"
    and "\<And>st b. x_marshal_state x st = Inr b \<Longrightarrow> x_unmarshal_state x b = Inr st"
    and "\<And>k. x_marshal_acc_pk x k \<noteq> Inr []"
  shows "\<exists>msg pk addr pi. msg \<in> end_data es \<and> sd_pub msg = Some pt \<and> getTssPubKey x (Some pt) = Inr (pk, addr) \<and>
    getLocalState x (tk_folder tk) pk fs' =
      Inr \<lparr>ls_pubKey = pk, ls_localData = sd_ref msg, ls_participants = sort (kgq_keys req),
           ls_localParty = tk_localNodePubKey tk\<rparr> \<and>
    tss_ok x pi (t_msgID (tk_common tk)) (tk_common tk')"
proof -
  let ?item = "keygen_item (tk_localNodePubKey tk) (kgq_keys req)" and ?f = "tk_folder tk"
  obtain ids loc t1 t2 t3 where su: "setupCeremony x [([], \<lparr>pt_ref = 0, pt_id = loc\<rparr>)] ids (tk_common tk) = Ret (True, t1)"
    and run: "processKeyGen x ?f ?item es (t1, fs) = Some (Ret ((Some pt, None), t2, fs'))"
    and fin: "commFinish x True (finish_start (tk_commStopped tk)) fin t2 = Some (Ret t3)" and tk': "tk_common tk' = t3"
    using assms(1)
    by (auto simp: generateNewKey_def out_bind_Ret_iff close_stop_def split: sum.splits prod.splits outcome.splits option.splits if_splits bool.splits)
  let ?pi = "\<lparr>pi_party_map = [([], \<lparr>pt_ref = 0, pt_id = loc\<rparr>)], pi_id_map = setupPartyIDMap ids\<rparr>"
  let ?mid = "t_msgID (tk_common tk)"
  have "tss_ok x ?pi ?mid t1" using setupCeremony_start [OF su assms(2)] by (rule ceremony_start_ok)
  then obtain msg address t0 where e: "KgEnd msg address \<in> set es" "tss_ok x ?pi ?mid t0"
    "keygenEnd x ?f ?item msg address (t0, fs) = Ret ((Some pt, None), t2, fs')"
    using processKeyGen_success [OF run] by blast
  obtain pk addr fs1 where k: "getTssPubKey x (Some pt) = Inr (pk, addr)" "Some pt = sd_pub msg"
    "t2 = snd (notifyTaskDone x t0)"
    "saveLocalState x ?f (?item\<lparr>ls_localData := sd_ref msg, ls_pubKey := pk\<rparr>) fs = (None, fs1)"
    "fs' = snd (saveAddressBook x ?f address fs1)"
    using keygenEnd_success [OF e(3)] by blast
  have "tss_ok x ?pi ?mid t2" unfolding k(3) using tss_ok_only_sends [OF notifyTaskDone_only] e(2) by blast
  then have "tss_ok x ?pi ?mid t3" using fin by (rule commFinish_ok)
  moreover have "getLocalState x ?f pk fs' = Inr (?item\<lparr>ls_localData := sd_ref msg, ls_pubKey := pk\<rparr>)"
  proof -
    have "pk \<noteq> []" using k(1) assms(6) by (auto simp: getTssPubKey_def split: if_splits sum.splits prod.splits)
    then show ?thesis
      using state_survives [OF assms(5,4,3) k(4), of "[SaveBook address]"] k(5) by simp
  qed
  moreover have "msg \<in> end_data es" using e(1) by (auto simp: end_data_def)
  ultimately show ?thesis using k(1,2) tk' by (auto simp: keygen_item_def)
qed

section \<open>A sample\<close>

text \<open>The pool key is written \<open>pool\<close>.\<close>

definition sample_keygen :: "'e \<Rightarrow> 'e storage_ext_scheme" where
  "sample_keygen r = storage_ext.extend (sample_storage\<lparr>x_marshal_acc_pk := (\<lambda>b. Inr ''pool''),
     x_unmarshal_join := (\<lambda>b. Inr (bytes_str b)),
     x_unmarshal_leader := (\<lambda>b. Inr \<lparr>lc_id = ''616263'', lc_msg_type = ''request'', lc_type = RespUnknown, lc_peers = []\<rparr>)\<rparr>) r"

definition sample_tk :: "tss_state \<Rightarrow> tss_keygen" where
  "sample_tk t = \<lparr>tk_localNodePubKey = ''a'', tk_preParams = True, tk_common = t, tk_folder = ''/d'', tk_commStopped = False\<rparr>"

lemma sample_keygen_laws:
  "slash_free (sample_keygen r)"
  "x_marshal_state (sample_keygen r) st = Inr b \<Longrightarrow> x_unmarshal_state (sample_keygen r) b = Inr st"
  "x_marshal_acc_pk (sample_keygen r) k \<noteq> Inr []"
  by (auto simp: slash_free_def checkKeyOnCurve_def sample_keygen_def storage_ext.extend_def sample_storage_defs split: if_splits)

text \<open>The wait after the ceremony, up to its timer.\<close>

definition sample_fin :: "finish_event list" where
  "sample_fin = [FinTimer, FinStarted, FinExit]"

lemma commFinish_sample [simp]: "commFinish x True (finish_start False) sample_fin t = Some (Ret t)"
  by (simp add: sample_fin_def finish_start_def wait_over_def finish_select_def)

definition sample_save :: save_data where
  "sample_save = \<lparr>sd_ref = 5, sd_pub = Some (1, 10)\<rparr>"

definition sample_kgreq :: keygen_request where
  "sample_kgreq = newKeygenRequest [''a'', ''b'', ''c''] 10 ''0.13.0''"

lemma itoa_2: "itoa 2 = ''2''"
  by code_simp

definition sample_pid :: "nat \<Rightarrow> party_id" where
  "sample_pid i = (sample_party i)\<lparr>pid_index := -1\<rparr>"

lemma sample_nat_be: "nat_be 97 = [97]" "nat_be 98 = [98]" "nat_be 99 = [99]"
  by (simp_all add: nat_be.simps)

lemma sample_getParties:
  "getParties (sample_keygen r) 0 [''a'', ''b'', ''c''] ''a'' = Inr ([sample_pid 0, sample_pid 1, sample_pid 2], sample_pid 0)"
  by (simp add: getParties_def itoa_0 itoa_1 itoa_2 sample_keygen_def storage_ext.extend_def sample_storage_defs sample_pid_def sample_party_def
      nat_digits_sample str_bytes_def be_nat_def sample_nat_be Let_def)

lemma sample_setup:
  "newTssCommon p True i [97] 1 = Ret t \<Longrightarrow> \<exists>t1.
     setupCeremony (sample_keygen r) [([], \<lparr>pt_ref = 0, pt_id = sample_pid 0\<rparr>)] [sample_pid 0, sample_pid 1, sample_pid 2] t = Ret (True, t1) \<and>
     m_blame (t_blameMgr t1) = m_blame (t_blameMgr t)"
  by (simp add: newTssCommon_def newBlameManager_def setupCeremony_def setupPartyIDMap_def sample_pid_def sample_party_def 
       nat_digits_sample sample_keygen_def storage_ext.extend_def sample_storage_defs Let_def getPeerIDFromPartyID_def getPeerIDFromSecp256PubKey_def
       be_nat_def sample_nat_be getPeersID_def setPartyInfo_def setTssPartyInfo_def with_mgr_def bytes_str_def mput_def)

lemma sample_pub: "\<exists>a. getTssPubKey (sample_keygen r) (Some (1, 10)) = Inr (''pool'', a)"
  by (simp add: getTssPubKey_def sample_keygen_def storage_ext.extend_def sample_storage_defs)

lemma sample_end: "\<exists>t' fs'. keygenEnd (sample_keygen r) ''/d'' (keygen_item ''a'' [''a'', ''b'', ''c'']) sample_save [] (t, sample_fs) =
   Ret ((Some (1, 10), None), t', fs') \<and> m_blame (t_blameMgr t') = m_blame (t_blameMgr t)"
  by (simp add: notifyTaskDone_def renderToP2P_def keygenEnd_def keygen_item_def sample_save_def getTssPubKey_def saveLocalState_def getFilePathName_def
      checkKeyOnCurve_def sample_state_def sample_keygen_def storage_ext.extend_def sample_storage_defs bytes_str_def str_bytes_def writeFile_def sample_fs_def)

lemma sample_keygen_run:
  assumes "newTssCommon p True i [97] 1 = Ret t"
  shows "\<exists>tk' fs'. generateNewKey (sample_keygen r) 0 sample_kgreq [KgEnd sample_save []] sample_fin (sample_tk t, sample_fs)
       = Some (Ret ((Some (1, 10), None), tk', fs')) \<and> m_blame (t_blameMgr (tk_common tk')) = m_blame (t_blameMgr t)"
proof -
  obtain t1 where t1: "setupCeremony (sample_keygen r) [([], \<lparr>pt_ref = 0, pt_id = sample_pid 0\<rparr>)]
      [sample_pid 0, sample_pid 1, sample_pid 2] t = Ret (True, t1)" "m_blame (t_blameMgr t1) = m_blame (t_blameMgr t)"
    using sample_setup [OF assms, of r] by blast
  obtain t2 fs' where t2: "keygenEnd (sample_keygen r) ''/d'' (keygen_item ''a'' [''a'', ''b'', ''c'']) sample_save [] (t1, sample_fs) =
      Ret ((Some (1, 10), None), t2, fs')" "m_blame (t_blameMgr t2) = m_blame (t_blameMgr t1)"
    using sample_end [of r t1] by blast
  show ?thesis
    using t1 t2 getThreshold_int [of 3]
    by (simp add: generateNewKey_def sample_getParties sample_tk_def sample_kgreq_def newKeygenRequest_def)
qed

end
