(* ===== verification/Go_Sort.thy ===== *)
theory Go_Sort
  imports Go_Std
begin

text \<open>
  \<open>sort.SliceStable\<close> of Go's standard library: blocks of twenty elements sorted by insertion, then
  merged pairwise.  The comparison is a parameter; the program calls it with one that also holds
  between equal elements, for which the documentation promises nothing, so the algorithm is
  written out.  The result for such a comparison is the reverse of the stable sort.
\<close>

section \<open>The algorithm\<close>

text \<open>An element moves left past its neighbours as long as it is less than they are; the sorted
  prefix is kept in reverse.\<close>

fun ins_left :: "('a \<Rightarrow> 'a \<Rightarrow> bool) \<Rightarrow> 'a \<Rightarrow> 'a list \<Rightarrow> 'a list" where
  "ins_left lt x [] = [x]"
| "ins_left lt x (y # ys) = (if lt x y then y # ins_left lt x ys else x # y # ys)"

definition insertionSort :: "('a \<Rightarrow> 'a \<Rightarrow> bool) \<Rightarrow> 'a list \<Rightarrow> 'a list" where
  "insertionSort lt xs = rev (fold (ins_left lt) xs [])"

text \<open>An element of the right block goes first when it is less than the head of the left one.\<close>

fun symMerge :: "('a \<Rightarrow> 'a \<Rightarrow> bool) \<Rightarrow> 'a list \<Rightarrow> 'a list \<Rightarrow> 'a list" where
  "symMerge lt [] ys = ys"
| "symMerge lt xs [] = xs"
| "symMerge lt (x # xs) (y # ys) =
     (if lt y x then y # symMerge lt (x # xs) ys else x # symMerge lt xs (y # ys))"

fun sort_blocks :: "('a \<Rightarrow> 'a \<Rightarrow> bool) \<Rightarrow> 'a list \<Rightarrow> 'a list list" where
  "sort_blocks lt xs =
     (if length xs \<le> 20 then [insertionSort lt xs]
      else insertionSort lt (take 20 xs) # sort_blocks lt (drop 20 xs))"

declare sort_blocks.simps [simp del]

fun merge_pairs :: "('a \<Rightarrow> 'a \<Rightarrow> bool) \<Rightarrow> 'a list list \<Rightarrow> 'a list list" where
  "merge_pairs lt (a # b # bs) = symMerge lt a b # merge_pairs lt bs"
| "merge_pairs lt bs = bs"

lemma length_merge_pairs: "length (merge_pairs lt bs) \<le> length bs"
  by (induction lt bs rule: merge_pairs.induct) auto

function merge_blocks :: "('a \<Rightarrow> 'a \<Rightarrow> bool) \<Rightarrow> 'a list list \<Rightarrow> 'a list" where
  "merge_blocks lt [] = []"
| "merge_blocks lt [a] = a"
| "merge_blocks lt (a # b # bs) = merge_blocks lt (symMerge lt a b # merge_pairs lt bs)"
  by pat_completeness auto

termination
  by (relation "measure (length \<circ> snd)") (auto simp: less_Suc_eq_le length_merge_pairs)

definition sliceStable :: "('a \<Rightarrow> 'a \<Rightarrow> bool) \<Rightarrow> 'a list \<Rightarrow> 'a list" where
  "sliceStable lt xs = merge_blocks lt (sort_blocks lt xs)"

section \<open>Comparisons that hold between equal elements\<close>

definition not_below :: "('a \<Rightarrow> 'k :: linorder) \<Rightarrow> 'a \<Rightarrow> 'a \<Rightarrow> bool" where
  "not_below key a b \<longleftrightarrow> \<not> key a < key b"

text \<open>\<open>ys\<close> is \<open>xs\<close> in descending order of the keys, equal keys in reverse order.\<close>

definition descends :: "('a \<Rightarrow> 'k :: linorder) \<Rightarrow> 'a list \<Rightarrow> 'a list \<Rightarrow> bool" where
  "descends key xs ys \<longleftrightarrow> mset ys = mset xs \<and> sorted_wrt (\<lambda>a b. key b \<le> key a) ys \<and>
     (\<forall>k. filter (\<lambda>x. key x = k) ys = rev (filter (\<lambda>x. key x = k) xs))"

lemma descends_sort_key:
  assumes "descends key xs ys"
  shows "ys = rev (sort_key key xs)"
proof -
  have "sort_key key xs = rev ys"
  proof (rule properties_for_sort_key)
    show "mset (rev ys) = mset xs" using assms by (simp add: descends_def)
    show "filter (\<lambda>x. key k = key x) (rev ys) = filter (\<lambda>x. key k = key x) xs" for k
      using assms by (simp add: descends_def rev_filter [symmetric] eq_commute [of "key k"])
    show "sorted (map key (rev ys))"
      using assms by (simp add: descends_def sorted_map sorted_wrt_rev)
  qed
  then show ?thesis by simp
qed

lemma ins_left_desc:
  "sorted (map key ys) \<Longrightarrow>
     mset (ins_left (not_below key) x ys) = add_mset x (mset ys) \<and>
     sorted (map key (ins_left (not_below key) x ys)) \<and>
     (\<forall>k. filter (\<lambda>y. key y = k) (ins_left (not_below key) x ys) =
        filter (\<lambda>y. key y = k) ys @ (if key x = k then [x] else []))"
proof (induction ys)
  case (Cons y ys)
  let ?i = "ins_left (not_below key) x ys"
  have ih: "mset ?i = add_mset x (mset ys)" "sorted (map key ?i)"
    "\<And>k. filter (\<lambda>y. key y = k) ?i = filter (\<lambda>y. key y = k) ys @ (if key x = k then [x] else [])"
    using Cons by auto
  show ?case
  proof (cases "key x < key y")
    case True
    then have "filter (\<lambda>z. key z = key x) (y # ys) = []"
      using Cons.prems by (fastforce simp: filter_empty_conv)
    with True Cons.prems show ?thesis by (auto simp: not_below_def)
  next
    case False
    have "set ?i = insert x (set ys)" using ih(1) by (metis set_mset_add_mset_insert set_mset_mset)
    moreover have "ins_left (not_below key) x (y # ys) = y # ?i" using False by (simp add: not_below_def)
    ultimately show ?thesis using False ih Cons.prems by auto
  qed
qed simp

lemma insertionSort_descends: "descends key xs (insertionSort (not_below key) xs)"
proof -
  have "sorted (map key ys) \<Longrightarrow> (let r = fold (ins_left (not_below key)) xs ys in
      mset r = mset ys + mset xs \<and> sorted (map key r) \<and>
      (\<forall>k. filter (\<lambda>y. key y = k) r = filter (\<lambda>y. key y = k) ys @ filter (\<lambda>y. key y = k) xs))" for ys
  proof (induction xs arbitrary: ys)
    case (Cons x xs)
    from ins_left_desc [OF Cons.prems, of x] Cons.IH [of "ins_left (not_below key) x ys"]
    show ?case by (simp add: Let_def)
  qed (simp add: Let_def)
  from this [of "[]"] show ?thesis
    by (simp add: descends_def insertionSort_def Let_def rev_filter [symmetric] sorted_wrt_rev sorted_map)
qed

lemma symMerge_mset: "mset (symMerge lt xs ys) = mset xs + mset ys"
  by (induction lt xs ys rule: symMerge.induct) auto

lemma symMerge_set [simp]: "set (symMerge lt xs ys) = set xs \<union> set ys"
  using symMerge_mset by (metis set_mset_mset set_mset_union)

lemma symMerge_sorted:
  "sorted_wrt (\<lambda>a b. key b \<le> key a) xs \<Longrightarrow> sorted_wrt (\<lambda>a b. key b \<le> key a) ys \<Longrightarrow>
     sorted_wrt (\<lambda>a b. key b \<le> (key a :: 'k :: linorder)) (symMerge (not_below key) xs ys)"
  by (induction "not_below key" xs ys rule: symMerge.induct) (auto simp: not_below_def)

lemma symMerge_filter:
  "sorted_wrt (\<lambda>a b. key b \<le> key a) xs \<Longrightarrow> sorted_wrt (\<lambda>a b. key b \<le> key a) ys \<Longrightarrow>
     filter (\<lambda>x. key x = (k :: 'k :: linorder)) (symMerge (not_below key) xs ys) =
       filter (\<lambda>x. key x = k) ys @ filter (\<lambda>x. key x = k) xs"
proof (induction "not_below key" xs ys rule: symMerge.induct)
  case (3 x xs y ys)
  have f: "filter (\<lambda>z. key z = key x) (y # ys) = []" if "key y < key x"
    using that 3(4) by (force simp: filter_empty_conv)
  show ?case
  proof (cases "key y < key x")
    case True
    with f 3 show ?thesis by (cases "key x = k") (auto simp: not_below_def)
  next
    case False
    with 3 show ?thesis by (auto simp: not_below_def)
  qed
qed auto

lemma symMerge_descends:
  "descends key xs as \<Longrightarrow> descends key ys bs \<Longrightarrow> descends key (xs @ ys) (symMerge (not_below key) as bs)"
  by (simp add: descends_def symMerge_mset symMerge_sorted symMerge_filter)

text \<open>The blocks stand for consecutive parts of the list.\<close>

lemma sort_blocks_descend:
  "\<exists>parts. concat parts = xs \<and> parts \<noteq> [] \<and> list_all2 (descends key) parts (sort_blocks (not_below key) xs)"
proof (induction "not_below key" xs rule: sort_blocks.induct)
  case (1 xs)
  show ?case
  proof (cases "length xs \<le> 20")
    case True
    then show ?thesis
      by (intro exI [of _ "[xs]"]) (simp add: insertionSort_descends sort_blocks.simps [of _ xs])
  next
    case False
    with 1 obtain parts where "concat parts = drop 20 xs"
      "list_all2 (descends key) parts (sort_blocks (not_below key) (drop 20 xs))" by blast
    with False show ?thesis
      by (intro exI [of _ "take 20 xs # parts"]) (simp add: insertionSort_descends sort_blocks.simps [of _ xs])
  qed
qed

lemma merge_pairs_descend:
  "list_all2 (descends key) parts bs \<Longrightarrow>
     \<exists>parts'. concat parts' = concat parts \<and> list_all2 (descends key) parts' (merge_pairs (not_below key) bs)"
proof (induction "not_below key" bs arbitrary: parts rule: merge_pairs.induct)
  case (1 a b bs)
  then obtain xs ys ps where p: "parts = xs # ys # ps" "descends key xs a" "descends key ys b"
    "list_all2 (descends key) ps bs" by (auto simp: list_all2_Cons2)
  from 1(1) [OF p(4)] obtain ps' where "concat ps' = concat ps"
    "list_all2 (descends key) ps' (merge_pairs (not_below key) bs)" by blast
  with p show ?case by (intro exI [of _ "(xs @ ys) # ps'"]) (simp add: symMerge_descends)
qed auto

lemma merge_blocks_descend:
  "list_all2 (descends key) parts bs \<Longrightarrow> parts \<noteq> [] \<Longrightarrow>
     descends key (concat parts) (merge_blocks (not_below key) bs)"
proof (induction "not_below key" bs arbitrary: parts rule: merge_blocks.induct)
  case (3 a b bs)
  from merge_pairs_descend [OF 3(2)] obtain ps where ps: "concat ps = concat parts"
    "list_all2 (descends key) ps (merge_pairs (not_below key) (a # b # bs))" by blast
  then have "ps \<noteq> []" by (auto simp: list_all2_Cons2)
  with 3(1) [of ps] ps show ?case by simp
qed (auto simp: list_all2_Cons2)

lemma sliceStable_not_below: "sliceStable (not_below key) xs = rev (sort_key key xs)"
proof -
  obtain parts where "concat parts = xs" "parts \<noteq> []"
    "list_all2 (descends key) parts (sort_blocks (not_below key) xs)"
    using sort_blocks_descend by blast
  then show ?thesis
    using merge_blocks_descend by (intro descends_sort_key) (fastforce simp: sliceStable_def)
qed

text \<open>Hence two lists with the same keys are brought into the same order of keys.\<close>

lemma sliceStable_keys: "map key (sliceStable (not_below key) xs) = rev (sort (map key xs))"
proof -
  have "map key (sort_key key xs) = sort (map key xs)"
    by (rule properties_for_sort [symmetric]) simp_all
  then show ?thesis by (simp add: sliceStable_not_below rev_map [symmetric])
qed

lemma sliceStable_mset [simp]: "mset (sliceStable (not_below key) xs) = mset xs"
  by (simp add: sliceStable_not_below)

lemma sliceStable_length [simp]: "length (sliceStable (not_below key) xs) = length xs"
  by (simp add: sliceStable_not_below)

lemma sliceStable_set [simp]: "set (sliceStable (not_below key) xs) = set xs"
  by (simp add: sliceStable_not_below)

end
