(* ===== verification/Keysign.thy ===== *)
theory Keysign
  imports Keygen Go_Sort
begin

text \<open>
  Package \<open>keysign\<close> (\<open>keysign/tss_keysign.go\<close>): a batch of messages is signed by one tss-lib party
  per message.  As in theory Keygen, \<open>processKeySign\<close> is a run over the events of its select;
  \<open>None\<close> means that the events do not end it.
\<close>

section \<open>State and events\<close>

datatype keysign_event =
    KsInbound inbound_event \<comment> \<open>a step of \<open>ProcessInboundMessages\<close>\<close>
  | KsErr \<comment> \<open>the receive from \<open>errChan\<close>\<close>
  | KsStop
  | KsTimeout blame_env
  | KsOut btss_message
  | KsEnd ec_sig "(peer_id, string list) gomap"
      \<comment> \<open>a party finished; the addresses that \<open>ExportPeerAddress\<close> returns\<close>

record tss_keysign =
  sk_common :: tss_state
  sk_folder :: string \<comment> \<open>the state manager\<close>
  sk_commStopped :: bool

definition newTssKeySign ::
  "string \<Rightarrow> bool \<Rightarrow> string \<Rightarrow> bytes \<Rightarrow> string \<Rightarrow> int \<Rightarrow> tss_keysign outcome" where
  "newTssKeySign localP2PID channel msgID privKey folder msgNum =
     out_bind (newTssCommon localP2PID channel msgID privKey msgNum) (\<lambda>t.
       Ret \<lparr>sk_common = t, sk_folder = folder, sk_commStopped = False\<rparr>)"

text \<open>Every party is started in a goroutine of its own; the wait group counts the messages.  \<open>starts\<close>
  tells whether \<open>Party.Start\<close> succeeds.\<close>

definition startBatchSigning :: "(party \<Rightarrow> bool) \<Rightarrow> (string, party) gomap \<Rightarrow> nat \<Rightarrow> bool outcome option" where
  "startBatchSigning starts keySignPartyMap msgNum =
     (if length keySignPartyMap < msgNum then None
      else if msgNum < length keySignPartyMap then Some (Panic ''sync: negative WaitGroup counter'')
      else Some (Ret (\<forall>(k, p)\<in>set keySignPartyMap. starts p)))"

section \<open>processKeySign\<close>

text \<open>The method call on the nil interface panics.\<close>

definition keysignTimeout :: "'e conv_ext_scheme \<Rightarrow> blame_env \<Rightarrow> tss_state \<Rightarrow> (goerr \<times> tss_state) outcome" where
  "keysignTimeout x env t =
     out_bind (deref (m_lastMsg (t_blameMgr t))) (\<lambda>lastMsg.
     out_bind (timeoutBlame x env
         (if bm_broadcast lastMsg then getPreviousKeySignUicast (bm_type lastMsg) else bm_type lastMsg)
         (bm_type lastMsg) TSSKEYSIGNROUNDS t) (\<lambda>t1.
       Ret (ErrTssTimeOut, t1)))"

fun processKeySign ::
  "'e storage_ext_scheme \<Rightarrow> string \<Rightarrow> nat \<Rightarrow> bool \<Rightarrow> ec_sig list \<Rightarrow> keysign_event list \<Rightarrow> tss_state \<times> file_system
     \<Rightarrow> ((ec_sig list option \<times> goerr option) \<times> tss_state \<times> file_system) outcome option" where
  "processKeySign x folder reqNum errClosed signatures [] st = None"
| "processKeySign x folder reqNum errClosed signatures (KsInbound ev # es) (t, fs) =
     (case processInboundMessages x [ev] t of
        Panic m \<Rightarrow> Some (Panic m)
      | Ret t1 \<Rightarrow> processKeySign x folder reqNum errClosed signatures es (t1, fs))"
| "processKeySign x folder reqNum errClosed signatures (KsErr # es) st =
     (if errClosed
      then Some (Ret ((None, Some (ErrText ''error channel closed fail to start local party'')), st))
      else processKeySign x folder reqNum errClosed signatures es st)"
| "processKeySign x folder reqNum errClosed signatures (KsStop # es) st =
     Some (Ret ((None, Some (ErrText ''received exit signal'')), st))"
| "processKeySign x folder reqNum errClosed signatures (KsTimeout env # es) (t, fs) =
     Some (out_bind (keysignTimeout x env t) (\<lambda>(e, t1). Ret ((None, Some e), t1, fs)))"
| "processKeySign x folder reqNum errClosed signatures (KsOut msg # es) (t, fs) =
     (case processOutCh x msg TSSKeySignMsg (with_mgr (setLastMsg (Some msg)) t) of
        Panic m \<Rightarrow> Some (Panic m)
      | Ret (Some e, t1) \<Rightarrow> Some (Ret ((None, Some e), t1, fs))
      | Ret (None, t1) \<Rightarrow> processKeySign x folder reqNum errClosed signatures es (t1, fs))"
| "processKeySign x folder reqNum errClosed signatures (KsEnd sig address # es) (t, fs) =
     (let sigs = signatures @ [sig] in
      if length sigs = reqNum
      then Some (Ret ((Some sigs, None), snd (notifyTaskDone x t), snd (saveAddressBook x folder address fs)))
      else processKeySign x folder reqNum errClosed sigs es (t, fs))"

section \<open>SignMessage\<close>

definition keysign_moniker :: "bytes \<Rightarrow> nat \<Rightarrow> string" where
  "keysign_moniker msg i = nat_digits (msgToHashInt msg) @ '':'' @ itoa (int i)"

text \<open>The parties of a batch; \<open>fresh\<close> is the identity of the next party id object.\<close>

fun keysign_parties ::
  "'e conv_ext_scheme \<Rightarrow> nat \<Rightarrow> string list \<Rightarrow> string \<Rightarrow> nat \<Rightarrow> bytes list \<Rightarrow> (string, party) gomap
     \<Rightarrow> (string, party) gomap res" where
  "keysign_parties x fresh parties localKey i [] pm = Inr pm"
| "keysign_parties x fresh parties localKey i (val # vals) pm =
     (case getParties x fresh parties localKey of
        Inl e \<Rightarrow> Inl (ErrWrap ''error to create parties in batch signging'' e)
      | Inr (partiesID, eachLocalPartyID) \<Rightarrow>
         (let moniker = keysign_moniker val i in
          keysign_parties x (fresh + length parties) parties localKey (Suc i) vals
            (mput moniker \<lparr>pt_ref = i, pt_id = eachLocalPartyID\<lparr>pid_moniker := moniker\<rparr>\<rparr> pm)))"

text \<open>The order of the final sort: the comparison also holds between equal elements.\<close>

definition sig_value :: "ec_sig \<Rightarrow> nat" where
  "sig_value s = be_nat (es_m s)"

definition sortSignatures :: "ec_sig list \<Rightarrow> ec_sig list" where
  "sortSignatures results = sliceStable (\<lambda>a b. \<not> sig_value a < sig_value b) results"

text \<open>The goroutine of \<open>startBatchSigning\<close> runs beside \<open>processKeySign\<close> and closes \<open>errCh\<close> when a party did not
  start; when its own wait never ends, the wait of \<open>SignMessage\<close> for it does not end either.\<close>

definition signMessage ::
  "'e storage_ext_scheme \<Rightarrow> nat \<Rightarrow> (party \<Rightarrow> bool) \<Rightarrow> bytes list \<Rightarrow> local_state \<Rightarrow> string list
     \<Rightarrow> keysign_event list \<Rightarrow> finish_event list \<Rightarrow> tss_keysign \<times> file_system
     \<Rightarrow> ((ec_sig list option \<times> goerr option) \<times> tss_keysign \<times> file_system) outcome option" where
  "signMessage x fresh starts msgsToSign item parties es fin = (\<lambda>(sk, fs).
     (case getParties x fresh parties (ls_localParty item) of
        Inl e \<Rightarrow> Some (Ret ((None, Some (ErrWrap ''fail to form key sign party'' e)), sk, fs))
      | Inr (partiesID, localPartyID) \<Rightarrow>
     (if \<not> containsParty partiesID (Some localPartyID) then Some (Ret ((None, None), sk, fs))
      else
     (case getThreshold (int (length (ls_participants item))) of
        Inl e \<Rightarrow> Some (Ret ((None, Some (ErrText ''fail to get threshold'')), sk, fs))
      | Inr threshold \<Rightarrow>
     (case keysign_parties x (fresh + length parties) parties (ls_localParty item) 0 msgsToSign [] of
        Inl e \<Rightarrow> Some (Ret ((None, Some e), sk, fs))
      | Inr keySignPartyMap \<Rightarrow>
     (case setupCeremony x keySignPartyMap partiesID (sk_common sk) of
        Panic m \<Rightarrow> Some (Panic m)
      | Ret (False, t1) \<Rightarrow> Some (Ret ((None, None), sk\<lparr>sk_common := t1\<rparr>, fs))
      | Ret (True, t1) \<Rightarrow>
     (let started = startBatchSigning starts keySignPartyMap (length msgsToSign);
          errClosed = (started = Some (Ret False)) in
     (case started of Some (Panic m) \<Rightarrow> Some (Panic m) | _ \<Rightarrow>
     (case processKeySign x (sk_folder sk) (length msgsToSign) errClosed [] es (t1, fs) of
        None \<Rightarrow> None
      | Some (Panic m) \<Rightarrow> Some (Panic m)
      | Some (Ret ((r, Some e), t2, fs2)) \<Rightarrow>
          Some (close_stop (sk_commStopped sk) ((None, Some (ErrWrap ''fail to process key sign'' e)),
            sk\<lparr>sk_common := t2, sk_commStopped := True\<rparr>, fs2))
      | Some (Ret ((r, None), t2, fs2)) \<Rightarrow>
          map_option (\<lambda>o3. out_bind o3 (\<lambda>t3.
              Ret ((map_option sortSignatures r, None), sk\<lparr>sk_common := t3, sk_commStopped := True\<rparr>, fs2)))
            (commFinish x (started \<noteq> None) (finish_start (sk_commStopped sk)) fin t2))))))))))"

section \<open>The batch is started\<close>

lemma colon_not_digit: "CHR '':'' \<notin> set (nat_digits n)"
proof
  assume "CHR '':'' \<in> set (nat_digits n)"
  then obtain d where d: "d < 10" "CHR '':'' = digit_char d" using nat_digits_chars by blast
  moreover have "of_char (CHR '':'') = (58 :: nat)" by simp
  ultimately show False by (simp add: digit_char_def)
qed

lemma keysign_moniker_inject: "keysign_moniker m i = keysign_moniker m' j \<Longrightarrow> i = j"
proof -
  have "dropWhile (\<lambda>c. c \<noteq> CHR '':'') (nat_digits n @ '':'' @ s) = '':'' @ s" for n s
    using colon_not_digit [of n] by (subst dropWhile_append2) auto
  then show "keysign_moniker m i = keysign_moniker m' j \<Longrightarrow> i = j"
    unfolding keysign_moniker_def by (metis append.simps(1) append_Cons list.inject itoa_inject of_nat_eq_iff)
qed

lemma length_mput_new: "k \<notin> fst ` set m \<Longrightarrow> length (mput k v m) = Suc (length m)"
  by (induction m) (auto simp: mput_def)

lemma keysign_parties_length:
  assumes "keysign_parties x fresh parties localKey i msgs pm = Inr pm'" "wf_map pm"
    and "\<And>k. k \<in> fst ` set pm \<Longrightarrow> \<exists>m j. k = keysign_moniker m j \<and> j < i"
  shows "wf_map pm' \<and> length pm' = length pm + length msgs"
  using assms
proof (induction msgs arbitrary: fresh i pm)
  case (Cons m msgs)
  let ?k = "keysign_moniker m i"
  obtain ps loc where g: "getParties x fresh parties localKey = Inr (ps, loc)"
    using Cons.prems(1) by (auto split: sum.splits)
  let ?pm = "mput ?k \<lparr>pt_ref = i, pt_id = loc\<lparr>pid_moniker := ?k\<rparr>\<rparr> pm"
  have new: "?k \<notin> fst ` set pm" using Cons.prems(3) keysign_moniker_inject by fastforce
  have "wf_map pm' \<and> length pm' = length ?pm + length msgs"
  proof (rule Cons.IH)
    show "keysign_parties x (fresh + length parties) parties localKey (Suc i) msgs ?pm = Inr pm'"
      using Cons.prems(1) g by (simp add: Let_def)
    show "wf_map ?pm" using Cons.prems(2) by simp
    show "\<exists>m j. k = keysign_moniker m j \<and> j < Suc i" if "k \<in> fst ` set ?pm" for k
      using that Cons.prems(3) [of k] by (auto simp: less_Suc_eq)
  qed
  moreover have "length ?pm = Suc (length pm)" using new by (rule length_mput_new)
  ultimately show ?case by simp
qed simp

text \<open>Every batch is started: the wait group counts as many parties as there are messages.\<close>

lemma startBatchSigning_returns:
  assumes "keysign_parties x fresh parties localKey 0 msgs [] = Inr pm"
  shows "startBatchSigning starts pm (length msgs) = Some (Ret (\<forall>(k, p)\<in>set pm. starts p))"
  using keysign_parties_length [OF assms] by (simp add: startBatchSigning_def)

section \<open>A batch is complete and in the order of its messages\<close>

text \<open>The signatures of the parties that finished, in the order in which they did.\<close>

fun ended :: "keysign_event list \<Rightarrow> ec_sig list" where
  "ended [] = []"
| "ended (KsEnd s address # es) = s # ended es"
| "ended (e # es) = ended es"

lemma processKeySign_success:
  assumes "processKeySign x folder n errClosed sigs es (t, fs) = Some (Ret ((r, None), t', fs'))"
    and "tss_ok x pi mid t"
  shows "\<exists>more. r = Some (sigs @ more) \<and> length (sigs @ more) = n \<and> more = take (length more) (ended es) \<and>
    tss_ok x pi mid t'"
  using assms
proof (induction es arbitrary: t sigs)
  case (Cons e es)
  show ?case
  proof (cases e)
    case (KsInbound ev)
    obtain t1 where t1: "processInboundMessages x [ev] t = Ret t1"
      "processKeySign x folder n errClosed sigs es (t1, fs) = Some (Ret ((r, None), t', fs'))"
      using Cons.prems(1) KsInbound by (auto simp del: processInboundMessages.simps split: outcome.splits)
    from Cons.IH [OF t1(2) processInboundMessages_ok [OF Cons.prems(2) t1(1)]] KsInbound show ?thesis by simp
  next
    case (KsOut msg)
    then obtain t1 where t1: "processOutCh x msg TSSKeySignMsg (with_mgr (setLastMsg (Some msg)) t) = Ret (None, t1)"
      "processKeySign x folder n errClosed sigs es (t1, fs) = Some (Ret ((r, None), t', fs'))"
      using Cons.prems(1) by (auto split: outcome.splits prod.splits option.splits)
    then have "tss_ok x pi mid t1"
      using tss_ok_only_sends [OF processOutCh_only [OF t1(1)], of x pi mid] Cons.prems(2) by simp
    from Cons.IH [OF t1(2) this] KsOut show ?thesis by simp
  next
    case (KsEnd s address)
    show ?thesis
    proof (cases "length (sigs @ [s]) = n")
      case True
      with Cons.prems KsEnd show ?thesis
        by (intro exI [of _ "[s]"]) (auto simp: tss_ok_only_sends [OF notifyTaskDone_only])
    next
      case False
      with Cons.prems(1) KsEnd have "processKeySign x folder n errClosed (sigs @ [s]) es (t, fs) =
        Some (Ret ((r, None), t', fs'))" by (simp add: Let_def)
      from Cons.IH [OF this Cons.prems(2)] obtain more where
        "r = Some (sigs @ s # more)" "length (sigs @ s # more) = n" "more = take (length more) (ended es)"
        "tss_ok x pi mid t'" by auto
      with KsEnd show ?thesis by (intro exI [of _ "s # more"]) simp
    qed
  next
    case KsErr
    with Cons.prems Cons.IH [of sigs t] show ?thesis by (auto split: if_splits)
  qed (use Cons.prems(1) in \<open>auto simp: out_bind_Ret_iff\<close>)
qed simp

lemma sortSignatures_not_below: "sortSignatures = sliceStable (not_below sig_value)"
  by (simp add: sortSignatures_def not_below_def [abs_def] fun_eq_iff)

lemma signMessage_success:
  assumes "signMessage x fresh starts msgs item parties es fin (sk, fs) = Some (Ret ((Some sigs, None), sk', fs'))"
    and "fresh_common (sk_common sk)"
  shows "\<exists>more pi. sigs = sortSignatures more \<and> length more = length msgs \<and> more = take (length msgs) (ended es) \<and>
    tss_ok x pi (t_msgID (sk_common sk)) (sk_common sk')"
proof -
  let ?mid = "t_msgID (sk_common sk)"
  obtain ids pm f t1 t2 t3 more b g where su: "setupCeremony x pm ids (sk_common sk) = Ret (True, t1)"
    and run: "processKeySign x (sk_folder sk) (length msgs) f [] es (t1, fs) = Some (Ret ((Some more, None), t2, fs'))"
    and fin: "commFinish x b g fin t2 = Some (Ret t3)" and sk': "sk_common sk' = t3" and sigs: "sigs = sortSignatures more"
    using assms(1)
    by (auto simp: signMessage_def out_bind_Ret_iff close_stop_def Let_def
        split: sum.splits prod.splits outcome.splits option.splits if_splits bool.splits)
  let ?pi = "\<lparr>pi_party_map = pm, pi_id_map = setupPartyIDMap ids\<rparr>"
  have "tss_ok x ?pi ?mid t1" using setupCeremony_start [OF su assms(2)] by (rule ceremony_start_ok)
  from processKeySign_success [OF run this]
  have more: "length more = length msgs" "more = take (length more) (ended es)" "tss_ok x ?pi ?mid t2" by auto
  have "tss_ok x ?pi ?mid t3" using more(3) fin by (rule commFinish_ok)
  with more sigs sk' show ?thesis by auto
qed

lemma same_keys_same_order:
  assumes "map f (sliceStable (not_below f) xs) = map g (sliceStable (not_below g) ys)" "i < length ys"
  shows "f (sliceStable (not_below f) xs ! i) = g (sliceStable (not_below g) ys ! i)"
  using assms by (metis length_map nth_map sliceStable_length)

text \<open>C7. A batch is signed completely and in the order of its messages: when \<open>SignMessage\<close> of a new
  instance (no party tables, nothing cached or counted yet) returns signatures, they are those of the first parties that finished, one for every message, and if
  each of these parties signed the hash of one of the messages, then the \<open>i\<close>-th signature is for
  the \<open>i\<close>-th message of the list as \<open>KeySign\<close> sorts it, in whatever order the parties finished.  The
  ceremony is still consistent.\<close>

theorem signMessage_matches:
  assumes "signMessage x fresh starts (sliceStable (\<lambda>a b. \<not> msgToHashInt a < msgToHashInt b) msgs) item parties es fin (sk, fs)
      = Some (Ret ((Some sigs, None), sk', fs'))"
    and "fresh_common (sk_common sk)"
    and "mset (map sig_value (take (length msgs) (ended es))) = mset (map msgToHashInt msgs)"
  shows "length sigs = length msgs \<and> mset sigs = mset (take (length msgs) (ended es)) \<and>
    (\<forall>i<length msgs. sig_value (sigs ! i) =
       msgToHashInt (sliceStable (\<lambda>a b. \<not> msgToHashInt a < msgToHashInt b) msgs ! i)) \<and>
    (\<exists>pi. tss_ok x pi (t_msgID (sk_common sk)) (sk_common sk'))"
proof -
  have nb: "(\<lambda>a b. \<not> msgToHashInt a < msgToHashInt b) = not_below msgToHashInt"
    by (simp add: not_below_def fun_eq_iff)
  from signMessage_success [OF assms(1) [unfolded nb] assms(2)] obtain more pi where
    more: "sigs = sliceStable (not_below sig_value) more" "length more = length msgs"
      "more = take (length msgs) (ended es)" "tss_ok x pi (t_msgID (sk_common sk)) (sk_common sk')"
    by (auto simp: sortSignatures_not_below)
  have "sort (map sig_value more) = sort (map msgToHashInt msgs)"
    using assms(3) more(3) by (metis properties_for_sort mset_sort sorted_sort)
  then have "map sig_value sigs = map msgToHashInt (sliceStable (not_below msgToHashInt) msgs)"
    by (simp add: more(1) sliceStable_keys)
  then have "sig_value (sigs ! i) = msgToHashInt (sliceStable (not_below msgToHashInt) msgs ! i)" if "i < length msgs" for i
    using that more(1) by (intro same_keys_same_order [of sig_value more msgToHashInt msgs i, folded more(1)])
  with more show ?thesis unfolding nb by simp metis
qed

text \<open>The timer panics when it fires before the first message of the local parties.\<close>

lemma keysign_early_timeout_panics:
  "m_lastMsg (t_blameMgr t) = None \<Longrightarrow>
     processKeySign x folder n errClosed sigs (KsTimeout env # es) (t, fs) = Some (Panic ''nil pointer dereference'')"
  by (simp add: keysignTimeout_def deref_def)

section \<open>A sample\<close>

text \<open>The parties \<open>a\<close> and \<open>b\<close> sign two messages; the party of the larger one finishes last.\<close>

definition sample_sk :: "tss_state \<Rightarrow> tss_keysign" where
  "sample_sk t = \<lparr>sk_common = t, sk_folder = ''/d'', sk_commStopped = False\<rparr>"

definition sample_es :: "keysign_event list" where
  "sample_es = [KsEnd (sample_sig 3) [], KsEnd (sample_sig 4) []]"

lemma sample_getParties_sign:
  "getParties (sample_keygen r) n [''a'', ''b''] ''a'' =
     Inr ([(sample_pid 0)\<lparr>pid_ref := n\<rparr>, (sample_pid 1)\<lparr>pid_ref := Suc n\<rparr>], (sample_pid 0)\<lparr>pid_ref := n\<rparr>)"
  by (simp add: getParties_def itoa_0 itoa_1 sample_keygen_def storage_ext.extend_def sample_storage_defs sample_pid_def sample_party_def
      nat_digits_sample str_bytes_def be_nat_def sample_nat_be Let_def)

lemma sample_keysign_parties:
  "\<exists>k v pm. keysign_parties (sample_keygen r) 2 [''a'', ''b''] ''a'' 0 [m1, m2] [] = Inr ((k, v) # pm)"
  by (auto simp: sample_getParties_sign Let_def mput_def)

lemma sample_setup_sign:
  "newTssCommon ''a'' True ''m'' [97] 2 = Ret t \<Longrightarrow> \<exists>t1. setupCeremony (sample_keygen r) ((k, v) # pm)
     [(sample_pid 0)\<lparr>pid_ref := 0\<rparr>, (sample_pid 1)\<lparr>pid_ref := 1\<rparr>] t = Ret (True, t1)"
  by (simp add: newTssCommon_def newBlameManager_def setupCeremony_def setupPartyIDMap_def sample_pid_def sample_party_def
       nat_digits_sample sample_keygen_def storage_ext.extend_def sample_storage_defs Let_def getPeerIDFromPartyID_def getPeerIDFromSecp256PubKey_def
       be_nat_def sample_nat_be getPeersID_def setPartyInfo_def setTssPartyInfo_def with_mgr_def bytes_str_def mput_def)

lemma sample_hash: "msgToHashInt [3] = 3" "msgToHashInt [4] = 4"
  by (simp_all add: msgToHashInt_def hashToInt_def be_nat_def)

lemma sample_sig_value: "sig_value (sample_sig 3) = 3" "sig_value (sample_sig 4) = 4"
  by (simp_all add: sig_value_def sample_sig_def be_nat_def)

lemma sample_sign_run:
  assumes "newTssCommon ''a'' True ''m'' [97] 2 = Ret t"
  shows "\<exists>sk' fs'. signMessage (sample_keygen r) 0 (\<lambda>p. True)
      (sliceStable (\<lambda>a b. \<not> msgToHashInt a < msgToHashInt b) [[3], [4]]) (sample_state ''p'') [''a'', ''b''] sample_es
      sample_fin (sample_sk t, sample_fs) = Some (Ret ((Some [sample_sig 4, sample_sig 3], None), sk', fs'))"
proof -
  have ms: "sliceStable (\<lambda>a b. \<not> msgToHashInt a < msgToHashInt b) [[3], [4]] = [[4], [3]]"
    by (simp add: sliceStable_def sort_blocks.simps insertionSort_def sample_hash)
  have ss: "sortSignatures [sample_sig 3, sample_sig 4] = [sample_sig 4, sample_sig 3]"
    by (simp add: sortSignatures_def sliceStable_def sort_blocks.simps insertionSort_def sample_sig_value)
  obtain k v pm where pm: "keysign_parties (sample_keygen r) 2 [''a'', ''b''] ''a'' 0 [[4], [3]] [] = Inr ((k, v) # pm)"
    using sample_keysign_parties [of r] by blast
  obtain t1 where t1: "setupCeremony (sample_keygen r) ((k, v) # pm)
      [(sample_pid 0)\<lparr>pid_ref := 0\<rparr>, (sample_pid 1)\<lparr>pid_ref := 1\<rparr>] t = Ret (True, t1)"
    using sample_setup_sign [OF assms, of r] by blast
  show ?thesis
    using t1 startBatchSigning_returns [OF pm] getThreshold_int [of 3]
    by (simp add: signMessage_def ms sample_getParties_sign sample_state_def sample_sk_def sample_es_def containsParty_def
        party_struct_eq_def numeral_2_eq_2 [symmetric] pm ss del: keysign_parties.simps)
qed

theorem signMessage_matches_witness:
  "\<exists>t sk' fs'. signMessage (sample_keygen ()) 0 (\<lambda>p. True)
      (sliceStable (\<lambda>a b. \<not> msgToHashInt a < msgToHashInt b) [[3], [4]]) (sample_state ''p'') [''a'', ''b''] sample_es
      sample_fin (sample_sk t, sample_fs) = Some (Ret ((Some [sample_sig 4, sample_sig 3], None), sk', fs')) \<and>
     t_msgID (sk_common sk') = ''m''"
proof -
  obtain t where t: "newTssCommon ''a'' True ''m'' [97] 2 = Ret t" by (simp add: newTssCommon_def)
  obtain sk' fs' where r: "signMessage (sample_keygen ()) 0 (\<lambda>p. True)
      (sliceStable (\<lambda>a b. \<not> msgToHashInt a < msgToHashInt b) [[3], [4]]) (sample_state ''p'') [''a'', ''b''] sample_es
      sample_fin (sample_sk t, sample_fs) = Some (Ret ((Some [sample_sig 4, sample_sig 3], None), sk', fs'))"
    using sample_sign_run [OF t, of "()"] by blast
  have f: "fresh_common (sk_common (sample_sk t))" "t_msgID t = ''m''"
    using newTssCommon_fresh [OF t] by (simp_all add: sample_sk_def)
  have "\<exists>pi. tss_ok (sample_keygen ()) pi (t_msgID (sk_common (sample_sk t))) (sk_common sk')"
    using signMessage_matches [OF r f(1)]
    by (simp add: sample_es_def sample_hash sample_sig_value)
  then have "t_msgID (sk_common sk') = ''m''" by (auto simp: tss_in_def sample_sk_def f(2))
  with r show ?thesis by blast
qed

end
