(* ===== verification/Tss_Server.thy ===== *)
theory Tss_Server
  imports Communication Keysign
begin

text \<open>
  Package \<open>tss\<close>, first half (\<open>tss/tss.go\<close>, \<open>tss/keygen.go\<close>) and the metrics of \<open>monitor/metric.go\<close>:
  the server that owns the network, the coordinator, the notifier and the files, the message id
  of a request, the join party and \<open>Keygen\<close>.  A call is run with the events of its waits; what the
  runtime and the network do beside it is in these events.
\<close>

section \<open>Metrics\<close>

text \<open>The counters; the gauges hold durations, which are not modelled.\<close>

record metric =
  mt_keygen :: "(string, nat) gomap"
  mt_keysign :: "(string, nat) gomap"
  mt_join :: "(string \<times> string, nat) gomap"
  mt_registered :: bool

definition newMetric :: metric where
  "newMetric = \<lparr>mt_keygen = [], mt_keysign = [], mt_join = [], mt_registered = False\<rparr>"

definition counter_inc :: "'k \<Rightarrow> ('k, nat) gomap \<Rightarrow> ('k, nat) gomap" where
  "counter_inc k m = mput k (Suc (case mget m k of None \<Rightarrow> 0 | Some n \<Rightarrow> n)) m"

definition outcome_label :: "bool \<Rightarrow> string" where
  "outcome_label success = (if success then ''success'' else ''failure'')"

definition updateKeyGen :: "bool \<Rightarrow> metric \<Rightarrow> metric" where
  "updateKeyGen success m = m\<lparr>mt_keygen := counter_inc (outcome_label success) (mt_keygen m)\<rparr>"

definition updateKeySign :: "bool \<Rightarrow> metric \<Rightarrow> metric" where
  "updateKeySign success m = m\<lparr>mt_keysign := counter_inc (outcome_label success) (mt_keysign m)\<rparr>"

definition keygenJoinParty :: "bool \<Rightarrow> metric \<Rightarrow> metric" where
  "keygenJoinParty success m = m\<lparr>mt_join := counter_inc (''keygen'', outcome_label success) (mt_join m)\<rparr>"

definition keysignJoinParty :: "bool \<Rightarrow> metric \<Rightarrow> metric" where
  "keysignJoinParty success m = m\<lparr>mt_join := counter_inc (''keysign'', outcome_label success) (mt_join m)\<rparr>"

text \<open>A second registration panics.\<close>

definition metric_Enable :: "metric \<Rightarrow> metric outcome" where
  "metric_Enable m =
     (if mt_registered m then Panic ''duplicate metrics collector registration attempted''
      else Ret (m\<lparr>mt_registered := True\<rparr>))"

section \<open>The server\<close>

record tss_ext = sign_ext +
  x_addr_string :: "bytes \<Rightarrow> string" \<comment> \<open>\<open>AccAddress.String\<close>\<close>

record tss_server =
  sv_comm :: communication
  sv_localNodePubKey :: string
  sv_preParams :: bool \<comment> \<open>not nil\<close>
  sv_stopped :: bool \<comment> \<open>the stop channel is closed\<close>
  sv_pc :: coordinator
  sv_folder :: string
  sv_fs :: file_system
  sv_sn :: sig_notifier
  sv_privateKey :: bytes
  sv_metrics :: metric
  sv_queue :: "broadcast_msg list" \<comment> \<open>what was put into the broadcast channel\<close>
  sv_nextChan :: chan \<comment> \<open>the number of the next channel that is made\<close>

text \<open>\<open>NewTss\<close>: the key is given by its public bytes and, when it is of the right type, its private
  bytes; \<open>preParams\<close> and what \<open>GeneratePreParams\<close> returns are objects that \<open>valid\<close> judges.\<close>

definition newTss ::
  "'e tss_ext_scheme \<Rightarrow> (string \<Rightarrow> string res) \<Rightarrow> (nat \<Rightarrow> bool) \<Rightarrow> nat res \<Rightarrow> host_results
     \<Rightarrow> string list \<Rightarrow> int \<Rightarrow> bytes \<times> bytes option \<Rightarrow> string \<Rightarrow> string \<Rightarrow> int \<Rightarrow> bool \<Rightarrow> nat option \<Rightarrow> string
     \<Rightarrow> file_system \<Rightarrow> (tss_server res outcome \<times> file_system)" where
  "newTss x maddr valid generated h cmdBootstrapPeers p2pPort priKey rendezvous baseFolder partyTimeout
       enableMonitor preParams externalIP fs =
     (case x_marshal_acc_pk x (fst priKey) of
        Inl e \<Rightarrow> (Ret (Inl (ErrWrap ''fail to genearte the key'' e)), fs)
      | Inr pubKey \<Rightarrow>
     (case newFileStateMgr baseFolder fs of
        (Inl e, fs1) \<Rightarrow> (Ret (Inl (ErrText ''fail to create file state manager'')), fs1)
      | (Inr folder, fs1) \<Rightarrow>
     (let bootstrapPeers = (case retrieveP2PAddresses x folder fs1 of
            Inl e \<Rightarrow> cmdBootstrapPeers | Inr savedPeers \<Rightarrow> savedPeers @ cmdBootstrapPeers) in
      case newCommunication maddr rendezvous bootstrapPeers p2pPort externalIP of
        Inl e \<Rightarrow> (Ret (Inl (ErrWrap ''fail to create communication layer'' e)), fs1)
      | Inr comm \<Rightarrow>
     (case (case preParams of
              Some p \<Rightarrow> if valid p then Inr p else generated
            | None \<Rightarrow> generated) of
        Inl e \<Rightarrow> (Ret (Inl (ErrWrap ''fail to generate pre parameters'' e)), fs1)
      | Inr params \<Rightarrow>
     (if \<not> valid params then (Ret (Inl (ErrText ''invalid preparams'')), fs1)
      else
     (case getPriKeyRawBytes (snd priKey) of
        Inl e \<Rightarrow> (Ret (Inl (ErrText ''fail to get private key'')), fs1)
      | Inr raw \<Rightarrow>
     (case comm_Start h comm of
        (Some e, _, comm1) \<Rightarrow> (Ret (Inl (ErrWrap ''fail to start p2p network'' e)), fs1)
      | (None, _, comm1) \<Rightarrow>
         (out_bind (if enableMonitor then metric_Enable newMetric else Ret newMetric) (\<lambda>metrics.
            Ret (Inr \<lparr>sv_comm = comm1, sv_localNodePubKey = pubKey, sv_preParams = True, sv_stopped = False,
              sv_pc = newPartyCoordinator (cm_hostID comm1) partyTimeout (cm_deadline comm1), sv_folder = folder,
              sv_fs = fs1, sv_sn = newSignatureNotifier (cm_hostID comm1) (cm_deadline comm1),
              sv_privateKey = (case snd priKey of Some k \<Rightarrow> k | None \<Rightarrow> []), sv_metrics = metrics, sv_queue = [], sv_nextChan = 0\<rparr>)), fs1))))))))"

definition server_Start :: "tss_server \<Rightarrow> goerr option" where
  "server_Start t = None"

definition server_Stop :: "tss_server \<Rightarrow> tss_server outcome" where
  "server_Stop t =
     (if sv_stopped t then Panic ''close of closed channel''
      else out_bind (comm_Stop (sv_comm t)) (\<lambda>c. Ret (t\<lparr>sv_stopped := True, sv_comm := c\<rparr>)))"

definition getLocalPeerID :: "'e conv_ext_scheme \<Rightarrow> tss_server \<Rightarrow> string" where
  "getLocalPeerID x t = x_peer_string x (cm_hostID (sv_comm t))"

section \<open>Message ids\<close>

text \<open>The slices of the request are sorted in place, so the caller goes on with sorted lists.\<close>

definition keygenMsgId :: "'e conv_ext_scheme \<Rightarrow> keygen_request \<Rightarrow> string res \<times> keygen_request" where
  "keygenMsgId x req =
     (let keys = sort (kgq_keys req) in
      (msgToHashString x (str_bytes (concat keys)), req\<lparr>kgq_keys := keys\<rparr>))"

definition keysignMsgId :: "'e conv_ext_scheme \<Rightarrow> keysign_request \<Rightarrow> string res \<times> keysign_request" where
  "keysignMsgId x req =
     (let msgs = sort (ksq_messages req); keys = sort (ksq_signers req) in
      (msgToHashString x (str_bytes (str_join '','' msgs) @ str_bytes (concat keys)),
       req\<lparr>ksq_messages := msgs, ksq_signers := keys\<rparr>))"

datatype tss_request = KeygenReq keygen_request | KeysignReq keysign_request | OtherReq

fun requestToMsgId :: "'e conv_ext_scheme \<Rightarrow> tss_request \<Rightarrow> string res \<times> tss_request" where
  "requestToMsgId x (KeygenReq r) = map_prod id KeygenReq (keygenMsgId x r)"
| "requestToMsgId x (KeysignReq r) = map_prod id KeysignReq (keysignMsgId x r)"
| "requestToMsgId x OtherReq = (Inl (ErrText ''unknown request type''), OtherReq)"

section \<open>Joining a party\<close>

text \<open>The peers, the leader and the error; a nil list of peers is the empty list, which the join
  without leader only returns when it has not started.\<close>

definition joinParty ::
  "'e p2p_ext_scheme \<Rightarrow> network \<Rightarrow> string \<Rightarrow> string \<Rightarrow> int \<Rightarrow> string list \<Rightarrow> int \<Rightarrow> wait_event list \<Rightarrow> coordinator
     \<Rightarrow> ((peer_id list \<times> string \<times> goerr option) \<times> coordinator) option" where
  "joinParty x net msgID version blockHeight participants threshold es pc =
     (case versionLTCheck x version NEWJOINPARTYVERSION of
        Inl e \<Rightarrow> Some (([], [], Some (ErrWrap ''fail to parse the version with error'' e)), pc)
      | Inr oldJoinParty \<Rightarrow>
         (if oldJoinParty then
            (case getPeerIDsFromPubKeys x participants of
               Inl e \<Rightarrow> Some (([], NONE, Some (ErrWrap ''fail to convert pub key to peer id'' e)), pc)
             | Inr peerIDs \<Rightarrow>
                map_option (\<lambda>((onlines, err), pc1). ((onlines, NONE, err), pc1))
                  (joinPartyWithRetry x net msgID (map (x_peer_string x) peerIDs) es pc))
          else if length participants = 0 then
            Some (([], [], Some (ErrText ''no participants can be found'')), pc)
          else
            (case getPeerIDsFromPubKeys x participants of
               Inl e \<Rightarrow> Some (([], [], Some (ErrText ''fail to convert the public key to peer ID'')), pc)
             | Inr peersID \<Rightarrow>
                joinPartyWithLeader x net msgID blockHeight (map (x_peer_string x) peersID) threshold es pc)))"

section \<open>Keygen\<close>

definition keygen_topics :: "msg_type list" where
  "keygen_topics = [TSSKeyGenMsg, TSSKeyGenVerMsg, TSSControlMsg, TSSTaskDone]"

definition subscribe_all :: "msg_type list \<Rightarrow> string \<Rightarrow> chan \<Rightarrow> communication \<Rightarrow> communication" where
  "subscribe_all topics msgID ch c = fold (\<lambda>ty. setSubscribe ty msgID ch) topics c"

definition cancel_all :: "msg_type list \<Rightarrow> string \<Rightarrow> communication \<Rightarrow> communication" where
  "cancel_all topics msgID c = fold (\<lambda>ty. cancelSubscribe ty msgID) topics c"

definition keygenRelease :: "string \<Rightarrow> tss_server \<Rightarrow> tss_server" where
  "keygenRelease msgID t =
     t\<lparr>sv_comm := snd (cm_ReleaseStream msgID (cancel_all keygen_topics msgID (sv_comm t))),
       sv_pc := snd (pc_ReleaseStream msgID (sv_pc t))\<rparr>"

definition leaderBlame :: "'e conv_ext_scheme \<Rightarrow> string \<Rightarrow> blame_info" where
  "leaderBlame x leader =
     (case getPubKeyFromPeerID x leader of
        Inl e \<Rightarrow> newBlame TssSyncFail []
      | Inr leaderPubKey \<Rightarrow> newBlame TssSyncFail [newNode leaderPubKey [] []])"

definition keygenJoinBlame :: "'e conv_ext_scheme \<Rightarrow> string list \<Rightarrow> peer_id list \<Rightarrow> string \<Rightarrow> blame_info" where
  "keygenJoinBlame x keys onlinePeers leader =
     (if leader = NONE then
        (if onlinePeers = [] then newBlame InternalError [] else snd (nodeSyncBlame x keys onlinePeers))
      else if onlinePeers \<noteq> [] then
        addBlameNodes (bl_nodes (leaderBlame x leader)) (snd (nodeSyncBlame x keys onlinePeers))
      else leaderBlame x leader)"

definition failed_keygen :: "blame_info \<Rightarrow> keygen_response" where
  "failed_keygen b = newKeygenResponse [] [] Fail b"

text \<open>The end of \<open>Keygen\<close>: the point that \<open>GenerateNewKey\<close> returned becomes the response.\<close>

definition keygenAnswer ::
  "'e tss_ext_scheme \<Rightarrow> (nat \<times> nat) option \<Rightarrow> blame_info \<Rightarrow> keygen_response" where
  "keygenAnswer x k b =
     (case getTssPubKey x k of
        Inl e \<Rightarrow> newKeygenResponse [] (x_addr_string x []) Fail b
      | Inr (newPubKey, addr) \<Rightarrow> newKeygenResponse newPubKey (x_addr_string x addr) Success b)"

definition with_metrics :: "(metric \<Rightarrow> metric) \<Rightarrow> tss_server \<Rightarrow> tss_server" where
  "with_metrics f t = t\<lparr>sv_metrics := f (sv_metrics t)\<rparr>"

definition keygenRun ::
  "'e tss_ext_scheme \<Rightarrow> nat \<Rightarrow> keygen_request \<Rightarrow> keygen_event list \<Rightarrow> finish_event list \<Rightarrow> tss_keygen \<Rightarrow> tss_server
     \<Rightarrow> ((keygen_response \<times> goerr option) \<times> tss_server) outcome option" where
  "keygenRun x fresh req es fin tk t =
     map_option (\<lambda>o1. out_bind o1 (\<lambda>((k, err), tk1, fs1).
         let b = m_blame (t_blameMgr (tk_common tk1)); t1 = t\<lparr>sv_fs := fs1, sv_queue := sv_queue t @ t_sent (tk_common tk1)\<rparr> in
         case err of
           Some e \<Rightarrow> Ret ((failed_keygen b, Some e), with_metrics (updateKeyGen False) t1)
         | None \<Rightarrow> Ret ((keygenAnswer x k b, None), with_metrics (updateKeyGen True) t1)))
       (generateNewKey x fresh req es fin (tk, sv_fs t))"

definition keygen ::
  "'e tss_ext_scheme \<Rightarrow> network \<Rightarrow> nat \<Rightarrow> keygen_request \<Rightarrow> wait_event list \<Rightarrow> keygen_event list \<Rightarrow> finish_event list
     \<Rightarrow> tss_server \<Rightarrow> ((keygen_response \<times> goerr option) \<times> tss_server) outcome option" where
  "keygen x net fresh req jes es fin t =
     (case keygenMsgId x req of
        (Inl e, req1) \<Rightarrow> Some (Ret ((newKeygenResponse [] [] NA (newBlame [] []), Some e), t))
      | (Inr msgID, req1) \<Rightarrow>
     (case newTssKeyGen (getLocalPeerID x t) (sv_localNodePubKey t) True (sv_preParams t) msgID (sv_folder t)
             (sv_privateKey t) of
        Panic m \<Rightarrow> Some (Panic m)
      | Ret tk \<Rightarrow>
     (let t1 = t\<lparr>sv_comm := subscribe_all keygen_topics msgID (sv_nextChan t) (sv_comm t),
               sv_nextChan := sv_nextChan t + 1\<rparr>
      in case joinParty x net msgID (kgq_version req1) (kgq_height req1) (kgq_keys req1)
                (int (length (kgq_keys req1)) - 1) jes (sv_pc t1) of
           None \<Rightarrow> None
         | Some ((onlinePeers, leader, Some e), pc1) \<Rightarrow>
            Some (Ret ((failed_keygen (keygenJoinBlame x (kgq_keys req1) onlinePeers leader), None),
              keygenRelease msgID (with_metrics (updateKeyGen False \<circ> keygenJoinParty False) (t1\<lparr>sv_pc := pc1\<rparr>))))
         | Some ((onlinePeers, leader, None), pc1) \<Rightarrow>
            map_option (\<lambda>o1. out_bind o1 (\<lambda>(r, t2). Ret (r, keygenRelease msgID t2)))
              (keygenRun x fresh req1 es fin tk (with_metrics (keygenJoinParty True) (t1\<lparr>sv_pc := pc1\<rparr>))))))"

section \<open>Message ids\<close>

lemma concat_same_length:
  assumes "\<And>k. k \<in> set xs \<union> set ys \<Longrightarrow> length k = n" "0 < n" "concat xs = concat ys"
  shows "xs = ys"
  using assms
proof (induction xs arbitrary: ys)
  case Nil
  then have "ys = []" by (cases ys) auto
  then show ?case by simp
next
  case (Cons a xs)
  then obtain b ys' where ys: "ys = b # ys'" by (cases ys) (auto simp: neq_Nil_conv)
  with Cons.prems have "a = b \<and> concat xs = concat ys'"
    by (metis append_eq_append_conv concat.simps(2) list.set_intros(1) Un_iff)
  with Cons.IH [of ys'] Cons.prems(1,2) ys show ?case by auto
qed

lemma hex_encode_inject: "hex_encode a = hex_encode b \<longleftrightarrow> a = b"
  using hex.enc_inject by blast

lemma str_bytes_empty: "str_bytes s = [] \<longleftrightarrow> s = []"
  by (simp add: str_bytes_def)

text \<open>The message id of a keygen request names its committee: for keys of one length, and with a hash
  function without collisions, two requests get the same id exactly when they have the same keys,
  in whatever order each node lists them; the id does not depend on the height or the version.\<close>

lemma keygen_id_names_committee:
  assumes "\<And>k. k \<in> set (kgq_keys r) \<union> set (kgq_keys r') \<Longrightarrow> length k = n" "0 < n"
    and "kgq_keys r \<noteq> []" "kgq_keys r' \<noteq> []" "\<And>a b. x_sha256 x a = x_sha256 x b \<Longrightarrow> a = b"
  shows "fst (requestToMsgId x (KeygenReq r)) = fst (requestToMsgId x (KeygenReq r')) \<longleftrightarrow>
    mset (kgq_keys r) = mset (kgq_keys r')"
proof -
  have ne: "concat (sort ks) \<noteq> []" if "ks \<noteq> []" "\<And>k. k \<in> set ks \<Longrightarrow> length k = n" for ks :: "string list"
    using that assms(2) by (cases ks) (auto simp: concat_eq_Nil_conv set_insort_key)
  have "fst (requestToMsgId x (KeygenReq r)) = fst (requestToMsgId x (KeygenReq r')) \<longleftrightarrow>
      concat (sort (kgq_keys r)) = concat (sort (kgq_keys r'))"
  proof -
    have id: "fst (requestToMsgId x (KeygenReq q)) = Inr (hex_encode (x_sha256 x (str_bytes (concat (sort (kgq_keys q))))))"
      if "concat (sort (kgq_keys q)) \<noteq> []" for q
      using that by (simp only: requestToMsgId.simps keygenMsgId_def Let_def msgToHashString_def str_bytes_empty
          map_prod_simp fst_conv id_apply if_False)
    have "concat (sort (kgq_keys r)) \<noteq> []" "concat (sort (kgq_keys r')) \<noteq> []"
      using ne assms(1,3,4) by auto
    note id [OF this(1)] id [OF this(2)]
    moreover have "x_sha256 x a = x_sha256 x b \<longleftrightarrow> a = b" for a b using assms(5) by blast
    ultimately show ?thesis by (simp only: sum.inject hex_encode_inject str_bytes_inject)
  qed
  also have "\<dots> \<longleftrightarrow> sort (kgq_keys r) = sort (kgq_keys r')"
    using concat_same_length [of "sort (kgq_keys r)" "sort (kgq_keys r')" n] assms(1,2) by auto
  also have "\<dots> \<longleftrightarrow> mset (kgq_keys r) = mset (kgq_keys r')"
    by (metis mset_sort properties_for_sort sorted_sort)
  finally show ?thesis .
qed

section \<open>Subscriptions\<close>

lemma cancel_all_get:
  "sub_get (cancel_all topics msgID c) =
     (\<lambda>(ty, i). if ty \<in> set topics \<and> i = msgID then None else sub_get c (ty, i))"
proof (induction topics arbitrary: c)
  case (Cons ty topics)
  show ?case
    using Cons [of "cancelSubscribe ty msgID c"] by (auto simp: cancel_all_def cancelSubscribe_get fun_eq_iff)
qed (auto simp: cancel_all_def fun_eq_iff)

lemma subscribe_all_get:
  "sub_get (subscribe_all topics msgID ch c) =
     (\<lambda>(ty, i). if ty \<in> set topics \<and> i = msgID then Some ch else sub_get c (ty, i))"
proof (induction topics arbitrary: c)
  case (Cons ty topics)
  show ?case
    using Cons [of "setSubscribe ty msgID ch c"] by (auto simp: subscribe_all_def setSubscribe_get fun_eq_iff)
qed (auto simp: subscribe_all_def fun_eq_iff)

lemma sub_get_release [simp]: "sub_get (snd (cm_ReleaseStream i c)) = sub_get c"
  by (auto simp: cm_ReleaseStream_def sub_get_def getSubscriber_def fun_eq_iff split: prod.split)

text \<open>The tables of the network after a call that subscribed and cancelled.\<close>

definition unsubscribed :: "msg_type list \<Rightarrow> string \<Rightarrow> communication \<Rightarrow> communication \<Rightarrow> bool" where
  "unsubscribed topics msgID c c' \<longleftrightarrow>
     sub_get c' = (\<lambda>(ty, i). if ty \<in> set topics \<and> i = msgID then None else sub_get c (ty, i))"

lemma unsubscribed_cancel:
  "unsubscribed topics msgID c (snd (cm_ReleaseStream msgID (cancel_all topics msgID (subscribe_all topics msgID ch c))))"
  by (auto simp: unsubscribed_def cancel_all_get subscribe_all_get fun_eq_iff)

section \<open>Keygen\<close>

lemma newTssKeyGen_Ret:
  "newTssKeyGen p k ch pre i f pk = Ret tk \<Longrightarrow>
     fresh_common (tk_common tk) \<and> t_msgID (tk_common tk) = i \<and> tk_folder tk = f \<and> tk_localNodePubKey tk = k"
  using newTssCommon_fresh by (auto simp: newTssKeyGen_def out_bind_Ret_iff)

lemma keygen_unsubscribes:
  assumes "keygen x net fresh req jes es fin t = Some (Ret (r, t'))" "fst (keygenMsgId x req) = Inr msgID"
  shows "unsubscribed keygen_topics msgID (sv_comm t) (sv_comm t')"
proof -
  have "sv_comm t' = snd (cm_ReleaseStream msgID (cancel_all keygen_topics msgID
      (subscribe_all keygen_topics msgID (sv_nextChan t) (sv_comm t))))"
    using assms
    by (auto simp: keygen_def keygenRun_def keygenRelease_def with_metrics_def Let_def out_bind_Ret_iff
        split: prod.splits option.splits outcome.splits sum.splits)
  then show ?thesis by (simp add: unsubscribed_cancel)
qed

lemma keygen_success:
  assumes "keygen x net fresh req jes es fin t = Some (Ret ((resp, err), t'))" "kgr_status resp = Success"
  obtains msgID tk k tk1 b where "fst (keygenMsgId x req) = Inr msgID"
    "newTssKeyGen (getLocalPeerID x t) (sv_localNodePubKey t) True (sv_preParams t) msgID (sv_folder t)
       (sv_privateKey t) = Ret tk"
    "generateNewKey x fresh (req\<lparr>kgq_keys := sort (kgq_keys req)\<rparr>) es fin (tk, sv_fs t) =
       Some (Ret ((k, None), tk1, sv_fs t'))"
    "resp = keygenAnswer x k b"
  using assms
  by (auto simp: keygen_def keygenMsgId_def keygenRun_def keygenRelease_def with_metrics_def Let_def out_bind_Ret_iff
      failed_keygen_def newKeygenResponse_def split: prod.splits option.splits outcome.splits sum.splits)

lemma keygen_saves:
  assumes "keygen x net fresh req jes es fin t = Some (Ret ((resp, err), t'))" "kgr_status resp = Success"
    and "calm (sv_fs t)" "slash_free x"
    and "\<And>st b. x_marshal_state x st = Inr b \<Longrightarrow> x_unmarshal_state x b = Inr st"
    and "\<And>k. x_marshal_acc_pk x k \<noteq> Inr []"
  shows "\<exists>msg addr msgID. msg \<in> end_data es \<and> getTssPubKey x (sd_pub msg) = Inr (kgr_pubKey resp, addr) \<and>
    getLocalState x (sv_folder t) (kgr_pubKey resp) (sv_fs t') =
      Inr \<lparr>ls_pubKey = kgr_pubKey resp, ls_localData = sd_ref msg, ls_participants = sort (kgq_keys req),
           ls_localParty = sv_localNodePubKey t\<rparr> \<and>
    fst (keygenMsgId x req) = Inr msgID \<and> unsubscribed keygen_topics msgID (sv_comm t) (sv_comm t')"
proof -
  obtain msgID tk k tk1 b where
    tk: "fst (keygenMsgId x req) = Inr msgID"
      "newTssKeyGen (getLocalPeerID x t) (sv_localNodePubKey t) True (sv_preParams t) msgID (sv_folder t)
       (sv_privateKey t) = Ret tk"
    and g: "generateNewKey x fresh (req\<lparr>kgq_keys := sort (kgq_keys req)\<rparr>) es fin (tk, sv_fs t) =
       Some (Ret ((k, None), tk1, sv_fs t'))"
    and resp: "resp = keygenAnswer x k b"
    by (rule keygen_success [OF assms(1,2)])
  obtain pk addr where pk: "getTssPubKey x k = Inr (pk, addr)" "kgr_pubKey resp = pk"
    using resp assms(2) by (auto simp: keygenAnswer_def newKeygenResponse_def split: sum.splits)
  then obtain pt where pt: "k = Some pt" by (cases k) (auto simp: getTssPubKey_def)
  note f = newTssKeyGen_Ret [OF tk(2)]
  have "fresh_common (tk_common tk)" using f by simp
  from generateNewKey_saves [OF g [unfolded pt] this assms(3,4) assms(5,6)] f pk(1) [unfolded pt]
  obtain msg where "msg \<in> end_data es" "sd_pub msg = Some pt"
    "getLocalState x (sv_folder t) pk (sv_fs t') = Inr \<lparr>ls_pubKey = pk, ls_localData = sd_ref msg,
       ls_participants = sort (sort (kgq_keys req)), ls_localParty = sv_localNodePubKey t\<rparr>" by auto
  moreover have "sort (sort (kgq_keys req)) = sort (kgq_keys req)" by (rule sorted_sort_id) simp
  ultimately show ?thesis
    using tk(1) keygen_unsubscribes [OF assms(1) tk(1)] pk [unfolded pt] by (intro exI [of _ msg]) auto
qed

text \<open>C6. \<open>Keygen\<close> reports a pool key only when its share is on disk: a response with status
  \<open>Success\<close> carries the key of a result of the local tss-lib party, \<open>GetLocalState\<close> under that key
  gives the party's data, the sorted committee and the local key, and no subscription of the
  ceremony is left, while those of other calls are untouched; this holds for every run of the
  join, the message loop and the party.  About the environment it supposes that no read of a file
  fails, that the JSON form of a state is decoded to that state, that bech32 keys are not empty and
  that a key which decodes has no slash in it.\<close>

theorem keygen_success_saved:
  assumes "keygen x net fresh req jes es fin t = Some (Ret ((resp, err), t'))" "kgr_status resp = Success"
    and "calm (sv_fs t)" "slash_free x"
    and "\<And>st b. x_marshal_state x st = Inr b \<Longrightarrow> x_unmarshal_state x b = Inr st"
    and "\<And>k. x_marshal_acc_pk x k \<noteq> Inr []"
  shows "\<exists>msg addr msgID. msg \<in> end_data es \<and> getTssPubKey x (sd_pub msg) = Inr (kgr_pubKey resp, addr) \<and>
    getLocalState x (sv_folder t) (kgr_pubKey resp) (sv_fs t') =
      Inr \<lparr>ls_pubKey = kgr_pubKey resp, ls_localData = sd_ref msg, ls_participants = sort (kgq_keys req),
           ls_localParty = sv_localNodePubKey t\<rparr> \<and>
    fst (keygenMsgId x req) = Inr msgID \<and> unsubscribed keygen_topics msgID (sv_comm t) (sv_comm t')"
  by (rule keygen_saves [OF assms])

section \<open>Every wait ends with its timer\<close>

lemma senderWait_ends: "WSender \<in> set es \<Longrightarrow> senderWait x send True es pc \<noteq> None"
  by (induction es arbitrary: pc) auto

lemma memberWait_ends: "follows WTimeout WSender es \<Longrightarrow> memberWait x send i es pc \<noteq> None"
proof (induction x send i es pc rule: memberWait.induct)
  case (2 x send i es pc)
  then show ?case
    using senderWait_ends [of es x send] follows_set [of WTimeout WSender es] by (auto split: option.splits)
next
  case (4 x send i s es pc)
  then show ?case using senderWait_ends [of es x send pc] follows_set [of WTimeout WSender es] by auto
qed (use senderWait_ends in auto)

lemma leaderWait_ends: "WTimeout \<in> set es \<Longrightarrow> leaderWait x i sig es pc \<noteq> None"
  by (induction x i sig es pc rule: leaderWait.induct) (auto split: option.splits)

lemma retryWait_ends: "follows WTimeout WSender es \<Longrightarrow> retryWait x send i es pc \<noteq> None"
proof (induction x send i es pc rule: retryWait.induct)
  case (2 x send i es pc)
  then show ?case
    using senderWait_ends [of es x send] follows_set [of WTimeout WSender es] by (auto split: option.splits)
qed (use senderWait_ends in auto)

lemma joinPartyMember_ends: "follows WTimeout WSender es \<Longrightarrow> joinPartyMember x i leader th es pc \<noteq> None"
  by (auto simp: memberWait_ends joinPartyMember_def Let_def split: prod.splits option.splits sum.splits)

lemma joinPartyLeader_ends: "WTimeout \<in> set es \<Longrightarrow> joinPartyLeader x net i peers th es pc \<noteq> None"
  by (auto simp: leaderWait_ends joinPartyLeader_def Let_def split: prod.splits option.splits sum.splits)

lemma joinPartyWithRetry_ends: "follows WTimeout WSender es \<Longrightarrow> joinPartyWithRetry x net i peers es pc \<noteq> None"
  by (auto simp: retryWait_ends joinPartyWithRetry_def Let_def split: prod.splits option.splits sum.splits)

lemma joinParty_ends:
  assumes "follows WTimeout WSender es"
  shows "joinParty x net i v h ps th es pc \<noteq> None"
proof -
  have "WTimeout \<in> set es" using follows_set [OF assms] by simp
  note ends = joinPartyMember_ends [OF assms] joinPartyLeader_ends [OF this] joinPartyWithRetry_ends [OF assms]
  show ?thesis
    by (auto simp: ends joinParty_def joinPartyWithLeader_def simp del: not_None_eq split: sum.splits)
qed

text \<open>The loops of the join that go round once more: a notification of the leaderless join, and a
  signature that the leader notes.\<close>

fun join_restarts :: "wait_event \<Rightarrow> bool" where
  "join_restarts WNotify = True"
| "join_restarts (WSig s) = True"
| "join_restarts e = False"

text \<open>The sending goroutine looks at \<open>done\<close> after the timer.\<close>

definition join_in_time :: "wait_event timed \<Rightarrow> bool" where
  "join_in_time w \<longleftrightarrow> in_time join_restarts w \<and> arrives_late join_restarts WSender w"

lemma join_in_time_ends: "join_in_time w \<Longrightarrow> joinParty x net i v h ps th (run_of join_restarts WTimeout w) pc \<noteq> None"
  by (rule joinParty_ends) (auto simp: join_in_time_def intro: run_of_late)

text \<open>The loop of \<open>processKeyGen\<close> makes a new timer after every message of the local party; the
  messages of other nodes are taken by another goroutine and do not touch it.\<close>

fun keygen_restarts :: "keygen_event \<Rightarrow> bool" where
  "keygen_restarts (KgOut msg) = True"
| "keygen_restarts e = False"

lemma processKeyGen_ends: "KgTimeout env \<in> set es \<Longrightarrow> processKeyGen x folder item es st \<noteq> None"
  by (induction x folder item es st rule: processKeyGen.induct) (auto split: outcome.splits prod.splits option.splits)

lemma generateNewKey_ends:
  assumes "in_time keygen_restarts w" "finish_in_time f"
  shows "generateNewKey x fresh req (run_of keygen_restarts (KgTimeout env) w) (run_of (\<lambda>_. False) FinTimer f) s \<noteq> None"
  by (auto simp: processKeyGen_ends [OF run_of_timer [OF assms(1)]] finish_in_time_returns [OF assms(2)]
      generateNewKey_def simp del: not_None_eq
      split: prod.splits sum.splits outcome.splits option.splits bool.splits)

text \<open>C13. \<open>Keygen\<close> returns in bounded time.  Take any arrivals of streams, messages, schedules of the
  workers and results of the local party, with their times.  The join ends within \<open>PartyTimeout\<close>, once more
  for every notification or signature its loop takes; the ceremony ends within \<open>KeyGenTimeout\<close> after the
  last message of the node's own party, so within \<open>KeyGenTimeout\<close> times one more than the number of
  those messages, and what the others send never prolongs it; the last select ends within its five seconds
  and closes \<open>commStopChan\<close>.  If time passes for as long as that, and if after it the sending goroutine of
  the join looks at \<open>done\<close>, the message loop looks at \<open>finishChan\<close>, and the start of the local party
  has returned, then \<open>Keygen\<close> has returned, with a response or an error, or panicked.\<close>

theorem keygen_returns:
  assumes "join_in_time j" "in_time keygen_restarts w" "finish_in_time f"
  shows "keygen x net fresh req (run_of join_restarts WTimeout j) (run_of keygen_restarts (KgTimeout env) w)
    (run_of (\<lambda>_. False) FinTimer f) t \<noteq> None"
  by (auto simp: join_in_time_ends [OF assms(1)] generateNewKey_ends [OF assms(2,3)] keygen_def keygenRun_def Let_def simp del: not_None_eq
      split: prod.splits sum.splits outcome.splits option.splits)

section \<open>A sample\<close>

text \<open>The id of the keysign request of the samples.\<close>

definition sample_sid :: string where
  "sample_sid = hex_encode (str_bytes ''Aw==,BA==bc'')"

definition sample_tss :: tss_ext where
  "sample_tss = sample_keygen \<lparr>x_ecdsa_verify = (\<lambda>pub m r s. m = [of_nat r]), x_marshal_ecsig = (\<lambda>s. Inr (es_r s)),
     x_unmarshal_ecsig = (\<lambda>b. Inr \<lparr>es_signature = Some b, es_recovery = [], es_r = b, es_s = [1], es_m = b\<rparr>),
     x_marshal_keysign = (\<lambda>m. Inr (concat (km_signatures m))),
     x_unmarshal_keysign = (\<lambda>b. Inr \<lparr>km_id = sample_sid, km_signatures = map (\<lambda>c. [c]) b, km_status = KsSuccess\<rparr>),
     x_addr_string = bytes_str\<rparr>"

definition sample_server :: tss_server where
  "sample_server = \<lparr>sv_comm = sample_net_comm, sv_localNodePubKey = ''a'', sv_preParams = True, sv_stopped = False,
     sv_pc = newPartyCoordinator ''a'' 0 True, sv_folder = ''/d'', sv_fs = sample_fs,
     sv_sn = newSignatureNotifier ''a'' True, sv_privateKey = [97], sv_metrics = newMetric, sv_queue = [], sv_nextChan = 0\<rparr>"

text \<open>The join without a leader, which ends at its timeout.\<close>

definition sample_join :: "string \<Rightarrow> wait_event list" where
  "sample_join i = [WStreamLeaderless (sample_stream ''b'' (str_bytes i)),
     WStreamLeaderless (sample_stream ''c'' (str_bytes i)), WTimeout, WSender]"

lemma length_str_bytes: "length (str_bytes s) = length s"
  by (simp add: str_bytes_def)

lemma sample_joinParty:
  assumes "length i \<le> MaxPayload"
  shows "\<exists>pc. joinParty (sample_keygen r) no_network i ''0.13.0'' 10 [''a'', ''b'', ''c''] n (sample_join i)
     (newPartyCoordinator ''a'' 0 True) = Some (([''b'', ''c'', ''a''], NONE, None), pc)"
  using assms
  by (simp add: joinParty_def versionLTCheck_def NEWJOINPARTYVERSION_def sample_keygen_def storage_ext.extend_def
      sample_storage_defs getPeerIDFromPubKey_def joinPartyWithRetry_def createJoinPartyGroups_def sample_join_def
      newPartyCoordinator_def handleStream_def sample_stream_read length_str_bytes pc_addStream_def pc_getGroup_def
      pc_putGroup_def updatePeer_def newPeerStatus_def getPeersStatus_def Let_def removePeerGroup_def sendRequestToAll_def
      sendMsgToPeer_def no_network_def NONE_def mput_def)

definition sample_req :: "string list \<Rightarrow> keygen_request" where
  "sample_req keys = newKeygenRequest keys 10 ''0.13.0''"

lemma sample_msgid: "keygenMsgId sample_tss (sample_req [''c'', ''a'', ''b'']) = (Inr ''616263'', sample_kgreq)"
proof -
  have "hex_encode [97, 98, 99] = ''616263''" by code_simp
  moreover have "x_sha256 sample_tss = (\<lambda>b. b)"
    by (simp add: sample_tss_def sample_keygen_def storage_ext.extend_def sample_storage_defs)
  ultimately show ?thesis
    by (simp add: keygenMsgId_def sample_req_def newKeygenRequest_def msgToHashString_def str_bytes_def sample_kgreq_def)
qed

lemma keygen_id_names_committee_sample:
  "fst (requestToMsgId sample_tss (KeygenReq (sample_req [''c'', ''a'', ''b'']))) =
     fst (requestToMsgId sample_tss (KeygenReq (sample_req [''b'', ''c'', ''a'']))) \<and>
   fst (requestToMsgId sample_tss (KeygenReq (sample_req [''c'', ''a'', ''b'']))) \<noteq>
     fst (requestToMsgId sample_tss (KeygenReq (sample_req [''b'', ''d'', ''a''])))"
proof -
  have sha: "x_sha256 sample_tss = (\<lambda>b. b)"
    by (simp add: sample_tss_def sample_keygen_def storage_ext.extend_def sample_storage_defs)
  have "mset [''c'', ''a'', ''b''] \<noteq> mset [''b'', ''d'', ''a'']"
    by (auto dest!: mset_eq_setD)
  then show ?thesis
    by (subst (1 2) keygen_id_names_committee [where n = 1])
      (auto simp: sha sample_req_def newKeygenRequest_def add_mset_commute)
qed

theorem keygen_success_saved_witness:
  "\<exists>resp t'. keygen sample_tss no_network 0 (sample_req [''c'', ''a'', ''b'']) (sample_join ''616263'')
      [KgEnd sample_save []] sample_fin sample_server = Some (Ret ((resp, None), t')) \<and>
    kgr_pubKey resp = ''pool'' \<and> getLocalState sample_tss ''/d'' ''pool'' (sv_fs t') = Inr (sample_state ''pool'')"
proof -
  obtain r where x: "sample_tss = sample_keygen r" by (simp add: sample_tss_def)
  obtain t where t: "newTssCommon ''a'' True ''616263'' [97] 1 = Ret t" by (simp add: newTssCommon_def)
  have me: "getLocalPeerID sample_tss sample_server = ''a''"
    by (simp add: getLocalPeerID_def sample_server_def sample_net_comm_def sample_tss_def sample_keygen_def storage_ext.extend_def
        sample_storage_defs)
  obtain pc where j: "joinParty sample_tss no_network ''616263'' ''0.13.0'' 10 [''a'', ''b'', ''c''] 2 (sample_join ''616263'')
     (newPartyCoordinator ''a'' 0 True) = Some (([''b'', ''c'', ''a''], NONE, None), pc)"
    unfolding x using sample_joinParty [of "''616263''" r 2] by (auto simp: MaxPayload_def)
  obtain tk' fs' where g: "generateNewKey sample_tss 0 sample_kgreq [KgEnd sample_save []] sample_fin (sample_tk t, sample_fs)
       = Some (Ret ((Some (1, 10), None), tk', fs'))"
    unfolding x using sample_keygen_run [OF t, of r] by blast
  obtain a where a: "getTssPubKey sample_tss (Some (1, 10)) = Inr (''pool'', a)"
    unfolding x using sample_pub [of r] by blast
  obtain resp t' where k: "keygen sample_tss no_network 0 (sample_req [''c'', ''a'', ''b'']) (sample_join ''616263'')
      [KgEnd sample_save []] sample_fin sample_server = Some (Ret ((resp, None), t'))"
    and r: "kgr_pubKey resp = ''pool''" "kgr_status resp = Success"
    using t j g a me
    by (simp add: keygen_def sample_msgid newTssKeyGen_def sample_kgreq_def newKeygenRequest_def sample_server_def
        with_metrics_def keygenRun_def sample_tk_def keygenAnswer_def newKeygenResponse_def Let_def)
  note laws = sample_keygen_laws [of r, folded x]
  have "calm (sv_fs sample_server)" by (simp add: sample_server_def calm_sample)
  from keygen_success_saved [OF k r(2) this laws(1,2,3)] obtain msg where
    "msg \<in> end_data [KgEnd sample_save []]" "getLocalState sample_tss (sv_folder sample_server) ''pool'' (sv_fs t') =
      Inr \<lparr>ls_pubKey = ''pool'', ls_localData = sd_ref msg, ls_participants = sort (kgq_keys (sample_req [''c'', ''a'', ''b''])),
           ls_localParty = sv_localNodePubKey sample_server\<rparr>" by (auto simp: r(1))
  then show ?thesis using k r(1)
    by (auto simp: end_data_def sample_save_def sample_state_def sample_server_def sample_req_def newKeygenRequest_def)
qed

text \<open>Waits by the clock: the join with two streams and a timer of 10, the ceremony with a message of the
  own party at time 3, which moves the end from 10 to 13, and the wait after it.\<close>

definition sample_join_timed :: "wait_event timed" where
  "sample_join_timed = \<lparr>tm_limit = 10, tm_until = 20, tm_arrivals =
     [(1, WStreamLeaderless (sample_stream ''b'' [1])), (6, WSender), (11, WSender)]\<rparr>"

definition sample_keygen_timed :: "keygen_event timed" where
  "sample_keygen_timed = \<lparr>tm_limit = 10, tm_until = 20, tm_arrivals = [(3, KgOut (sample_out 1)), (4, KgInbound (LeakedJob 0))]\<rparr>"

definition sample_fin_timed :: "finish_event timed" where
  "sample_fin_timed = \<lparr>tm_limit = 5, tm_until = 9, tm_arrivals = [(1, FinStarted), (2, FinExit), (6, FinExit)]\<rparr>"

lemma sample_timed:
  "join_in_time sample_join_timed" "in_time keygen_restarts sample_keygen_timed" "finish_in_time sample_fin_timed"
  by (auto simp: join_in_time_def in_time_def arrives_late_def arrives_def latest_def finish_in_time_def
      sample_join_timed_def sample_keygen_timed_def sample_fin_timed_def
      intro: exI [of _ 11] exI [of _ 6])

theorem keygen_returns_witness:
  "keygen sample_tss no_network 0 sample_kgreq (run_of join_restarts WTimeout sample_join_timed)
     (run_of keygen_restarts (KgTimeout \<lparr>be_online = id, be_silent = id, be_groups = id\<rparr>) sample_keygen_timed)
     (run_of (\<lambda>_. False) FinTimer sample_fin_timed) sample_server \<noteq> None"
  by (rule keygen_returns [OF sample_timed])

end
