(* ===== verification/Tss_KeySign.thy ===== *)
theory Tss_KeySign
  imports Tss_Server
begin

text \<open>
  Package \<open>tss\<close>, second half (\<open>tss/keysign.go\<close>): \<open>KeySign\<close> starts one goroutine that waits for the
  signatures of other nodes and one that generates them, and picks the answer when both have
  ended.  The second one first waits for the first to have its notifier.  Each goroutine is run
  with the events of its waits; the broadcasts of the second only add streams and messages to the
  state of the notifier, so they are applied after the first.
\<close>

section \<open>Answers\<close>

definition empty_keysign :: keysign_response where
  "empty_keysign = \<lparr>ksr_signatures = [], ksr_status = NA, ksr_blame = newBlame [] []\<rparr>"

definition failed_keysign :: "blame_info \<Rightarrow> keysign_response" where
  "failed_keysign b = \<lparr>ksr_signatures = [], ksr_status = Fail, ksr_blame = b\<rparr>"

definition encode_signature :: "ec_sig \<Rightarrow> bytes \<Rightarrow> signature" where
  "encode_signature sig msg =
     newSignature (b64_encode msg) (b64_encode (es_r sig)) (b64_encode (es_s sig)) (b64_encode (es_recovery sig))"

text \<open>The \<open>i\<close>-th signature is labelled with the \<open>i\<close>-th message.\<close>

definition batchSignatures :: "ec_sig list \<Rightarrow> bytes list \<Rightarrow> keysign_response outcome" where
  "batchSignatures sigs msgsToSign =
     (if length msgsToSign < length sigs then Panic ''index out of range''
      else Ret (newKeysignResponse (map2 encode_signature sigs msgsToSign) Success (newBlame [] [])))"

definition isPartOfKeysignParty :: "tss_server \<Rightarrow> string list \<Rightarrow> bool" where
  "isPartOfKeysignParty t parties \<longleftrightarrow> sv_localNodePubKey t \<in> set parties"

definition updateKeySignResult :: "keysign_response \<Rightarrow> metric \<Rightarrow> metric" where
  "updateKeySignResult result = updateKeySign (ksr_status result = Success)"

section \<open>Waiting for signatures\<close>

definition waitResult :: "bytes list \<Rightarrow> ec_sig list \<times> goerr option \<Rightarrow> (keysign_response \<times> goerr option) outcome" where
  "waitResult msgsToSign = (\<lambda>(data, err).
     case err of
       Some e \<Rightarrow> Ret (empty_keysign, Some e)
     | None \<Rightarrow>
        (if length data = 0 then Ret (empty_keysign, Some (ErrText ''keysign failed''))
         else out_bind (batchSignatures data msgsToSign) (\<lambda>resp. Ret (resp, None))))"

definition waitForSignatures ::
  "'e sign_ext_scheme \<Rightarrow> string \<Rightarrow> string \<Rightarrow> bytes list \<Rightarrow> sig_event list \<Rightarrow> sig_notifier
     \<Rightarrow> bool \<times> ((keysign_response \<times> goerr option) \<times> sig_notifier) outcome option" where
  "waitForSignatures x msgID poolPubKey msgsToSign es sn =
     map_prod id (map_option (\<lambda>o1. out_bind o1 (\<lambda>(d, sn1).
         out_bind (waitResult msgsToSign d) (\<lambda>r. Ret (r, sn1)))))
       (waitForSignature x msgID msgsToSign poolPubKey es sn)"

section \<open>Generating signatures\<close>

text \<open>What the second goroutine works on.\<close>

record sign_state =
  ss_sk :: tss_keysign
  ss_pc :: coordinator
  ss_sn :: sig_notifier
  ss_fs :: file_system
  ss_metrics :: metric

definition broadcastKeysignFailure ::
  "'e sign_ext_scheme \<Rightarrow> network \<Rightarrow> string \<Rightarrow> peer_id list \<Rightarrow> sign_state \<Rightarrow> sign_state" where
  "broadcastKeysignFailure x net messageID peers s =
     s\<lparr>ss_sn := snd (broadcastFailed x net messageID peers (ss_sn s))\<rparr>"

text \<open>The answer when the join failed with \<open>e\<close>.\<close>

definition keysignJoinFailed ::
  "'e sign_ext_scheme \<Rightarrow> network \<Rightarrow> string \<Rightarrow> keysign_request \<Rightarrow> peer_id list \<Rightarrow> peer_id list \<Rightarrow> string \<Rightarrow> goerr
     \<Rightarrow> sign_state \<Rightarrow> (keysign_response \<times> goerr option) \<times> sign_state" where
  "keysignJoinFailed x net msgID req allPeersID onlinePeers leader e s =
     (if errors_is e ErrSignReceived then ((empty_keysign, Some e), s)
      else
        (let s1 = broadcastKeysignFailure x net msgID allPeersID (s\<lparr>ss_metrics := keysignJoinParty False (ss_metrics s)\<rparr>);
             b = (if leader = NONE then
                    (if onlinePeers = [] then newBlame InternalError []
                     else snd (nodeSyncBlame x (ksq_signers req) onlinePeers))
                  else leaderBlame x leader)
         in ((failed_keysign b, None), s1)))"

text \<open>Signing with the peers that came online.\<close>

definition signWith ::
  "'e sign_ext_scheme \<Rightarrow> network \<Rightarrow> nat \<Rightarrow> (party \<Rightarrow> bool) \<Rightarrow> string \<Rightarrow> bytes list \<Rightarrow> local_state \<Rightarrow> peer_id list
     \<Rightarrow> string list \<Rightarrow> keysign_event list \<Rightarrow> finish_event list \<Rightarrow> sign_state
     \<Rightarrow> ((keysign_response \<times> goerr option) \<times> sign_state) outcome option" where
  "signWith x net fresh starts msgID msgsToSign item allPeersID signers kes fin s =
     map_option (\<lambda>o1. out_bind o1 (\<lambda>((signatureData, err), sk1, fs1).
         let s1 = s\<lparr>ss_sk := sk1, ss_fs := fs1\<rparr> in
         case err of
           Some e \<Rightarrow>
             Ret ((failed_keysign (m_blame (t_blameMgr (sk_common sk1))), None),
               broadcastKeysignFailure x net msgID allPeersID s1)
         | None \<Rightarrow>
             out_bind (batchSignatures (case signatureData of None \<Rightarrow> [] | Some d \<Rightarrow> d) msgsToSign) (\<lambda>resp.
               Ret ((resp, None),
                 s1\<lparr>ss_sn := snd (broadcastSignature x net msgID signatureData allPeersID (ss_sn s1))\<rparr>))))
       (signMessage x fresh starts msgsToSign item signers kes fin (ss_sk s, ss_fs s))"

text \<open>From the result of the join on.\<close>

definition afterJoin ::
  "'e sign_ext_scheme \<Rightarrow> network \<Rightarrow> nat \<Rightarrow> (party \<Rightarrow> bool) \<Rightarrow> peer_id \<Rightarrow> string \<Rightarrow> bytes list \<Rightarrow> keysign_request
     \<Rightarrow> local_state \<Rightarrow> peer_id list \<Rightarrow> keysign_event list \<Rightarrow> finish_event list
     \<Rightarrow> peer_id list \<times> string \<times> goerr option \<Rightarrow> sign_state
     \<Rightarrow> ((keysign_response \<times> goerr option) \<times> sign_state) outcome option" where
  "afterJoin x net fresh starts hostID msgID msgsToSign req item allPeersID kes fin joined s =
     (case joined of
        (onlinePeers, leader, Some e) \<Rightarrow>
          Some (Ret (keysignJoinFailed x net msgID req allPeersID onlinePeers leader e s))
      | (onlinePeers, leader, None) \<Rightarrow>
          (let s1 = s\<lparr>ss_metrics := keysignJoinParty True (ss_metrics s)\<rparr> in
           if hostID \<notin> set onlinePeers then Some (Ret ((empty_keysign, Some ErrNotActiveSigner), s1))
           else
             (case getPubKeysFromPeerIDs x (map (x_peer_string x) onlinePeers) of
                Inl e \<Rightarrow> Some (Ret ((failed_keysign (newBlame [] []), None), s1))
              | Inr signers \<Rightarrow>
                 signWith x net fresh starts msgID msgsToSign item allPeersID signers kes fin s1)))"

text \<open>With the join without leader only the signers of the request take part.\<close>

definition isSignMember :: "'e conv_ext_scheme \<Rightarrow> peer_id \<Rightarrow> keysign_request \<Rightarrow> bool" where
  "isSignMember x hostID req =
     (case getPubKeyFromPeerID x (x_peer_string x hostID) of
        Inl e \<Rightarrow> False
      | Inr myPk \<Rightarrow> myPk \<in> set (ksq_signers req))"

definition server_generateSignature ::
  "'e sign_ext_scheme \<Rightarrow> network \<Rightarrow> nat \<Rightarrow> (party \<Rightarrow> bool) \<Rightarrow> peer_id \<Rightarrow> string \<Rightarrow> bytes list \<Rightarrow> keysign_request \<Rightarrow> int
     \<Rightarrow> string list \<Rightarrow> local_state \<Rightarrow> wait_event list \<Rightarrow> keysign_event list \<Rightarrow> finish_event list \<Rightarrow> sign_state
     \<Rightarrow> ((keysign_response \<times> goerr option) \<times> sign_state) outcome option" where
  "server_generateSignature x net fresh starts hostID msgID msgsToSign req threshold participants item jes kes fin s =
     (case getPeerIDsFromPubKeys x participants of
        Inl e \<Rightarrow> Some (Ret ((failed_keysign (newBlame InternalError []), None), s))
      | Inr allPeersID \<Rightarrow>
     (case versionLTCheck x (ksq_version req) NEWJOINPARTYVERSION of
        Inl e \<Rightarrow> Some (Ret ((failed_keysign (newBlame InternalError []), Some (ErrText ''fail to parse the version'')), s))
      | Inr oldJoinParty \<Rightarrow>
         (if oldJoinParty \<and> \<not> isSignMember x hostID req then Some (Ret ((empty_keysign, Some ErrNotActiveSigner), s))
          else
            (case joinParty x net msgID (ksq_version req) (ksq_height req)
                    (if oldJoinParty then ksq_signers req else participants) threshold jes (ss_pc s) of
               None \<Rightarrow> None
             | Some (joined, pc1) \<Rightarrow>
                 afterJoin x net fresh starts hostID msgID msgsToSign req item allPeersID kes fin joined
                   (s\<lparr>ss_pc := pc1\<rparr>)))))"

section \<open>KeySign\<close>

definition keysign_topics :: "msg_type list" where
  "keysign_topics = [TSSKeySignMsg, TSSKeySignVerMsg, TSSControlMsg, TSSTaskDone]"

definition keysignRelease :: "string \<Rightarrow> tss_server \<Rightarrow> tss_server" where
  "keysignRelease msgID t =
     t\<lparr>sv_comm := snd (cm_ReleaseStream msgID (cancel_all keysign_topics msgID (sv_comm t))),
       sv_sn := snd (sn_ReleaseStream msgID (sv_sn t)),
       sv_pc := snd (pc_ReleaseStream msgID (sv_pc t))\<rparr>"

fun decode_messages :: "string list \<Rightarrow> bytes list res" where
  "decode_messages [] = Inr []"
| "decode_messages (val # vals) =
     (case b64_decode val of
        None \<Rightarrow> Inl (ErrWrap ''fail to decode message'' (ErrExt ''illegal base64 data''))
      | Some m \<Rightarrow> (case decode_messages vals of Inl e \<Rightarrow> Inl e | Inr ms \<Rightarrow> Inr (m # ms)))"

definition sortMessages :: "bytes list \<Rightarrow> bytes list" where
  "sortMessages msgsToSign = sliceStable (\<lambda>a b. \<not> msgToHashInt a < msgToHashInt b) msgsToSign"

text \<open>The checks before the goroutines start: the state of the pool, the messages and the threshold.\<close>

definition keysignChecks ::
  "'e storage_ext_scheme \<Rightarrow> keysign_request \<Rightarrow> tss_server
     \<Rightarrow> (keysign_response \<times> goerr) + (local_state \<times> bytes list \<times> int)" where
  "keysignChecks x req t =
     (case getLocalState x (sv_folder t) (ksq_pool req) (sv_fs t) of
        Inl e \<Rightarrow> Inl (empty_keysign, ErrWrap ''fail to get local keygen state'' e)
      | Inr item \<Rightarrow>
     (case decode_messages (ksq_messages req) of
        Inl e \<Rightarrow> Inl (empty_keysign, e)
      | Inr msgs \<Rightarrow>
     (case versionLTCheck x (ksq_version req) NEWJOINPARTYVERSION of
        Inl e \<Rightarrow> Inl (failed_keysign (newBlame InternalError []), ErrText ''fail to parse the version'')
      | Inr oldJoinParty \<Rightarrow>
     (if length (ksq_signers req) = 0 \<and> oldJoinParty then Inl (empty_keysign, ErrText ''empty signer pub keys'')
      else
     (case getThreshold (int (length (ls_participants item))) of
        Inl e \<Rightarrow> Inl (empty_keysign, ErrText ''fail to get threshold'')
      | Inr threshold \<Rightarrow>
         (if int (length (ksq_signers req)) \<le> threshold \<and> oldJoinParty
          then Inl (empty_keysign, ErrText ''not enough signers'')
          else Inr (item, sortMessages msgs, threshold)))))))"

text \<open>Which of the two answers is returned.\<close>

definition keysignAnswer ::
  "keysign_response \<times> goerr option \<Rightarrow> keysign_response \<times> goerr option \<Rightarrow> keysign_response \<times> goerr option" where
  "keysignAnswer received generated =
     (if snd received = None then (fst received, None)
      else if (case snd generated of None \<Rightarrow> False
               | Some e \<Rightarrow> errors_is e ErrSignReceived \<or> errors_is e ErrNotActiveSigner)
      then (fst received, None)
      else generated)"

text \<open>The events of one call: those of the waiting goroutine, of the join, of the ceremony and of the
  wait after it.\<close>

record sign_run =
  sr_wait :: "sig_event list"
  sr_join :: "wait_event list"
  sr_sign :: "keysign_event list"
  sr_fin :: "finish_event list"
  sr_starts :: "party \<Rightarrow> bool"

definition keysignGoroutines ::
  "'e sign_ext_scheme \<Rightarrow> network \<Rightarrow> nat \<Rightarrow> sign_run \<Rightarrow> string \<Rightarrow> keysign_request \<Rightarrow> local_state \<Rightarrow> bytes list \<Rightarrow> int
     \<Rightarrow> tss_keysign \<Rightarrow> tss_server \<Rightarrow> ((keysign_response \<times> goerr option) \<times> tss_server) outcome option" where
  "keysignGoroutines x net fresh run msgID req item msgs threshold sk t =
     (let (ready, w) = waitForSignatures x msgID (ksq_pool req) msgs (sr_wait run) (sv_sn t) in
      if \<not> ready then None
      else
        (case w of
           None \<Rightarrow> None
         | Some (Panic m) \<Rightarrow> Some (Panic m)
         | Some (Ret (received, sn1)) \<Rightarrow>
            map_option (\<lambda>o1. out_bind o1 (\<lambda>(generated, s1).
                let answer = keysignAnswer received generated in
                Ret (answer,
                  t\<lparr>sv_sn := ss_sn s1, sv_pc := ss_pc s1, sv_fs := ss_fs s1,
                    sv_queue := sv_queue t @ t_sent (sk_common (ss_sk s1)),
                    sv_metrics := updateKeySignResult (fst answer) (ss_metrics s1)\<rparr>)))
              (server_generateSignature x net fresh (sr_starts run) (cm_hostID (sv_comm t)) msgID msgs req threshold
                (ls_participants item) item (sr_join run) (sr_sign run) (sr_fin run)
                \<lparr>ss_sk = sk, ss_pc = sv_pc t, ss_sn = sn1, ss_fs = sv_fs t, ss_metrics = sv_metrics t\<rparr>)))"

definition keySign ::
  "'e sign_ext_scheme \<Rightarrow> network \<Rightarrow> nat \<Rightarrow> keysign_request \<Rightarrow> sign_run \<Rightarrow> tss_server
     \<Rightarrow> ((keysign_response \<times> goerr option) \<times> tss_server) outcome option" where
  "keySign x net fresh req run t =
     (case keysignMsgId x req of
        (Inl e, req1) \<Rightarrow> Some (Ret ((empty_keysign, Some e), t))
      | (Inr msgID, req1) \<Rightarrow>
     (case newTssKeySign (getLocalPeerID x t) True msgID (sv_privateKey t) (sv_folder t)
             (int (length (ksq_messages req1))) of
        Panic m \<Rightarrow> Some (Panic m)
      | Ret sk \<Rightarrow>
     (let t1 = t\<lparr>sv_comm := subscribe_all keysign_topics msgID (sv_nextChan t) (sv_comm t),
               sv_nextChan := sv_nextChan t + 1\<rparr>
      in case keysignChecks x req1 t1 of
           Inl (r, e) \<Rightarrow> Some (Ret ((r, Some e), keysignRelease msgID t1))
         | Inr (item, msgs, threshold) \<Rightarrow>
            map_option (\<lambda>o1. out_bind o1 (\<lambda>(answer, t2). Ret (answer, keysignRelease msgID t2)))
              (keysignGoroutines x net fresh run msgID req1 item msgs threshold sk t1))))"

section \<open>Subscriptions\<close>

lemma keysignGoroutines_comm:
  "keysignGoroutines x net fresh run i req item msgs th sk t = Some (Ret (r, t')) \<Longrightarrow> sv_comm t' = sv_comm t"
  by (auto simp: keysignGoroutines_def Let_def out_bind_Ret_iff split: prod.splits if_splits option.splits outcome.splits)

text \<open>A call of \<open>KeySign\<close> leaves no subscription behind: whenever it returns, with signatures, a
  blame or an error, the four topics of its message id have no subscriber, and the subscriptions
  of all other calls are as they were.\<close>

lemma keySign_unsubscribes:
  assumes "keySign x net fresh req run t = Some (Ret (r, t'))" "fst (keysignMsgId x req) = Inr msgID"
  shows "unsubscribed keysign_topics msgID (sv_comm t) (sv_comm t')"
proof -
  have "sv_comm t' = snd (cm_ReleaseStream msgID (cancel_all keysign_topics msgID
      (subscribe_all keysign_topics msgID (sv_nextChan t) (sv_comm t))))"
    using assms
    by (auto simp: keySign_def keysignRelease_def Let_def out_bind_Ret_iff
        split: prod.splits option.splits outcome.splits sum.splits dest: keysignGoroutines_comm)
  then show ?thesis by (simp add: unsubscribed_cancel)
qed

section \<open>Where the signatures of an answer come from\<close>

lemma batchSignatures_Ret:
  "batchSignatures sigs msgs = Ret r \<longleftrightarrow>
     length sigs \<le> length msgs \<and> r = newKeysignResponse (map2 encode_signature sigs msgs) Success (newBlame [] [])"
  by (auto simp: batchSignatures_def)

lemma empty_not_success [simp]: "ksr_status empty_keysign = NA" "ksr_status (failed_keysign b) = Fail"
  by (simp_all add: empty_keysign_def failed_keysign_def)

text \<open>The signatures of the local parties, complete and sorted, or none when no ceremony was run.\<close>

definition own_signatures :: "sign_run \<Rightarrow> nat \<Rightarrow> ec_sig list \<Rightarrow> bool" where
  "own_signatures run n sigs \<longleftrightarrow>
     sigs = [] \<or> (length sigs = n \<and> sigs = sortSignatures (take n (ended (sr_sign run))))"

definition answers_with :: "keysign_response \<Rightarrow> bytes list \<Rightarrow> ec_sig list \<Rightarrow> bool" where
  "answers_with resp msgs sigs \<longleftrightarrow>
     ksr_signatures resp = map2 encode_signature sigs msgs \<and> length sigs \<le> length msgs"

lemma waitForSignatures_Ret:
  assumes "waitForSignatures x i pool msgs es sn = (ready, Some (Ret (r, sn')))"
  obtains sigs err where "waitForSignature x i msgs pool es sn = (ready, Some (Ret ((sigs, err), sn')))"
    "waitResult msgs (sigs, err) = Ret r"
  using assms
  by (cases "waitForSignature x i msgs pool es sn") (auto simp: waitForSignatures_def out_bind_Ret_iff)

lemma waitResult_Ret:
  "waitResult msgs (sigs, err) = Ret (resp, None) \<longleftrightarrow> err = None \<and> sigs \<noteq> [] \<and> batchSignatures sigs msgs = Ret resp"
  "waitResult msgs (sigs, err) = Ret (resp, Some e) \<Longrightarrow> resp = empty_keysign"
  by (auto simp: waitResult_def out_bind_Ret_iff split: option.splits if_splits)

lemma waitForSignatures_answer:
  assumes "waitForSignatures x i pool msgs es sn = (ready, Some (Ret ((resp, None), sn')))" "sn_ok sn"
  shows "\<exists>sigs. answers_with resp msgs sigs \<and> signatures_for x pool msgs sigs"
proof -
  obtain sigs where w: "waitForSignature x i msgs pool es sn = (ready, Some (Ret ((sigs, None), sn')))"
    and r: "batchSignatures sigs msgs = Ret resp"
    using waitForSignatures_Ret [OF assms(1)] waitResult_Ret(1) by metis
  with waitForSignature_verified [OF assms(2) w] show ?thesis
    by (auto simp: answers_with_def batchSignatures_Ret newKeysignResponse_def)
qed

lemma signWith_answer:
  assumes "signWith x net fresh starts i msgs item ps signers kes fin s = Some (Ret ((resp, err), s'))"
    and "ksr_status resp = Success" "fresh_common (sk_common (ss_sk s))" "sr_sign run = kes"
  shows "\<exists>sigs. answers_with resp msgs sigs \<and> own_signatures run (length msgs) sigs"
proof -
  obtain d e sk1 fs1 where m0: "signMessage x fresh starts msgs item signers kes fin (ss_sk s, ss_fs s) =
      Some (Ret ((d, e), sk1, fs1))"
    using assms(1) by (auto simp: signWith_def out_bind_Ret_iff)
  have "e = None" using assms(1,2) m0 by (cases e) (auto simp: signWith_def Let_def)
  then have m: "signMessage x fresh starts msgs item signers kes fin (ss_sk s, ss_fs s) = Some (Ret ((d, None), sk1, fs1))"
    and r: "batchSignatures (case d of None \<Rightarrow> [] | Some d \<Rightarrow> d) msgs = Ret resp"
    using assms(1) m0 by (simp_all add: signWith_def Let_def out_bind_Ret_iff)
  show ?thesis
  proof (cases d)
    case None
    with r show ?thesis
      by (intro exI [of _ "[]"]) (auto simp: batchSignatures_Ret newKeysignResponse_def own_signatures_def answers_with_def)
  next
    case (Some sigs)
    have "length (sortSignatures more) = length more" for more
      by (simp add: sortSignatures_not_below)
    with signMessage_success [OF m [unfolded Some] assms(3)] r Some assms(4) show ?thesis
      by (intro exI [of _ sigs]) (auto simp: batchSignatures_Ret newKeysignResponse_def own_signatures_def answers_with_def)
  qed
qed

lemma keysignJoinFailed_status: "ksr_status (fst (fst (keysignJoinFailed x net i req ps onl leader e s))) \<noteq> Success"
  by (simp add: keysignJoinFailed_def Let_def)

lemma afterJoin_answer:
  assumes "afterJoin x net fresh starts hid i msgs req item ps kes fin joined s = Some (Ret ((resp, err), s'))"
    and "ksr_status resp = Success" "fresh_common (sk_common (ss_sk s))" "sr_sign run = kes"
  shows "\<exists>sigs. answers_with resp msgs sigs \<and> own_signatures run (length msgs) sigs"
proof -
  obtain onl leader e where j: "joined = (onl, leader, e)" by (cases joined)
  have e: "e = None"
  proof (rule ccontr)
    assume "e \<noteq> None"
    then obtain d where "e = Some d" by blast
    with assms(1) j have "keysignJoinFailed x net i req ps onl leader d s = ((resp, err), s')" by (simp add: afterJoin_def)
    with keysignJoinFailed_status [of x net i req ps onl leader d s] assms(2) show False by simp
  qed
  obtain signers where q: "getPubKeysFromPeerIDs x (map (x_peer_string x) onl) = Inr signers"
    using assms(1,2) j e
    by (cases "getPubKeysFromPeerIDs x (map (x_peer_string x) onl)") (auto simp: afterJoin_def Let_def split: if_splits)
  have "signWith x net fresh starts i msgs item ps signers kes fin
      (s\<lparr>ss_metrics := keysignJoinParty True (ss_metrics s)\<rparr>) = Some (Ret ((resp, err), s'))"
    using assms(1,2) j e q by (auto simp: afterJoin_def Let_def split: if_splits)
  from signWith_answer [OF this assms(2) _ assms(4)] assms(3) show ?thesis by simp
qed

lemma generateSignature_answer:
  assumes "server_generateSignature x net fresh starts hid i msgs req th ps item jes kes fin s = Some (Ret ((resp, err), s'))"
    and "ksr_status resp = Success" "fresh_common (sk_common (ss_sk s))" "sr_sign run = kes"
  shows "\<exists>sigs. answers_with resp msgs sigs \<and> own_signatures run (length msgs) sigs"
proof -
  obtain allp joined pc1 where
    "afterJoin x net fresh starts hid i msgs req item allp kes fin joined (s\<lparr>ss_pc := pc1\<rparr>) = Some (Ret ((resp, err), s'))"
    using assms(1,2) by (auto simp: server_generateSignature_def split: sum.splits option.splits if_splits prod.splits)
  from afterJoin_answer [OF this assms(2) _ assms(4)] assms(3) show ?thesis by simp
qed

lemma keysignAnswer_cases:
  "keysignAnswer received generated = (resp, err) \<Longrightarrow> ksr_status resp = Success \<Longrightarrow>
     (snd received \<noteq> None \<Longrightarrow> ksr_status (fst received) \<noteq> Success) \<Longrightarrow>
     received = (resp, None) \<or> generated = (resp, err)"
  by (cases received) (auto simp: keysignAnswer_def split: if_splits)

lemma waitForSignatures_error:
  "waitForSignatures x i pool msgs es sn = (ready, Some (Ret ((resp, Some e), sn'))) \<Longrightarrow> ksr_status resp = NA"
  by (metis waitForSignatures_Ret waitResult_Ret(2) empty_not_success(1))

lemma keysignGoroutines_answer:
  assumes "keysignGoroutines x net fresh run i req item msgs th sk t = Some (Ret ((resp, err), t'))"
    and "ksr_status resp = Success" "fresh_common (sk_common sk)" "sn_ok (sv_sn t)"
  shows "\<exists>sigs. answers_with resp msgs sigs \<and>
    (signatures_for x (ksq_pool req) msgs sigs \<or> own_signatures run (length msgs) sigs)"
proof -
  obtain received sn1 generated s1 where
    w: "waitForSignatures x i (ksq_pool req) msgs (sr_wait run) (sv_sn t) = (True, Some (Ret (received, sn1)))"
    and g: "server_generateSignature x net fresh (sr_starts run) (cm_hostID (sv_comm t)) i msgs req th
       (ls_participants item) item (sr_join run) (sr_sign run) (sr_fin run)
       \<lparr>ss_sk = sk, ss_pc = sv_pc t, ss_sn = sn1, ss_fs = sv_fs t, ss_metrics = sv_metrics t\<rparr> =
       Some (Ret (generated, s1))"
    and a: "keysignAnswer received generated = (resp, err)"
    using assms(1)
    by (auto simp: keysignGoroutines_def Let_def out_bind_Ret_iff split: prod.splits if_splits option.splits outcome.splits)
  have "ksr_status (fst received) \<noteq> Success" if "snd received \<noteq> None"
    using that waitForSignatures_error w by (cases received) fastforce
  from keysignAnswer_cases [OF a assms(2) this] consider "received = (resp, None)" | "generated = (resp, err)" by blast
  then show ?thesis
  proof cases
    case 1
    with waitForSignatures_answer [OF w [unfolded 1] assms(4)] show ?thesis by blast
  next
    case 2
    with generateSignature_answer [OF g [unfolded 2] assms(2), of run] assms(3) show ?thesis by auto
  qed
qed

lemma newTssKeySign_Ret:
  "newTssKeySign p ch i pk f n = Ret sk \<Longrightarrow> fresh_common (sk_common sk) \<and> t_msgID (sk_common sk) = i"
  using newTssCommon_fresh by (auto simp: newTssKeySign_def out_bind_Ret_iff)

lemma keysignChecks_not_success: "keysignChecks x req t = Inl (r, e) \<Longrightarrow> ksr_status r \<noteq> Success"
  by (auto simp: keysignChecks_def split: sum.splits if_splits)

lemma keySign_origin:
  assumes "keySign x net fresh req run t = Some (Ret ((resp, err), t'))" "ksr_status resp = Success"
    and "sn_ok (sv_sn t)"
  shows "\<exists>ms sigs. decode_messages (sort (ksq_messages req)) = Inr ms \<and> answers_with resp (sortMessages ms) sigs \<and>
    (signatures_for x (ksq_pool req) (sortMessages ms) sigs \<or> own_signatures run (length ms) sigs)"
proof -
  let ?req = "req\<lparr>ksq_messages := sort (ksq_messages req), ksq_signers := sort (ksq_signers req)\<rparr>"
  obtain i sk item msgs th t1 t2 where sk: "newTssKeySign (getLocalPeerID x t) True i (sv_privateKey t) (sv_folder t)
      (int (length (ksq_messages ?req))) = Ret sk"
    and c: "keysignChecks x ?req t1 = Inr (item, msgs, th)" and sn: "sv_sn t1 = sv_sn t"
    and g: "keysignGoroutines x net fresh run i ?req item msgs th sk t1 = Some (Ret ((resp, err), t2))"
    using assms(1,2)
    by (auto simp: keySign_def keysignMsgId_def Let_def out_bind_Ret_iff
        split: prod.splits option.splits outcome.splits sum.splits dest: keysignChecks_not_success)
  obtain ms where "decode_messages (sort (ksq_messages req)) = Inr ms" "msgs = sortMessages ms"
    using c by (auto simp: keysignChecks_def split: sum.splits if_splits)
  moreover have "length (sortMessages ms) = length ms"
    using sliceStable_length [of msgToHashInt ms] by (simp add: sortMessages_def not_below_def [abs_def])
  ultimately show ?thesis
    using keysignGoroutines_answer [OF g assms(2)] newTssKeySign_Ret [OF sk] assms(3) sn by auto
qed

text \<open>C4. What \<open>KeySign\<close> answers with: in a response with status \<open>Success\<close> the signatures are labelled
  with the messages of the request in the order \<open>KeySign\<close> sorts them, each signature with the
  message at its position, and they are either signatures that other nodes sent and that verify,
  position by position, under the pool key, or those of the local ceremony, one for each message;
  no other signature is ever returned.  The second case has one exception, an empty answer.  The table
  of notifiers is supposed to be in order (\<open>sn_ok\<close>: a notifier is filed under its own message and its
  channel is empty), as it is in a new table and after every operation on it.\<close>

theorem keySign_answer_origin:
  assumes "keySign x net fresh req run t = Some (Ret ((resp, err), t'))" "ksr_status resp = Success"
    and "sn_ok (sv_sn t)"
  shows "\<exists>ms sigs. decode_messages (sort (ksq_messages req)) = Inr ms \<and> answers_with resp (sortMessages ms) sigs \<and>
    (signatures_for x (ksq_pool req) (sortMessages ms) sigs \<or> own_signatures run (length ms) sigs)"
  by (rule keySign_origin [OF assms])

section \<open>Returning\<close>

lemma sigWait_ends: "SigTimeout \<in> set es \<Longrightarrow> sigWait x r es sn \<noteq> None"
  by (induction x r es sn rule: sigWait.induct) (auto split: outcome.splits list.splits)

lemma processKeySign_ends: "KsTimeout env \<in> set es \<Longrightarrow> processKeySign x folder n f sigs es st \<noteq> None"
  by (induction x folder n f sigs es st rule: processKeySign.induct)
    (auto simp: Let_def split: outcome.splits prod.splits option.splits)

text \<open>The loop of \<open>processKeySign\<close> makes a new timer after every message and every signature of the local
  parties.\<close>

fun keysign_restarts :: "keysign_event \<Rightarrow> bool" where
  "keysign_restarts (KsOut msg) = True"
| "keysign_restarts (KsEnd sig address) = True"
| "keysign_restarts e = False"

text \<open>The four waits of a call by the clock.\<close>

record sign_clock =
  sc_wait :: "sig_event timed"
  sc_join :: "wait_event timed"
  sc_sign :: "keysign_event timed"
  sc_fin :: "finish_event timed"

definition clocked_run :: "sign_clock \<Rightarrow> blame_env \<Rightarrow> (party \<Rightarrow> bool) \<Rightarrow> sign_run" where
  "clocked_run c env starts =
     \<lparr>sr_wait = run_of (\<lambda>_. False) SigTimeout (sc_wait c), sr_join = run_of join_restarts WTimeout (sc_join c),
      sr_sign = run_of keysign_restarts (KsTimeout env) (sc_sign c), sr_fin = run_of (\<lambda>_. False) FinTimer (sc_fin c),
      sr_starts = starts\<rparr>"

definition clock_in_time :: "sign_clock \<Rightarrow> bool" where
  "clock_in_time c \<longleftrightarrow> in_time (\<lambda>_. False) (sc_wait c) \<and> join_in_time (sc_join c) \<and>
     in_time keysign_restarts (sc_sign c) \<and> finish_in_time (sc_fin c)"

lemma signMessage_ends:
  assumes "in_time keysign_restarts w" "finish_in_time f"
  shows "signMessage x fresh starts msgs item parties (run_of keysign_restarts (KsTimeout env) w)
    (run_of (\<lambda>_. False) FinTimer f) s \<noteq> None"
  by (auto simp: processKeySign_ends [OF run_of_timer [OF assms(1)]] finish_in_time_returns [OF assms(2)]
      startBatchSigning_returns signMessage_def Let_def simp del: not_None_eq
      split: prod.splits sum.splits outcome.splits option.splits bool.splits)

lemma afterJoin_ends:
  assumes "in_time keysign_restarts w" "finish_in_time f"
  shows "afterJoin x net fresh starts hid i msgs req item ps (run_of keysign_restarts (KsTimeout env) w)
    (run_of (\<lambda>_. False) FinTimer f) joined s \<noteq> None"
  by (auto simp: afterJoin_def signWith_def signMessage_ends [OF assms] Let_def simp del: not_None_eq
      split: prod.splits option.splits sum.splits)

lemma generateSignature_ends:
  assumes "clock_in_time c"
  shows "server_generateSignature x net fresh starts hid i msgs req th ps item (sr_join (clocked_run c env starts))
    (sr_sign (clocked_run c env starts)) (sr_fin (clocked_run c env starts)) s \<noteq> None"
proof -
  have c: "join_in_time (sc_join c)" "in_time keysign_restarts (sc_sign c)" "finish_in_time (sc_fin c)"
    using assms by (simp_all add: clock_in_time_def)
  show ?thesis
    by (auto simp: clocked_run_def server_generateSignature_def join_in_time_ends [OF c(1)] afterJoin_ends [OF c(2,3)]
        simp del: not_None_eq split: prod.splits option.splits sum.splits)
qed

lemma waitForSignatures_ends:
  assumes "SigTimeout \<in> set es" "i \<noteq> []" "pool \<noteq> []" "msgs \<noteq> []"
  shows "\<exists>r. waitForSignatures x i pool msgs es sn = (True, Some r)"
  using assms sigWait_ends [OF assms(1)] by (auto simp: waitForSignatures_def waitForSignature_def newNotifier_def)

lemma keysignGoroutines_ends:
  assumes "clock_in_time c" "i \<noteq> []" "ksq_pool req \<noteq> []" "msgs \<noteq> []"
  shows "keysignGoroutines x net fresh (clocked_run c env starts) i req item msgs th sk t \<noteq> None"
proof -
  have "SigTimeout \<in> set (sr_wait (clocked_run c env starts))"
    using assms(1) by (simp add: clocked_run_def clock_in_time_def run_of_timer)
  then obtain r where w: "waitForSignatures x i (ksq_pool req) msgs (sr_wait (clocked_run c env starts)) (sv_sn t) = (True, Some r)"
    using waitForSignatures_ends assms(2,3,4) by blast
  have s: "sr_starts (clocked_run c env starts) = starts" by (simp add: clocked_run_def)
  show ?thesis
    by (auto simp: keysignGoroutines_def w s generateSignature_ends [OF assms(1)] simp del: not_None_eq
        split: outcome.splits prod.splits)
qed

lemma decode_messages_length: "decode_messages vals = Inr ms \<Longrightarrow> length ms = length vals"
  by (induction vals arbitrary: ms) (auto split: option.splits sum.splits)

lemma length_sortMessages [simp]: "length (sortMessages ms) = length ms"
  using sliceStable_length [of msgToHashInt ms] by (simp add: sortMessages_def not_below_def [abs_def])

lemma keysignChecks_Inr:
  assumes "keysignChecks x req t = Inr (item, msgs, th)"
  shows "length msgs = length (ksq_messages req) \<and> ksq_pool req \<noteq> []"
  using assms by (auto simp: keysignChecks_def decode_messages_length getLocalState_def split: sum.splits if_splits)

lemma hex_encode_Nil [simp]: "hex_encode b = [] \<longleftrightarrow> b = []"
  using length_hex_encode [of b] by (metis length_0_conv mult_is_0 zero_neq_numeral)

lemma keysignMsgId_not_empty:
  "keysignMsgId x req = (Inr i, req1) \<Longrightarrow> (\<And>b. x_sha256 x b \<noteq> []) \<Longrightarrow> i \<noteq> []"
  by (auto simp: keysignMsgId_def Let_def msgToHashString_def split: if_splits)

text \<open>C12. \<open>KeySign\<close> returns in bounded time when it is asked to sign something.  Take a request with at
  least one message, and any arrivals of streams, messages, schedules and results of the local
  parties, with their times.  The notifier waits for its time-out once; the join ends within
  \<open>PartyTimeout\<close>, once more for every notification or signature its loop takes; the ceremony ends within
  \<open>KeySignTimeout\<close> after the last message or signature of the node's own parties; the last select ends
  within its five seconds and closes \<open>commStopChan\<close>.  If time passes for as long as that, and if after it the
  sending goroutine of the join looks at \<open>done\<close>, the message loop looks at \<open>finishChan\<close>, and the parties'
  starts have returned, then both goroutines have ended and the call has returned or panicked.  Hashes
  are supposed not to be empty.\<close>

theorem keySign_returns:
  assumes "ksq_messages req \<noteq> []" "clock_in_time c" "\<And>b. x_sha256 x b \<noteq> []"
  shows "keySign x net fresh req (clocked_run c env starts) t \<noteq> None"
proof -
  obtain ri req1 where i: "keysignMsgId x req = (ri, req1)" by fastforce
  have ne: "ksq_messages req1 \<noteq> []"
    using i assms(1) by (auto simp: keysignMsgId_def Let_def) (metis length_0_conv length_sort)
  show ?thesis
  proof (cases ri)
    case (Inl e)
    with i show ?thesis by (simp add: keySign_def)
  next
    case (Inr msgID)
    have "msgID \<noteq> []" using keysignMsgId_not_empty [OF i [unfolded Inr] assms(3)] .
    moreover have "msgs \<noteq> [] \<and> ksq_pool req1 \<noteq> []" if "keysignChecks x req1 t1 = Inr (item, msgs, th)" for t1 item msgs th
      using keysignChecks_Inr [OF that] ne by auto
    ultimately show ?thesis
      using assms(2)
      by (auto simp: keySign_def i Inr Let_def keysignGoroutines_ends simp del: not_None_eq
          split: outcome.splits sum.splits prod.splits)
  qed
qed

text \<open>A request without messages hangs \<open>KeySign\<close>: with the join protocol with leader, where the
  signers may be named for any pool that is stored, a request whose list of messages is empty
  passes every check, the notifier is refused before the second goroutine is released, and the
  call never returns, whatever happens and however long one waits.\<close>

lemma keySign_empty_hangs:
  assumes "ksq_messages req = []" "concat (ksq_signers req) \<noteq> []"
    and "versionLTCheck x (ksq_version req) NEWJOINPARTYVERSION = Inr False"
    and "getLocalState x (sv_folder t) (ksq_pool req) (sv_fs t) = Inr item"
  shows "keySign x net fresh req run t = None"
proof -
  let ?req = "req\<lparr>ksq_messages := [], ksq_signers := sort (ksq_signers req)\<rparr>"
  have "concat (sort (ksq_signers req)) \<noteq> []" using assms(2) by (simp add: concat_eq_Nil_conv)
  then have "str_bytes (concat (sort (ksq_signers req))) \<noteq> []" unfolding str_bytes_empty .
  then obtain i where i: "keysignMsgId x req = (Inr i, ?req)"
    using assms(1) by (simp add: keysignMsgId_def Let_def msgToHashString_def del: concat_eq_Nil_conv)
  obtain sk where sk: "newTssKeySign (getLocalPeerID x t) True i (sv_privateKey t) (sv_folder t) 0 = Ret sk"
    by (simp add: newTssKeySign_def newTssCommon_def)
  obtain th where th: "getThreshold (int (length (ls_participants item))) = Inr th" by (simp add: getThreshold_def)
  have e: "sortMessages [] = []" using length_sortMessages [of "[]"] by (simp del: length_sortMessages)
  show ?thesis
    using assms(3,4) sk th
    by (auto simp: keySign_def i Let_def keysignChecks_def e keysignGoroutines_def waitForSignatures_def waitForSignature_def
        newNotifier_def)
qed

section \<open>Samples\<close>

definition sample_pool_fs :: file_system where
  "sample_pool_fs = snd (saveLocalState sample_tss ''/d'' (sample_state ''pool'') sample_fs)"

definition sample_signer :: tss_server where
  "sample_signer = sample_server\<lparr>sv_fs := sample_pool_fs\<rparr>"

lemmas sample_tss_defs = sample_tss_def sample_keygen_def storage_ext.extend_def sample_storage_defs

lemma sample_pool_state: "getLocalState sample_tss ''/d'' ''pool'' sample_pool_fs = Inr (sample_state ''pool'')"
proof -
  have "saveLocalState sample_tss ''/d'' (sample_state ''pool'') sample_fs = (None, sample_pool_fs)"
    by (simp add: sample_pool_fs_def saveLocalState_def sample_tss_defs sample_state_def getFilePathName_def
        checkKeyOnCurve_def writeFile_def sample_fs_def str_bytes_def)
  then have "getLocalState sample_tss ''/d'' (ls_pubKey (sample_state ''pool''))
      (fold (storage_step sample_tss ''/d'') [] sample_pool_fs) = Inr (sample_state ''pool'')"
    unfolding sample_tss_def
    by (intro state_survives [where fs = sample_fs] sample_keygen_laws calm_sample) (simp_all add: sample_state_def)
  then show ?thesis by (simp add: sample_state_def)
qed

definition sample_ksreq :: "string list \<Rightarrow> string \<Rightarrow> keysign_request" where
  "sample_ksreq msgs v = newKeysignRequest ''pool'' msgs 10 [''b'', ''c''] v"

text \<open>The signatures of both messages arrive from \<open>b\<close>; the node itself is not a signer.\<close>

definition sample_run :: sign_run where
  "sample_run = \<lparr>sr_wait = [SigStream (sample_stream ''b'' [4, 3]), SigTake], sr_join = [], sr_sign = [], sr_fin = [],
     sr_starts = (\<lambda>p. True)\<rparr>"

definition sample_answer :: keysign_response where
  "sample_answer = newKeysignResponse [newSignature ''BA=='' ''BA=='' ''AQ=='' [], newSignature ''Aw=='' ''Aw=='' ''AQ=='' []]
     Success (newBlame [] [])"

lemma sample_b64: "b64_decode ''Aw=='' = Some [3]" "b64_decode ''BA=='' = Some [4]"
  "b64_encode [3] = ''Aw==''" "b64_encode [4] = ''BA==''" "b64_encode [1] = ''AQ==''" "b64_encode [] = []"
  by code_simp+

lemma sample_ksid: "keysignMsgId sample_tss (sample_ksreq [''BA=='', ''Aw==''] ''0.13.0'') =
    (Inr sample_sid, sample_ksreq [''Aw=='', ''BA==''] ''0.13.0'')"
proof -
  have "x_sha256 sample_tss = (\<lambda>b. b)" by (simp add: sample_tss_defs)
  then show ?thesis
    by (simp add: keysignMsgId_def sample_ksreq_def newKeysignRequest_def msgToHashString_def sample_sid_def str_bytes_def)
qed

lemma sample_checks:
  "sv_folder t = ''/d'' \<Longrightarrow> sv_fs t = sample_pool_fs \<Longrightarrow>
     keysignChecks sample_tss (sample_ksreq [''Aw=='', ''BA==''] ''0.13.0'') t = Inr (sample_state ''pool'', [[4], [3]], 1)"
proof -
  have "sortMessages [[3], [4]] = [[4], [3]]"
    by (simp add: sortMessages_def sliceStable_def sort_blocks.simps insertionSort_def sample_hash)
  moreover have "versionLTCheck sample_tss ''0.13.0'' NEWJOINPARTYVERSION = Inr True"
    by (simp add: versionLTCheck_def NEWJOINPARTYVERSION_def sample_tss_defs)
  moreover assume "sv_folder t = ''/d''" "sv_fs t = sample_pool_fs"
  ultimately show ?thesis
    using sample_pool_state getThreshold_int [of 3]
    by (simp add: keysignChecks_def sample_ksreq_def newKeysignRequest_def sample_b64 sample_state_def)
qed

lemma sample_wait:
  "\<exists>sn'. waitForSignatures sample_tss sample_sid ''pool'' [[4], [3]] [SigStream (sample_stream ''b'' [4, 3]), SigTake]
      (newSignatureNotifier ''a'' True) = (True, Some (Ret ((sample_answer, None), sn')))"
proof -
  have "sample_sid \<noteq> []" by (simp add: sample_sid_def str_bytes_def)
  then show ?thesis
    by (simp add: waitForSignatures_def waitForSignature_def newNotifier_def newSignatureNotifier_def addToNotifiers_def
        sn_handleStream_def sample_stream_read MaxPayload_def sn_process_def sn_getNotifier_def sn_addStream_def
        processSignature_def nf_verifySignature_def sample_tss_defs be_nat_def sn_respond_def sn_responses_def
        deleteNotifier_def waitResult_def batchSignatures_def encode_signature_def sample_b64 sample_answer_def Let_def
        del: b64_encode.simps(2,3,4))
qed

lemma sample_generate:
  "ss_pc s = newPartyCoordinator ''a'' 0 True \<Longrightarrow>
   server_generateSignature sample_tss no_network 0 (\<lambda>p. True) ''a'' sample_sid [[4], [3]] (sample_ksreq [''Aw=='', ''BA==''] ''0.13.0'') 1
     [''a'', ''b'', ''c''] (sample_state ''pool'') [] [] [] s = Some (Ret ((empty_keysign, Some ErrNotActiveSigner), s))"
  by (simp add: server_generateSignature_def versionLTCheck_def NEWJOINPARTYVERSION_def sample_tss_defs getPeerIDFromPubKey_def
      isSignMember_def getPubKeyFromPeerID_def sample_ksreq_def newKeysignRequest_def)

lemma cm_hostID_subscribe_all [simp]: "cm_hostID (subscribe_all topics i ch c) = cm_hostID c"
  by (induction topics arbitrary: c) (simp_all add: subscribe_all_def setSubscribe_def Let_def)

lemma sample_participants [simp]: "ls_participants (sample_state k) = [''a'', ''b'', ''c'']"
  by (simp add: sample_state_def)

lemma sample_keySign:
  "\<exists>t'. keySign sample_tss no_network 0 (sample_ksreq [''BA=='', ''Aw==''] ''0.13.0'') sample_run sample_signer =
     Some (Ret ((sample_answer, None), t'))"
proof -
  obtain sn' where w: "waitForSignatures sample_tss sample_sid ''pool'' [[4], [3]] [SigStream (sample_stream ''b'' [4, 3]), SigTake]
      (newSignatureNotifier ''a'' True) = (True, Some (Ret ((sample_answer, None), sn')))"
    using sample_wait by blast
  have p: "ksq_pool (sample_ksreq ms v) = ''pool''" "ksq_messages (sample_ksreq ms v) = ms" for ms v
    by (simp_all add: sample_ksreq_def newKeysignRequest_def)
  show ?thesis
    using w by (simp add: keySign_def sample_ksid sample_checks p newTssKeySign_def newTssCommon_def sample_signer_def
        sample_server_def keysignGoroutines_def sample_run_def sample_generate keysignAnswer_def
        sample_net_comm_def Let_def)
qed

lemma keySign_unsubscribes_sample:
  "\<exists>t'. keySign sample_tss no_network 0 (sample_ksreq [''BA=='', ''Aw==''] ''0.13.0'') sample_run sample_signer =
       Some (Ret ((sample_answer, None), t')) \<and>
     unsubscribed keysign_topics sample_sid (sv_comm sample_signer) (sv_comm t')"
proof -
  obtain t' where k: "keySign sample_tss no_network 0 (sample_ksreq [''BA=='', ''Aw==''] ''0.13.0'') sample_run sample_signer =
      Some (Ret ((sample_answer, None), t'))"
    using sample_keySign by blast
  then show ?thesis using keySign_unsubscribes [OF k] by (simp add: sample_ksid)
qed

theorem keySign_answer_origin_witness:
  "\<exists>t' ms sigs. keySign sample_tss no_network 0 (sample_ksreq [''BA=='', ''Aw==''] ''0.13.0'') sample_run sample_signer =
       Some (Ret ((sample_answer, None), t')) \<and>
     decode_messages [''Aw=='', ''BA==''] = Inr ms \<and> answers_with sample_answer (sortMessages ms) sigs"
proof -
  obtain t' where k: "keySign sample_tss no_network 0 (sample_ksreq [''BA=='', ''Aw==''] ''0.13.0'') sample_run sample_signer =
      Some (Ret ((sample_answer, None), t'))"
    using sample_keySign by blast
  have "ksr_status sample_answer = Success" by (simp add: sample_answer_def newKeysignResponse_def)
  moreover have "sn_ok (sv_sn sample_signer)" by (simp add: sample_signer_def sample_server_def sn_ok_new)
  moreover have "sort (ksq_messages (sample_ksreq [''BA=='', ''Aw==''] ''0.13.0'')) = [''Aw=='', ''BA=='']"
    by (simp add: sample_ksreq_def newKeysignRequest_def)
  ultimately show ?thesis using keySign_answer_origin [OF k] k by fastforce
qed

definition sample_clock :: sign_clock where
  "sample_clock = \<lparr>sc_wait = \<lparr>tm_limit = 7, tm_until = 9, tm_arrivals = [(2, SigTake)]\<rparr>, sc_join = sample_join_timed,
     sc_sign = \<lparr>tm_limit = 10, tm_until = 40, tm_arrivals = [(3, KsOut (sample_out 1)), (4, KsInbound (LeakedJob 0))]\<rparr>,
     sc_fin = sample_fin_timed\<rparr>"

lemma clock_in_time_sample: "clock_in_time sample_clock"
  using sample_timed by (simp add: clock_in_time_def sample_clock_def in_time_def latest_def)

theorem keySign_returns_witness:
  "keySign (sample_tss\<lparr>x_sha256 := (\<lambda>b. [1])\<rparr>) no_network 0 (sample_ksreq [''BA==''] ''0.14.0'')
     (clocked_run sample_clock \<lparr>be_online = id, be_silent = id, be_groups = id\<rparr> (\<lambda>p. True)) sample_signer \<noteq> None"
  by (rule keySign_returns [OF _ clock_in_time_sample]) (simp_all add: sample_ksreq_def newKeysignRequest_def)

lemma keySign_empty_hangs_sample:
  "keySign sample_tss no_network 0 (sample_ksreq [] ''0.14.0'')
     (clocked_run sample_clock \<lparr>be_online = id, be_silent = id, be_groups = id\<rparr> (\<lambda>p. True)) sample_signer = None"
proof (rule keySign_empty_hangs)
  show "getLocalState sample_tss (sv_folder sample_signer) (ksq_pool (sample_ksreq [] ''0.14.0'')) (sv_fs sample_signer) =
      Inr (sample_state ''pool'')"
    using sample_pool_state by (simp add: sample_signer_def sample_server_def sample_ksreq_def newKeysignRequest_def)
  show "versionLTCheck sample_tss (ksq_version (sample_ksreq [] ''0.14.0'')) NEWJOINPARTYVERSION = Inr False"
    by (simp add: versionLTCheck_def NEWJOINPARTYVERSION_def sample_tss_defs sample_ksreq_def newKeysignRequest_def)
qed (simp_all add: sample_ksreq_def newKeysignRequest_def)

end
