(* ===== verification/Net_Keysign.thy ===== *)
theory Net_Keysign
  imports Tss_KeySign
begin

text \<open>
  \<open>network/keysign.go\<close>: the signing queue of the bridge node.  Tasks are collected per pool and sent
  to \<open>KeySign\<close> of package \<open>tss\<close> in batches once a second; each task has a response channel of
  capacity one.  The worker is a run over the events of its select; a batch that it hands to a
  goroutine is logged.
\<close>

section \<open>Tasks\<close>

definition maxKeysignPerRequest :: nat where "maxKeysignPerRequest = 15"

record sign_task =
  st_ref :: nat \<comment> \<open>the task object with its response channel\<close>
  st_pool :: string
  st_msg :: string
  st_height :: int

record sign_result =
  rs_r :: string
  rs_s :: string
  rs_recovery :: string
  rs_err :: "goerr option"

section \<open>The queue\<close>

record sign_queue =
  sq_tasks :: "(string, sign_task list) gomap"
  sq_launched :: "(string \<times> sign_task list) list" \<comment> \<open>the calls of \<open>toLocalTSSSigner\<close>\<close>

definition new_queue :: sign_queue where
  "new_queue = \<lparr>sq_tasks = [], sq_launched = []\<rparr>"

definition enqueue :: "sign_task \<Rightarrow> sign_queue \<Rightarrow> sign_queue" where
  "enqueue t q =
     (case mget (sq_tasks q) (st_pool t) of
        None \<Rightarrow> q\<lparr>sq_tasks := mput (st_pool t) [t] (sq_tasks q)\<rparr>
      | Some v \<Rightarrow> q\<lparr>sq_tasks := mput (st_pool t) (v @ [t]) (sq_tasks q)\<rparr>)"

text \<open>The tasks of one pool that are sent, and those that stay: only when there are too many are
  they sorted by message (a stable sort with a strict order).\<close>

definition cut_batch :: "sign_task list \<Rightarrow> sign_task list \<times> sign_task list" where
  "cut_batch v =
     (if maxKeysignPerRequest < length v
      then (take maxKeysignPerRequest (sort_key st_msg v), drop maxKeysignPerRequest (sort_key st_msg v))
      else (v, []))"

definition flush_pool :: "string \<Rightarrow> sign_queue \<Rightarrow> sign_queue" where
  "flush_pool k q =
     (case mget (sq_tasks q) k of
        None \<Rightarrow> q
      | Some v \<Rightarrow>
         (if length v = 0 then q\<lparr>sq_tasks := mdel k (sq_tasks q)\<rparr>
          else (let (signingTask, rest) = cut_batch v in
            \<lparr>sq_tasks = mput k rest (sq_tasks q), sq_launched = sq_launched q @ [(k, signingTask)]\<rparr>)))"

text \<open>The map is ranged over in an order the runtime chooses.\<close>

definition flush_all :: "(string list \<Rightarrow> string list) \<Rightarrow> sign_queue \<Rightarrow> sign_queue" where
  "flush_all rng q = fold flush_pool (rng (map fst (sq_tasks q))) q"

datatype queue_event = QTask sign_task | QTick "string list \<Rightarrow> string list" | QDone

text \<open>Whether the worker has exited, and the queue.\<close>

fun processKeySignTasks :: "queue_event list \<Rightarrow> sign_queue \<Rightarrow> bool \<times> sign_queue" where
  "processKeySignTasks [] q = (False, q)"
| "processKeySignTasks (QDone # es) q = (True, q)"
| "processKeySignTasks (QTask t # es) q = processKeySignTasks es (enqueue t q)"
| "processKeySignTasks (QTick rng # es) q = processKeySignTasks es (flush_all rng q)"

section \<open>One batch\<close>

text \<open>The height of the request is that of the last task.\<close>

definition batch_request :: "string \<Rightarrow> sign_task list \<Rightarrow> keysign_request" where
  "batch_request poolPubKey tasks =
     \<lparr>ksq_pool = poolPubKey, ksq_messages = map st_msg tasks, ksq_signers = [],
      ksq_height = (if tasks = [] then 0 else st_height (last tasks)), ksq_version = ''0.14.0''\<rparr>"

definition task_answer :: "signature list \<Rightarrow> sign_task \<Rightarrow> sign_result" where
  "task_answer sigs t =
     (case find (\<lambda>sig. st_msg t = sg_msg sig) sigs of
        Some sig \<Rightarrow> \<lparr>rs_r = sg_r sig, rs_s = sg_s sig, rs_recovery = sg_recovery sig, rs_err = None\<rparr>
      | None \<Rightarrow> \<lparr>rs_r = [], rs_s = [], rs_recovery = [],
          rs_err = Some (ErrText ''didn't find signature for message in the keysign result'')\<rparr>)"

text \<open>What is written to the response channels, by task object; nothing unless the signing succeeded.\<close>

definition batch_answers :: "sign_task list \<Rightarrow> keysign_response \<times> goerr option \<Rightarrow> (nat \<times> sign_result) list" where
  "batch_answers tasks r =
     (case snd r of
        Some e \<Rightarrow> []
      | None \<Rightarrow>
         (if ksr_status (fst r) = Success \<and> length (bl_nodes (ksr_blame (fst r))) = 0
          then map (\<lambda>t. (st_ref t, task_answer (ksr_signatures (fst r)) t)) tasks else []))"

definition toLocalTSSSigner ::
  "'e sign_ext_scheme \<Rightarrow> network \<Rightarrow> nat \<Rightarrow> sign_run \<Rightarrow> string \<Rightarrow> sign_task list \<Rightarrow> tss_server
     \<Rightarrow> ((nat \<times> sign_result) list \<times> tss_server) outcome option" where
  "toLocalTSSSigner x net fresh run poolPubKey tasks t =
     map_option (\<lambda>o1. out_bind o1 (\<lambda>(r, t1). Ret (batch_answers tasks r, t1)))
       (keySign x net fresh (batch_request poolPubKey tasks) run t)"

section \<open>RemoteSign\<close>

text \<open>The order of secp256k1.\<close>

definition secp_N :: nat where
  "secp_N = 0xFFFFFFFFFFFFFFFFFFFFFFFFFFFFFFFEBAAEDCE6AF48A03BBFD25E8CD0364141"

text \<open>\<open>Bytes\<close> of a \<open>big.Int\<close> is its absolute value.  \<open>copy (buf[end-len(b):end], b)\<close> panics when the
  index is negative.\<close>

definition copy_left :: "bytes \<Rightarrow> nat \<Rightarrow> bytes \<Rightarrow> bytes outcome" where
  "copy_left buf end_at b =
     (if end_at < length b then Panic ''slice bounds out of range''
      else Ret (take (end_at - length b) buf @ b @ drop end_at buf))"

definition lowS :: "int \<Rightarrow> int" where
  "lowS S = (if int (secp_N div 2) < S then int secp_N - S else S)"

definition getSignature :: "string \<Rightarrow> string \<Rightarrow> bytes res outcome" where
  "getSignature r s =
     (case b64_decode r of
        None \<Rightarrow> Ret (Inl (ErrExt ''illegal base64 data''))
      | Some rBytes \<Rightarrow>
     (case b64_decode s of
        None \<Rightarrow> Ret (Inl (ErrExt ''illegal base64 data''))
      | Some sBytes \<Rightarrow>
          out_bind (copy_left (replicate 64 0) 32 (nat_be (be_nat rBytes))) (\<lambda>buf.
            out_bind (copy_left buf 64 (nat_be (nat \<bar>lowS (int (be_nat sBytes))\<bar>))) (\<lambda>sigBytes.
              Ret (Inr sigBytes)))))"

text \<open>The answer of the signer, or \<open>None\<close> when the timer fires first.  Both results are nil, which is
  the empty list, when there is nothing to sign or the node takes no part.\<close>

definition sign_answer :: "sign_result option \<Rightarrow> (bytes \<times> bytes) res outcome" where
  "sign_answer answer =
     (case answer of
        None \<Rightarrow> Ret (Inl (ErrText ''TIMEOUT: fail to sign message''))
      | Some resp \<Rightarrow>
     (case rs_err resp of
        Some e \<Rightarrow> Ret (Inl (ErrWrap ''fail to tss sign'' e))
      | None \<Rightarrow>
     (if length (rs_r resp) = 0 \<and> length (rs_s resp) = 0 then Ret (Inr ([], []))
      else out_bind (getSignature (rs_r resp) (rs_s resp)) (\<lambda>d. case d of
          Inl e \<Rightarrow> Ret (Inl (ErrWrap ''fail to decode tss signature'' e))
        | Inr data \<Rightarrow>
           (case b64_decode (rs_recovery resp) of
              None \<Rightarrow> Ret (Inl (ErrWrap ''fail to decode recovery id'' (ErrExt ''illegal base64 data'')))
            | Some rid \<Rightarrow> Ret (Inr (data, rid)))))))"

definition remote_task :: "nat \<Rightarrow> bytes \<Rightarrow> string \<Rightarrow> int \<Rightarrow> sign_task option" where
  "remote_task ref msg poolPubKey blockHeight =
     (if length msg = 0 then None
      else Some \<lparr>st_ref = ref, st_pool = poolPubKey, st_msg = b64_encode msg, st_height = blockHeight\<rparr>)"

definition remoteSign :: "nat \<Rightarrow> bytes \<Rightarrow> string \<Rightarrow> int \<Rightarrow> (sign_task \<Rightarrow> sign_result option) \<Rightarrow> (bytes \<times> bytes) res outcome" where
  "remoteSign ref msg poolPubKey blockHeight response =
     (case remote_task ref msg poolPubKey blockHeight of
        None \<Rightarrow> Ret (Inr ([], []))
      | Some task \<Rightarrow> sign_answer (response task))"

section \<open>No task is lost or sent twice\<close>

text \<open>The tasks that were handed in, that wait and that were sent.\<close>

fun handed_in :: "queue_event list \<Rightarrow> sign_task list" where
  "handed_in [] = []"
| "handed_in (QTask t # es) = t # handed_in es"
| "handed_in (QTick rng # es) = handed_in es"
| "handed_in (QDone # es) = []"

definition waiting :: "sign_queue \<Rightarrow> sign_task multiset" where
  "waiting q = sum_list (map (mset \<circ> snd) (sq_tasks q))"

definition sent :: "sign_queue \<Rightarrow> sign_task multiset" where
  "sent q = sum_list (map (mset \<circ> snd) (sq_launched q))"

definition queue_ok :: "sign_queue \<Rightarrow> bool" where
  "queue_ok q \<longleftrightarrow> wf_map (sq_tasks q) \<and>
     (\<forall>k v t. mget (sq_tasks q) k = Some v \<longrightarrow> t \<in> set v \<longrightarrow> st_pool t = k) \<and>
     (\<forall>k v. (k, v) \<in> set (sq_launched q) \<longrightarrow> v \<noteq> [] \<and> length v \<le> maxKeysignPerRequest \<and> (\<forall>t\<in>set v. st_pool t = k))"

lemma sum_tasks_mput:
  "wf_map m \<Longrightarrow> sum_list (map (mset \<circ> snd) (mput k v m)) + mset (case mget m k of None \<Rightarrow> [] | Some w \<Rightarrow> w) =
     sum_list (map (mset \<circ> snd) m) + mset v"
  by (induction m) (auto simp: mput_def wf_map_def add_ac dest: map_of_SomeD)

lemma sum_tasks_mdel:
  "wf_map m \<Longrightarrow> sum_list (map (mset \<circ> snd) (mdel k m)) + mset (case mget m k of None \<Rightarrow> [] | Some w \<Rightarrow> w) =
     sum_list (map (mset \<circ> snd) m)"
proof (induction m)
  case (Cons e m)
  obtain j w where "e = (j, w)" by fastforce
  moreover have "mget m j = None" if "j = k" using that Cons.prems calculation by (auto simp: wf_map_def map_of_eq_None_iff)
  ultimately show ?case using Cons by (auto simp: mdel_def wf_map_def add_ac)
qed (simp add: mdel_def)

lemma cut_batch_parts:
  assumes "cut_batch v = (b, r)"
  shows "mset b + mset r = mset v" "length b \<le> maxKeysignPerRequest" "v \<noteq> [] \<Longrightarrow> b \<noteq> []"
    "length r = length v - maxKeysignPerRequest"
proof -
  have "mset (take n s) + mset (drop n s) = mset s" for n and s :: "sign_task list"
    by (metis append_take_drop_id mset_append)
  from this [of maxKeysignPerRequest "sort_key st_msg v"]
  show "mset b + mset r = mset v"
    using assms by (auto simp: cut_batch_def split: if_splits)
  have "length b = min (length v) maxKeysignPerRequest"
    using assms by (auto simp: cut_batch_def split: if_splits)
  then show "v \<noteq> [] \<Longrightarrow> b \<noteq> []" by (cases v; cases b) (auto simp: maxKeysignPerRequest_def)
qed (use assms in \<open>auto simp: cut_batch_def maxKeysignPerRequest_def split: if_splits\<close>)

lemma cut_batch_sets:
  assumes "cut_batch v = (b, r)"
  shows "set b \<subseteq> set v" "set r \<subseteq> set v"
  using arg_cong [OF cut_batch_parts(1) [OF assms], of set_mset] by auto

lemma enqueue_ok: "queue_ok q \<Longrightarrow> queue_ok (enqueue t q)"
  by (auto simp: queue_ok_def enqueue_def split: option.splits if_splits)

lemma enqueue_tasks:
  assumes "queue_ok q"
  shows "waiting (enqueue t q) = add_mset t (waiting q)" "sent (enqueue t q) = sent q"
proof -
  let ?v = "case mget (sq_tasks q) (st_pool t) of None \<Rightarrow> [] | Some w \<Rightarrow> w"
  have e: "enqueue t q = q\<lparr>sq_tasks := mput (st_pool t) (?v @ [t]) (sq_tasks q)\<rparr>"
    by (simp add: enqueue_def split: option.split)
  show "sent (enqueue t q) = sent q" by (simp add: e sent_def)
  show "waiting (enqueue t q) = add_mset t (waiting q)"
    using assms sum_tasks_mput [of "sq_tasks q" "st_pool t" "?v @ [t]"]
    by (simp add: queue_ok_def e waiting_def add_ac)
qed

lemma flush_pool_ok:
  assumes "queue_ok q"
  shows "queue_ok (flush_pool k q)" "waiting (flush_pool k q) + sent (flush_pool k q) = waiting q + sent q"
proof -
  have "queue_ok (flush_pool k q) \<and> waiting (flush_pool k q) + sent (flush_pool k q) = waiting q + sent q"
  proof (cases "mget (sq_tasks q) k")
    case (Some v)
    obtain b r where br: "cut_batch v = (b, r)" by fastforce
    note parts = cut_batch_parts [OF br] cut_batch_sets [OF br]
    show ?thesis
    proof (cases "v = []")
      case True
      then show ?thesis
        using assms Some sum_tasks_mdel [of "sq_tasks q" k]
        by (auto simp: queue_ok_def flush_pool_def waiting_def sent_def split: if_splits)
    next
      case False
      then have f: "flush_pool k q = \<lparr>sq_tasks = mput k r (sq_tasks q), sq_launched = sq_launched q @ [(k, b)]\<rparr>"
        using Some br by (simp add: flush_pool_def)
      have "queue_ok (flush_pool k q)"
        using assms Some parts False unfolding f queue_ok_def by (auto split: if_splits)
      moreover have "waiting (flush_pool k q) + mset b + mset r = waiting q + mset r"
        using assms Some sum_tasks_mput [of "sq_tasks q" k r]
        by (simp add: f waiting_def queue_ok_def add_ac parts(1) [symmetric])
      moreover have "sent (flush_pool k q) = sent q + mset b" by (simp add: f sent_def)
      ultimately show ?thesis by (simp add: add_ac)
    qed
  qed (use assms in \<open>simp add: flush_pool_def\<close>)
  then show "queue_ok (flush_pool k q)" "waiting (flush_pool k q) + sent (flush_pool k q) = waiting q + sent q" by simp_all
qed

lemma flush_fold_ok:
  "queue_ok q \<Longrightarrow> queue_ok (fold flush_pool ks q) \<and> waiting (fold flush_pool ks q) + sent (fold flush_pool ks q) = waiting q + sent q"
  by (induction ks arbitrary: q) (auto simp: flush_pool_ok)

lemma flush_all_ok:
  "queue_ok q \<Longrightarrow> queue_ok (flush_all rng q)"
  "queue_ok q \<Longrightarrow> waiting (flush_all rng q) + sent (flush_all rng q) = waiting q + sent q"
  using flush_fold_ok by (simp_all add: flush_all_def)

lemma new_queue_ok [simp]: "queue_ok new_queue" "waiting new_queue = {#}" "sent new_queue = {#}"
  by (simp_all add: new_queue_def queue_ok_def waiting_def sent_def)

lemma processKeySignTasks_ok:
  assumes "queue_ok q" "processKeySignTasks es q = (d, q')"
  shows "queue_ok q' \<and> waiting q' + sent q' = waiting q + sent q + mset (handed_in es)"
  using assms
proof (induction es q rule: processKeySignTasks.induct)
  case (3 t es q)
  then show ?case using enqueue_ok [of q t] enqueue_tasks [of q t] by (simp add: add_ac)
next
  case (4 rng es q)
  then show ?case using flush_all_ok [of q rng] by simp
qed auto

section \<open>Every task is sent\<close>

definition full_tick :: "queue_event \<Rightarrow> bool" where
  "full_tick e = (case e of QTick rng \<Rightarrow> (\<forall>ks. mset (rng ks) = mset ks) | _ \<Rightarrow> False)"

definition pool_tasks :: "sign_queue \<Rightarrow> string \<Rightarrow> sign_task list" where
  "pool_tasks q k = (case mget (sq_tasks q) k of None \<Rightarrow> [] | Some v \<Rightarrow> v)"

lemma pool_tasks_flush:
  "length (pool_tasks (flush_pool k q) j) =
     (if j = k then length (pool_tasks q j) - maxKeysignPerRequest else length (pool_tasks q j))"
  by (auto simp: flush_pool_def pool_tasks_def split: option.split prod.split dest: cut_batch_parts(4))

lemma pool_tasks_fold:
  "distinct ks \<Longrightarrow> length (pool_tasks (fold flush_pool ks q) j) =
     (if j \<in> set ks then length (pool_tasks q j) - maxKeysignPerRequest else length (pool_tasks q j))"
  by (induction ks arbitrary: q) (auto simp: pool_tasks_flush)

lemma pool_tasks_flush_all:
  assumes "queue_ok q" "full_tick (QTick rng)"
  shows "length (pool_tasks (flush_all rng q) j) = length (pool_tasks q j) - maxKeysignPerRequest"
proof -
  have m: "mset (rng (map fst (sq_tasks q))) = mset (map fst (sq_tasks q))"
    using assms(2) by (simp add: full_tick_def)
  have d: "distinct (rng (map fst (sq_tasks q)))" "set (rng (map fst (sq_tasks q))) = fst ` set (sq_tasks q)"
    using assms(1) mset_eq_imp_distinct_iff [OF m] mset_eq_setD [OF m] by (auto simp: queue_ok_def wf_map_def)
  have "pool_tasks q j = []" if "j \<notin> fst ` set (sq_tasks q)"
    using that by (simp add: pool_tasks_def flip: mget_None_iff)
  then show ?thesis by (auto simp: flush_all_def pool_tasks_fold d)
qed

lemma waiting_empty:
  assumes "queue_ok q" "\<And>k. pool_tasks q k = []"
  shows "waiting q = {#}"
proof -
  have "snd e = []" if "e \<in> set (sq_tasks q)" for e
    using assms(1) assms(2) [of "fst e"] that by (cases e) (auto simp: queue_ok_def pool_tasks_def wf_map_set_iff)
  then have "map (mset \<circ> snd) (sq_tasks q) = map (\<lambda>_. {#}) (sq_tasks q)" by auto
  then show ?thesis by (simp add: waiting_def del: map_eq_conv)
qed

lemma ticks_drain:
  assumes "queue_ok q" "list_all full_tick es"
  shows "fst (processKeySignTasks es q) = False \<and> handed_in es = [] \<and>
    length (pool_tasks (snd (processKeySignTasks es q)) k) = length (pool_tasks q k) - maxKeysignPerRequest * length es"
  using assms
proof (induction es arbitrary: q)
  case (Cons e es)
  obtain rng where e: "e = QTick rng" "full_tick (QTick rng)"
    using Cons.prems by (cases e) (auto simp: full_tick_def)
  then show ?case
    using Cons.IH [OF flush_all_ok(1) [OF Cons.prems(1)], of rng] Cons.prems
    by (simp add: pool_tasks_flush_all)
qed simp

text \<open>C15. A task that is handed to the signing queue is sent to the signer exactly once.  From the
  start of the worker, whatever tasks arrive and however its map is ranged over, the tasks handed in
  are those waiting together with those sent, as multisets; a batch is never empty, has at most 15
  tasks, and all of them are of the pool it is sent for.\<close>

theorem sign_queue_conserves:
  assumes "processKeySignTasks es new_queue = (d, q)"
  shows "waiting q + sent q = mset (handed_in es) \<and>
    (\<forall>k b. (k, b) \<in> set (sq_launched q) \<longrightarrow> b \<noteq> [] \<and> length b \<le> 15 \<and> (\<forall>t\<in>set b. st_pool t = k))"
  using processKeySignTasks_ok [OF new_queue_ok(1) assms]
  by (auto simp: queue_ok_def maxKeysignPerRequest_def)

text \<open>C31. The queue drains.  When the worker has run over some events without being stopped and then
  ticks come, with every pool's backlog at most 15 times the number of ticks, all tasks handed in
  have been sent.\<close>

theorem sign_queue_drains:
  assumes "processKeySignTasks es new_queue = (False, q)" "list_all full_tick ticks"
    and "\<And>k. length (pool_tasks q k) \<le> 15 * length ticks"
  shows "sent (snd (processKeySignTasks (es @ ticks) new_queue)) = mset (handed_in es)"
proof -
  have app: "fst (processKeySignTasks xs r) = False \<Longrightarrow>
      processKeySignTasks (xs @ ys) r = processKeySignTasks ys (snd (processKeySignTasks xs r))" for xs ys r
    by (induction xs r rule: processKeySignTasks.induct) auto
  let ?q = "snd (processKeySignTasks ticks q)"
  have ok: "queue_ok q" "waiting q + sent q = mset (handed_in es)"
    using processKeySignTasks_ok [OF new_queue_ok(1) assms(1)] by simp_all
  have q: "queue_ok ?q" "waiting ?q + sent ?q = waiting q + sent q"
    using processKeySignTasks_ok [OF ok(1) surjective_pairing, of ticks] ticks_drain [OF ok(1) assms(2)]
    by simp_all
  have "waiting ?q = {#}"
    using ticks_drain [OF ok(1) assms(2)] assms(3)
    by (intro waiting_empty q(1)) (simp add: maxKeysignPerRequest_def)
  then show ?thesis using q ok app [of es new_queue ticks] assms(1) by simp
qed

section \<open>Nodes agree on their batches\<close>

lemma map_sort_key_mset:
  fixes f :: "'a \<Rightarrow> 'b::linorder"
  assumes "mset (map f xs) = mset (map f ys)"
  shows "map f (sort_key f xs) = map f (sort_key f ys)"
proof -
  have "map f (sort_key f zs) = sort (map f zs)" for zs
    by (rule properties_for_sort [symmetric]) simp_all
  then show ?thesis using assms by (metis properties_for_sort mset_sort sorted_sort)
qed

lemma cut_batch_messages:
  assumes "mset (map st_msg v) = mset (map st_msg w)"
  shows "mset (map st_msg (fst (cut_batch v))) = mset (map st_msg (fst (cut_batch w)))"
    "mset (map st_msg (snd (cut_batch v))) = mset (map st_msg (snd (cut_batch w)))"
proof -
  have m: "mset (take n (map st_msg (sort_key st_msg v))) = mset (take n (map st_msg (sort_key st_msg w)))"
    "mset (drop n (map st_msg (sort_key st_msg v))) = mset (drop n (map st_msg (sort_key st_msg w)))" for n
    by (simp_all only: map_sort_key_mset [OF assms])
  have l: "length v = length w" using mset_eq_length [OF assms] by simp
  show "mset (map st_msg (fst (cut_batch v))) = mset (map st_msg (fst (cut_batch w)))"
    "mset (map st_msg (snd (cut_batch v))) = mset (map st_msg (snd (cut_batch w)))"
    using m [of maxKeysignPerRequest] assms l by (simp_all add: cut_batch_def take_map drop_map)
qed

text \<open>C30. Nodes that have the same messages waiting for a pool, in whatever order they came, send the
  same at their next tick: the messages of the two batches are the same, each as often, as are those
  kept for the tick after; the requests of the two batches have the same message id, and once sorted
  for it they are equal in everything but the block height, which each node takes from the last task
  of its own batch.\<close>

theorem batches_agree:
  assumes "mset (map st_msg v) = mset (map st_msg w)"
  shows "mset (map st_msg (fst (cut_batch v))) = mset (map st_msg (fst (cut_batch w)))
    \<and> mset (map st_msg (snd (cut_batch v))) = mset (map st_msg (snd (cut_batch w)))
    \<and> fst (keysignMsgId x (batch_request k (fst (cut_batch v)))) = fst (keysignMsgId x (batch_request k (fst (cut_batch w))))
    \<and> (snd (keysignMsgId x (batch_request k (fst (cut_batch v)))))\<lparr>ksq_height := h\<rparr> =
        (snd (keysignMsgId x (batch_request k (fst (cut_batch w)))))\<lparr>ksq_height := h\<rparr>"
proof -
  have "sort (map st_msg (fst (cut_batch v))) = sort (map st_msg (fst (cut_batch w)))"
    using cut_batch_messages(1) [OF assms] by (metis properties_for_sort mset_sort sorted_sort)
  then show ?thesis
    using cut_batch_messages [OF assms] by (simp add: keysignMsgId_def batch_request_def Let_def)
qed

lemma batch_height_order:
  "ksq_height (batch_request k [a, b]) = st_height b \<and> ksq_height (batch_request k [b, a]) = st_height a"
  by (simp add: batch_request_def)

section \<open>The signature\<close>

lemma copy_left_Ret: "length b \<le> end_at \<Longrightarrow> copy_left buf end_at b = Ret (take (end_at - length b) buf @ b @ drop end_at buf)"
  by (simp add: copy_left_def)

lemma lowS_low: "0 \<le> S \<Longrightarrow> S < int secp_N \<Longrightarrow> 0 \<le> lowS S \<and> lowS S \<le> int (secp_N div 2) \<and> (lowS S = S \<or> lowS S = int secp_N - S)"
  by (auto simp: lowS_def secp_N_def)

lemma be_nat_pad: "length b \<le> 32 \<Longrightarrow> be_nat (replicate (32 - length b) 0 @ b) = be_nat b"
  by (rule be_nat_replicate_zero)

text \<open>C23. The signature handed to the chain is canonical.  When R and S decode and are below the group
  order, \<open>getSignature\<close> returns 64 bytes, the first half is R, the second is S or the order minus S,
  whichever is not above half the order; it never panics then.\<close>

theorem getSignature_canonical:
  assumes "b64_decode r = Some rb" "b64_decode s = Some sb" "be_nat rb < secp_N" "be_nat sb < secp_N"
  shows "\<exists>d. getSignature r s = Ret (Inr d) \<and> length d = 64 \<and> be_nat (take 32 d) = be_nat rb \<and>
    be_nat (drop 32 d) \<le> secp_N div 2 \<and> be_nat (drop 32 d) \<in> {be_nat sb, secp_N - be_nat sb}"
proof -
  let ?S = "nat \<bar>lowS (int (be_nat sb))\<bar>"
  let ?r = "nat_be (be_nat rb)" and ?s = "nat_be ?S"
  have S: "?S \<le> secp_N div 2 \<and> ?S \<in> {be_nat sb, secp_N - be_nat sb}"
    using lowS_low [of "int (be_nat sb)"] assms(4) by auto
  have "be_nat rb < 256 ^ 32" "?S < 256 ^ 32"
    using assms(3) S by (auto simp: secp_N_def)
  then have l: "length ?r \<le> 32" "length ?s \<le> 32" by (auto intro: length_nat_be)
  let ?R = "replicate (32 - length ?r) 0 @ ?r" and ?T = "replicate (32 - length ?s) (0::byte) @ ?s"
  have c: "copy_left (replicate 64 0) 32 ?r = Ret (?R @ replicate 32 0)"
    using l by (simp add: copy_left_Ret)
  have "copy_left (?R @ replicate 32 0) 64 ?s = Ret (?R @ ?T)"
    using l by (simp add: copy_left_Ret)
  then have "getSignature r s = Ret (Inr (?R @ ?T))"
    by (simp only: getSignature_def assms c option.case out_bind_simps)
  moreover have "length ?R = 32" "length ?T = 32" using l by simp_all
  ultimately show ?thesis
    using S be_nat_pad [OF l(1)] be_nat_pad [OF l(2)] by simp
qed

text \<open>An S of more than 32 bytes is not refused: it overwrites R.\<close>

lemma getSignature_long_r_panics:
  assumes "b64_decode r = Some rb" "b64_decode s = Some sb" "32 < length (nat_be (be_nat rb))"
  shows "getSignature r s = Panic ''slice bounds out of range''"
  by (simp add: getSignature_def assms copy_left_def)

section \<open>What a task is answered\<close>

lemma batch_answers_refs:
  "map fst (batch_answers tasks r) =
     (if snd r = None \<and> ksr_status (fst r) = Success \<and> bl_nodes (ksr_blame (fst r)) = [] then map st_ref tasks else [])"
  by (simp add: batch_answers_def o_def split: option.split)

lemma task_answer_ok:
  assumes "rs_err (task_answer sigs t) = None"
  obtains sg where "sg \<in> set sigs" "sg_msg sg = st_msg t"
    "rs_r (task_answer sigs t) = sg_r sg" "rs_s (task_answer sigs t) = sg_s sg" "rs_recovery (task_answer sigs t) = sg_recovery sg"
proof (cases "find (\<lambda>sg. st_msg t = sg_msg sg) sigs")
  case (Some sg)
  then have "sg \<in> set sigs" "sg_msg sg = st_msg t" by (auto simp: find_Some_iff)
  with Some that show ?thesis by (simp add: task_answer_def)
qed (use assms in \<open>simp add: task_answer_def\<close>)

lemma answers_with_signature:
  assumes "answers_with resp msgs sigs" "sg \<in> set (ksr_signatures resp)"
  shows "\<exists>i<length sigs. i < length msgs \<and> sg = encode_signature (sigs ! i) (msgs ! i)"
proof -
  obtain i where "i < length sigs" "i < length msgs" "sg = encode_signature (sigs ! i) (msgs ! i)"
    using assms by (auto simp: answers_with_def in_set_conv_nth)
  then show ?thesis by blast
qed

text \<open>C8. What a task of the bridge node is answered with.  When \<open>toLocalTSSSigner\<close> returns, and the
  signature notifier's table was well formed before (\<open>sn_ok\<close>, which holds of the new notifier and
  which its operations keep), either nobody is answered or every task of the batch is answered once, in order; and an
  answer without an error carries R, S and the recovery id of the signature at one position of a
  list of signatures, where the message of that very task is at the same position: signatures which
  the key of the pool verifies for these messages, position by position, or those the signing
  ceremony of this node ended with.\<close>

theorem remote_answers:
  assumes "toLocalTSSSigner x net fresh run pool tasks t = Some (Ret (answers, t'))"
    and "sn_ok (sv_sn t)"
  shows "(answers = [] \<or> map fst answers = map st_ref tasks) \<and>
    (\<forall>j<length answers. rs_err (snd (answers ! j)) = None \<longrightarrow>
      (\<exists>ms sigs i. i < length sigs \<and> i < length ms \<and> b64_encode (ms ! i) = st_msg (tasks ! j) \<and>
         rs_r (snd (answers ! j)) = b64_encode (es_r (sigs ! i)) \<and> rs_s (snd (answers ! j)) = b64_encode (es_s (sigs ! i)) \<and>
         rs_recovery (snd (answers ! j)) = b64_encode (es_recovery (sigs ! i)) \<and>
         (signatures_for x pool ms sigs \<or> own_signatures run (length ms) sigs)))"
proof -
  obtain resp err where k: "keySign x net fresh (batch_request pool tasks) run t = Some (Ret ((resp, err), t'))"
    and a: "answers = batch_answers tasks (resp, err)"
    using assms(1) by (auto simp: toLocalTSSSigner_def out_bind_Ret_iff)
  have refs: "answers = [] \<or> map fst answers = map st_ref tasks"
    using batch_answers_refs [of tasks "(resp, err)"] a by (auto split: if_splits)
  have "\<exists>ms sigs i. i < length sigs \<and> i < length ms \<and> b64_encode (ms ! i) = st_msg (tasks ! j) \<and>
         rs_r (snd (answers ! j)) = b64_encode (es_r (sigs ! i)) \<and> rs_s (snd (answers ! j)) = b64_encode (es_s (sigs ! i)) \<and>
         rs_recovery (snd (answers ! j)) = b64_encode (es_recovery (sigs ! i)) \<and>
         (signatures_for x pool ms sigs \<or> own_signatures run (length ms) sigs)"
    if j: "j < length answers" and e: "rs_err (snd (answers ! j)) = None" for j
  proof -
    have s: "ksr_status resp = Success" "answers = map (\<lambda>t. (st_ref t, task_answer (ksr_signatures resp) t)) tasks"
      using a j by (auto simp: batch_answers_def split: option.splits if_splits)
    then have t: "snd (answers ! j) = task_answer (ksr_signatures resp) (tasks ! j)" using j by simp
    obtain sg where sg: "sg \<in> set (ksr_signatures resp)" "sg_msg sg = st_msg (tasks ! j)"
      "rs_r (snd (answers ! j)) = sg_r sg" "rs_s (snd (answers ! j)) = sg_s sg" "rs_recovery (snd (answers ! j)) = sg_recovery sg"
      using task_answer_ok e unfolding t by metis
    obtain ms sigs where o: "answers_with resp (sortMessages ms) sigs"
      "signatures_for x pool (sortMessages ms) sigs \<or> own_signatures run (length ms) sigs"
      using keySign_origin [OF k s(1) assms(2)] by (auto simp: batch_request_def)
    obtain i where "i < length sigs" "i < length (sortMessages ms)" "sg = encode_signature (sigs ! i) (sortMessages ms ! i)"
      using answers_with_signature [OF o(1) sg(1)] by blast
    moreover have "length (sortMessages ms) = length ms"
      using sliceStable_length [of msgToHashInt ms] by (simp add: sortMessages_def not_below_def [abs_def])
    ultimately show ?thesis
      using sg o(2) by (intro exI [of _ "sortMessages ms"] exI [of _ sigs] exI [of _ i]) (simp add: encode_signature_def newSignature_def)
  qed
  then show ?thesis using refs by blast
qed

section \<open>The properties on concrete inputs\<close>

definition sample_task :: "nat \<Rightarrow> string \<Rightarrow> sign_task" where
  "sample_task i m = \<lparr>st_ref = i, st_pool = ''pool'', st_msg = m, st_height = int i\<rparr>"

theorem sign_queue_conserves_witness:
  "processKeySignTasks [QTask (sample_task 1 ''a''), QTick rev, QTask (sample_task 2 ''b'')] new_queue =
     (False, \<lparr>sq_tasks = [(''pool'', [sample_task 2 ''b''])], sq_launched = [(''pool'', [sample_task 1 ''a''])]\<rparr>) \<and>
   waiting \<lparr>sq_tasks = [(''pool'', [sample_task 2 ''b''])], sq_launched = [(''pool'', [sample_task 1 ''a''])]\<rparr> +
     sent \<lparr>sq_tasks = [(''pool'', [sample_task 2 ''b''])], sq_launched = [(''pool'', [sample_task 1 ''a''])]\<rparr> =
     {#sample_task 1 ''a'', sample_task 2 ''b''#}"
proof -
  have p: "processKeySignTasks [QTask (sample_task 1 ''a''), QTick rev, QTask (sample_task 2 ''b'')] new_queue =
     (False, \<lparr>sq_tasks = [(''pool'', [sample_task 2 ''b''])], sq_launched = [(''pool'', [sample_task 1 ''a''])]\<rparr>)"
    by (simp add: new_queue_def enqueue_def flush_all_def flush_pool_def cut_batch_def maxKeysignPerRequest_def
        sample_task_def mput_def)
  show ?thesis using sign_queue_conserves [OF p] p by simp
qed

theorem sign_queue_drains_witness:
  "sent (snd (processKeySignTasks ([QTask (sample_task 1 ''a''), QTask (sample_task 2 ''b'')] @ [QTick rev]) new_queue)) =
     {#sample_task 1 ''a'', sample_task 2 ''b''#}"
proof -
  let ?q = "\<lparr>sq_tasks = [(''pool'', [sample_task 1 ''a'', sample_task 2 ''b''])], sq_launched = []\<rparr>"
  have "processKeySignTasks [QTask (sample_task 1 ''a''), QTask (sample_task 2 ''b'')] new_queue = (False, ?q)"
    by (simp add: new_queue_def enqueue_def sample_task_def mput_def)
  from sign_queue_drains [OF this, of "[QTick rev]"] show ?thesis
    by (simp add: full_tick_def pool_tasks_def)
qed

theorem batches_agree_witness:
  "fst (keysignMsgId sample_tss (batch_request ''pool'' (fst (cut_batch [sample_task 1 ''BA=='', sample_task 2 ''Aw=='']))))
     = fst (keysignMsgId sample_tss (batch_request ''pool'' (fst (cut_batch [sample_task 2 ''Aw=='', sample_task 1 ''BA==''])))) \<and>
   mset (map st_msg (fst (cut_batch [sample_task 1 ''BA=='', sample_task 2 ''Aw=='']))) = {#''Aw=='', ''BA==''#} \<and>
   batch_request ''pool'' (fst (cut_batch [sample_task 1 ''BA=='', sample_task 2 ''Aw==''])) \<noteq>
     batch_request ''pool'' (fst (cut_batch [sample_task 2 ''Aw=='', sample_task 1 ''BA=='']))"
  using batches_agree [of "[sample_task 1 ''BA=='', sample_task 2 ''Aw=='']"
      "[sample_task 2 ''Aw=='', sample_task 1 ''BA=='']" sample_tss "''pool''"]
  by (simp add: sample_task_def cut_batch_def maxKeysignPerRequest_def batch_request_def)

theorem getSignature_canonical_witness:
  "\<exists>d. getSignature (b64_encode [5]) (b64_encode (nat_be (secp_N - 1))) = Ret (Inr d) \<and> length d = 64 \<and>
     be_nat (take 32 d) = 5 \<and> be_nat (drop 32 d) = 1"
proof -
  have five: "be_nat [5] = 5" by (simp add: be_nat_def)
  have "be_nat [5] < secp_N" "be_nat (nat_be (secp_N - 1)) < secp_N" by (simp_all add: five) (simp_all add: secp_N_def)
  from getSignature_canonical [OF b64_decode_encode b64_decode_encode this] obtain d
    where d: "getSignature (b64_encode [5]) (b64_encode (nat_be (secp_N - 1))) = Ret (Inr d)" "length d = 64"
      "be_nat (take 32 d) = be_nat [5]" "be_nat (drop 32 d) \<le> secp_N div 2"
      "be_nat (drop 32 d) \<in> {be_nat (nat_be (secp_N - 1)), secp_N - be_nat (nat_be (secp_N - 1))}"
    by blast
  have "be_nat (take 32 d) = 5" "be_nat (drop 32 d) = 1" using d(3-5) by (auto simp: five secp_N_def)
  with d(1,2) show ?thesis by blast
qed

text \<open>Two tasks of height 0: the election refuses that height, the signatures come from \<open>b\<close>.\<close>

definition sample_sign_batch :: "sign_task list" where
  "sample_sign_batch = [\<lparr>st_ref = 1, st_pool = ''pool'', st_msg = ''BA=='', st_height = 0\<rparr>,
     \<lparr>st_ref = 2, st_pool = ''pool'', st_msg = ''Aw=='', st_height = 0\<rparr>]"

definition batch_sid :: string where
  "batch_sid = hex_encode (str_bytes ''Aw==,BA=='')"

definition sample_node :: tss_ext where
  "sample_node = sample_tss\<lparr>x_unmarshal_keysign :=
     (\<lambda>b. Inr \<lparr>km_id = batch_sid, km_signatures = map (\<lambda>c. [c]) b, km_status = KsSuccess\<rparr>)\<rparr>"

lemmas sample_node_defs = sample_node_def sample_tss_defs

lemma sample_batch_wait:
  "\<exists>sn'. waitForSignatures sample_node batch_sid ''pool'' [[4], [3]] [SigStream (sample_stream ''b'' [4, 3]), SigTake]
      (newSignatureNotifier ''a'' True) = (True, Some (Ret ((sample_answer, None), sn')))"
proof -
  have "batch_sid \<noteq> []" by (simp add: batch_sid_def str_bytes_def)
  then show ?thesis
    by (simp add: waitForSignatures_def waitForSignature_def newNotifier_def newSignatureNotifier_def addToNotifiers_def
        sn_handleStream_def sample_stream_read MaxPayload_def sn_process_def sn_getNotifier_def sn_addStream_def
        processSignature_def nf_verifySignature_def sample_node_defs be_nat_def sn_respond_def sn_responses_def
        deleteNotifier_def waitResult_def batchSignatures_def encode_signature_def sample_b64 sample_answer_def Let_def
        del: b64_encode.simps(2,3,4))
qed

lemma sample_batch_request:
  "keysignMsgId sample_node (batch_request ''pool'' sample_sign_batch) =
     (Inr batch_sid, (batch_request ''pool'' sample_sign_batch)\<lparr>ksq_messages := [''Aw=='', ''BA=='']\<rparr>)"
proof -
  have "x_sha256 sample_node = (\<lambda>b. b)" by (simp add: sample_node_defs)
  then show ?thesis
    by (simp add: keysignMsgId_def batch_request_def sample_sign_batch_def msgToHashString_def batch_sid_def str_bytes_def)
qed

lemma sample_node_state: "getLocalState sample_node ''/d'' ''pool'' sample_pool_fs = Inr (sample_state ''pool'')"
proof -
  have eqs: "x_unmarshal_acc_pk sample_node = x_unmarshal_acc_pk sample_tss" "x_parse_pub sample_node = x_parse_pub sample_tss"
    "x_on_curve sample_node = x_on_curve sample_tss" "x_unmarshal_state sample_node = x_unmarshal_state sample_tss"
    by (simp_all add: sample_node_defs)
  have "getLocalState sample_node d k fs = getLocalState sample_tss d k fs" for d k fs
    unfolding getLocalState_def getFilePathName_def checkKeyOnCurve_def eqs by (rule refl)
  then show ?thesis using sample_pool_state by simp
qed

lemma sample_remote:
  "\<exists>t'. toLocalTSSSigner sample_node no_network 0 sample_run ''pool'' sample_sign_batch sample_signer =
     Some (Ret (map (\<lambda>t. (st_ref t, task_answer (ksr_signatures sample_answer) t)) sample_sign_batch, t'))"
proof -
  obtain sn' where w: "waitForSignatures sample_node batch_sid ''pool'' [[4], [3]] [SigStream (sample_stream ''b'' [4, 3]), SigTake]
      (newSignatureNotifier ''a'' True) = (True, Some (Ret ((sample_answer, None), sn')))"
    using sample_batch_wait by blast
  have v: "versionLTCheck sample_node ''0.14.0'' NEWJOINPARTYVERSION = Inr False"
    by (simp add: versionLTCheck_def NEWJOINPARTYVERSION_def sample_node_defs)
  have ms: "sortMessages [[3], [4]] = [[4], [3]]"
    by (simp add: sortMessages_def sliceStable_def sort_blocks.simps insertionSort_def sample_hash)
  have p: "ksq_pool (batch_request k b) = k" "ksq_height (batch_request ''pool'' sample_sign_batch) = 0"
      "ksq_version (batch_request k b) = ''0.14.0''" "ksq_signers (batch_request k b) = []" for k b
    by (simp_all add: batch_request_def sample_sign_batch_def)
  have ids: "getPeerIDsFromPubKeys sample_node [''a'', ''b'', ''c''] = Inr [''a'', ''b'', ''c'']"
    by (simp add: sample_node_defs getPeerIDFromPubKey_def)
  have "\<exists>s'. server_generateSignature sample_node no_network 0 (\<lambda>p. True) h batch_sid [[4], [3]]
      ((batch_request ''pool'' sample_sign_batch)\<lparr>ksq_messages := [''Aw=='', ''BA=='']\<rparr>) 1 [''a'', ''b'', ''c'']
      (sample_state ''pool'') [] [] [] s = Some (Ret ((failed_keysign (leaderBlame sample_node []), None), s'))" for h s
    by (simp add: server_generateSignature_def ids p v joinParty_def joinPartyWithLeader_def leaderNode_def afterJoin_def
        keysignJoinFailed_def NONE_def Let_def
        del: getPeerIDsFromPubKeys.simps)
  then obtain g where gen: "server_generateSignature sample_node no_network 0 (\<lambda>p. True) h batch_sid [[4], [3]]
      ((batch_request ''pool'' sample_sign_batch)\<lparr>ksq_messages := [''Aw=='', ''BA=='']\<rparr>) 1 [''a'', ''b'', ''c'']
      (sample_state ''pool'') [] [] [] s = Some (Ret ((failed_keysign (leaderBlame sample_node []), None), g h s))" for h s
    by metis
  have c: "keysignChecks sample_node ((batch_request ''pool'' sample_sign_batch)\<lparr>ksq_messages := [''Aw=='', ''BA=='']\<rparr>) t =
      Inr (sample_state ''pool'', [[4], [3]], 1)" if "sv_folder t = ''/d''" "sv_fs t = sample_pool_fs" for t
    using that sample_node_state getThreshold_int [of 3] by (simp add: keysignChecks_def p v ms sample_b64)
  have "\<exists>t'. keySign sample_node no_network 0 (batch_request ''pool'' sample_sign_batch) sample_run sample_signer =
     Some (Ret ((sample_answer, None), t'))"
    using w gen
    by (simp add: keySign_def sample_batch_request c p newTssKeySign_def newTssCommon_def sample_signer_def
        sample_server_def keysignGoroutines_def sample_run_def keysignAnswer_def sample_net_comm_def Let_def)
  then show ?thesis
    by (auto simp: toLocalTSSSigner_def batch_answers_def sample_answer_def newKeysignResponse_def newBlame_def)
qed

theorem remote_answers_witness:
  "\<exists>t' answers. toLocalTSSSigner sample_node no_network 0 sample_run ''pool'' sample_sign_batch sample_signer = Some (Ret (answers, t')) \<and>
     map fst answers = [1, 2] \<and> rs_err (snd (answers ! 0)) = None \<and>
     (\<exists>ms sigs i. b64_encode (ms ! i) = ''BA=='' \<and> b64_encode (es_r (sigs ! i)) = ''BA=='' \<and>
        (signatures_for sample_node ''pool'' ms sigs \<or> own_signatures sample_run (length ms) sigs))"
proof -
  let ?as = "map (\<lambda>t. (st_ref t, task_answer (ksr_signatures sample_answer) t)) sample_sign_batch"
  obtain t' where r: "toLocalTSSSigner sample_node no_network 0 sample_run ''pool'' sample_sign_batch sample_signer = Some (Ret (?as, t'))"
    using sample_remote by blast
  have l: "0 < length ?as" "map fst ?as = [1, 2]" "st_msg (sample_sign_batch ! 0) = ''BA==''"
    by (simp_all add: sample_sign_batch_def)
  have a: "rs_err (snd (?as ! 0)) = None" "rs_r (snd (?as ! 0)) = ''BA==''"
    by (simp_all add: sample_sign_batch_def task_answer_def sample_answer_def newKeysignResponse_def newSignature_def)
  have "sn_ok (sv_sn sample_signer)" by (simp add: sample_signer_def sample_server_def sn_ok_new)
  then have "\<exists>ms sigs i. i < length sigs \<and> i < length ms \<and> b64_encode (ms ! i) = st_msg (sample_sign_batch ! 0) \<and>
      rs_r (snd (?as ! 0)) = b64_encode (es_r (sigs ! i)) \<and> rs_s (snd (?as ! 0)) = b64_encode (es_s (sigs ! i)) \<and>
      rs_recovery (snd (?as ! 0)) = b64_encode (es_recovery (sigs ! i)) \<and>
      (signatures_for sample_node ''pool'' ms sigs \<or> own_signatures sample_run (length ms) sigs)"
    using conjunct2 [OF remote_answers [OF r], rule_format, OF _ l(1) a(1)] by blast
  then obtain ms sigs i where o: "b64_encode (ms ! i) = ''BA==''" "''BA=='' = b64_encode (es_r (sigs ! i))"
      "signatures_for sample_node ''pool'' ms sigs \<or> own_signatures sample_run (length ms) sigs"
    unfolding l(3) a(2) by (elim exE conjE)
  then have "\<exists>ms sigs i. b64_encode (ms ! i) = ''BA=='' \<and> b64_encode (es_r (sigs ! i)) = ''BA=='' \<and>
        (signatures_for sample_node ''pool'' ms sigs \<or> own_signatures sample_run (length ms) sigs)"
    by (intro exI conjI) (rule o sym [OF o(2)])+
  with r l(2) a(1) show ?thesis by (intro exI [of _ t'] exI [of _ ?as] conjI)
qed

end
