(* ===== verification/Bridge_Client.thy ===== *)
theory Bridge_Client
  imports Net_Http "HOL-Library.Word"
begin

text \<open>
  \<open>network/chain_client.go\<close> and \<open>network/bridge_client.go\<close>: the client that signs and broadcasts the
  transactions of the bridge node.  What the Cosmos SDK does (key ring, transaction builder, signing,
  encoders, RPC client, broadcast) is a record of functions for each call; the account comes from the
  HTTP interface.  The lock makes calls of \<open>broadcast\<close> run one after the other.
\<close>

section \<open>Configuration and keys\<close>

record chain_client_config =
  cf_ChainId :: string
  cf_BlockUrl :: string
  cf_Stateurl :: string
  cf_RpcUrl :: string
  cf_SignerName :: string
  cf_SignerPasswd :: string

definition newChainClientConfig :: "string \<Rightarrow> string \<Rightarrow> string \<Rightarrow> string \<Rightarrow> string \<Rightarrow> string \<Rightarrow> chain_client_config" where
  "newChainClientConfig chainId blockUrl stateUrl rpcUrl signerName signerPasswd =
     \<lparr>cf_ChainId = chainId, cf_BlockUrl = blockUrl, cf_Stateurl = stateUrl, cf_RpcUrl = rpcUrl,
      cf_SignerName = signerName, cf_SignerPasswd = signerPasswd\<rparr>"

record bridge_config = chain_client_config +
  cf_RelayerAddress :: string

definition newBridgeClientConfig :: "chain_client_config \<Rightarrow> string \<Rightarrow> bridge_config" where
  "newBridgeClientConfig cfg relayerAddress =
     chain_client_config.extend cfg \<lparr>cf_RelayerAddress = relayerAddress\<rparr>"

text \<open>The key ring: its constructor, and the private key as armoured text and decrypted.\<close>

record keyring_ext =
  x_home_dir :: "string res"
  x_keyring_new :: "string \<Rightarrow> string \<Rightarrow> nat res"
  x_export_armor :: "nat \<Rightarrow> string \<Rightarrow> string \<Rightarrow> string res"
  x_unarmor :: "string \<Rightarrow> string \<Rightarrow> bytes res"

record keys =
  k_signerName :: string
  k_password :: string
  k_kb :: nat

definition newKeys :: "string \<Rightarrow> string \<Rightarrow> nat \<Rightarrow> keys" where
  "newKeys signerName password kb = \<lparr>k_signerName = signerName, k_password = password, k_kb = kb\<rparr>"

definition getKeybase :: "'e keyring_ext_scheme \<Rightarrow> string \<Rightarrow> string \<Rightarrow> nat res" where
  "getKeybase x home reader =
     (if length home = 0 then
        (case x_home_dir x of
           Inl e \<Rightarrow> Inl (ErrWrap ''fail to get current user'' e)
         | Inr dir \<Rightarrow> x_keyring_new x (dir @ ''/.bridge'') reader)
      else x_keyring_new x home reader)"

definition getKeyringKeybase :: "'e keyring_ext_scheme \<Rightarrow> string \<Rightarrow> string \<Rightarrow> string \<Rightarrow> nat res" where
  "getKeyringKeybase x chainHomeFolder signerName password =
     (if length signerName = 0 then Inl (ErrText ''signer name is empty'')
      else if length password = 0 then Inl (ErrText ''password is empty'')
      else (case getKeybase x chainHomeFolder (password @ [CHR 0x0A]) of
          Inl e \<Rightarrow> Inl (ErrWrap ''fail to get keybase'' e)
        | Inr kb \<Rightarrow> Inr kb))"

definition getPrivateKey :: "'e keyring_ext_scheme \<Rightarrow> keys \<Rightarrow> bytes res" where
  "getPrivateKey x k =
     (case x_export_armor x (k_kb k) (k_signerName k) (k_password k) of
        Inl e \<Rightarrow> Inl e
      | Inr armor \<Rightarrow>
         (case x_unarmor x armor (k_password k) of
            Inl e \<Rightarrow> Inl (ErrWrap ''fail to unarmor private key'' e)
          | Inr priKey \<Rightarrow> Inr priKey))"

section \<open>The client\<close>

type_synonym bridge_msg = bytes

record bridge_client =
  bc_cfg :: bridge_config
  bc_accountNumber :: "64 word"
  bc_seqNumber :: "64 word"
  bc_currentBlockHeight :: int
  bc_accepted :: "(64 word \<times> string) list" \<comment> \<open>the broadcasts that were answered without an error, with the sequence numbers in them\<close>

definition newBridgeClient :: "bridge_config \<Rightarrow> bridge_client" where
  "newBridgeClient cfg =
     \<lparr>bc_cfg = cfg, bc_accountNumber = 0, bc_seqNumber = 0, bc_currentBlockHeight = 0, bc_accepted = []\<rparr>"

record commit =
  cm_code :: nat
  cm_hash :: string
  cm_log :: string

text \<open>What the outside does during one call of \<open>broadcast\<close>.\<close>

record chain_env =
  ce_http :: http_client
  ce_address :: "string res"
  ce_rpc :: "goerr option" \<comment> \<open>\<open>rpchttp.New\<close>\<close>
  ce_build :: "bridge_msg list \<Rightarrow> 64 word \<Rightarrow> 64 word \<Rightarrow> nat res"
  ce_sign :: "nat \<Rightarrow> nat res"
  ce_encode :: "nat \<Rightarrow> bytes res"
  ce_json :: "nat \<Rightarrow> bytes res"
  ce_broadcast :: "bytes \<Rightarrow> commit res"

definition getAccountNumberAndSequenceNumber ::
  "'e http_ext_scheme \<Rightarrow> chain_env \<Rightarrow> bridge_client \<Rightarrow> (64 word \<times> 64 word) res outcome" where
  "getAccountNumberAndSequenceNumber x env b =
     (case ce_address env of
        Inl e \<Rightarrow> Ret (Inl e)
      | Inr accountAddress \<Rightarrow>
         out_bind (getAccountInfo x (ce_http env) (cf_Stateurl (bc_cfg b)) accountAddress) (\<lambda>r. Ret (case r of
             Inl e \<Rightarrow> Inl e
           | Inr accountInfo \<Rightarrow> Inr (of_int (ai_number accountInfo), of_int (ai_sequence accountInfo)))))"

text \<open>At a new block the account is read again; the sequence number only goes up.\<close>

definition refresh_account ::
  "'e http_ext_scheme \<Rightarrow> chain_env \<Rightarrow> int \<Rightarrow> bridge_client \<Rightarrow> bridge_client res outcome" where
  "refresh_account x env blockHeight b =
     (if bc_currentBlockHeight b < blockHeight then
        out_bind (getAccountNumberAndSequenceNumber x env b) (\<lambda>r. Ret (case r of
            Inl e \<Rightarrow> Inl (ErrWrap ''fail to get account number and sequence number from bridge network'' e)
          | Inr (accountNumber, seqNum) \<Rightarrow>
              Inr (b\<lparr>bc_seqNumber := (if bc_seqNumber b < seqNum then seqNum else bc_seqNumber b),
                     bc_accountNumber := accountNumber, bc_currentBlockHeight := blockHeight\<rparr>)))
      else Ret (Inr b))"

text \<open>The transaction, with the sequence number that \<open>WithSequence\<close> put into it.\<close>

definition build_tx :: "chain_env \<Rightarrow> bridge_msg list \<Rightarrow> bridge_client \<Rightarrow> (64 word \<times> bytes) res outcome" where
  "build_tx env msgs b =
     (let factory = (bc_accountNumber b, bc_seqNumber b) in
     (case ce_rpc env of
        Some e \<Rightarrow> Panic ''rpchttp.New''
      | None \<Rightarrow>
     (case ce_build env msgs (fst factory) (snd factory) of
        Inl e \<Rightarrow> Ret (Inl e)
      | Inr builder \<Rightarrow>
     (case ce_sign env builder of
        Inl e \<Rightarrow> Ret (Inl e)
      | Inr stx \<Rightarrow>
     (case ce_encode env stx of
        Inl e \<Rightarrow> Ret (Inl e)
      | Inr txBytes \<Rightarrow>
         (case ce_json env stx of Inl e \<Rightarrow> Ret (Inl e) | Inr temp \<Rightarrow> Ret (Inr (snd factory, txBytes))))))))"

text \<open>Code 32 is a bad sequence number: it is fetched again, and errors of that are dropped.  Code 6
  counts as a success.  \<open>seq\<close> is the number in the transaction that the commit answers.\<close>

definition settle ::
  "'e http_ext_scheme \<Rightarrow> chain_env \<Rightarrow> 64 word \<Rightarrow> commit \<Rightarrow> bridge_client \<Rightarrow> (string res \<times> bridge_client) outcome" where
  "settle x env seq commit b =
     (let done = Ret (Inr (cm_hash commit), b\<lparr>bc_seqNumber := bc_seqNumber b + 1,
            bc_accepted := bc_accepted b @ [(seq, cm_hash commit)]\<rparr>);
          refused = ErrText ''fail to broadcast to bridge network''
      in if cm_code commit = 0 \<or> cm_code commit = 6 then done
         else if cm_code commit = 32 then
           out_bind (getAccountNumberAndSequenceNumber x env b) (\<lambda>r. Ret (Inl refused,
             (case r of Inl e \<Rightarrow> b | Inr (n, seqNum) \<Rightarrow> if 0 < seqNum then b\<lparr>bc_seqNumber := seqNum\<rparr> else b)))
         else Ret (Inl refused, b))"

definition broadcastTx ::
  "'e http_ext_scheme \<Rightarrow> chain_env \<Rightarrow> bridge_msg list \<Rightarrow> bridge_client \<Rightarrow> (string res \<times> bridge_client) outcome" where
  "broadcastTx x env msgs b =
     out_bind (getCurrentHeight x (ce_http env) (cf_BlockUrl (bc_cfg b))) (\<lambda>rh.
       case rh of
         Inl e \<Rightarrow> Ret (Inl e, b)
       | Inr blockHeight \<Rightarrow>
          out_bind (refresh_account x env blockHeight b) (\<lambda>rb.
            case rb of
              Inl e \<Rightarrow> Ret (Inl e, b)
            | Inr b1 \<Rightarrow>
               out_bind (build_tx env msgs b1) (\<lambda>rt.
                 case rt of
                   Inl e \<Rightarrow> Ret (Inl e, b1)
                 | Inr (seq, txBytes) \<Rightarrow>
                    (case ce_broadcast env txBytes of
                       Inl e \<Rightarrow> Ret (Inl (ErrWrap ''fail to broadcast tx'' e), b1)
                     | Inr commit \<Rightarrow> settle x env seq commit b1))))"

text \<open>The two transactions; \<open>newMsg\<close> is the constructor of package \<open>types\<close> of the bridge chain.\<close>

definition sendTx ::
  "'e http_ext_scheme \<Rightarrow> chain_env \<Rightarrow> string \<Rightarrow> bridge_msg res \<Rightarrow> bridge_client \<Rightarrow> (goerr option \<times> bridge_client) outcome" where
  "sendTx x env what newMsg b =
     (case newMsg of
        Inl e \<Rightarrow> Ret (Some (ErrWrap what e), b)
      | Inr m \<Rightarrow>
         out_bind (broadcastTx x env [m] b) (\<lambda>(r, b1). Ret (case r of
             Inl e \<Rightarrow> Some (ErrWrap ''fail to send the tx to bridge network'' e)
           | Inr txId \<Rightarrow> None, b1)))"

definition sendKeygenTx where
  "sendKeygenTx x env newMsg b = sendTx x env ''fail to get keygen id'' newMsg b"

definition sendRegisterKeygenTx where
  "sendRegisterKeygenTx x env newMsg b = sendTx x env ''fail to get registerKeygenMsg id'' newMsg b"

section \<open>Sequence numbers\<close>

text \<open>Several calls, one after the other.\<close>

fun broadcasts ::
  "'e http_ext_scheme \<Rightarrow> (chain_env \<times> bridge_msg list) list \<Rightarrow> bridge_client \<Rightarrow> (string res list \<times> bridge_client) outcome" where
  "broadcasts x [] b = Ret ([], b)"
| "broadcasts x ((env, msgs) # calls) b =
     out_bind (broadcastTx x env msgs b) (\<lambda>(r, b1).
       out_bind (broadcasts x calls b1) (\<lambda>(rs, b2). Ret (r # rs, b2)))"

text \<open>The node never refuses a sequence number and reports no negative one.\<close>

definition calm_env :: "'e http_ext_scheme \<Rightarrow> string \<Rightarrow> chain_env \<Rightarrow> bool" where
  "calm_env x url env \<longleftrightarrow>
     (\<forall>tx c. ce_broadcast env tx = Inr c \<longrightarrow> cm_code c \<noteq> 32) \<and>
     (\<forall>a i. ce_address env = Inr a \<longrightarrow> getAccountInfo x (ce_http env) url a = Ret (Inr i) \<longrightarrow> 0 \<le> ai_sequence i)"

definition seq_ok :: "nat \<Rightarrow> bridge_client \<Rightarrow> bool" where
  "seq_ok n b \<longleftrightarrow>
     sorted_wrt (<) (map fst (bc_accepted b)) \<and> (\<forall>a c. (a, c) \<in> set (bc_accepted b) \<longrightarrow> a < bc_seqNumber b) \<and>
     unat (bc_seqNumber b) < 2 ^ 63 + n"

lemma unat_of_int64: "0 \<le> i \<Longrightarrow> int64 i \<Longrightarrow> unat (of_int i :: 64 word) < 2 ^ 63"
proof -
  assume i: "0 \<le> i" "int64 i"
  then have "uint (of_int i :: 64 word) = i" by (simp add: int64_def uint_word_of_int mod_pos_pos_trivial)
  then show ?thesis using i by (simp add: int64_def unat_eq_nat_uint nat_less_iff)
qed

lemma account_answer:
  assumes "getAccountNumberAndSequenceNumber x env b = Ret (Inr (an, sn))"
  obtains a i where "ce_address env = Inr a" "getAccountInfo x (ce_http env) (cf_Stateurl (bc_cfg b)) a = Ret (Inr i)"
    "sn = of_int (ai_sequence i)"
proof -
  obtain a where a: "ce_address env = Inr a"
    using assms by (cases "ce_address env") (auto simp: getAccountNumberAndSequenceNumber_def)
  then obtain r where r: "getAccountInfo x (ce_http env) (cf_Stateurl (bc_cfg b)) a = Ret r"
    using assms by (auto simp: getAccountNumberAndSequenceNumber_def out_bind_Ret_iff)
  show ?thesis using assms a r that by (cases r) (auto simp: getAccountNumberAndSequenceNumber_def)
qed

lemma refresh_account_seq:
  assumes "refresh_account x env h b = Ret (Inr b1)" "seq_ok n b" "calm_env x (cf_Stateurl (bc_cfg b)) env"
  shows "seq_ok n b1 \<and> bc_accepted b1 = bc_accepted b \<and> bc_cfg b1 = bc_cfg b \<and> bc_seqNumber b \<le> bc_seqNumber b1"
proof (cases "bc_currentBlockHeight b < h")
  case True
  then obtain ra where ra: "getAccountNumberAndSequenceNumber x env b = Ret ra"
    using assms(1) by (auto simp: refresh_account_def out_bind_Ret_iff)
  then obtain an sn where g: "getAccountNumberAndSequenceNumber x env b = Ret (Inr (an, sn))"
    and b1: "b1 = b\<lparr>bc_seqNumber := (if bc_seqNumber b < sn then sn else bc_seqNumber b),
                     bc_accountNumber := an, bc_currentBlockHeight := h\<rparr>"
    using assms(1) True by (cases ra) (auto simp: refresh_account_def)
  obtain a i where "ce_address env = Inr a" "getAccountInfo x (ce_http env) (cf_Stateurl (bc_cfg b)) a = Ret (Inr i)"
      "sn = of_int (ai_sequence i)"
    by (rule account_answer [OF g])
  then have "unat sn < 2 ^ 63"
    using assms(3) getAccountInfo_range unat_of_int64 unfolding calm_env_def by blast
  then show ?thesis using b1 assms(2) by (auto simp: seq_ok_def intro: less_trans order_less_imp_le)
next
  case False
  then show ?thesis using assms(1,2) by (simp add: refresh_account_def)
qed

lemma build_tx_seq: "build_tx env msgs b = Ret (Inr (seq, tx)) \<Longrightarrow> seq = bc_seqNumber b"
  by (auto simp: build_tx_def Let_def split: option.splits sum.splits)

lemma settle_seq:
  assumes "settle x env (bc_seqNumber b) c b = Ret (r, b')" "seq_ok n b" "cm_code c \<noteq> 32" "n < 2 ^ 63 - 1"
  shows "seq_ok (Suc n) b' \<and> bc_cfg b' = bc_cfg b \<and> bc_seqNumber b \<le> bc_seqNumber b'"
proof (cases "cm_code c = 0 \<or> cm_code c = 6")
  case True
  have "unat (bc_seqNumber b) + 1 < 2 ^ 64" using assms(2,4) by (simp add: seq_ok_def)
  then have u: "unat (bc_seqNumber b + 1) = unat (bc_seqNumber b) + 1"
    by (simp add: unat_word_ariths)
  then have "bc_seqNumber b < bc_seqNumber b + 1" by (simp add: word_less_nat_alt)
  moreover have "a < bc_seqNumber b + 1" if "(a, h) \<in> set (bc_accepted b)" for a h
    using that assms(2) calculation by (auto simp: seq_ok_def intro: less_trans)
  ultimately show ?thesis
    using True u assms(1,2) by (auto simp: settle_def Let_def seq_ok_def sorted_wrt_append intro: order_less_imp_le; blast)
next
  case False
  then show ?thesis using assms by (auto simp: settle_def Let_def seq_ok_def)
qed

lemma broadcastTx_seq:
  assumes "broadcastTx x env msgs b = Ret (r, b')" "seq_ok n b" "calm_env x (cf_Stateurl (bc_cfg b)) env" "n < 2 ^ 63 - 1"
  shows "seq_ok (Suc n) b' \<and> bc_cfg b' = bc_cfg b \<and> bc_seqNumber b \<le> bc_seqNumber b'"
proof -
  have up: "seq_ok (Suc n) c" if "seq_ok n c" for c using that by (simp add: seq_ok_def)
  obtain rh where rh: "getCurrentHeight x (ce_http env) (cf_BlockUrl (bc_cfg b)) = Ret rh"
    using assms(1) by (auto simp: broadcastTx_def out_bind_Ret_iff)
  show ?thesis
  proof (cases rh)
    case (Inl e)
    then show ?thesis using assms(1,2) rh up by (auto simp: broadcastTx_def)
  next
    case (Inr h)
    then obtain rb where rb: "refresh_account x env h b = Ret rb"
      using assms(1) rh by (auto simp: broadcastTx_def out_bind_Ret_iff)
    show ?thesis
    proof (cases rb)
      case (Inl e)
      then show ?thesis using assms(1,2) rh rb Inr up by (auto simp: broadcastTx_def)
    next
      case b1: (Inr b1)
      note seq = refresh_account_seq [OF rb [unfolded b1] assms(2,3)]
      obtain rt where rt: "build_tx env msgs b1 = Ret rt"
        using assms(1) rh rb Inr b1 by (auto simp: broadcastTx_def out_bind_Ret_iff)
      have "(b' = b1) \<or> (\<exists>tx c. ce_broadcast env tx = Inr c \<and> settle x env (bc_seqNumber b1) c b1 = Ret (r, b'))"
        using assms(1) rh rb Inr b1 rt by (auto simp: broadcastTx_def split: sum.splits dest: build_tx_seq)
      then show ?thesis
      proof
        assume "b' = b1"
        then show ?thesis using seq up by auto
      next
        assume "\<exists>tx c. ce_broadcast env tx = Inr c \<and> settle x env (bc_seqNumber b1) c b1 = Ret (r, b')"
        then obtain c where "settle x env (bc_seqNumber b1) c b1 = Ret (r, b')" "cm_code c \<noteq> 32"
          using assms(3) unfolding calm_env_def by blast
        from settle_seq [OF this(1) _ this(2) assms(4)] seq show ?thesis by auto
      qed
    qed
  qed
qed

lemma broadcasts_seq:
  assumes "broadcasts x calls b = Ret (rs, b')" "seq_ok n b" "n + length calls < 2 ^ 63"
    and "\<And>env msgs. (env, msgs) \<in> set calls \<Longrightarrow> calm_env x (cf_Stateurl (bc_cfg b)) env"
  shows "seq_ok (n + length calls) b'"
  using assms
proof (induction x calls b arbitrary: n rs rule: broadcasts.induct)
  case (2 x env msgs calls b)
  obtain r b1 rs' where b1: "broadcastTx x env msgs b = Ret (r, b1)" "broadcasts x calls b1 = Ret (rs', b')"
    using "2.prems"(1) by (auto simp: out_bind_Ret_iff)
  have s: "seq_ok (Suc n) b1 \<and> bc_cfg b1 = bc_cfg b"
    using broadcastTx_seq [OF b1(1) "2.prems"(2)] "2.prems"(3,4) by auto
  then have "seq_ok (Suc n + length calls) b'"
    using "2.IH" [OF b1(2), of "Suc n"] "2.prems"(3,4) by (auto simp: s)
  then show ?case by simp
qed simp

text \<open>No two transactions the client gets accepted carry the same sequence number: over any number
  of calls below 2^63, with any mixture of failures and with blocks arriving in between, the sequence
  numbers of the accepted broadcasts are strictly increasing, provided that the node refuses none as
  a bad sequence (code 32) and never reports a negative one.\<close>

lemma broadcast_sequences:
  assumes "broadcasts x calls (newBridgeClient cfg) = Ret (rs, b)" "length calls < 2 ^ 63"
    and "\<And>env msgs. (env, msgs) \<in> set calls \<Longrightarrow> calm_env x (cf_Stateurl cfg) env"
  shows "sorted_wrt (<) (map fst (bc_accepted b))"
proof -
  have "seq_ok 0 (newBridgeClient cfg)" by (simp add: seq_ok_def newBridgeClient_def)
  from broadcasts_seq [OF assms(1) this] assms(2,3) show ?thesis
    by (simp add: newBridgeClient_def seq_ok_def)
qed

text \<open>After a refused sequence number the client takes the one the node reports.\<close>

lemma settle_resync:
  assumes "cm_code c = 32" "getAccountNumberAndSequenceNumber x env b = Ret (Inr (n, sn))" "0 < sn"
  shows "settle x env seq c b = Ret (Inl (ErrText ''fail to broadcast to bridge network''), b\<lparr>bc_seqNumber := sn\<rparr>)"
  using assms by (simp add: settle_def)

lemma getKeyringKeybase_checks:
  "getKeyringKeybase x home s p = Inr kb \<Longrightarrow> s \<noteq> [] \<and> p \<noteq> []"
  by (auto simp: getKeyringKeybase_def split: if_splits)

section \<open>The property on concrete inputs\<close>

definition sample_cfg :: bridge_config where
  "sample_cfg = newBridgeClientConfig (newChainClientConfig ''c'' ''b'' ''s'' ''r'' ''n'' ''p'') ''adr''"

text \<open>A node whose account is at sequence number 5, and which answers with code \<open>c\<close>.\<close>

definition sample_env :: "nat \<Rightarrow> chain_env" where
  "sample_env c = \<lparr>ce_http = (\<lambda>m url body. Inr (str_bytes (if url = ''b/abci_info'' then itoa 2 else itoa 5))),
     ce_address = Inr ''adr'', ce_rpc = None, ce_build = (\<lambda>ms n s. Inr (unat s)), ce_sign = Inr, ce_encode = (\<lambda>n. Inr [of_nat n]),
     ce_json = (\<lambda>n. Inr []), ce_broadcast = (\<lambda>b. Inr \<lparr>cm_code = c, cm_hash = ''h'', cm_log = []\<rparr>)\<rparr>"

lemma sample_account:
  "getAccountInfo sample_http (ce_http (sample_env c)) ''s'' ''adr'' =
     Ret (Inr \<lparr>ai_type = [], ai_address = ''adr'', ai_number = 7, ai_sequence = 5\<rparr>)"
  by (simp add: getAccountInfo_def get_json_def sample_env_def sample_http_def newAccountInfoByResp_def parseInt64_itoa int64_def)

lemma sample_env_height: "getCurrentHeight sample_http (ce_http (sample_env c)) ''b'' = Ret (Inr 2)"
  by (simp add: getCurrentHeight_def get_json_def sample_env_def sample_http_def parseInt64_itoa int64_def)

lemma sample_cfg_fields: "cf_Stateurl sample_cfg = ''s''" "cf_BlockUrl sample_cfg = ''b''"
  by (simp_all add: sample_cfg_def newBridgeClientConfig_def newChainClientConfig_def chain_client_config.extend_def)

lemma sample_calm: "c \<noteq> 32 \<Longrightarrow> calm_env sample_http ''s'' (sample_env c)"
proof -
  have "ce_address (sample_env c) = Inr ''adr''" "\<And>tx r. ce_broadcast (sample_env c) tx = Inr r \<Longrightarrow> cm_code r = c"
    by (auto simp: sample_env_def)
  moreover assume "c \<noteq> 32"
  ultimately show ?thesis using sample_account [of c] by (auto simp: calm_env_def)
qed

lemma broadcast_sequences_sample:
  "\<exists>rs b. broadcasts sample_http [(sample_env 0, [[1]]), (sample_env 5, [[2]]), (sample_env 6, [[3]])] (newBridgeClient sample_cfg) = Ret (rs, b) \<and>
     map fst (bc_accepted b) = [5, 6] \<and> sorted_wrt (<) (map fst (bc_accepted b))"
proof -
  let ?b = "\<lparr>bc_cfg = sample_cfg, bc_accountNumber = 7, bc_seqNumber = 7, bc_currentBlockHeight = 2,
      bc_accepted = [(5, ''h''), (6, ''h'')]\<rparr>"
  have e: "ce_address (sample_env c) = Inr ''adr''" "ce_rpc (sample_env c) = None" "ce_build (sample_env c) ms n s = Inr (unat s)"
      "ce_sign (sample_env c) = Inr" "ce_encode (sample_env c) k = Inr [of_nat k]" "ce_json (sample_env c) k = Inr []"
      "ce_broadcast (sample_env c) tx = Inr \<lparr>cm_code = c, cm_hash = ''h'', cm_log = []\<rparr>" for c ms n s k tx
    by (simp_all add: sample_env_def)
  have r: "broadcasts sample_http [(sample_env 0, [[1]]), (sample_env 5, [[2]]), (sample_env 6, [[3]])] (newBridgeClient sample_cfg) =
      Ret ([Inr ''h'', Inl (ErrText ''fail to broadcast to bridge network''), Inr ''h''], ?b)"
    by (simp add: broadcastTx_def newBridgeClient_def sample_cfg_fields sample_env_height refresh_account_def e
        getAccountNumberAndSequenceNumber_def sample_account build_tx_def settle_def Let_def)
  from broadcast_sequences [OF r] show ?thesis
    using r sample_calm by (auto simp: sample_cfg_fields)
qed

end
