(* ===== verification/Net_Signer.thy ===== *)
theory Net_Signer
  imports Net_Keysign Bridge_Client
begin

text \<open>
  \<open>network/keygen.go\<close> and \<open>network/signer.go\<close>: the node's reaction to a keygen block and to the
  registration of a pool.  \<open>GenerateNewKey\<close> calls \<open>Keygen\<close> of package \<open>tss\<close>; \<open>processKeygen\<close> turns its
  result into a transaction of the bridge chain.  A panic of these functions stops the node.
\<close>

section \<open>GenerateNewKey\<close>

text \<open>The text of an error, as far as the model keeps it.\<close>

fun err_text :: "goerr \<Rightarrow> string" where
  "err_text (ErrText s) = s"
| "err_text (ErrWrap s e) = s @ '': '' @ err_text e"
| "err_text (ErrExt s) = s"
| "err_text e = ''error''"

text \<open>The nodes of the copy are nil pointers, so the first assignment panics.\<close>

definition copy_blame :: "blame_info \<Rightarrow> blame_info outcome" where
  "copy_blame b =
     (if bl_nodes b = [] then Ret \<lparr>bl_reason = bl_reason b, bl_unicast = bl_unicast b, bl_nodes = []\<rparr>
      else Panic ''nil pointer dereference'')"

definition no_blame :: blame_info where
  "no_blame = \<lparr>bl_reason = [], bl_unicast = False, bl_nodes = []\<rparr>"

text \<open>What follows the keygen; \<open>newPubKey\<close> is \<open>NewPubKey\<close> of the bridge chain.  Both keys of the key set
  are the same.\<close>

definition keygen_result ::
  "(string \<Rightarrow> string res) \<Rightarrow> keygen_response \<times> goerr option
     \<Rightarrow> ((string \<times> string) \<times> blame_info \<times> goerr option) outcome" where
  "keygen_result newPubKey = (\<lambda>(resp, err).
     out_bind (copy_blame (kgr_blame resp)) (\<lambda>blame.
       Ret (case err of
           Some e \<Rightarrow>
             (([], []), (if bl_reason blame = [] then blame\<lparr>bl_reason := err_text e\<rparr> else blame),
              Some (ErrWrap ''fail to keygen'' e))
         | None \<Rightarrow>
            (case newPubKey (kgr_pubKey resp) of
               Inl e \<Rightarrow> (([], []), blame, Some (ErrWrap ''fail to create common.PubKey'' e))
             | Inr cpk \<Rightarrow> ((cpk, cpk), blame, None)))))"

text \<open>One call: whether the timer of thirty minutes fires first, and the events of the ceremony.\<close>

record keygen_call =
  kc_timer :: bool
  kc_fresh :: nat
  kc_join :: "wait_event list"
  kc_events :: "keygen_event list"
  kc_finish :: "finish_event list"

definition net_generateNewKey ::
  "'e tss_ext_scheme \<Rightarrow> (string \<Rightarrow> string res) \<Rightarrow> network \<Rightarrow> keygen_call \<Rightarrow> int \<Rightarrow> string list \<Rightarrow> tss_server
     \<Rightarrow> (((string \<times> string) \<times> blame_info \<times> goerr option) \<times> tss_server) outcome" where
  "net_generateNewKey x newPubKey net run keygenBlockHeight pKeys t =
     (if length pKeys = 0 then Ret ((([], []), no_blame, None), t)
      else
        (let keyGenReq = \<lparr>kgq_keys = pKeys, kgq_height = keygenBlockHeight, kgq_version = ''0.14.0''\<rparr> in
         case (if kc_timer run then None
               else keygen x net (kc_fresh run) keyGenReq (kc_join run) (kc_events run) (kc_finish run) t) of
           None \<Rightarrow> Panic ''tss keygen timeout''
         | Some (Panic m) \<Rightarrow> Panic m
         | Some (Ret (answer, t1)) \<Rightarrow> out_bind (keygen_result newPubKey answer) (\<lambda>r. Ret (r, t1))))"

section \<open>The signer\<close>

record bridge_ext =
  x_newPubKey :: "string \<Rightarrow> string res"
  x_json_members :: "string \<Rightarrow> string list \<Rightarrow> bytes res"
  x_newRegister :: "string \<Rightarrow> string \<Rightarrow> string \<Rightarrow> bridge_msg res"
  x_newPool :: "string \<Rightarrow> string list \<Rightarrow> string \<Rightarrow> int \<Rightarrow> int \<Rightarrow> blame_info \<Rightarrow> string list \<Rightarrow> int \<Rightarrow> bridge_msg res"

record signer =
  sg_client :: bridge_client
  sg_server :: tss_server
  sg_requeued :: "register_keygen list" \<comment> \<open>written back to the registration channel\<close>
  sg_pools :: "(int \<times> string) list" \<comment> \<open>the pool keys that the bridge chain accepted, with the block heights\<close>
  sg_registered :: "(bytes \<times> bytes) list" \<comment> \<open>the registrations it accepted, with their signatures\<close>

text \<open>What happens around one pass: the environment of the broadcast and the answer of the signing queue.\<close>

record signer_env =
  sx_chain :: chain_env
  sx_ref :: nat
  sx_answer :: "sign_task \<Rightarrow> sign_result option"
  sx_time :: int \<comment> \<open>\<open>keygenTime\<close>\<close>

definition sendRegisterKeygenToBridgeNetwork ::
  "bridge_ext \<Rightarrow> 'e http_ext_scheme \<Rightarrow> chain_env \<Rightarrow> bytes \<Rightarrow> bytes \<Rightarrow> bridge_client \<Rightarrow> (goerr option \<times> bridge_client) outcome" where
  "sendRegisterKeygenToBridgeNetwork sx hx env msg sig b =
     (case ce_address env of
        Inl e \<Rightarrow> Ret (Some e, b)
      | Inr selfAddress \<Rightarrow>
         sendRegisterKeygenTx hx env (x_newRegister sx selfAddress (b64_encode msg) (b64_encode sig)) b)"

definition sendKeygenToBridgeNetwork ::
  "bridge_ext \<Rightarrow> 'e http_ext_scheme \<Rightarrow> chain_env \<Rightarrow> int \<Rightarrow> string \<Rightarrow> blame_info \<Rightarrow> string list \<Rightarrow> int \<Rightarrow> int \<Rightarrow> bridge_client
     \<Rightarrow> (goerr option \<times> bridge_client) outcome" where
  "sendKeygenToBridgeNetwork sx hx env height poolPk blame input keygenType keygenTime b =
     (case ce_address env of
        Inl e \<Rightarrow> Ret (Some e, b)
      | Inr selfAddress \<Rightarrow>
         sendKeygenTx hx env
           (x_newPool sx selfAddress input poolPk keygenType height blame [''bridge-network''] keygenTime) b)"

definition processRegister ::
  "bridge_ext \<Rightarrow> 'e http_ext_scheme \<Rightarrow> signer_env \<Rightarrow> register_keygen \<Rightarrow> signer \<Rightarrow> signer outcome" where
  "processRegister sx hx env registerKeygen s =
     (case x_json_members sx (rk_pool registerKeygen) (rk_members registerKeygen) of
        Inl e \<Rightarrow> Panic (err_text e)
      | Inr data \<Rightarrow>
         out_bind (remoteSign (sx_ref env) data (rk_pool registerKeygen) (rk_height registerKeygen) (sx_answer env)) (\<lambda>r.
           case r of
             Inl e \<Rightarrow> Ret (s\<lparr>sg_requeued := sg_requeued s @ [registerKeygen]\<rparr>)
           | Inr (sig, recovery) \<Rightarrow>
              (case ce_address (sx_chain env) of
                 Inl e \<Rightarrow> Panic (err_text e)
               | Inr selfAddress \<Rightarrow>
                  (if selfAddress \<noteq> cf_RelayerAddress (bc_cfg (sg_client s)) then Ret s
                   else
                     out_bind (sendRegisterKeygenToBridgeNetwork sx hx (sx_chain env) data sig (sg_client s)) (\<lambda>(err, b).
                       case err of
                         Some e \<Rightarrow> Panic (err_text e)
                       | None \<Rightarrow> Ret (s\<lparr>sg_client := b, sg_registered := sg_registered s @ [(data, sig)]\<rparr>))))))"

text \<open>One keygen request of a block, with the state it reaches: \<open>Some\<close> text when the node panicked there,
  \<open>None\<close> when the loop goes on.  Of a panic inside a call only the state before that call is kept.\<close>

definition processKeygenStep ::
  "bridge_ext \<Rightarrow> 'e http_ext_scheme \<Rightarrow> 'f tss_ext_scheme \<Rightarrow> network \<Rightarrow> signer_env \<Rightarrow> keygen_call \<Rightarrow> int \<Rightarrow> keygen_value
     \<Rightarrow> signer \<Rightarrow> string option \<times> signer" where
  "processKeygenStep sx hx x net env run height keygenReq s =
     (case net_generateNewKey x (x_newPubKey sx) net run height (kv_members keygenReq) (sg_server s) of
        Panic m \<Rightarrow> (Some m, s)
      | Ret ((pubKey, blame, err), t1) \<Rightarrow>
         (let s1 = s\<lparr>sg_server := t1\<rparr> in
          if bl_reason blame \<noteq> [] then (Some (bl_reason blame), s1)
          else
           (case err of
              Some e \<Rightarrow> (Some (err_text e), s1)
            | None \<Rightarrow>
               (case ce_address (sx_chain env) of
                  Inl e \<Rightarrow> (Some (err_text e), s1)
                | Inr selfAddress \<Rightarrow>
                   (if selfAddress \<noteq> cf_RelayerAddress (bc_cfg (sg_client s1)) then (None, s1)
                    else
                      (case sendKeygenToBridgeNetwork sx hx (sx_chain env) height (fst pubKey) blame
                          (kv_members keygenReq) (kv_type keygenReq) (sx_time env) (sg_client s1) of
                         Panic m \<Rightarrow> (Some m, s1)
                       | Ret (Some e, b) \<Rightarrow> (Some (err_text e), s1\<lparr>sg_client := b\<rparr>)
                       | Ret (None, b) \<Rightarrow>
                           (None, s1\<lparr>sg_client := b, sg_pools := sg_pools s1 @ [(height, fst pubKey)]\<rparr>)))))))"

text \<open>The same as an outcome: after a panic nothing is left to run.\<close>

definition processKeygenReq ::
  "bridge_ext \<Rightarrow> 'e http_ext_scheme \<Rightarrow> 'f tss_ext_scheme \<Rightarrow> network \<Rightarrow> signer_env \<Rightarrow> keygen_call \<Rightarrow> int \<Rightarrow> keygen_value
     \<Rightarrow> signer \<Rightarrow> signer outcome" where
  "processKeygenReq sx hx x net env run height keygenReq s =
     (case processKeygenStep sx hx x net env run height keygenReq s of
        (Some m, s') \<Rightarrow> Panic m
      | (None, s') \<Rightarrow> Ret s')"

text \<open>A keygen block with what happens around each of its requests.\<close>

fun processKeygenBlock ::
  "bridge_ext \<Rightarrow> 'e http_ext_scheme \<Rightarrow> 'f tss_ext_scheme \<Rightarrow> network \<Rightarrow> int
     \<Rightarrow> (signer_env \<times> keygen_call \<times> keygen_value) list \<Rightarrow> signer \<Rightarrow> signer outcome" where
  "processKeygenBlock sx hx x net height [] s = Ret s"
| "processKeygenBlock sx hx x net height ((env, run, req) # reqs) s =
     out_bind (processKeygenReq sx hx x net env run height req s) (processKeygenBlock sx hx x net height reqs)"

datatype signer_event =
    GotRegister signer_env register_keygen
  | GotKeygen int "(signer_env \<times> keygen_call \<times> keygen_value) list"
  | SignerStop

fun processKeygen ::
  "bridge_ext \<Rightarrow> 'e http_ext_scheme \<Rightarrow> 'f tss_ext_scheme \<Rightarrow> network \<Rightarrow> signer_event list \<Rightarrow> signer \<Rightarrow> (bool \<times> signer) outcome" where
  "processKeygen sx hx x net [] s = Ret (False, s)"
| "processKeygen sx hx x net (SignerStop # es) s = Ret (True, s)"
| "processKeygen sx hx x net (GotRegister env r # es) s =
     out_bind (processRegister sx hx env r s) (processKeygen sx hx x net es)"
| "processKeygen sx hx x net (GotKeygen height reqs # es) s =
     out_bind (processKeygenBlock sx hx x net height reqs s) (processKeygen sx hx x net es)"

section \<open>What reaches the chain\<close>

text \<open>The request as a sequence of calls, of which the first panic is the outcome.\<close>

lemma processKeygenReq_calls:
  "processKeygenReq sx hx x net env run height keygenReq s =
     out_bind (net_generateNewKey x (x_newPubKey sx) net run height (kv_members keygenReq) (sg_server s))
       (\<lambda>((pubKey, blame, err), t1).
         if bl_reason blame \<noteq> [] then Panic (bl_reason blame)
         else
           (case err of
              Some e \<Rightarrow> Panic (err_text e)
            | None \<Rightarrow>
               (case ce_address (sx_chain env) of
                  Inl e \<Rightarrow> Panic (err_text e)
                | Inr selfAddress \<Rightarrow>
                   (if selfAddress \<noteq> cf_RelayerAddress (bc_cfg (sg_client s)) then Ret (s\<lparr>sg_server := t1\<rparr>)
                    else
                      out_bind (sendKeygenToBridgeNetwork sx hx (sx_chain env) height (fst pubKey) blame
                          (kv_members keygenReq) (kv_type keygenReq) (sx_time env) (sg_client s)) (\<lambda>(e, b).
                        case e of
                          Some e \<Rightarrow> Panic (err_text e)
                        | None \<Rightarrow>
                            Ret (s\<lparr>sg_server := t1, sg_client := b, sg_pools := sg_pools s @ [(height, fst pubKey)]\<rparr>))))))"
  by (simp add: processKeygenReq_def processKeygenStep_def Let_def split: outcome.split option.split sum.split)

lemma failed_response_no_key:
  assumes "keygen x net fresh req jes es fin t = Some (Ret ((resp, err), t'))" "kgr_pubKey resp \<noteq> []"
  shows "kgr_status resp = Success"
  using assms
  by (auto simp: keygen_def keygenRun_def Let_def out_bind_Ret_iff failed_keygen_def newKeygenResponse_def
      keygenAnswer_def split: prod.splits option.splits outcome.splits sum.splits)

lemma net_generateNewKey_Ret:
  assumes "net_generateNewKey x np net run h pks t = Ret ((ks, blame, err), t')" "pks \<noteq> []"
  obtains resp e where "keygen x net (kc_fresh run) \<lparr>kgq_keys = pks, kgq_height = h, kgq_version = ''0.14.0''\<rparr>
      (kc_join run) (kc_events run) (kc_finish run) t = Some (Ret ((resp, e), t'))"
    "keygen_result np (resp, e) = Ret (ks, blame, err)"
proof -
  let ?k = "if kc_timer run then None else keygen x net (kc_fresh run) \<lparr>kgq_keys = pks, kgq_height = h, kgq_version = ''0.14.0''\<rparr>
      (kc_join run) (kc_events run) (kc_finish run) t"
  have n: "net_generateNewKey x np net run h pks t = (case ?k of None \<Rightarrow> Panic ''tss keygen timeout''
      | Some (Panic m) \<Rightarrow> Panic m | Some (Ret (answer, t1)) \<Rightarrow> out_bind (keygen_result np answer) (\<lambda>r. Ret (r, t1)))"
    using assms(2) by (simp add: net_generateNewKey_def Let_def)
  then obtain o1 where o1: "?k = Some o1" using assms(1) by (cases ?k) auto
  then obtain resp e t1 where k: "o1 = Ret ((resp, e), t1)" using assms(1) n by (cases o1) auto
  moreover have "keygen_result np (resp, e) = Ret (ks, blame, err)" "t1 = t'"
    using assms(1) n o1 k by (auto simp: out_bind_Ret_iff)
  ultimately show ?thesis using o1 that by (auto split: if_splits)
qed

lemma keygen_result_key:
  assumes "keygen_result np (resp, e) = Ret (ks, blame, None)" "\<And>s q. np s = Inr q \<Longrightarrow> q = s"
  shows "fst ks = kgr_pubKey resp \<and> bl_nodes (kgr_blame resp) = [] \<and> e = None"
proof -
  have b: "bl_nodes (kgr_blame resp) = []" and e: "e = None"
    using assms(1) by (auto simp: keygen_result_def copy_blame_def split: if_splits option.splits)
  show ?thesis
    using assms b e by (cases "np (kgr_pubKey resp)") (auto simp: keygen_result_def copy_blame_def)
qed

text \<open>C25. A pool key that this node reports to the bridge chain is one whose share it holds.  When
  the signer has processed a keygen request with members without stopping, at most one transaction
  was accepted for it; the key in it, unless it is empty, is a key the local tss-lib party ended with,
  and \<open>GetLocalState\<close> under that key returns the party's data, the sorted committee and the local
  key.  This needs that \<open>NewPubKey\<close> of the bridge chain returns the string it parsed, that the reads
  of the store do not fail (\<open>calm\<close>), that the JSON encoding of a local state can be decoded again,
  that base58 pool keys contain no path separator (\<open>slash_free\<close>) and that bech32 keys are not
  empty.\<close>

theorem signer_reports_saved_key:
  assumes "processKeygenReq sx hx x net env run height req s = Ret s'" "kv_members req \<noteq> []"
    and "\<And>k q. x_newPubKey sx k = Inr q \<Longrightarrow> q = k"
    and "calm (sv_fs (sg_server s))" "slash_free x"
    and "\<And>st b. x_marshal_state x st = Inr b \<Longrightarrow> x_unmarshal_state x b = Inr st"
    and "\<And>k. x_marshal_acc_pk x k \<noteq> Inr []"
  shows "sg_pools s' = sg_pools s \<or> (\<exists>pk. sg_pools s' = sg_pools s @ [(height, pk)] \<and> (pk \<noteq> [] \<longrightarrow>
    (\<exists>msg\<in>end_data (kc_events run). getLocalState x (sv_folder (sg_server s)) pk (sv_fs (sg_server s')) =
      Inr \<lparr>ls_pubKey = pk, ls_localData = sd_ref msg, ls_participants = sort (kv_members req),
           ls_localParty = sv_localNodePubKey (sg_server s)\<rparr>)))"
proof -
  obtain ks blame err t1 where g: "net_generateNewKey x (x_newPubKey sx) net run height (kv_members req) (sg_server s) =
      Ret ((ks, blame, err), t1)"
    using assms(1) by (auto simp: processKeygenReq_calls out_bind_Ret_iff)
  have err: "err = None" using assms(1) g by (cases err) (auto simp: processKeygenReq_calls split: if_splits)
  have s': "sg_server s' = t1 \<and> (sg_pools s' = sg_pools s \<or> sg_pools s' = sg_pools s @ [(height, fst ks)])"
    using assms(1) g err by (auto simp: processKeygenReq_calls out_bind_Ret_iff split: if_splits sum.splits option.splits)
  obtain resp e where k: "keygen x net (kc_fresh run) \<lparr>kgq_keys = kv_members req, kgq_height = height, kgq_version = ''0.14.0''\<rparr>
      (kc_join run) (kc_events run) (kc_finish run) (sg_server s) = Some (Ret ((resp, e), t1))"
    "keygen_result (x_newPubKey sx) (resp, e) = Ret (ks, blame, err)"
    by (rule net_generateNewKey_Ret [OF g assms(2)])
  have key: "fst ks = kgr_pubKey resp" using keygen_result_key [OF k(2) [unfolded err] assms(3)] by blast
  have "\<exists>msg\<in>end_data (kc_events run). getLocalState x (sv_folder (sg_server s)) (fst ks) (sv_fs t1) =
      Inr \<lparr>ls_pubKey = fst ks, ls_localData = sd_ref msg, ls_participants = sort (kv_members req),
           ls_localParty = sv_localNodePubKey (sg_server s)\<rparr>" if "fst ks \<noteq> []"
  proof -
    have "kgr_status resp = Success" by (rule failed_response_no_key [OF k(1)]) (use that key in simp)
    from keygen_saves [OF k(1) this assms(4-7)] show ?thesis by (auto simp: key)
  qed
  with s' show ?thesis by blast
qed

text \<open>C39. A keygen that fails stops the node and reports nobody.  Whenever \<open>Keygen\<close> returns, before the
  timer, with an error, a reason or accused nodes, the signer panics while it processes the request,
  and in the state it has reached the bridge client, its sequence number and the transactions the
  chain accepted are those from before: no report was broadcast, whatever the chain would have
  answered.  With accused nodes it is the copy of the blame itself that dereferences nil.\<close>

theorem signer_blame_stops_node:
  assumes "keygen x net (kc_fresh run) \<lparr>kgq_keys = kv_members req, kgq_height = height, kgq_version = ''0.14.0''\<rparr>
      (kc_join run) (kc_events run) (kc_finish run) (sg_server s) = Some (Ret ((resp, err), t'))"
    and "bl_nodes (kgr_blame resp) \<noteq> [] \<or> bl_reason (kgr_blame resp) \<noteq> [] \<or> err \<noteq> None"
    and "kv_members req \<noteq> []" "\<not> kc_timer run"
  shows "\<exists>m s'. processKeygenStep sx hx x net env run height req s = (Some m, s') \<and>
    sg_client s' = sg_client s \<and> sg_pools s' = sg_pools s \<and> sg_registered s' = sg_registered s \<and>
    sg_requeued s' = sg_requeued s \<and>
    processKeygenReq sx hx x net env run height req s = Panic m \<and>
    (bl_nodes (kgr_blame resp) \<noteq> [] \<longrightarrow> m = ''nil pointer dereference'')"
proof -
  have n: "net_generateNewKey x (x_newPubKey sx) net run height (kv_members req) (sg_server s) =
      out_bind (keygen_result (x_newPubKey sx) (resp, err)) (\<lambda>r. Ret (r, t'))"
    using assms(1,3,4) by (simp add: net_generateNewKey_def)
  show ?thesis
  proof (cases "bl_nodes (kgr_blame resp) = []")
    case True
    obtain ks b e where r: "keygen_result (x_newPubKey sx) (resp, err) = Ret (ks, b, e)" "bl_reason b \<noteq> [] \<or> e \<noteq> None"
    proof (cases err)
      case None
      then show ?thesis
        using that True assms(2) by (cases "x_newPubKey sx (kgr_pubKey resp)") (auto simp: keygen_result_def copy_blame_def)
    next
      case (Some e)
      then show ?thesis using that True by (auto simp: keygen_result_def copy_blame_def)
    qed
    then show ?thesis using True n by (cases e) (auto simp: processKeygenReq_def processKeygenStep_def Let_def)
  next
    case False
    then show ?thesis using n by (simp add: processKeygenReq_def processKeygenStep_def keygen_result_def copy_blame_def)
  qed
qed

text \<open>The signature of a registration: when the node was not chosen for the committee it is empty.\<close>

lemma copy_left_length: "copy_left buf e b = Ret buf' \<Longrightarrow> e \<le> length buf \<Longrightarrow> length buf' = length buf"
  by (auto simp: copy_left_def split: if_splits)

lemma getSignature_length:
  assumes "getSignature r s = Ret (Inr d)"
  shows "length d = 64"
proof -
  obtain rb sb where b: "b64_decode r = Some rb" "b64_decode s = Some sb"
    using assms by (auto simp: getSignature_def split: option.splits)
  obtain buf where c: "copy_left (replicate 64 0) 32 (nat_be (be_nat rb)) = Ret buf"
      "copy_left buf 64 (nat_be (nat \<bar>lowS (int (be_nat sb))\<bar>)) = Ret d"
    using assms b by (auto simp: getSignature_def out_bind_Ret_iff)
  have "length buf = 64" using copy_left_length [OF c(1)] by simp
  then show ?thesis using copy_left_length [OF c(2)] by simp
qed

lemma sign_answer_length:
  assumes "sign_answer a = Ret (Inr (d, rid))"
  shows "d = [] \<or> length d = 64"
proof -
  obtain resp where r: "a = Some resp" "rs_err resp = None"
    using assms by (auto simp: sign_answer_def split: option.splits)
  show ?thesis
  proof (cases "rs_r resp = [] \<and> rs_s resp = []")
    case False
    then obtain g where g: "getSignature (rs_r resp) (rs_s resp) = Ret g"
      using assms r by (auto simp: sign_answer_def out_bind_Ret_iff)
    with False assms r show ?thesis
      by (cases g) (auto simp: sign_answer_def getSignature_length split: option.splits)
  qed (use assms r in \<open>simp add: sign_answer_def\<close>)
qed

lemma registered_signature:
  assumes "processRegister sx hx env r s = Ret s'"
  shows "sg_registered s' = sg_registered s \<or> (\<exists>data sig. sg_registered s' = sg_registered s @ [(data, sig)] \<and>
    x_json_members sx (rk_pool r) (rk_members r) = Inr data \<and> (sig = [] \<or> length sig = 64))"
proof -
  obtain data where d: "x_json_members sx (rk_pool r) (rk_members r) = Inr data"
    using assms by (auto simp: processRegister_def split: sum.splits)
  obtain a where a: "remoteSign (sx_ref env) data (rk_pool r) (rk_height r) (sx_answer env) = Ret a"
    using assms d by (auto simp: processRegister_def out_bind_Ret_iff)
  show ?thesis
  proof (cases a)
    case (Inl e)
    then show ?thesis using assms d a by (auto simp: processRegister_def)
  next
    case (Inr b)
    obtain sig rid where b: "b = (sig, rid)" by fastforce
    have "sig = [] \<or> length sig = 64"
      using a Inr b by (auto simp: remoteSign_def sign_answer_length split: option.splits)
    then show ?thesis
      using assms d a Inr b
      by (auto simp: processRegister_def out_bind_Ret_iff split: if_splits sum.splits option.splits)
  qed
qed

section \<open>The properties on concrete inputs\<close>

definition sample_bridge :: bridge_ext where
  "sample_bridge = \<lparr>x_newPubKey = Inr, x_json_members = (\<lambda>p ms. Inr (str_bytes p)), x_newRegister = (\<lambda>a m s. Inr []),
     x_newPool = (\<lambda>a i p ty h b ch ti. Inr [1])\<rparr>"

definition sample_sign_env :: signer_env where
  "sample_sign_env = \<lparr>sx_chain = sample_env 0, sx_ref = 0, sx_answer = (\<lambda>t. None), sx_time = 0\<rparr>"

definition sample_node_signer :: signer where
  "sample_node_signer = \<lparr>sg_client = newBridgeClient sample_cfg, sg_server = sample_server, sg_requeued = [],
     sg_pools = [], sg_registered = []\<rparr>"

definition sample_keygen_value :: keygen_value where
  "sample_keygen_value = \<lparr>kv_id = ''k'', kv_type = 0, kv_members = [''c'', ''a'', ''b'']\<rparr>"

text \<open>A ceremony in which \<open>b\<close> and \<open>c\<close> join the leader \<open>a\<close> and the local party ends with a key.\<close>

definition sample_keygen_call :: keygen_call where
  "sample_keygen_call = \<lparr>kc_timer = False, kc_fresh = 0,
     kc_join = [WStream (sample_stream ''b'' [1]), WStream (sample_stream ''c'' [1]), WNotify],
     kc_events = [KgEnd sample_save []], kc_finish = sample_fin\<rparr>"

lemma sample_msgid_any:
  "keygenMsgId sample_tss \<lparr>kgq_keys = [''c'', ''a'', ''b''], kgq_height = h, kgq_version = v\<rparr> =
     (Inr ''616263'', \<lparr>kgq_keys = [''a'', ''b'', ''c''], kgq_height = h, kgq_version = v\<rparr>)"
  using sample_msgid
  by (simp add: keygenMsgId_def sample_req_def newKeygenRequest_def sample_kgreq_def)

lemma sample_leader_join:
  "\<exists>pc onl. joinParty sample_tss no_network ''616263'' ''0.14.0'' 10 [''a'', ''b'', ''c''] 2
     [WStream (sample_stream ''b'' [1]), WStream (sample_stream ''c'' [1]), WNotify] (newPartyCoordinator ''a'' 0 True) =
     Some ((onl, ''a'', None), pc)"
proof -
  have c: "itoa 10 = ''10''" "hex_char (Suc 0) = CHR ''1''" "hex_char 2 = CHR ''2''" "hex_char 3 = CHR ''3''"
    by code_simp+
  have "CHR ''1'' < CHR ''2''" "CHR ''1'' < CHR ''3''" "CHR ''2'' < CHR ''3''" by code_simp+
  then have l: "leaderNode sample_tss ''616263'' 10 [''a'', ''b'', ''c''] = Inr ''a''"
    by (simp add: leaderNode_def leader_hash_def sample_tss_defs str_bytes_def mput_def c)
  obtain onl pc where "joinPartyLeader sample_tss no_network ''616263'' [''a'', ''b'', ''c''] 2
      [WStream (sample_stream ''b'' [1]), WStream (sample_stream ''c'' [1]), WNotify]
      (newPartyCoordinator ''a'' 0 True) = Some ((onl, None), pc)"
    by (simp add: joinPartyLeader_def createJoinPartyGroups_def newPartyCoordinator_def sample_tss_defs
        newPeerStatus_def handleStreamWithLeader_def sample_stream_read MaxPayload_def processReqMsg_def
        updatePeer_def NONE_def take_notify_def getPeersStatus_def mput_def sendResponseToAll_def Let_def)
  moreover have "getPeerIDsFromPubKeys sample_tss [''a'', ''b'', ''c''] = Inr [''a'', ''b'', ''c'']" "x_peer_string sample_tss = (\<lambda>p. p)"
    by (simp_all add: sample_tss_defs getPeerIDFromPubKey_def)
  moreover have "versionLTCheck sample_tss ''0.14.0'' NEWJOINPARTYVERSION = Inr False"
    by (simp add: versionLTCheck_def NEWJOINPARTYVERSION_def sample_tss_defs)
  ultimately show ?thesis
    by (simp add: joinParty_def l joinPartyWithLeader_def newPartyCoordinator_def del: getPeerIDsFromPubKeys.simps)
qed

lemma generateNewKey_version: "generateNewKey x f (r\<lparr>kgq_version := v\<rparr>) es fin s = generateNewKey x f r es fin s"
proof -
  have k: "kgq_keys (r\<lparr>kgq_version := v\<rparr>) = kgq_keys r" by simp
  show ?thesis unfolding generateNewKey_def k by (rule refl)
qed

lemma sample_leader_keygen:
  "\<exists>resp t'. keygen sample_tss no_network 0 \<lparr>kgq_keys = [''c'', ''a'', ''b''], kgq_height = 10, kgq_version = ''0.14.0''\<rparr>
      (kc_join sample_keygen_call) (kc_events sample_keygen_call) (kc_finish sample_keygen_call) sample_server =
      Some (Ret ((resp, None), t')) \<and> kgr_pubKey resp = ''pool'' \<and> kgr_blame resp = no_blame"
proof -
  let ?req = "\<lparr>kgq_keys = [''a'', ''b'', ''c''], kgq_height = 10, kgq_version = ''0.14.0''\<rparr>"
  obtain r where x: "sample_tss = sample_keygen r" by (simp add: sample_tss_def)
  obtain t where t: "newTssCommon ''a'' True ''616263'' [97] 1 = Ret t" by (simp add: newTssCommon_def)
  have me: "getLocalPeerID sample_tss sample_server = ''a''"
    by (simp add: getLocalPeerID_def sample_server_def sample_net_comm_def sample_tss_defs)
  obtain pc onl where j: "joinParty sample_tss no_network ''616263'' ''0.14.0'' 10 [''a'', ''b'', ''c''] 2
     (kc_join sample_keygen_call) (newPartyCoordinator ''a'' 0 True) = Some ((onl, ''a'', None), pc)"
    using sample_leader_join by (auto simp: sample_keygen_call_def)
  have q: "?req = sample_kgreq\<lparr>kgq_version := ''0.14.0''\<rparr>" by (simp add: sample_kgreq_def newKeygenRequest_def)
  have "m_blame (t_blameMgr t) = newBlame [] []" using t by (auto simp: newTssCommon_def newBlameManager_def)
  then obtain tk' fs' where g: "generateNewKey sample_tss 0 ?req [KgEnd sample_save []] sample_fin (sample_tk t, sample_fs)
       = Some (Ret ((Some (1, 10), None), tk', fs'))" and b: "m_blame (t_blameMgr (tk_common tk')) = no_blame"
    unfolding x q generateNewKey_version using sample_keygen_run [OF t, of r] by (auto simp: no_blame_def newBlame_def)
  obtain a where a: "getTssPubKey sample_tss (Some (1, 10)) = Inr (''pool'', a)"
    unfolding x using sample_pub [of r] by blast
  show ?thesis
    using t j g a me b
    by (simp add: keygen_def sample_msgid_any newTssKeyGen_def sample_server_def sample_keygen_call_def
        with_metrics_def keygenRun_def sample_tk_def keygenAnswer_def newKeygenResponse_def Let_def)
qed

lemma sample_processKeygenReq:
  "\<exists>s'. processKeygenReq sample_bridge sample_http sample_tss no_network sample_sign_env sample_keygen_call 10
       sample_keygen_value sample_node_signer = Ret s' \<and> sg_pools s' = [(10, ''pool'')]"
proof -
  obtain resp t' where k: "keygen sample_tss no_network 0 \<lparr>kgq_keys = [''c'', ''a'', ''b''], kgq_height = 10, kgq_version = ''0.14.0''\<rparr>
      (kc_join sample_keygen_call) (kc_events sample_keygen_call) (kc_finish sample_keygen_call) sample_server =
      Some (Ret ((resp, None), t'))" "kgr_pubKey resp = ''pool''" "kgr_blame resp = no_blame"
    using sample_leader_keygen by blast
  have g: "net_generateNewKey sample_tss Inr no_network sample_keygen_call 10 [''c'', ''a'', ''b''] sample_server =
      Ret (((''pool'', ''pool''), no_blame, None), t')"
    using k by (simp add: net_generateNewKey_def sample_keygen_call_def)
      (simp add: keygen_result_def copy_blame_def no_blame_def)
  have e: "ce_address (sample_env c) = Inr ''adr''" "ce_rpc (sample_env c) = None" "ce_build (sample_env c) ms n q = Inr (unat q)"
      "ce_sign (sample_env c) = Inr" "ce_encode (sample_env c) i = Inr [of_nat i]" "ce_json (sample_env c) i = Inr []"
      "ce_broadcast (sample_env c) tx = Inr \<lparr>cm_code = c, cm_hash = ''h'', cm_log = []\<rparr>" for c ms n q i tx
    by (simp_all add: sample_env_def)
  have "cf_RelayerAddress sample_cfg = ''adr''" by (simp add: sample_cfg_def newBridgeClientConfig_def chain_client_config.extend_def newChainClientConfig_def)
  then show ?thesis
    using g by (simp add: processKeygenReq_calls sample_keygen_value_def sample_node_signer_def sample_bridge_def sample_sign_env_def
        no_blame_def e sendKeygenToBridgeNetwork_def sendKeygenTx_def sendTx_def broadcastTx_def newBridgeClient_def
        sample_cfg_fields sample_env_height refresh_account_def getAccountNumberAndSequenceNumber_def sample_account
        build_tx_def settle_def Let_def)
qed

theorem signer_reports_saved_key_witness:
  "\<exists>s'. processKeygenReq sample_bridge sample_http sample_tss no_network sample_sign_env sample_keygen_call 10
       sample_keygen_value sample_node_signer = Ret s' \<and>
     sg_pools s' = [(10, ''pool'')] \<and> getLocalState sample_tss ''/d'' ''pool'' (sv_fs (sg_server s')) = Inr (sample_state ''pool'')"
proof -
  obtain r where x: "sample_tss = sample_keygen r" by (simp add: sample_tss_def)
  note laws = sample_keygen_laws [of r, folded x]
  obtain s' where s': "processKeygenReq sample_bridge sample_http sample_tss no_network sample_sign_env sample_keygen_call 10
       sample_keygen_value sample_node_signer = Ret s'" "sg_pools s' = [(10, ''pool'')]"
    using sample_processKeygenReq by blast
  have "calm (sv_fs (sg_server sample_node_signer))" by (simp add: sample_node_signer_def sample_server_def calm_sample)
  from signer_reports_saved_key [OF s'(1) _ _ this laws(1,2,3)] obtain pk msg where
    "sg_pools s' = sg_pools sample_node_signer @ [(10, pk)]" "pk \<noteq> [] \<longrightarrow> msg \<in> end_data (kc_events sample_keygen_call) \<and>
      getLocalState sample_tss (sv_folder (sg_server sample_node_signer)) pk (sv_fs (sg_server s')) =
      Inr \<lparr>ls_pubKey = pk, ls_localData = sd_ref msg, ls_participants = sort (kv_members sample_keygen_value),
           ls_localParty = sv_localNodePubKey (sg_server sample_node_signer)\<rparr>"
    using s'(2) by (auto simp: sample_keygen_value_def sample_bridge_def sample_node_signer_def)
  with s' show ?thesis
    by (auto simp: sample_node_signer_def sample_server_def sample_keygen_call_def sample_keygen_value_def sample_state_def
        sample_save_def end_data_def)
qed

text \<open>The election refuses height 0, so the join fails and the leader, which is unknown, is accused.\<close>

theorem signer_blame_stops_node_witness:
  "\<exists>s'. processKeygenStep sample_bridge sample_http sample_tss no_network sample_sign_env sample_keygen_call 0
     sample_keygen_value sample_node_signer = (Some ''nil pointer dereference'', s') \<and>
     sg_client s' = newBridgeClient sample_cfg \<and> sg_pools s' = []"
proof -
  obtain t where t: "newTssCommon ''a'' True ''616263'' [97] 1 = Ret t" by (simp add: newTssCommon_def)
  have me: "getLocalPeerID sample_tss sample_server = ''a''"
    by (simp add: getLocalPeerID_def sample_server_def sample_net_comm_def sample_tss_defs)
  have j: "\<exists>e. joinParty sample_tss no_network ''616263'' ''0.14.0'' 0 [''a'', ''b'', ''c''] 2 es pc = Some (([], [], Some e), pc)" for es pc
    by (simp add: joinParty_def versionLTCheck_def NEWJOINPARTYVERSION_def sample_tss_defs joinPartyWithLeader_def
        leaderNode_def getPeerIDFromPubKey_def)
  have b: "bl_nodes (keygenJoinBlame sample_tss [''a'', ''b'', ''c''] [] []) \<noteq> []"
    by (simp add: keygenJoinBlame_def NONE_def leaderBlame_def sample_tss_defs getPubKeyFromPeerID_def newBlame_def)
  obtain t' where k: "keygen sample_tss no_network (kc_fresh sample_keygen_call)
      \<lparr>kgq_keys = kv_members sample_keygen_value, kgq_height = 0, kgq_version = ''0.14.0''\<rparr>
      (kc_join sample_keygen_call) (kc_events sample_keygen_call) (kc_finish sample_keygen_call) (sg_server sample_node_signer) =
      Some (Ret ((failed_keygen (keygenJoinBlame sample_tss [''a'', ''b'', ''c''] [] []), None), t'))"
    using t j [of "kc_join sample_keygen_call" "newPartyCoordinator ''a'' 0 True"] me
    by (auto simp: keygen_def sample_msgid_any newTssKeyGen_def sample_server_def sample_keygen_value_def sample_node_signer_def Let_def)
  have f: "kgr_blame (failed_keygen c) = c" for c by (simp add: failed_keygen_def newKeygenResponse_def)
  show ?thesis
    using signer_blame_stops_node [OF k, of sample_bridge sample_http sample_sign_env] b
    by (auto simp: f sample_keygen_value_def sample_keygen_call_def sample_node_signer_def)
qed

end
