(* ===== verification/Bridge_Scanner.thy ===== *)
theory Bridge_Scanner
  imports Net_Http
begin

text \<open>
  \<open>network/block_scanner.go\<close> and \<open>network/bridge_scanner.go\<close>: the loop that follows the bridge chain
  block by block and hands keygen blocks and the registration of a pool to the signer.  A pass of the
  loop is an event: one that only resets \<open>lastCheck\<close>, or a poll with what the HTTP client answers
  during it.  What is written to the two channels is logged; \<open>stopCh\<close> is never closed.
\<close>

section \<open>The scanner\<close>

datatype scan_output = SKeygen keygen_block | SRegister register_keygen

record scanner =
  sc_current :: int
  sc_registered :: bool
  sc_blockUrl :: string
  sc_stateUrl :: string
  sc_out :: "scan_output list"

definition newBridgeScanner :: "string \<Rightarrow> string \<Rightarrow> scanner" where
  "newBridgeScanner blockUrl stateUrl =
     \<lparr>sc_current = 0, sc_registered = False, sc_blockUrl = blockUrl, sc_stateUrl = stateUrl, sc_out = []\<rparr>"

definition scanner_height :: "'e http_ext_scheme \<Rightarrow> http_client \<Rightarrow> scanner \<Rightarrow> int res outcome" where
  "scanner_height x http s = getCurrentHeight x http (sc_blockUrl s)"

text \<open>The part of a pass after the keygen block: \<open>next\<close> is left behind unless the connection is refused.\<close>

definition scan_register :: "'e http_ext_scheme \<Rightarrow> http_client \<Rightarrow> int \<Rightarrow> scanner \<Rightarrow> scanner outcome" where
  "scan_register x http next s =
     (if sc_registered s then Ret (s\<lparr>sc_current := next\<rparr>)
      else
        out_bind (getRegisterKeygen x http (sc_stateUrl s)) (\<lambda>r.
          case r of
            Inr registerKeygen \<Rightarrow>
              Ret (s\<lparr>sc_registered := True, sc_out := sc_out s @ [SRegister registerKeygen], sc_current := next\<rparr>)
          | Inl e \<Rightarrow> Ret (if e = ErrConnectionRefused then s else s\<lparr>sc_current := next\<rparr>)))"

definition scan_poll :: "'e http_ext_scheme \<Rightarrow> http_client \<Rightarrow> scanner \<Rightarrow> scanner outcome" where
  "scan_poll x http s =
     (let nextBlock = sc_current s + 1 in
      out_bind (scanner_height x http s) (\<lambda>rh.
        case rh of
          Inl e \<Rightarrow> Ret s
        | Inr chainCurrentHeight \<Rightarrow>
           (if chainCurrentHeight < nextBlock then Ret s
            else
              out_bind (getKeygenBlock x http (sc_stateUrl s) nextBlock) (\<lambda>rk.
                case rk of
                  Inr keygenBlock \<Rightarrow>
                    scan_register x http nextBlock (s\<lparr>sc_out := sc_out s @ [SKeygen keygenBlock]\<rparr>)
                | Inl e \<Rightarrow> if e = ErrConnectionRefused then Ret s else scan_register x http nextBlock s))))"

datatype scan_event = ScTick | ScPoll http_client

fun scanKeygenBlock :: "'e http_ext_scheme \<Rightarrow> scan_event list \<Rightarrow> scanner \<Rightarrow> scanner outcome" where
  "scanKeygenBlock x [] s = Ret s"
| "scanKeygenBlock x (ScTick # es) s = scanKeygenBlock x es s"
| "scanKeygenBlock x (ScPoll http # es) s = out_bind (scan_poll x http s) (scanKeygenBlock x es)"

section \<open>Runs\<close>

text \<open>The answers of a node that knows the chain: the block, that there is none, or a refusal.\<close>

definition faithful :: "'e http_ext_scheme \<Rightarrow> string \<Rightarrow> (int \<Rightarrow> keygen_block option) \<Rightarrow> http_client \<Rightarrow> bool" where
  "faithful x url chain http \<longleftrightarrow>
     (\<forall>h. getKeygenBlock x http url h = Ret (Inl ErrConnectionRefused) \<or>
          getKeygenBlock x http url h = Ret (case chain h of None \<Rightarrow> Inl ErrNotFoundKeyGenBlock | Some b \<Rightarrow> Inr b))"

definition polls :: "scan_event list \<Rightarrow> http_client set" where
  "polls es = {http. ScPoll http \<in> set es}"

lemma polls_simps [simp]:
  "polls [] = {}" "polls (ScTick # es) = polls es" "polls (ScPoll http # es) = insert http (polls es)"
  by (auto simp: polls_def)

fun keygens_of :: "scan_output list \<Rightarrow> keygen_block list" where
  "keygens_of [] = []"
| "keygens_of (SKeygen b # out) = b # keygens_of out"
| "keygens_of (SRegister r # out) = keygens_of out"

fun registers_of :: "scan_output list \<Rightarrow> register_keygen list" where
  "registers_of [] = []"
| "registers_of (SKeygen b # out) = registers_of out"
| "registers_of (SRegister r # out) = r # registers_of out"

lemma outputs_append [simp]:
  "keygens_of (a @ b) = keygens_of a @ keygens_of b" "registers_of (a @ b) = registers_of a @ registers_of b"
  by (induction a rule: keygens_of.induct) auto

text \<open>\<open>refusing\<close> tells whether a registration query was refused during the run.\<close>

definition scan_ok ::
  "(int \<Rightarrow> keygen_block option) \<Rightarrow> bool \<Rightarrow> keygen_block list \<Rightarrow> int \<Rightarrow> int list \<Rightarrow> scanner \<Rightarrow> bool" where
  "scan_ok chain refusing old from hs s \<longleftrightarrow>
     sorted hs \<and> map Some (keygens_of (sc_out s)) = map Some old @ map chain hs \<and>
     {h \<in> {from<..sc_current s}. chain h \<noteq> None} \<subseteq> set hs \<and> set hs \<subseteq> {from<..sc_current s + 1} \<and>
     (\<not> refusing \<longrightarrow> distinct hs \<and> set hs \<subseteq> {from<..sc_current s}) \<and> from \<le> sc_current s"

definition one_register :: "scanner \<Rightarrow> bool" where
  "one_register s \<longleftrightarrow> length (registers_of (sc_out s)) = (if sc_registered s then 1 else 0)"

lemma scan_register_cases:
  assumes "scan_register x http next s = Ret s'"
  obtains (refused) "getRegisterKeygen x http (sc_stateUrl s) = Ret (Inl ErrConnectionRefused)" "s' = s"
  | (found) r where "\<not> sc_registered s" "s' = s\<lparr>sc_registered := True, sc_out := sc_out s @ [SRegister r], sc_current := next\<rparr>"
  | (next_one) "s' = s\<lparr>sc_current := next\<rparr>"
proof (cases "sc_registered s")
  case True
  then show ?thesis using assms next_one by (simp add: scan_register_def)
next
  case False
  then obtain r where r: "getRegisterKeygen x http (sc_stateUrl s) = Ret r"
    using assms by (auto simp: scan_register_def out_bind_Ret_iff)
  show ?thesis
    using assms False r refused found next_one by (cases r) (auto simp: scan_register_def split: if_splits)
qed

lemma scan_poll_cases:
  assumes "scan_poll x http s = Ret s'"
  obtains (wait) "s' = s"
  | (block) b where "getKeygenBlock x http (sc_stateUrl s) (sc_current s + 1) = Ret (Inr b)"
      "scan_register x http (sc_current s + 1) (s\<lparr>sc_out := sc_out s @ [SKeygen b]\<rparr>) = Ret s'"
  | (no_block) e where "getKeygenBlock x http (sc_stateUrl s) (sc_current s + 1) = Ret (Inl e)" "e \<noteq> ErrConnectionRefused"
      "scan_register x http (sc_current s + 1) s = Ret s'"
proof -
  obtain rh where rh: "scanner_height x http s = Ret rh"
    using assms by (auto simp: scan_poll_def Let_def out_bind_Ret_iff)
  show ?thesis
  proof (cases "\<exists>h. rh = Inr h \<and> sc_current s + 1 \<le> h")
    case True
    then obtain h where h: "rh = Inr h" "\<not> h < sc_current s + 1" by auto
    then obtain rk where rk: "getKeygenBlock x http (sc_stateUrl s) (sc_current s + 1) = Ret rk"
      using assms rh by (auto simp: scan_poll_def Let_def out_bind_Ret_iff)
    show ?thesis
      using assms rh h rk wait block no_block by (cases rk) (auto simp: scan_poll_def Let_def split: if_splits)
  next
    case False
    then show ?thesis using assms rh wait by (cases rh) (auto simp: scan_poll_def Let_def split: if_splits)
  qed
qed

lemma scan_register_one: "scan_register x http n s = Ret s' \<Longrightarrow> one_register s \<Longrightarrow> one_register s'"
  by (erule scan_register_cases) (auto simp: one_register_def)

lemma one_register_block: "one_register s \<Longrightarrow> one_register (s\<lparr>sc_out := sc_out s @ [SKeygen b]\<rparr>)"
  by (simp add: one_register_def)

lemma scan_poll_one: "scan_poll x http s = Ret s' \<Longrightarrow> one_register s \<Longrightarrow> one_register s'"
  by (erule scan_poll_cases) (blast intro: scan_register_one one_register_block)+

lemma scanKeygenBlock_one: "scanKeygenBlock x es s = Ret s' \<Longrightarrow> one_register s \<Longrightarrow> one_register s'"
  by (induction x es s rule: scanKeygenBlock.induct) (auto simp: out_bind_Ret_iff dest: scan_poll_one)

lemma scan_ok_more:
  assumes "scan_ok chain r old from hs s" "map Some (keygens_of bs) = map chain ks"
    and "ks = [] \<and> chain (sc_current s + 1) = None \<or> ks = [sc_current s + 1]"
    and "c = sc_current s + 1 \<or> c = sc_current s \<and> r" "keygens_of rs = []"
  shows "scan_ok chain r old from (hs @ ks) (s\<lparr>sc_registered := reg, sc_out := sc_out s @ bs @ rs, sc_current := c\<rparr>)"
proof -
  have n: "h = sc_current s + 1 \<or> h \<le> sc_current s" if "h \<le> sc_current s + 1" for h using that by linarith
  show ?thesis using assms by (auto simp: scan_ok_def sorted_append dest!: n)
qed

lemma scan_register_ok:
  assumes "scan_register x http (sc_current s + 1) (s\<lparr>sc_out := sc_out s @ bs\<rparr>) = Ret s'" "scan_ok chain r old from hs s"
    and "map Some (keygens_of bs) = map chain ks"
    and "ks = [] \<and> chain (sc_current s + 1) = None \<or> ks = [sc_current s + 1]"
    and "getRegisterKeygen x http (sc_stateUrl s) = Ret (Inl ErrConnectionRefused) \<Longrightarrow> r"
  shows "scan_ok chain r old from (hs @ ks) s' \<and> sc_stateUrl s' = sc_stateUrl s"
  using assms(1)
proof (cases rule: scan_register_cases)
  case refused
  then have "s' = s\<lparr>sc_registered := sc_registered s, sc_out := sc_out s @ bs @ [], sc_current := sc_current s\<rparr>" by simp
  moreover have r using refused assms(5) by simp
  ultimately show ?thesis using scan_ok_more [OF assms(2-4), of "sc_current s" "[]" "sc_registered s"] by simp
next
  case (found reg)
  then have "s' = s\<lparr>sc_registered := True, sc_out := sc_out s @ bs @ [SRegister reg], sc_current := sc_current s + 1\<rparr>" by simp
  then show ?thesis using scan_ok_more [OF assms(2-4), of "sc_current s + 1" "[SRegister reg]" True] by simp
next
  case next_one
  then have "s' = s\<lparr>sc_registered := sc_registered s, sc_out := sc_out s @ bs @ [], sc_current := sc_current s + 1\<rparr>" by simp
  then show ?thesis using scan_ok_more [OF assms(2-4), of "sc_current s + 1" "[]" "sc_registered s"] by simp
qed

lemma scan_poll_ok:
  assumes "scan_poll x http s = Ret s'" "scan_ok chain r old from hs s" "faithful x (sc_stateUrl s) chain http"
    and "getRegisterKeygen x http (sc_stateUrl s) = Ret (Inl ErrConnectionRefused) \<Longrightarrow> r"
  shows "\<exists>ks. scan_ok chain r old from (hs @ ks) s' \<and> sc_stateUrl s' = sc_stateUrl s"
  using assms(1)
proof (cases rule: scan_poll_cases)
  case wait
  then show ?thesis using assms(2) by (intro exI [of _ "[]"]) simp
next
  case (block b)
  then have "chain (sc_current s + 1) = Some b"
    using assms(3) [unfolded faithful_def, rule_format, of "sc_current s + 1"] by (auto split: option.splits)
  then show ?thesis
    using scan_register_ok [OF block(2) assms(2), of "[sc_current s + 1]"] assms(4) by auto
next
  case (no_block e)
  then have "chain (sc_current s + 1) = None"
    using assms(3) [unfolded faithful_def, rule_format, of "sc_current s + 1"] by (auto split: option.splits)
  then show ?thesis
    using scan_register_ok [of x http s "[]" s' chain r old "from" hs "[]"] no_block(3) assms(2,4)
    by (intro exI [of _ "[]"]) simp
qed

lemma scanKeygenBlock_ok:
  assumes "scanKeygenBlock x es s = Ret s'" "scan_ok chain r old from hs s"
    and "\<And>http. http \<in> polls es \<Longrightarrow> faithful x (sc_stateUrl s) chain http"
    and "\<And>http. http \<in> polls es \<Longrightarrow> getRegisterKeygen x http (sc_stateUrl s) = Ret (Inl ErrConnectionRefused) \<Longrightarrow> r"
  shows "\<exists>ks. scan_ok chain r old from (hs @ ks) s'"
  using assms
proof (induction x es s arbitrary: hs rule: scanKeygenBlock.induct)
  case (1 x s)
  then show ?case by (intro exI [of _ "[]"]) simp
next
  case (2 x es s)
  then show ?case by simp
next
  case (3 x http es s)
  then obtain s1 where s1: "scan_poll x http s = Ret s1" "scanKeygenBlock x es s1 = Ret s'"
    by (auto simp: out_bind_Ret_iff)
  obtain ks where ks: "scan_ok chain r old from (hs @ ks) s1" "sc_stateUrl s1 = sc_stateUrl s"
    using scan_poll_ok [OF s1(1) "3.prems"(2)] "3.prems"(3,4) by auto
  obtain ks' where "scan_ok chain r old from ((hs @ ks) @ ks') s'"
    using "3.IH" [OF s1(2) ks(1)] "3.prems"(3,4) ks(2) by auto
  then show ?case by (metis append_assoc)
qed

lemma scanner_run:
  assumes "scanKeygenBlock x es (newBridgeScanner blockUrl stateUrl) = Ret s"
    and "\<And>http. http \<in> polls es \<Longrightarrow> faithful x stateUrl chain http"
  shows "\<exists>hs. sorted hs \<and> map Some (keygens_of (sc_out s)) = map chain hs \<and>
    {h \<in> {0<..sc_current s}. chain h \<noteq> None} \<subseteq> set hs \<and> set hs \<subseteq> {0<..sc_current s + 1} \<and>
    ((\<forall>http\<in>polls es. getRegisterKeygen x http stateUrl \<noteq> Ret (Inl ErrConnectionRefused)) \<longrightarrow>
       distinct hs \<and> set hs \<subseteq> {0<..sc_current s}) \<and>
    length (registers_of (sc_out s)) \<le> 1"
proof -
  let ?r = "\<exists>http\<in>polls es. getRegisterKeygen x http stateUrl = Ret (Inl ErrConnectionRefused)"
  have "scan_ok chain ?r [] 0 [] (newBridgeScanner blockUrl stateUrl)"
    by (auto simp: scan_ok_def newBridgeScanner_def)
  then obtain hs where "scan_ok chain ?r [] 0 hs s"
    using scanKeygenBlock_ok [OF assms(1), of chain ?r "[]" 0 "[]"] assms(2) by (auto simp: newBridgeScanner_def)
  moreover have "one_register s"
    using scanKeygenBlock_one [OF assms(1)] by (simp add: one_register_def newBridgeScanner_def)
  ultimately show ?thesis
    by (intro exI [of _ hs]) (auto simp: scan_ok_def one_register_def)
qed

text \<open>C26. The scanner loses no keygen block as long as the node it asks answers: when every answer
  for a block is the block, that there is none, or the refusal code, then the keygen blocks handed to
  the signer are those of the chain, in the order of their heights, complete up to the current
  height, and nothing else; each is handed over once unless a registration query was refused, and a
  registration is handed over at most once.\<close>

theorem scanner_delivers:
  assumes "scanKeygenBlock x es (newBridgeScanner blockUrl stateUrl) = Ret s"
    and "\<And>http. http \<in> polls es \<Longrightarrow> faithful x stateUrl chain http"
  shows "\<exists>hs. sorted hs \<and> map Some (keygens_of (sc_out s)) = map chain hs \<and>
    {h \<in> {0<..sc_current s}. chain h \<noteq> None} \<subseteq> set hs \<and> set hs \<subseteq> {0<..sc_current s + 1} \<and>
    ((\<forall>http\<in>polls es. getRegisterKeygen x http stateUrl \<noteq> Ret (Inl ErrConnectionRefused)) \<longrightarrow>
       distinct hs \<and> set hs \<subseteq> {0<..sc_current s}) \<and>
    length (registers_of (sc_out s)) \<le> 1"
  by (rule scanner_run [OF assms])

text \<open>A failure that is not the refusal code loses a keygen block for good: when the query for the
  next block fails in any other way (a transport error, an unreadable body, another code) after the
  registration, the scanner goes on to the following height, and whatever happens later, with a node
  that answers every query, every block it hands over has a greater height.\<close>

lemma scanner_loses_block:
  assumes "scanner_height x http s = Ret (Inr h)" "sc_current s < h"
    and "getKeygenBlock x http (sc_stateUrl s) (sc_current s + 1) = Ret (Inl e)" "e \<noteq> ErrConnectionRefused"
    and "sc_registered s" "scanKeygenBlock x (ScPoll http # es) s = Ret s'"
    and "\<And>ht. ht \<in> polls es \<Longrightarrow> faithful x (sc_stateUrl s) chain ht"
  shows "\<exists>hs. map Some (keygens_of (sc_out s')) = map Some (keygens_of (sc_out s)) @ map chain hs \<and>
    (\<forall>h\<in>set hs. sc_current s + 1 < h)"
proof -
  have "scan_poll x http s = Ret (s\<lparr>sc_current := sc_current s + 1\<rparr>)"
    using assms(1-5) by (simp add: scan_poll_def scan_register_def)
  then have r: "scanKeygenBlock x es (s\<lparr>sc_current := sc_current s + 1\<rparr>) = Ret s'" using assms(6) by simp
  have "scan_ok chain True (keygens_of (sc_out s)) (sc_current s + 1) [] (s\<lparr>sc_current := sc_current s + 1\<rparr>)"
    by (auto simp: scan_ok_def)
  then obtain hs where "scan_ok chain True (keygens_of (sc_out s)) (sc_current s + 1) hs s'"
    using scanKeygenBlock_ok [OF r, of chain True "keygens_of (sc_out s)" "sc_current s + 1" "[]"] assms(7) by auto
  then show ?thesis by (intro exI [of _ hs]) (auto simp: scan_ok_def)
qed

section \<open>The properties on concrete inputs\<close>

definition sample_block :: keygen_block where
  "sample_block = \<lparr>kb_index = ''k'', kb_height = 1,
     kb_keygens = [\<lparr>kv_id = ''k'', kv_type = 0, kv_members = [''a'', ''b'', ''c'']\<rparr>]\<rparr>"

text \<open>The bridge chain has two blocks and a keygen in the first; \<open>flaky\<close> fails on that one.\<close>

definition sample_client :: http_client where
  "sample_client m url body =
     (if url = ''b/abci_info'' then Inr (str_bytes (itoa 2))
      else if url = keygen_block_url ''s'' 1 then Inr [1] else Inr [5])"

definition flaky_client :: http_client where
  "flaky_client m url body =
     (if url = keygen_block_url ''s'' 1 then Inl (ErrExt ''EOF'') else sample_client m url body)"

definition sample_chain :: "int \<Rightarrow> keygen_block option" where
  "sample_chain h = (if h = 1 then Some sample_block else None)"

lemma sample_heights:
  "getCurrentHeight sample_http sample_client ''b'' = Ret (Inr 2)"
  "getCurrentHeight sample_http flaky_client ''b'' = Ret (Inr 2)"
  by (simp_all add: getCurrentHeight_def get_json_def sample_http_def flaky_client_def keygen_block_url_def
      sample_client_def parseInt64_itoa int64_def)

lemma sample_queries:
  "getKeygenBlock sample_http sample_client ''s'' h = Ret (case sample_chain h of None \<Rightarrow> Inl ErrNotFoundKeyGenBlock | Some b \<Rightarrow> Inr b)"
  "getRegisterKeygen sample_http sample_client ''s'' = Ret (Inl ErrNotFoundKeyGenBlock)"
proof -
  have "keygen_block_url ''s'' h = keygen_block_url ''s'' 1 \<longleftrightarrow> h = 1" using keygen_block_url_inject by blast
  then show "getKeygenBlock sample_http sample_client ''s'' h =
      Ret (case sample_chain h of None \<Rightarrow> Inl ErrNotFoundKeyGenBlock | Some b \<Rightarrow> Inr b)"
    by (simp add: getKeygenBlock_def get_json_def sample_http_def sample_client_def sample_chain_def sample_block_def
        parseInt64_itoa int64_def) (simp add: keygen_block_url_def)
  show "getRegisterKeygen sample_http sample_client ''s'' = Ret (Inl ErrNotFoundKeyGenBlock)"
    by (simp add: getRegisterKeygen_def get_json_def sample_http_def sample_client_def keygen_block_url_def)
qed

lemma sample_faithful: "faithful sample_http ''s'' sample_chain sample_client"
  by (simp add: faithful_def sample_queries)

theorem scanner_delivers_witness:
  "\<exists>s hs. scanKeygenBlock sample_http [ScTick, ScPoll sample_client, ScPoll sample_client] (newBridgeScanner ''b'' ''s'') = Ret s \<and>
     keygens_of (sc_out s) = [sample_block] \<and> sc_current s = 2 \<and> map Some (keygens_of (sc_out s)) = map sample_chain hs \<and>
     distinct hs \<and> 1 \<in> set hs"
proof -
  let ?s = "\<lparr>sc_current = 2, sc_registered = False, sc_blockUrl = ''b'', sc_stateUrl = ''s'', sc_out = [SKeygen sample_block]\<rparr>"
  have r: "scanKeygenBlock sample_http [ScTick, ScPoll sample_client, ScPoll sample_client] (newBridgeScanner ''b'' ''s'') = Ret ?s"
    by (simp add: scan_poll_def scanner_height_def scan_register_def newBridgeScanner_def sample_heights sample_queries
        sample_chain_def Let_def)
  have n: "\<forall>http\<in>polls [ScTick, ScPoll sample_client, ScPoll sample_client].
      getRegisterKeygen sample_http http ''s'' \<noteq> Ret (Inl ErrConnectionRefused)"
    by (simp add: sample_queries)
  have f: "faithful sample_http ''s'' sample_chain http"
    if "http \<in> polls [ScTick, ScPoll sample_client, ScPoll sample_client]" for http
    using that sample_faithful by simp
  obtain hs where hs: "map Some (keygens_of (sc_out ?s)) = map sample_chain hs"
      "{h \<in> {0<..sc_current ?s}. sample_chain h \<noteq> None} \<subseteq> set hs" "distinct hs"
    using scanner_delivers [OF r, of sample_chain] f n by blast
  have "1 \<in> set hs" using hs(2) by (auto simp: sample_chain_def)
  with r hs show ?thesis by (intro exI [of _ ?s] exI [of _ hs]) simp
qed

lemma scanner_loses_block_sample:
  "\<exists>s' hs. scanKeygenBlock sample_http [ScPoll flaky_client, ScPoll sample_client]
       ((newBridgeScanner ''b'' ''s'')\<lparr>sc_registered := True\<rparr>) = Ret s' \<and> sc_current s' = 2 \<and> keygens_of (sc_out s') = [] \<and>
     sample_chain 1 = Some sample_block \<and> map Some (keygens_of (sc_out s')) = map sample_chain hs \<and> (\<forall>h\<in>set hs. 1 < h)"
proof -
  let ?s = "(newBridgeScanner ''b'' ''s'')\<lparr>sc_registered := True\<rparr>"
  have f: "getKeygenBlock sample_http flaky_client ''s'' 1 = Ret (Inl (ErrExt ''EOF''))"
    by (simp add: getKeygenBlock_def get_json_def flaky_client_def)
  have r: "scanKeygenBlock sample_http [ScPoll flaky_client, ScPoll sample_client] ?s = Ret (?s\<lparr>sc_current := 2\<rparr>)"
    by (simp add: scan_poll_def scanner_height_def scan_register_def newBridgeScanner_def sample_heights sample_queries
        f sample_chain_def Let_def)
  have "scanner_height sample_http flaky_client ?s = Ret (Inr 2)"
    by (simp add: scanner_height_def newBridgeScanner_def sample_heights)
  from scanner_loses_block [OF this _ _ _ _ r, of "ErrExt ''EOF''" sample_chain]
  show ?thesis using r f sample_faithful by (auto simp: newBridgeScanner_def sample_chain_def)
qed

end
