(* ===== verification/Http_Server.thy ===== *)
theory Http_Server
  imports Tss_KeySign
begin

text \<open>
  \<open>cmd/tss/tss_http.go\<close>: the HTTP endpoint of a node.  A handler is a function from the method, the
  body and the server to the response and the server; an answer that is written without
  \<open>WriteHeader\<close> has status 200.  The JSON coders, the router's table of paths and the listener are
  the library's; \<open>/metrics\<close> is Prometheus' own handler.
\<close>

section \<open>Requests and responses\<close>

record http_request =
  hr_method :: string
  hr_path :: string
  hr_body :: bytes

record http_response =
  hs_status :: nat
  hs_body :: bytes

definition StatusOK :: nat where "StatusOK = 200"
definition StatusBadRequest :: nat where "StatusBadRequest = 400"
definition StatusNotFound :: nat where "StatusNotFound = 404"
definition StatusMethodNotAllowed :: nat where "StatusMethodNotAllowed = 405"
definition StatusInternalServerError :: nat where "StatusInternalServerError = 500"

definition http_status :: "nat \<Rightarrow> http_response" where
  "http_status st = \<lparr>hs_status = st, hs_body = []\<rparr>"

record json_ext =
  x_json_keygen_req :: "bytes \<Rightarrow> keygen_request res"
  x_json_keysign_req :: "bytes \<Rightarrow> keysign_request res"
  x_json_keygen_resp :: "keygen_response \<Rightarrow> bytes res"
  x_json_keysign_resp :: "keysign_response \<Rightarrow> bytes res"

section \<open>Handlers\<close>

text \<open>The ceremony a request starts is given by its events.\<close>

record call_env =
  cl_net :: network
  cl_fresh :: nat
  cl_join :: "wait_event list"
  cl_keygen :: "keygen_event list"
  cl_finish :: "finish_event list"
  cl_sign :: sign_run

text \<open>An error of \<open>Keygen\<close> is only logged: the response is written in any case.\<close>

definition keygen_reply :: "json_ext \<Rightarrow> keygen_response \<Rightarrow> http_response" where
  "keygen_reply jx resp =
     (case x_json_keygen_resp jx resp of
        Inl e \<Rightarrow> http_status StatusInternalServerError
      | Inr buf \<Rightarrow> \<lparr>hs_status = StatusOK, hs_body = buf\<rparr>)"

definition keygenHandler ::
  "json_ext \<Rightarrow> 'e tss_ext_scheme \<Rightarrow> call_env \<Rightarrow> http_request \<Rightarrow> tss_server \<Rightarrow> (http_response \<times> tss_server) outcome option" where
  "keygenHandler jx x env r t =
     (if hr_method r \<noteq> ''POST'' then Some (Ret (http_status StatusMethodNotAllowed, t))
      else
        (case x_json_keygen_req jx (hr_body r) of
           Inl e \<Rightarrow> Some (Ret (http_status StatusBadRequest, t))
         | Inr keygenReq \<Rightarrow>
            map_option (\<lambda>o1. out_bind o1 (\<lambda>((resp, err), t1). Ret (keygen_reply jx resp, t1)))
              (keygen x (cl_net env) (cl_fresh env) keygenReq (cl_join env) (cl_keygen env) (cl_finish env) t)))"

definition keysign_reply :: "json_ext \<Rightarrow> keysign_response \<times> goerr option \<Rightarrow> http_response" where
  "keysign_reply jx = (\<lambda>(signResp, err).
     case err of
       Some e \<Rightarrow> http_status StatusInternalServerError
     | None \<Rightarrow>
        (case x_json_keysign_resp jx signResp of
           Inl e \<Rightarrow> http_status StatusInternalServerError
         | Inr jsonResult \<Rightarrow> \<lparr>hs_status = StatusOK, hs_body = jsonResult\<rparr>))"

definition keySignHandler ::
  "json_ext \<Rightarrow> 'e tss_ext_scheme \<Rightarrow> call_env \<Rightarrow> http_request \<Rightarrow> tss_server \<Rightarrow> (http_response \<times> tss_server) outcome option" where
  "keySignHandler jx x env r t =
     (if hr_method r \<noteq> ''POST'' then Some (Ret (http_status StatusMethodNotAllowed, t))
      else
        (case x_json_keysign_req jx (hr_body r) of
           Inl e \<Rightarrow> Some (Ret (http_status StatusBadRequest, t))
         | Inr keySignReq \<Rightarrow>
            map_option (\<lambda>o1. out_bind o1 (\<lambda>(answer, t1). Ret (keysign_reply jx answer, t1)))
              (keySign x (cl_net env) (cl_fresh env) keySignReq (cl_sign env) t)))"

definition pingHandler :: "http_request \<Rightarrow> http_response" where
  "pingHandler r = http_status StatusOK"

definition getP2pIDHandler :: "'e conv_ext_scheme \<Rightarrow> http_request \<Rightarrow> tss_server \<Rightarrow> http_response" where
  "getP2pIDHandler x r t = \<lparr>hs_status = StatusOK, hs_body = str_bytes (getLocalPeerID x t)\<rparr>"

text \<open>The router: a known path with another method is answered with 405, an unknown path with 404.\<close>

definition tssNewHandler ::
  "json_ext \<Rightarrow> 'e tss_ext_scheme \<Rightarrow> call_env \<Rightarrow> http_response \<Rightarrow> http_request \<Rightarrow> tss_server
     \<Rightarrow> (http_response \<times> tss_server) outcome option" where
  "tssNewHandler jx x env metrics r t =
     (if hr_path r = ''/keygen'' then
        (if hr_method r = ''POST'' then keygenHandler jx x env r t else Some (Ret (http_status StatusMethodNotAllowed, t)))
      else if hr_path r = ''/keysign'' then
        (if hr_method r = ''POST'' then keySignHandler jx x env r t else Some (Ret (http_status StatusMethodNotAllowed, t)))
      else if hr_path r = ''/ping'' then
        Some (Ret (if hr_method r = ''GET'' then pingHandler r else http_status StatusMethodNotAllowed, t))
      else if hr_path r = ''/p2pid'' then
        Some (Ret (if hr_method r = ''GET'' then getP2pIDHandler x r t else http_status StatusMethodNotAllowed, t))
      else if hr_path r = ''/metrics'' then Some (Ret (metrics, t))
      else Some (Ret (http_status StatusNotFound, t)))"

section \<open>Start and stop\<close>

text \<open>\<open>started\<close> is what \<open>Start\<close> of the tss server returns, \<open>listened\<close> what \<open>ListenAndServe\<close> ends with.\<close>

definition ErrServerClosed :: goerr where "ErrServerClosed = ErrExt ''http: Server closed''"

definition http_Start :: "bool \<Rightarrow> goerr option \<Rightarrow> goerr option \<Rightarrow> goerr option" where
  "http_Start hasServer started listened =
     (if \<not> hasServer then Some (ErrText ''invalid http server instance'')
      else (case started of
          Some e \<Rightarrow> Some (ErrWrap ''fail to start tss server'' e)
        | None \<Rightarrow>
           (case listened of
              None \<Rightarrow> None
            | Some e \<Rightarrow> if e = ErrServerClosed then None else Some (ErrWrap ''fail to start http server'' e))))"

definition http_Stop :: "goerr option \<Rightarrow> tss_server \<Rightarrow> (goerr option \<times> tss_server) outcome" where
  "http_Stop shutdown t = out_bind (server_Stop t) (\<lambda>t1. Ret (shutdown, t1))"

section \<open>What the endpoint answers\<close>

lemma keygen_reply_ok:
  assumes "hs_status (keygen_reply jx resp) = StatusOK"
  shows "x_json_keygen_resp jx resp = Inr (hs_body (keygen_reply jx resp))"
  using assms by (auto simp: keygen_reply_def http_status_def StatusOK_def StatusInternalServerError_def split: sum.splits)

text \<open>A request that is no POST or cannot be decoded starts nothing.\<close>

lemma handlers_refuse:
  assumes "hr_path r \<in> {''/keygen'', ''/keysign''}"
    and "hr_method r \<noteq> ''POST'' \<or> (\<exists>e. x_json_keygen_req jx (hr_body r) = Inl e) \<and> (\<exists>e. x_json_keysign_req jx (hr_body r) = Inl e)"
  shows "\<exists>st. tssNewHandler jx x env m r t = Some (Ret (http_status st, t)) \<and> st \<in> {StatusBadRequest, StatusMethodNotAllowed}"
  using assms by (auto simp: tssNewHandler_def keygenHandler_def keySignHandler_def)

text \<open>What a reply with status 200 encodes.\<close>

lemma keysign_reply_200:
  assumes "tssNewHandler jx x env m r t = Some (Ret (reply, t'))" "hr_path r = ''/keysign''" "hs_status reply = StatusOK"
    and "sn_ok (sv_sn t)"
  shows "\<exists>req resp. x_json_keysign_req jx (hr_body r) = Inr req \<and> hr_method r = ''POST'' \<and>
    keySign x (cl_net env) (cl_fresh env) req (cl_sign env) t = Some (Ret ((resp, None), t')) \<and>
    x_json_keysign_resp jx resp = Inr (hs_body reply) \<and>
    (ksr_status resp = Success \<longrightarrow> (\<exists>ms sigs. decode_messages (sort (ksq_messages req)) = Inr ms \<and>
       answers_with resp (sortMessages ms) sigs \<and>
       (signatures_for x (ksq_pool req) (sortMessages ms) sigs \<or> own_signatures (cl_sign env) (length ms) sigs)))"
proof -
  have p: "hr_method r = ''POST''"
    using assms(1-3) by (auto simp: tssNewHandler_def http_status_def StatusOK_def StatusMethodNotAllowed_def split: if_splits)
  then have h: "keySignHandler jx x env r t = Some (Ret (reply, t'))"
    using assms(1,2) by (simp add: tssNewHandler_def)
  then obtain req where req: "x_json_keysign_req jx (hr_body r) = Inr req"
    using assms(3) p by (cases "x_json_keysign_req jx (hr_body r)")
      (auto simp: keySignHandler_def http_status_def StatusOK_def StatusBadRequest_def)
  then obtain resp err where k: "keySign x (cl_net env) (cl_fresh env) req (cl_sign env) t = Some (Ret ((resp, err), t'))"
      "reply = keysign_reply jx (resp, err)"
    using h p by (auto simp: keySignHandler_def out_bind_Ret_iff)
  then have "err = None" "x_json_keysign_resp jx resp = Inr (hs_body reply)"
    using assms(3) by (auto simp: keysign_reply_def http_status_def StatusOK_def StatusInternalServerError_def
        split: option.splits sum.splits)
  then show ?thesis using req p k(1) keySign_origin [OF k(1) _ assms(4)] by blast
qed

text \<open>What each answer of \<open>KeySign\<close> is turned into.\<close>

lemma keysign_reply_of:
  assumes "tssNewHandler jx x env m r t = Some (Ret (reply, t'))" "hr_path r = ''/keysign''"
    and "hr_method r = ''POST''" "x_json_keysign_req jx (hr_body r) = Inr req"
    and "keySign x (cl_net env) (cl_fresh env) req (cl_sign env) t = Some (Ret ((resp, err), t'))"
  shows "case err of
      Some e \<Rightarrow> hs_status reply = StatusInternalServerError
    | None \<Rightarrow> (\<forall>b. x_json_keysign_resp jx resp = Inr b \<longrightarrow> hs_status reply = StatusOK \<and> hs_body reply = b)"
  using assms
  by (auto simp: tssNewHandler_def keySignHandler_def keysign_reply_def http_status_def StatusOK_def split: option.splits)

text \<open>C27. What \<open>/keysign\<close> answers, when the signature notifier's table is well formed (\<open>sn_ok\<close>).  A
  reply with status 200 answers a POST with a decodable request, for which \<open>KeySign\<close> returned a
  response and no error; the body is the encoding of that response, and when it reports \<open>Success\<close> its
  signatures answer the sorted messages of the request, either all verified under the key of the pool
  or those of the ceremony of this node.  The other way round: a POST with a decodable request is
  answered with status 500 when \<open>KeySign\<close> returns an error, and with the encoded response and status
  200 when it returns none and the response can be encoded.\<close>

theorem keysign_endpoint:
  assumes "tssNewHandler jx x env m r t = Some (Ret (reply, t'))" "hr_path r = ''/keysign''"
    and "sn_ok (sv_sn t)"
  shows "(hs_status reply = StatusOK \<longrightarrow>
      (\<exists>req resp. x_json_keysign_req jx (hr_body r) = Inr req \<and> hr_method r = ''POST'' \<and>
        keySign x (cl_net env) (cl_fresh env) req (cl_sign env) t = Some (Ret ((resp, None), t')) \<and>
        x_json_keysign_resp jx resp = Inr (hs_body reply) \<and>
        (ksr_status resp = Success \<longrightarrow> (\<exists>ms sigs. decode_messages (sort (ksq_messages req)) = Inr ms \<and>
           answers_with resp (sortMessages ms) sigs \<and>
           (signatures_for x (ksq_pool req) (sortMessages ms) sigs \<or> own_signatures (cl_sign env) (length ms) sigs))))) \<and>
    (\<forall>req resp err. hr_method r = ''POST'' \<longrightarrow> x_json_keysign_req jx (hr_body r) = Inr req \<longrightarrow>
      keySign x (cl_net env) (cl_fresh env) req (cl_sign env) t = Some (Ret ((resp, err), t')) \<longrightarrow>
      (case err of
        Some e \<Rightarrow> hs_status reply = StatusInternalServerError
      | None \<Rightarrow> (\<forall>b. x_json_keysign_resp jx resp = Inr b \<longrightarrow> hs_status reply = StatusOK \<and> hs_body reply = b)))"
  by (intro conjI impI allI, rule keysign_reply_200 [OF assms(1,2) _ assms(3)], assumption)
    (rule keysign_reply_of [OF assms(1,2)])

section \<open>The property on a concrete input\<close>

definition sample_json :: json_ext where
  "sample_json = \<lparr>x_json_keygen_req = (\<lambda>b. Inl (ErrExt ''eof'')),
     x_json_keysign_req = (\<lambda>b. Inr (sample_ksreq [''BA=='', ''Aw==''] ''0.13.0'')),
     x_json_keygen_resp = (\<lambda>r. Inr []), x_json_keysign_resp = (\<lambda>r. Inr (str_bytes (concat (map sg_r (ksr_signatures r)))))\<rparr>"

definition sample_call :: call_env where
  "sample_call = \<lparr>cl_net = no_network, cl_fresh = 0, cl_join = [], cl_keygen = [], cl_finish = [], cl_sign = sample_run\<rparr>"

theorem keysign_endpoint_witness:
  "\<exists>t'. tssNewHandler sample_json sample_tss sample_call (http_status StatusOK)
       \<lparr>hr_method = ''POST'', hr_path = ''/keysign'', hr_body = []\<rparr> sample_signer =
       Some (Ret (\<lparr>hs_status = StatusOK, hs_body = str_bytes ''BA==Aw==''\<rparr>, t')) \<and>
     (\<exists>resp. x_json_keysign_resp sample_json resp = Inr (str_bytes ''BA==Aw==''))"
proof -
  let ?r = "\<lparr>hr_method = ''POST'', hr_path = ''/keysign'', hr_body = []\<rparr>"
  obtain t' where k: "keySign sample_tss no_network 0 (sample_ksreq [''BA=='', ''Aw==''] ''0.13.0'') sample_run sample_signer =
      Some (Ret ((sample_answer, None), t'))"
    using sample_keySign by blast
  have r: "tssNewHandler sample_json sample_tss sample_call (http_status StatusOK) ?r sample_signer =
      Some (Ret (\<lparr>hs_status = StatusOK, hs_body = str_bytes ''BA==Aw==''\<rparr>, t'))"
    using k by (simp add: tssNewHandler_def keySignHandler_def sample_json_def sample_call_def keysign_reply_def
        sample_answer_def newKeysignResponse_def newSignature_def)
  have "sn_ok (sv_sn sample_signer)" by (simp add: sample_signer_def sample_server_def sn_ok_new)
  then have "\<exists>resp. x_json_keysign_resp sample_json resp = Inr (str_bytes ''BA==Aw=='')"
    using keysign_endpoint [OF r] by auto
  with r show ?thesis by blast
qed

end
