(* ===== verification/Node.thy ===== *)
theory Node
  imports Net_Signer Bridge_Scanner Chain_Clients Http_Server
begin

text \<open>
  \<open>config/config.go\<close> and \<open>cmd/tss/main.go\<close>: how a node is put together.  What viper reads from the file
  and the \<open>Set\<close> calls that pflag makes for the command line are arguments; the registration of the flags,
  which writes their defaults into the configuration, is the code's.
\<close>

section \<open>The configuration\<close>

text \<open>Durations are in nanoseconds.  The sections are pointers: one that is missing in the file is nil.\<close>

record tss_config =
  tc_PartyTimeout :: int
  tc_KeyGenTimeout :: int
  tc_KeySignTimeout :: int
  tc_PreParamTimeout :: int
  tc_EnableMonitor :: bool

record p2p_config =
  pp_RendezvousString :: string
  pp_Port :: int
  pp_BootstrapPeers :: "string list"
  pp_ExternalIP :: string

record bridge_settings =
  bs_BlockUrl :: string
  bs_StateUrl :: string
  bs_RpcUrl :: string
  bs_RelayerAddress :: string
  bs_SignerName :: string
  bs_SignerPasswd :: string

record config =
  cfg_TssAddr :: string
  cfg_Help :: bool
  cfg_LogLevel :: string
  cfg_PrettyLog :: bool
  cfg_BaseFolder :: string
  cfg_Bridge :: "bridge_settings option"
  cfg_Chains :: "(string \<times> string) list" \<comment> \<open>chain id and url\<close>
  cfg_Tss :: "tss_config option"
  cfg_P2p :: "p2p_config option"

section \<open>Addresses\<close>

definition addrList_String :: "string list \<Rightarrow> string" where
  "addrList_String al = str_join '','' al"

definition addrList_Set :: "(string \<Rightarrow> string res) \<Rightarrow> string \<Rightarrow> string list \<Rightarrow> string list res" where
  "addrList_Set maddr v al = (case maddr v of Inl e \<Rightarrow> Inl e | Inr addr \<Rightarrow> Inr (al @ [addr]))"

section \<open>Flags\<close>

text \<open>The values after the conversion of their text.\<close>

datatype flag_value = FvString string | FvBool bool | FvDuration int | FvInt int

definition second :: int where "second = 10 ^ 9"

text \<open>The functions of package \<open>flag\<close> write the default through the pointer and panic when the name is
  taken, starts with a minus or contains an equals sign.\<close>

definition flag_var :: "string \<Rightarrow> string list \<Rightarrow> string list outcome" where
  "flag_var name names =
     (if has_prefix name ''-'' then Panic ''flag begins with -''
      else if CHR ''='' \<in> set name then Panic ''flag contains =''
      else if name \<in> set names then Panic ''flag redefined'' else Ret (names @ [name]))"

fun flag_vars :: "string list \<Rightarrow> string list \<Rightarrow> string list outcome" where
  "flag_vars [] names = Ret names"
| "flag_vars (n # ns) names = out_bind (flag_var n names) (flag_vars ns)"

text \<open>The names in the order of \<open>readFromFlag\<close>; one of them is read from the file.\<close>

definition general_flags :: "string list" where
  "general_flags = [''tss_addr'', ''h'', ''log_level'', ''pretty_log'', ''base_folder'', ''gentimeout'', ''signtimeout'',
     ''preparamtimeout'', ''enablemonitor'']"

definition network_flags :: "string list" where
  "network_flags = [''p2p_port'', ''external-ip'', ''peer'', ''bridge_block_url'', ''bridge_state_url'',
     ''bridge_signer_name'', ''bridge_signer_password'', ''bridge_relayer_address'', ''bridge_rpc_url'']"

text \<open>The defaults that are not the value itself.\<close>

definition tss_defaults :: "tss_config \<Rightarrow> tss_config" where
  "tss_defaults t = t\<lparr>tc_KeyGenTimeout := 30 * second, tc_KeySignTimeout := 30 * second,
     tc_PreParamTimeout := 300 * second, tc_EnableMonitor := True\<rparr>"

definition p2p_defaults :: "p2p_config \<Rightarrow> p2p_config" where
  "p2p_defaults p = p\<lparr>pp_RendezvousString := ''Asgard''\<rparr>"

text \<open>One \<open>Set\<close> call; \<open>None\<close> when the value does not fit the flag or there is no such flag, which ends
  the process.  \<open>rv\<close> is the name of the rendezvous flag.\<close>

definition set_tss :: "string \<Rightarrow> flag_value \<Rightarrow> tss_config \<Rightarrow> tss_config option" where
  "set_tss n v t =
     (case v of
        FvDuration d \<Rightarrow>
          (if n = ''gentimeout'' then Some (t\<lparr>tc_KeyGenTimeout := d\<rparr>)
           else if n = ''signtimeout'' then Some (t\<lparr>tc_KeySignTimeout := d\<rparr>)
           else if n = ''preparamtimeout'' then Some (t\<lparr>tc_PreParamTimeout := d\<rparr>) else None)
      | FvBool b \<Rightarrow> if n = ''enablemonitor'' then Some (t\<lparr>tc_EnableMonitor := b\<rparr>) else None
      | _ \<Rightarrow> None)"

definition set_p2p :: "(string \<Rightarrow> string res) \<Rightarrow> string \<Rightarrow> string \<Rightarrow> flag_value \<Rightarrow> p2p_config \<Rightarrow> p2p_config option" where
  "set_p2p maddr rv n v p =
     (case v of
        FvInt i \<Rightarrow> if n = ''p2p_port'' then Some (p\<lparr>pp_Port := i\<rparr>) else None
      | FvString s \<Rightarrow>
          (if n = rv then Some (p\<lparr>pp_RendezvousString := s\<rparr>)
           else if n = ''external-ip'' then Some (p\<lparr>pp_ExternalIP := s\<rparr>)
           else if n = ''peer'' then
             (case addrList_Set maddr s (pp_BootstrapPeers p) of
                Inl e \<Rightarrow> None | Inr al \<Rightarrow> Some (p\<lparr>pp_BootstrapPeers := al\<rparr>))
           else None)
      | _ \<Rightarrow> None)"

definition set_bridge :: "string \<Rightarrow> flag_value \<Rightarrow> bridge_settings \<Rightarrow> bridge_settings option" where
  "set_bridge n v b =
     (case v of
        FvString s \<Rightarrow>
          (if n = ''bridge_block_url'' then Some (b\<lparr>bs_BlockUrl := s\<rparr>)
           else if n = ''bridge_state_url'' then Some (b\<lparr>bs_StateUrl := s\<rparr>)
           else if n = ''bridge_signer_name'' then Some (b\<lparr>bs_SignerName := s\<rparr>)
           else if n = ''bridge_signer_password'' then Some (b\<lparr>bs_SignerPasswd := s\<rparr>)
           else if n = ''bridge_relayer_address'' then Some (b\<lparr>bs_RelayerAddress := s\<rparr>)
           else if n = ''bridge_rpc_url'' then Some (b\<lparr>bs_RpcUrl := s\<rparr>) else None)
      | _ \<Rightarrow> None)"

definition set_general :: "string \<Rightarrow> flag_value \<Rightarrow> config \<Rightarrow> config option" where
  "set_general n v c =
     (case v of
        FvString s \<Rightarrow>
          (if n = ''tss_addr'' then Some (c\<lparr>cfg_TssAddr := s\<rparr>)
           else if n = ''log_level'' then Some (c\<lparr>cfg_LogLevel := s\<rparr>)
           else if n = ''base_folder'' then Some (c\<lparr>cfg_BaseFolder := s\<rparr>) else None)
      | FvBool b \<Rightarrow>
          (if n = ''h'' then Some (c\<lparr>cfg_Help := b\<rparr>)
           else if n = ''pretty_log'' then Some (c\<lparr>cfg_PrettyLog := b\<rparr>) else None)
      | _ \<Rightarrow> None)"

definition set_flag :: "(string \<Rightarrow> string res) \<Rightarrow> string \<Rightarrow> string \<Rightarrow> flag_value \<Rightarrow> config \<Rightarrow> config option" where
  "set_flag maddr rv n v c =
     (case (cfg_Tss c, cfg_P2p c, cfg_Bridge c) of
        (Some t, Some p, Some b) \<Rightarrow>
          (case set_general n v c of Some c1 \<Rightarrow> Some c1 | None \<Rightarrow>
          (case set_tss n v t of Some t1 \<Rightarrow> Some (c\<lparr>cfg_Tss := Some t1\<rparr>) | None \<Rightarrow>
          (case set_p2p maddr rv n v p of Some p1 \<Rightarrow> Some (c\<lparr>cfg_P2p := Some p1\<rparr>) | None \<Rightarrow>
             map_option (\<lambda>b1. c\<lparr>cfg_Bridge := Some b1\<rparr>) (set_bridge n v b))))
      | _ \<Rightarrow> None)"

fun parse_flags :: "(string \<Rightarrow> string res) \<Rightarrow> string \<Rightarrow> (string \<times> flag_value) list \<Rightarrow> config \<Rightarrow> config option" where
  "parse_flags maddr rv [] c = Some c"
| "parse_flags maddr rv ((n, v) # as) c =
     (case set_flag maddr rv n v c of None \<Rightarrow> None | Some c1 \<Rightarrow> parse_flags maddr rv as c1)"

definition readFromFlag ::
  "(string \<Rightarrow> string res) \<Rightarrow> (string \<times> flag_value) list \<Rightarrow> config \<Rightarrow> config option outcome" where
  "readFromFlag maddr args c =
     out_bind (deref (cfg_Tss c)) (\<lambda>t.
     out_bind (deref (cfg_P2p c)) (\<lambda>p.
     out_bind (flag_vars (general_flags @ [pp_RendezvousString p] @ take 3 network_flags) []) (\<lambda>names.
     out_bind (deref (cfg_Bridge c)) (\<lambda>b.
     out_bind (flag_vars (drop 3 network_flags) names) (\<lambda>_.
       Ret (parse_flags maddr (pp_RendezvousString p) args
         (c\<lparr>cfg_Help := False, cfg_PrettyLog := False, cfg_Tss := Some (tss_defaults t),
            cfg_P2p := Some (p2p_defaults p)\<rparr>)))))))"

text \<open>\<open>None\<close>: the process has exited.\<close>

definition initConfig ::
  "(string \<Rightarrow> string res) \<Rightarrow> config res \<Rightarrow> (string \<times> flag_value) list \<Rightarrow> config res option outcome" where
  "initConfig maddr read args =
     (case read of
        Inl e \<Rightarrow> Ret (Some (Inl e))
      | Inr c \<Rightarrow> out_bind (readFromFlag maddr args c) (\<lambda>r. Ret (map_option Inr r)))"

section \<open>The node\<close>

text \<open>A private key of the Cosmos SDK: whether it is a secp256k1 key, and its bytes.\<close>

definition cosmosPrivateKeyToTMPrivateKey :: "bool \<Rightarrow> bytes \<Rightarrow> bytes option" where
  "cosmosPrivateKeyToTMPrivateKey isSecp256k1 k = (if isSecp256k1 then Some k else None)"

definition newSigner :: "tss_server \<Rightarrow> string \<Rightarrow> string \<Rightarrow> bridge_config \<Rightarrow> signer \<times> scanner \<times> sign_queue" where
  "newSigner tssServer blockUrl stateUrl cfg =
     (\<lparr>sg_client = newBridgeClient cfg, sg_server = tssServer, sg_requeued = [], sg_pools = [], sg_registered = []\<rparr>,
      newBridgeScanner blockUrl stateUrl, new_queue)"

record node =
  nd_addr :: string \<comment> \<open>the address of the HTTP server\<close>
  nd_server :: tss_server
  nd_signer :: signer
  nd_scanner :: scanner
  nd_queue :: sign_queue
  nd_chains :: "(string, chain_client) gomap"
  nd_wg :: int

text \<open>What the outside gives: the key ring, the type and the public bytes of its key, the multiaddress
  parser, the parameters of tss-lib, libp2p, and the file system.\<close>

record node_env =
  ne_keyring :: keyring_ext
  ne_secp :: bool
  ne_pub :: "bytes \<Rightarrow> bytes"
  ne_maddr :: "string \<Rightarrow> string res"
  ne_valid :: "nat \<Rightarrow> bool"
  ne_params :: "nat res"
  ne_host :: host_results
  ne_fs :: file_system

text \<open>\<open>NoNode\<close>: help was printed or the process has exited with a message.  The folder is the global
  variable \<open>baseFolder\<close>, which only the unused \<open>parseFlags\<close> writes.\<close>

datatype started = NoNode | Running node

definition baseFolder :: string where "baseFolder = []"

definition start_node :: "'e tss_ext_scheme \<Rightarrow> node_env \<Rightarrow> config \<Rightarrow> bytes option \<Rightarrow> started outcome" where
  "start_node x env c tmPriKey =
     out_bind (deref (cfg_P2p c)) (\<lambda>p2p.
     out_bind (deref (cfg_Tss c)) (\<lambda>tssc.
     out_bind (deref (cfg_Bridge c)) (\<lambda>bridge.
     out_bind (deref tmPriKey) (\<lambda>k.
     out_bind (fst (newTss x (ne_maddr env) (ne_valid env) (ne_params env) (ne_host env) (pp_BootstrapPeers p2p)
         (pp_Port p2p) (ne_pub env k, Some k) (pp_RendezvousString p2p) baseFolder (tc_PartyTimeout tssc)
         (tc_EnableMonitor tssc) None (pp_ExternalIP p2p) (ne_fs env))) (\<lambda>r. case r of
       Inl e \<Rightarrow> Ret NoNode
     | Inr tss \<Rightarrow>
        (let (signer, scanner, queue) = newSigner tss (bs_BlockUrl bridge) (bs_StateUrl bridge)
               (newBridgeClientConfig (newChainClientConfig BridgeChainId (bs_BlockUrl bridge) (bs_StateUrl bridge)
                  (bs_RpcUrl bridge) (bs_SignerName bridge) (bs_SignerPasswd bridge)) (bs_RelayerAddress bridge))
         in out_bind (initChains (cfg_Chains c)) (\<lambda>(chains, wg).
              Ret (Running \<lparr>nd_addr = cfg_TssAddr c, nd_server = tss, nd_signer = signer, nd_scanner = scanner,
                nd_queue = queue, nd_chains = chains, nd_wg = wg\<rparr>))))))))"

definition tss_main :: "'e tss_ext_scheme \<Rightarrow> node_env \<Rightarrow> config res \<Rightarrow> (string \<times> flag_value) list \<Rightarrow> started outcome" where
  "tss_main x env read args =
     out_bind (initConfig (ne_maddr env) read args) (\<lambda>r. case r of
       None \<Rightarrow> Ret NoNode
     | Some (Inl e) \<Rightarrow> Panic (err_text e)
     | Some (Inr c) \<Rightarrow>
        (if cfg_Help c then Ret NoNode
         else
           out_bind (deref (cfg_Bridge c)) (\<lambda>bridge.
             case getKeyringKeybase (ne_keyring env) [] (bs_SignerName bridge) (bs_SignerPasswd bridge) of
               Inl e \<Rightarrow> Panic (err_text e)
             | Inr kb \<Rightarrow>
                (case getPrivateKey (ne_keyring env) (newKeys (bs_SignerName bridge) (bs_SignerPasswd bridge) kb) of
                   Inl e \<Rightarrow> Panic (err_text e)
                 | Inr priKey \<Rightarrow>
                    start_node x env c (cosmosPrivateKeyToTMPrivateKey (ne_secp env) priKey)))))"

section \<open>What the command line leaves of the file\<close>

text \<open>Whatever the file says, without flags the rendezvous string is \<open>Asgard\<close> and the timeouts are the
  defaults: the registration of the flags overwrites them, and the flag that could set the
  rendezvous string is called by its old value.\<close>

lemma readFromFlag_defaults:
  assumes "readFromFlag maddr [] c = Ret (Some c')"
  obtains t p b where "cfg_Tss c = Some t" "cfg_P2p c = Some p" "cfg_Bridge c = Some b"
    and "c' = c\<lparr>cfg_Help := False, cfg_PrettyLog := False, cfg_Tss := Some (tss_defaults t), cfg_P2p := Some (p2p_defaults p)\<rparr>"
proof -
  obtain t p b where s: "cfg_Tss c = Some t" "cfg_P2p c = Some p" "cfg_Bridge c = Some b"
    using assms by (cases "cfg_Tss c"; cases "cfg_P2p c"; cases "cfg_Bridge c")
      (auto simp: readFromFlag_def deref_def out_bind_Ret_iff)
  with assms that show ?thesis by (auto simp: readFromFlag_def deref_def out_bind_Ret_iff)
qed

lemma set_flag_bridge_chains:
  assumes "set_flag maddr rv n v c = Some c'"
  shows "cfg_Chains c' = cfg_Chains c"
  using assms by (auto simp: set_flag_def set_general_def split: option.splits flag_value.splits if_splits)

lemma parse_flags_chains: "parse_flags maddr rv as c = Some c' \<Longrightarrow> cfg_Chains c' = cfg_Chains c"
  by (induction maddr rv as c rule: parse_flags.induct) (auto dest: set_flag_bridge_chains split: option.splits)

lemma initConfig_chains: "initConfig maddr (Inr c) args = Ret (Some (Inr c')) \<Longrightarrow> cfg_Chains c' = cfg_Chains c"
  by (auto simp: initConfig_def readFromFlag_def out_bind_Ret_iff dest: parse_flags_chains)

section \<open>What is wired to what\<close>

lemma newTss_Inr:
  assumes "fst (newTss x maddr valid generated h bps port key rv folder pt mon pre ip fs) = Ret (Inr t)"
  shows "sv_folder t = folder \<and> x_marshal_acc_pk x (fst key) = Inr (sv_localNodePubKey t) \<and>
    (\<forall>k. snd key = Some k \<longrightarrow> sv_privateKey t = k) \<and> \<not> sv_stopped t"
proof -
  obtain pk where pk: "x_marshal_acc_pk x (fst key) = Inr pk"
    using assms by (cases "x_marshal_acc_pk x (fst key)") (auto simp: newTss_def)
  obtain f fs1 where f: "newFileStateMgr folder fs = (Inr f, fs1)"
    using assms pk by (cases "newFileStateMgr folder fs"; cases "fst (newFileStateMgr folder fs)") (auto simp: newTss_def)
  have ff: "f = folder" using f by (auto simp: newFileStateMgr_def split: if_splits option.splits)
  show ?thesis
    using assms pk f ff
    by (auto simp: newTss_def Let_def out_bind_Ret_iff split: sum.splits option.splits prod.splits if_splits)
qed

lemma init_chains_ids:
  assumes "init_chains cs m = Ret m'"
  shows "mget m' k \<noteq> None \<longleftrightarrow> mget m k \<noteq> None \<or> k \<in> fst ` set cs \<and> k \<in> {BtcChainId, IncognitoChainId}"
  using assms
proof (induction cs m rule: init_chains.induct)
  case (2 k0 url cs m)
  then show ?case
    by (auto simp: Let_def BtcChainId_def IncognitoChainId_def BridgeChainId_def split: if_splits)
qed simp

text \<open>Each entry of the table is the client of its kind, with a URL that the configuration gives for it.\<close>

lemma init_chains_clients:
  assumes "init_chains cs m = Ret m'"
  shows "(mget m' BtcChainId = Some ch \<longrightarrow> mget m BtcChainId = Some ch \<or>
      (\<exists>base. ch = BtcChain base \<and> (BtcChainId, cc_url (ch_cfg base)) \<in> set cs \<and> cc_validator (ch_cfg base) = [] \<and>
        ch_currentHeight base = 0 \<and> ch_shields base = [])) \<and>
    (mget m' IncognitoChainId = Some ch \<longrightarrow> mget m IncognitoChainId = Some ch \<or>
      (\<exists>base. ch = IncognitoChain base \<and> (IncognitoChainId, cc_url (ch_cfg base)) \<in> set cs \<and> cc_validator (ch_cfg base) = [] \<and>
        ch_currentHeight base = 0 \<and> ch_shields base = []))"
  using assms
proof (induction cs m rule: init_chains.induct)
  case (2 k0 url cs m)
  have d: "BtcChainId \<noteq> IncognitoChainId" "BridgeChainId \<noteq> BtcChainId" "BridgeChainId \<noteq> IncognitoChainId"
    by (simp_all add: BtcChainId_def IncognitoChainId_def BridgeChainId_def)
  then show ?case
    using 2 by (auto simp: Let_def newBaseChain_def newChainConfig_def split: if_splits)
qed simp

lemma tss_main_Running:
  assumes "tss_main x env (Inr c) args = Ret (Running nd)"
  obtains c' b kb k where "initConfig (ne_maddr env) (Inr c) args = Ret (Some (Inr c'))" "cfg_Bridge c' = Some b"
    and "getKeyringKeybase (ne_keyring env) [] (bs_SignerName b) (bs_SignerPasswd b) = Inr kb"
    and "getPrivateKey (ne_keyring env) (newKeys (bs_SignerName b) (bs_SignerPasswd b) kb) = Inr k"
    and "start_node x env c' (cosmosPrivateKeyToTMPrivateKey (ne_secp env) k) = Ret (Running nd)"
proof -
  obtain r where r: "initConfig (ne_maddr env) (Inr c) args = Ret r"
    using assms by (cases "initConfig (ne_maddr env) (Inr c) args") (auto simp: tss_main_def)
  obtain r1 where r1: "r = Some r1" using assms r by (cases r) (auto simp: tss_main_def)
  obtain c' where r2: "r1 = Inr c'" using assms r r1 by (cases r1) (auto simp: tss_main_def)
  have c': "initConfig (ne_maddr env) (Inr c) args = Ret (Some (Inr c'))" "\<not> cfg_Help c'"
    using assms r r1 r2 by (auto simp: tss_main_def)
  obtain b where b: "cfg_Bridge c' = Some b"
    using assms c' by (cases "cfg_Bridge c'") (auto simp: tss_main_def deref_def)
  let ?kb = "getKeyringKeybase (ne_keyring env) [] (bs_SignerName b) (bs_SignerPasswd b)"
  obtain kb where kb: "?kb = Inr kb" using assms c' b by (cases ?kb) (auto simp: tss_main_def deref_def)
  let ?k = "getPrivateKey (ne_keyring env) (newKeys (bs_SignerName b) (bs_SignerPasswd b) kb)"
  obtain k where k: "?k = Inr k" using assms c' b kb by (cases ?k) (auto simp: tss_main_def deref_def)
  have "start_node x env c' (cosmosPrivateKeyToTMPrivateKey (ne_secp env) k) = Ret (Running nd)"
    using assms c' b kb k by (simp add: tss_main_def deref_def)
  with c' b kb k that show ?thesis by blast
qed

lemma start_node_Running:
  assumes "start_node x env c key = Ret (Running nd)" "cfg_Bridge c = Some b"
  obtains k maddr valid gen h bps port rv pt mon ip fs tss chs where "key = Some k"
    and "fst (newTss x maddr valid gen h bps port (ne_pub env k, Some k) rv baseFolder pt mon None ip fs) = Ret (Inr tss)"
    and "init_chains (cfg_Chains c) [] = Ret chs"
    and "nd = \<lparr>nd_addr = cfg_TssAddr c, nd_server = tss, nd_signer = fst (newSigner tss (bs_BlockUrl b) (bs_StateUrl b)
         (newBridgeClientConfig (newChainClientConfig BridgeChainId (bs_BlockUrl b) (bs_StateUrl b)
            (bs_RpcUrl b) (bs_SignerName b) (bs_SignerPasswd b)) (bs_RelayerAddress b))),
       nd_scanner = newBridgeScanner (bs_BlockUrl b) (bs_StateUrl b), nd_queue = new_queue, nd_chains = chs, nd_wg = 0\<rparr>"
proof -
  note st = assms(1) [unfolded start_node_def deref_def]
  obtain p where p: "cfg_P2p c = Some p" using st by (cases "cfg_P2p c") auto
  obtain t where t: "cfg_Tss c = Some t" using st p by (cases "cfg_Tss c") auto
  obtain k where k: "key = Some k" using st p t assms(2) by (cases key) auto
  let ?new = "fst (newTss x (ne_maddr env) (ne_valid env) (ne_params env) (ne_host env) (pp_BootstrapPeers p)
         (pp_Port p) (ne_pub env k, Some k) (pp_RendezvousString p) baseFolder (tc_PartyTimeout t)
         (tc_EnableMonitor t) None (pp_ExternalIP p) (ne_fs env))"
  obtain a where a: "?new = Ret a" using st p t k assms(2) by (cases ?new) auto
  obtain tss where tss: "a = Inr tss" using st p t k assms(2) a by (cases a) auto
  show ?thesis
    using st p t k assms(2) a tss by (auto simp: out_bind_Ret_iff newSigner_def initChains_def intro!: that)
qed

text \<open>C28. A node that runs is wired as its configuration says: the HTTP server and the signer use one and the
  same tss server, which holds the key of the key ring; the bridge client and the scanner get their
  addresses, names and the relayer from the configuration after the flags.  There is a client for
  exactly the configured chains other than the bridge chain; that of \<open>btc\<close> is a Bitcoin client, that
  of \<open>incognito\<close> an Incognito client, each new, with a URL that the configuration gives under its own
  id and with no validator address.  The folder is always the empty one, whatever the configured base
  folder.\<close>

theorem node_wiring:
  assumes "tss_main x env (Inr c) args = Ret (Running nd)"
  shows "\<exists>c' b kb k. initConfig (ne_maddr env) (Inr c) args = Ret (Some (Inr c')) \<and> cfg_Bridge c' = Some b \<and>
    getKeyringKeybase (ne_keyring env) [] (bs_SignerName b) (bs_SignerPasswd b) = Inr kb \<and>
    getPrivateKey (ne_keyring env) (newKeys (bs_SignerName b) (bs_SignerPasswd b) kb) = Inr k \<and>
    sg_server (nd_signer nd) = nd_server nd \<and> sv_privateKey (nd_server nd) = k \<and>
    x_marshal_acc_pk x (ne_pub env k) = Inr (sv_localNodePubKey (nd_server nd)) \<and> sv_folder (nd_server nd) = [] \<and>
    nd_addr nd = cfg_TssAddr c' \<and> nd_queue nd = new_queue \<and>
    nd_scanner nd = newBridgeScanner (bs_BlockUrl b) (bs_StateUrl b) \<and>
    bc_cfg (sg_client (nd_signer nd)) = \<lparr>cf_ChainId = BridgeChainId, cf_BlockUrl = bs_BlockUrl b, cf_Stateurl = bs_StateUrl b,
      cf_RpcUrl = bs_RpcUrl b, cf_SignerName = bs_SignerName b, cf_SignerPasswd = bs_SignerPasswd b,
      cf_RelayerAddress = bs_RelayerAddress b\<rparr> \<and>
    (\<forall>id. mget (nd_chains nd) id \<noteq> None \<longleftrightarrow> id \<in> fst ` set (cfg_Chains c) \<and> id \<in> {BtcChainId, IncognitoChainId}) \<and>
    (\<forall>ch. mget (nd_chains nd) BtcChainId = Some ch \<longrightarrow>
      (\<exists>base. ch = BtcChain base \<and> (BtcChainId, cc_url (ch_cfg base)) \<in> set (cfg_Chains c) \<and>
        cc_validator (ch_cfg base) = [] \<and> ch_currentHeight base = 0 \<and> ch_shields base = [])) \<and>
    (\<forall>ch. mget (nd_chains nd) IncognitoChainId = Some ch \<longrightarrow>
      (\<exists>base. ch = IncognitoChain base \<and> (IncognitoChainId, cc_url (ch_cfg base)) \<in> set (cfg_Chains c) \<and>
        cc_validator (ch_cfg base) = [] \<and> ch_currentHeight base = 0 \<and> ch_shields base = []))"
proof -
  obtain c' b kb k where c': "initConfig (ne_maddr env) (Inr c) args = Ret (Some (Inr c'))" "cfg_Bridge c' = Some b"
    "getKeyringKeybase (ne_keyring env) [] (bs_SignerName b) (bs_SignerPasswd b) = Inr kb"
    "getPrivateKey (ne_keyring env) (newKeys (bs_SignerName b) (bs_SignerPasswd b) kb) = Inr k"
    and st: "start_node x env c' (cosmosPrivateKeyToTMPrivateKey (ne_secp env) k) = Ret (Running nd)"
    by (rule tss_main_Running [OF assms])
  show ?thesis
  proof (rule start_node_Running [OF st c'(2)], goal_cases)
    case (1 key maddr valid gen h bps port rv pt mon ip fs tss chs)
    have key: "key = k" using 1(1) by (simp add: cosmosPrivateKeyToTMPrivateKey_def split: if_splits)
    have cfg: "bc_cfg (sg_client (nd_signer nd)) = \<lparr>cf_ChainId = BridgeChainId, cf_BlockUrl = bs_BlockUrl b, cf_Stateurl = bs_StateUrl b,
        cf_RpcUrl = bs_RpcUrl b, cf_SignerName = bs_SignerName b, cf_SignerPasswd = bs_SignerPasswd b,
        cf_RelayerAddress = bs_RelayerAddress b\<rparr>" "sg_server (nd_signer nd) = nd_server nd"
      by (simp_all add: 1(4) newSigner_def newBridgeClient_def newBridgeClientConfig_def newChainClientConfig_def
          chain_client_config.extend_def)
    have ch: "\<forall>id. mget (nd_chains nd) id \<noteq> None \<longleftrightarrow> id \<in> fst ` set (cfg_Chains c) \<and> id \<in> {BtcChainId, IncognitoChainId}"
      using init_chains_ids [OF 1(3)] initConfig_chains [OF c'(1)] by (simp add: 1(4))
    have cl: "\<forall>ch. mget (nd_chains nd) BtcChainId = Some ch \<longrightarrow>
        (\<exists>base. ch = BtcChain base \<and> (BtcChainId, cc_url (ch_cfg base)) \<in> set (cfg_Chains c) \<and>
          cc_validator (ch_cfg base) = [] \<and> ch_currentHeight base = 0 \<and> ch_shields base = [])"
      "\<forall>ch. mget (nd_chains nd) IncognitoChainId = Some ch \<longrightarrow>
        (\<exists>base. ch = IncognitoChain base \<and> (IncognitoChainId, cc_url (ch_cfg base)) \<in> set (cfg_Chains c) \<and>
          cc_validator (ch_cfg base) = [] \<and> ch_currentHeight base = 0 \<and> ch_shields base = [])"
      using init_chains_clients [OF 1(3)] initConfig_chains [OF c'(1)] by (simp_all add: 1(4))
    have srv: "sv_folder tss = []" "x_marshal_acc_pk x (ne_pub env k) = Inr (sv_localNodePubKey tss)" "sv_privateKey tss = k"
      using newTss_Inr [OF 1(2)] by (simp_all add: baseFolder_def key)
    show ?case
      by (intro exI conjI, rule c'(1), rule c'(2), rule c'(3), rule c'(4), rule cfg(2))
        (use srv cfg(1) ch cl in \<open>simp_all add: 1(4)\<close>)
  qed
qed

section \<open>The property on a concrete input\<close>

definition sample_config :: config where
  "sample_config = \<lparr>cfg_TssAddr = ''127.0.0.1:8080'', cfg_Help = False, cfg_LogLevel = ''info'', cfg_PrettyLog = False,
     cfg_BaseFolder = ''/d'',
     cfg_Bridge = Some \<lparr>bs_BlockUrl = ''b'', bs_StateUrl = ''s'', bs_RpcUrl = ''r'', bs_RelayerAddress = ''relay'',
       bs_SignerName = ''n'', bs_SignerPasswd = ''p''\<rparr>,
     cfg_Chains = [(''incognito'', ''u''), (''btc'', [])],
     cfg_Tss = Some \<lparr>tc_PartyTimeout = 0, tc_KeyGenTimeout = 1, tc_KeySignTimeout = 1, tc_PreParamTimeout = 1,
       tc_EnableMonitor = True\<rparr>,
     cfg_P2p = Some \<lparr>pp_RendezvousString = ''rendezvous'', pp_Port = 6668, pp_BootstrapPeers = [], pp_ExternalIP = []\<rparr>\<rparr>"

definition sample_node_env :: node_env where
  "sample_node_env = \<lparr>ne_keyring = \<lparr>x_home_dir = Inr ''/home'', x_keyring_new = (\<lambda>h r. Inr 0),
       x_export_armor = (\<lambda>k n p. Inr n), x_unarmor = (\<lambda>a p. Inr [97])\<rparr>,
     ne_secp = True, ne_pub = id, ne_maddr = Inr, ne_valid = (\<lambda>n. True), ne_params = Inr 0,
     ne_host = \<lparr>h_privkey = None, h_resource = None, h_connmgr = None, h_host = Inr ''a'', h_dht = None, h_bootstrap = None,
       h_addrInfo = Inr, h_connect = (\<lambda>n p. True), h_ping = (\<lambda>p. True)\<rparr>,
     ne_fs = sample_fs\<rparr>"

lemma sample_init:
  "initConfig (ne_maddr sample_node_env) (Inr sample_config) [(''log_level'', FvString ''debug'')] =
     Ret (Some (Inr (sample_config\<lparr>cfg_LogLevel := ''debug'', cfg_Tss := map_option tss_defaults (cfg_Tss sample_config),
       cfg_P2p := map_option p2p_defaults (cfg_P2p sample_config)\<rparr>)))"
  by code_simp

lemma sample_comm_Start:
  "cm_bootstrap c = [] \<Longrightarrow> comm_Start (ne_host sample_node_env) c = (None, True, c\<lparr>cm_hostID := ''a''\<rparr>)"
proof -
  have "bootstrap_attempts 5 0 (\<lambda>i. None) None = None" by code_simp
  then show "cm_bootstrap c = [] \<Longrightarrow> ?thesis"
    by (simp add: comm_Start_def startChannel_def sample_node_env_def connectToBootstrapPeers_def
        bootStrapConnectivityCheck_def Let_def)
qed

lemma sample_start_node:
  "\<exists>nd. start_node sample_tss sample_node_env (sample_config\<lparr>cfg_LogLevel := ''debug'',
     cfg_Tss := map_option tss_defaults (cfg_Tss sample_config),
     cfg_P2p := map_option p2p_defaults (cfg_P2p sample_config)\<rparr>) (Some [97]) = Ret (Running nd)"
proof -
  have "x_marshal_acc_pk sample_tss b = Inr ''pool''" for b
    by (simp add: sample_tss_def sample_keygen_def storage_ext.extend_def sample_storage_defs)
  moreover have "ne_maddr sample_node_env = Inr" "ne_valid sample_node_env = (\<lambda>n. True)" "ne_params sample_node_env = Inr 0"
    "ne_pub sample_node_env = id" "ne_fs sample_node_env = sample_fs"
    by (simp_all add: sample_node_env_def)
  ultimately show ?thesis
    by (simp add: start_node_def sample_config_def deref_def newTss_def newFileStateMgr_def baseFolder_def
        retrieveP2PAddresses_def newCommunication_def getPriKeyRawBytes_def sample_comm_Start metric_Enable_def
        newMetric_def tss_defaults_def p2p_defaults_def newSigner_def initChains_def BtcChainId_def IncognitoChainId_def Let_def)
qed

theorem node_wiring_witness:
  "\<exists>nd. tss_main sample_tss sample_node_env (Inr sample_config) [(''log_level'', FvString ''debug'')] = Ret (Running nd) \<and>
     sv_folder (nd_server nd) = [] \<and> mget (nd_chains nd) ''btc'' \<noteq> None \<and> mget (nd_chains nd) ''bridge-network'' = None \<and>
     (\<forall>ch. mget (nd_chains nd) BtcChainId = Some ch \<longrightarrow> (\<exists>base. ch = BtcChain base))"
proof -
  obtain nd where st: "start_node sample_tss sample_node_env (sample_config\<lparr>cfg_LogLevel := ''debug'',
     cfg_Tss := map_option tss_defaults (cfg_Tss sample_config),
     cfg_P2p := map_option p2p_defaults (cfg_P2p sample_config)\<rparr>) (Some [97]) = Ret (Running nd)"
    using sample_start_node by blast
  have k: "cosmosPrivateKeyToTMPrivateKey (ne_secp sample_node_env) k = Some k"
    "getPrivateKey (ne_keyring sample_node_env) ks = Inr [97]"
    "s \<noteq> [] \<Longrightarrow> q \<noteq> [] \<Longrightarrow> getKeyringKeybase (ne_keyring sample_node_env) [] s q = Inr 0" for k ks s q
    by (simp_all add: cosmosPrivateKeyToTMPrivateKey_def getPrivateKey_def getKeyringKeybase_def getKeybase_def sample_node_env_def)
  have r: "tss_main sample_tss sample_node_env (Inr sample_config) [(''log_level'', FvString ''debug'')] = Ret (Running nd)"
    using st by (simp add: tss_main_def sample_init k deref_def) (simp add: sample_config_def k)
  have "fst ` set (cfg_Chains sample_config) = {''incognito'', ''btc''}" by (simp add: sample_config_def)
  then have m: "id \<in> fst ` set (cfg_Chains sample_config) \<longleftrightarrow> id = ''incognito'' \<or> id = ''btc''" for id
    by auto
  obtain "sv_folder (nd_server nd) = []" and ch: "\<forall>id. mget (nd_chains nd) id \<noteq> None \<longleftrightarrow>
      id \<in> fst ` set (cfg_Chains sample_config) \<and> id \<in> {BtcChainId, IncognitoChainId}"
    and kind: "\<forall>ch. mget (nd_chains nd) BtcChainId = Some ch \<longrightarrow> (\<exists>base. ch = BtcChain base)"
    using node_wiring [OF r] by blast
  moreover have "mget (nd_chains nd) ''btc'' \<noteq> None"
    using ch [rule_format, of "''btc''"] unfolding m BtcChainId_def by blast
  moreover have "mget (nd_chains nd) ''bridge-network'' = None"
    using ch [rule_format, of "''bridge-network''"] unfolding m by simp
  ultimately show ?thesis using r kind by blast
qed

end
