(* ===== verification/Signer_Sections.thy ===== *)
theory Signer_Sections
  imports Net_Signer
begin

text \<open>
  The critical sections of a pass of \<open>processKeygen\<close> (\<open>network/signer.go\<close>): \<open>Keygen\<close> holds \<open>tssKeyGenLocker\<close> for the
  whole call and \<open>broadcast\<close> holds \<open>broadcastLock\<close>; between them another goroutine may run.  One after the
  other they are the pass of theory \<open>Net_Signer\<close>.
\<close>

section \<open>The sections of a pass\<close>

definition keygen_section ::
  "bridge_ext \<Rightarrow> 'f tss_ext_scheme \<Rightarrow> network \<Rightarrow> keygen_call \<Rightarrow> int \<Rightarrow> keygen_value \<Rightarrow> signer
     \<Rightarrow> ((string \<times> blame_info) \<times> signer) outcome" where
  "keygen_section sx x net run height keygenReq s =
     out_bind (net_generateNewKey x (x_newPubKey sx) net run height (kv_members keygenReq) (sg_server s))
       (\<lambda>((pubKey, blame, err), t1).
         if bl_reason blame \<noteq> [] then Panic (bl_reason blame)
         else (case err of
             Some e \<Rightarrow> Panic (err_text e)
           | None \<Rightarrow> Ret ((fst pubKey, blame), s\<lparr>sg_server := t1\<rparr>)))"

definition report_section ::
  "bridge_ext \<Rightarrow> 'e http_ext_scheme \<Rightarrow> signer_env \<Rightarrow> int \<Rightarrow> keygen_value \<Rightarrow> string \<Rightarrow> blame_info \<Rightarrow> signer \<Rightarrow> signer outcome" where
  "report_section sx hx env height keygenReq pubKey blame s =
     (case ce_address (sx_chain env) of
        Inl e \<Rightarrow> Panic (err_text e)
      | Inr selfAddress \<Rightarrow>
         (if selfAddress \<noteq> cf_RelayerAddress (bc_cfg (sg_client s)) then Ret s
          else
            out_bind (sendKeygenToBridgeNetwork sx hx (sx_chain env) height pubKey blame (kv_members keygenReq)
                (kv_type keygenReq) (sx_time env) (sg_client s)) (\<lambda>(e, b).
              case e of
                Some e \<Rightarrow> Panic (err_text e)
              | None \<Rightarrow> Ret (s\<lparr>sg_client := b, sg_pools := sg_pools s @ [(height, pubKey)]\<rparr>))))"

definition sign_section ::
  "bridge_ext \<Rightarrow> signer_env \<Rightarrow> register_keygen \<Rightarrow> (bytes \<times> bytes) option outcome" where
  "sign_section sx env registerKeygen =
     (case x_json_members sx (rk_pool registerKeygen) (rk_members registerKeygen) of
        Inl e \<Rightarrow> Panic (err_text e)
      | Inr data \<Rightarrow>
         out_bind (remoteSign (sx_ref env) data (rk_pool registerKeygen) (rk_height registerKeygen) (sx_answer env)) (\<lambda>r.
           Ret (case r of Inl e \<Rightarrow> None | Inr (sig, recovery) \<Rightarrow> Some (data, sig))))"

definition register_section ::
  "bridge_ext \<Rightarrow> 'e http_ext_scheme \<Rightarrow> signer_env \<Rightarrow> bytes \<Rightarrow> bytes \<Rightarrow> signer \<Rightarrow> signer outcome" where
  "register_section sx hx env data sig s =
     (case ce_address (sx_chain env) of
        Inl e \<Rightarrow> Panic (err_text e)
      | Inr selfAddress \<Rightarrow>
         (if selfAddress \<noteq> cf_RelayerAddress (bc_cfg (sg_client s)) then Ret s
          else
            out_bind (sendRegisterKeygenToBridgeNetwork sx hx (sx_chain env) data sig (sg_client s)) (\<lambda>(err, b).
              case err of
                Some e \<Rightarrow> Panic (err_text e)
              | None \<Rightarrow> Ret (s\<lparr>sg_client := b, sg_registered := sg_registered s @ [(data, sig)]\<rparr>))))"

text \<open>The sections one after the other are the pass of a single loop.\<close>

lemma processKeygenReq_sections:
  "processKeygenReq sx hx x net env run h req s =
     out_bind (keygen_section sx x net run h req s) (\<lambda>((pk, blame), s1). report_section sx hx env h req pk blame s1)"
proof (cases "net_generateNewKey x (x_newPubKey sx) net run h (kv_members req) (sg_server s)")
  case (Ret v)
  obtain pk blame err t1 where "v = ((pk, blame, err), t1)" by (metis prod.exhaust)
  with Ret show ?thesis
    by (cases err) (auto simp: processKeygenReq_calls keygen_section_def report_section_def cong: option.case_cong split: sum.splits)
qed (simp add: processKeygenReq_calls keygen_section_def)

lemma processRegister_sections:
  "processRegister sx hx env r s =
     out_bind (sign_section sx env r) (\<lambda>a. case a of
         None \<Rightarrow> Ret (s\<lparr>sg_requeued := sg_requeued s @ [r]\<rparr>)
       | Some (data, sig) \<Rightarrow> register_section sx hx env data sig s)"
proof (cases "x_json_members sx (rk_pool r) (rk_members r)")
  case (Inr data)
  show ?thesis
  proof (cases "remoteSign (sx_ref env) data (rk_pool r) (rk_height r) (sx_answer env)")
    case (Ret a)
    with Inr show ?thesis
      by (cases a) (auto simp: processRegister_def sign_section_def register_section_def split: sum.splits)
  qed (simp add: Inr processRegister_def sign_section_def)
qed (simp add: processRegister_def sign_section_def)

end
