(* ===== verification/Bridge_Node.thy ===== *)
theory Bridge_Node
  imports Node Signer_Sections
begin

text \<open>
  The scanner and the signer of a bridge node together, as \<open>Signer.Start\<close> connects them: the blocks
  that \<open>scanKeygenBlock\<close> writes to the channel \<open>KeygenCh\<close> are the ones \<open>processKeygen\<close> receives.  The channel
  is unbuffered, so what is received is what was sent, in that order.
\<close>

section \<open>The client\<close>

lemma refresh_account_Ret:
  assumes "refresh_account x env h b = Ret (Inr b1)"
  shows "bc_cfg b1 = bc_cfg b" "bc_accepted b1 = bc_accepted b"
proof -
  have "bc_cfg b1 = bc_cfg b \<and> bc_accepted b1 = bc_accepted b"
  proof (cases "bc_currentBlockHeight b < h")
    case True
    then obtain r where r: "getAccountNumberAndSequenceNumber x env b = Ret r"
      using assms by (auto simp: refresh_account_def out_bind_Ret_iff)
    then show ?thesis using assms True by (cases r) (auto simp: refresh_account_def)
  qed (use assms in \<open>auto simp: refresh_account_def\<close>)
  then show "bc_cfg b1 = bc_cfg b" "bc_accepted b1 = bc_accepted b" by simp_all
qed

lemma broadcastTx_accepts:
  assumes "broadcastTx x env msgs b = Ret (Inr txId, b')"
  obtains sq where "bc_accepted b' = bc_accepted b @ [(sq, txId)]" "bc_cfg b' = bc_cfg b"
proof -
  obtain rh where rh: "getCurrentHeight x (ce_http env) (cf_BlockUrl (bc_cfg b)) = Ret rh"
    using assms by (auto simp: broadcastTx_def out_bind_Ret_iff)
  obtain h where h: "rh = Inr h" using assms rh by (cases rh) (auto simp: broadcastTx_def)
  obtain rb where rb: "refresh_account x env h b = Ret rb"
    using assms rh h by (auto simp: broadcastTx_def out_bind_Ret_iff)
  obtain b1 where b1: "rb = Inr b1" using assms rh h rb by (cases rb) (auto simp: broadcastTx_def)
  obtain rt where rt: "build_tx env msgs b1 = Ret rt"
    using assms rh h rb b1 by (auto simp: broadcastTx_def out_bind_Ret_iff)
  obtain seq tx where tx: "rt = Inr (seq, tx)" using assms rh h rb b1 rt by (cases rt) (auto simp: broadcastTx_def)
  obtain c where c: "ce_broadcast env tx = Inr c"
    using assms rh h rb b1 rt tx by (cases "ce_broadcast env tx") (auto simp: broadcastTx_def)
  have "settle x env seq c b1 = Ret (Inr txId, b')" using assms rh h rb b1 rt tx c by (simp add: broadcastTx_def)
  then have "bc_accepted b' = bc_accepted b1 @ [(seq, txId)]" "bc_cfg b' = bc_cfg b1"
    by (auto simp: settle_def Let_def out_bind_Ret_iff split: if_splits)
  then show ?thesis using that refresh_account_Ret [OF rb [unfolded b1]] by simp
qed

lemma sendTx_accepts:
  assumes "sendTx x env what m b = Ret (None, b')"
  obtains r where "bc_accepted b' = bc_accepted b @ [r]" "bc_cfg b' = bc_cfg b"
proof -
  obtain msg where m: "m = Inr msg" using assms by (cases m) (auto simp: sendTx_def)
  obtain a b1 where a: "broadcastTx x env [msg] b = Ret (a, b1)"
    using assms m by (cases "broadcastTx x env [msg] b") (auto simp: sendTx_def)
  obtain txId where "a = Inr txId" using assms m a by (cases a) (auto simp: sendTx_def)
  with assms m a have "broadcastTx x env [msg] b = Ret (Inr txId, b')" by (simp add: sendTx_def)
  then show ?thesis by (rule broadcastTx_accepts) (rule that)
qed

section \<open>The signer of the relayer\<close>

definition relayer :: "signer \<Rightarrow> string" where
  "relayer s = cf_RelayerAddress (bc_cfg (sg_client s))"

text \<open>What one step leaves: the heights of the new reports, the transactions accepted for them, and the rest.\<close>

definition reported :: "int list \<Rightarrow> signer \<Rightarrow> signer \<Rightarrow> bool" where
  "reported hs s s' \<longleftrightarrow> relayer s' = relayer s \<and> map fst (sg_pools s') = map fst (sg_pools s) @ hs \<and>
     length (bc_accepted (sg_client s')) + length (sg_pools s) + length (sg_registered s) =
       length (bc_accepted (sg_client s)) + length (sg_pools s') + length (sg_registered s')"

lemma reported_trans: "reported hs s s1 \<Longrightarrow> reported hs' s1 s' \<Longrightarrow> reported (hs @ hs') s s'"
  by (simp add: reported_def)

lemma keygen_section_reported:
  assumes "keygen_section sx x net run h req s = Ret ((pk, blame), s')"
  shows "reported [] s s'"
  using assms by (auto simp: keygen_section_def out_bind_Ret_iff reported_def relayer_def split: option.splits if_splits)

lemma report_section_reported:
  assumes "report_section sx hx env h req pk blame s = Ret s'" "ce_address (sx_chain env) = Inr (relayer s)"
  shows "reported [h] s s'"
proof -
  obtain e b where eb: "sendKeygenToBridgeNetwork sx hx (sx_chain env) h pk blame (kv_members req)
      (kv_type req) (sx_time env) (sg_client s) = Ret (e, b)"
    using assms by (auto simp: report_section_def relayer_def out_bind_Ret_iff)
  have e: "e = None" using assms eb by (cases e) (auto simp: report_section_def relayer_def)
  have s': "s' = s\<lparr>sg_client := b, sg_pools := sg_pools s @ [(h, pk)]\<rparr>"
    using assms eb e by (auto simp: report_section_def relayer_def)
  obtain r where "bc_accepted b = bc_accepted (sg_client s) @ [r]" "bc_cfg b = bc_cfg (sg_client s)"
    using eb e assms(2) by (auto simp: sendKeygenToBridgeNetwork_def sendKeygenTx_def elim: sendTx_accepts)
  with s' show ?thesis by (simp add: reported_def relayer_def)
qed

lemma register_section_reported:
  assumes "register_section sx hx env data sig s = Ret s'" "ce_address (sx_chain env) = Inr (relayer s)"
  shows "reported [] s s'"
proof -
  obtain err b where b: "sendRegisterKeygenToBridgeNetwork sx hx (sx_chain env) data sig (sg_client s) = Ret (err, b)"
    using assms by (auto simp: register_section_def relayer_def out_bind_Ret_iff)
  have e: "err = None" using assms b by (cases err) (auto simp: register_section_def relayer_def)
  have s': "s' = s\<lparr>sg_client := b, sg_registered := sg_registered s @ [(data, sig)]\<rparr>"
    using assms b e by (auto simp: register_section_def relayer_def)
  obtain q where "bc_accepted b = bc_accepted (sg_client s) @ [q]" "bc_cfg b = bc_cfg (sg_client s)"
    using b e assms(2) by (auto simp: sendRegisterKeygenToBridgeNetwork_def sendRegisterKeygenTx_def elim: sendTx_accepts)
  with s' show ?thesis by (simp add: reported_def relayer_def)
qed

lemma reported_requeued: "reported [] s (s\<lparr>sg_requeued := q\<rparr>)"
  by (simp add: reported_def relayer_def)

lemma processKeygenReq_reported:
  assumes "processKeygenReq sx hx x net env run h req s = Ret s'" "ce_address (sx_chain env) = Inr (relayer s)"
  shows "reported [h] s s'"
proof -
  obtain pk blame s1 where s1: "keygen_section sx x net run h req s = Ret ((pk, blame), s1)"
    "report_section sx hx env h req pk blame s1 = Ret s'"
    using assms(1) by (auto simp: processKeygenReq_sections out_bind_Ret_iff)
  have r: "reported [] s s1" by (rule keygen_section_reported [OF s1(1)])
  then have "relayer s1 = relayer s" by (simp add: reported_def)
  then have "reported [h] s1 s'" by (intro report_section_reported [OF s1(2)]) (simp add: assms(2))
  with r show ?thesis using reported_trans by fastforce
qed

lemma processKeygenBlock_reported:
  assumes "processKeygenBlock sx hx x net h reqs s = Ret s'"
    and "\<forall>(env, run, req)\<in>set reqs. ce_address (sx_chain env) = Inr (relayer s)"
  shows "reported (replicate (length reqs) h) s s'"
  using assms
proof (induction sx hx x net h reqs s rule: processKeygenBlock.induct)
  case (1 sx hx x net h s)
  then show ?case by (simp add: reported_def)
next
  case (2 sx hx x net h env run req reqs s)
  then obtain s1 where s1: "processKeygenReq sx hx x net env run h req s = Ret s1"
    "processKeygenBlock sx hx x net h reqs s1 = Ret s'" by (auto simp: out_bind_Ret_iff)
  have r: "reported [h] s s1" by (rule processKeygenReq_reported [OF s1(1)]) (use "2.prems"(2) in simp)
  have "reported (replicate (length reqs) h) s1 s'"
    by (rule "2.IH" [OF s1(2)]) (use "2.prems"(2) r in \<open>simp add: reported_def\<close>)
  with r show ?case using reported_trans by fastforce
qed

lemma processRegister_reported:
  assumes "processRegister sx hx env r s = Ret s'" "ce_address (sx_chain env) = Inr (relayer s)"
  shows "reported [] s s'"
proof -
  obtain a where "sign_section sx env r = Ret a"
    using assms(1) by (auto simp: processRegister_sections out_bind_Ret_iff)
  with assms show ?thesis
    by (cases a) (auto simp: processRegister_sections reported_requeued intro: register_section_reported)
qed

section \<open>A run\<close>

fun received :: "signer_event list \<Rightarrow> (int \<times> keygen_value list) list" where
  "received [] = []"
| "received (GotKeygen h reqs # es) = (h, map (\<lambda>(env, run, req). req) reqs) # received es"
| "received (e # es) = received es"

fun event_addresses :: "signer_event list \<Rightarrow> string res set" where
  "event_addresses [] = {}"
| "event_addresses (GotRegister env r # es) = insert (ce_address (sx_chain env)) (event_addresses es)"
| "event_addresses (GotKeygen h reqs # es) = (\<lambda>(env, run, req). ce_address (sx_chain env)) ` set reqs \<union> event_addresses es"
| "event_addresses (SignerStop # es) = event_addresses es"

lemma processKeygen_reported:
  assumes "processKeygen sx hx x net es s = Ret (False, s')" "event_addresses es \<subseteq> {Inr (relayer s)}"
  shows "reported (concat (map (\<lambda>(h, vs). replicate (length vs) h) (received es))) s s'"
  using assms
proof (induction sx hx x net es s rule: processKeygen.induct)
  case (3 sx hx x net env r es s)
  then obtain s1 where s1: "processRegister sx hx env r s = Ret s1" "processKeygen sx hx x net es s1 = Ret (False, s')"
    by (auto simp: out_bind_Ret_iff)
  have r: "reported [] s s1" by (rule processRegister_reported [OF s1(1)]) (use "3.prems"(2) in simp)
  moreover have "reported (concat (map (\<lambda>(h, vs). replicate (length vs) h) (received es))) s1 s'"
    by (rule "3.IH" [OF s1(2)]) (use "3.prems"(2) r in \<open>simp add: reported_def\<close>)
  ultimately show ?case using reported_trans by fastforce
next
  case (4 sx hx x net h reqs es s)
  then obtain s1 where s1: "processKeygenBlock sx hx x net h reqs s = Ret s1" "processKeygen sx hx x net es s1 = Ret (False, s')"
    by (auto simp: out_bind_Ret_iff)
  have r: "reported (replicate (length reqs) h) s s1"
    by (rule processKeygenBlock_reported [OF s1(1)]) (use "4.prems"(2) in auto)
  moreover have "reported (concat (map (\<lambda>(h, vs). replicate (length vs) h) (received es))) s1 s'"
    by (rule "4.IH" [OF s1(2)]) (use "4.prems"(2) r in \<open>simp add: reported_def\<close>)
  ultimately show ?case using reported_trans by fastforce
qed (simp_all add: reported_def)

lemma sorted_heights:
  assumes "sorted hs" "distinct hs" "set hs = {h \<in> {0<..n}. P h}"
  shows "hs = filter P [1..n]"
proof (rule sorted_distinct_set_unique [OF assms(1,2)])
  show "sorted (filter P [1..n])" "distinct (filter P [1..n])" by (simp_all add: sorted_wrt_filter)
  have "{h \<in> {0<..n}. P h} = {h \<in> {1..n}. P h}" by (intro Collect_cong) auto
  then show "set hs = set (filter P [1..n])" unfolding assms(3) set_filter set_upto .
qed

lemma concat_single:
  "(\<And>b. b \<in> set l \<Longrightarrow> length (g b) = 1) \<Longrightarrow>
     concat (map (\<lambda>(h, vs). replicate (length vs) h) (map (\<lambda>b. (f b, g b)) l)) = map f l"
  by (induction l) auto

text \<open>The blocks of a faithful scan: those of the chain, in order, each once.\<close>

lemma scanner_heights:
  assumes "scanKeygenBlock hx scans (newBridgeScanner blockUrl stateUrl) = Ret sc"
    and "\<And>http. http \<in> polls scans \<Longrightarrow> faithful hx stateUrl chain http"
    and "\<forall>http\<in>polls scans. getRegisterKeygen hx http stateUrl \<noteq> Ret (Inl ErrConnectionRefused)"
    and "\<And>h b. chain h = Some b \<Longrightarrow> kb_height b = h \<and> length (kb_keygens b) = 1"
  shows "map kb_height (keygens_of (sc_out sc)) = filter (\<lambda>h. chain h \<noteq> None) [1..sc_current sc]"
    and "b \<in> set (keygens_of (sc_out sc)) \<Longrightarrow> length (kb_keygens b) = 1"
proof -
  obtain hs where hs: "sorted hs" "map Some (keygens_of (sc_out sc)) = map chain hs"
    "{h \<in> {0<..sc_current sc}. chain h \<noteq> None} \<subseteq> set hs" "distinct hs" "set hs \<subseteq> {0<..sc_current sc}"
    using scanner_run [OF assms(1,2)] assms(3) by blast
  have some: "chain h \<noteq> None" if "h \<in> set hs" for h
  proof -
    have "chain h \<in> set (map Some (keygens_of (sc_out sc)))" unfolding hs(2) using that by simp
    then show ?thesis by auto
  qed
  have h: "hs = filter (\<lambda>h. chain h \<noteq> None) [1..sc_current sc]"
    by (rule sorted_heights [OF hs(1,4)]) (use hs(3,5) some in blast)
  have ks: "chain (hs ! i) = Some (keygens_of (sc_out sc) ! i)" if "i < length hs" for i
    using that arg_cong [OF hs(2), of length] arg_cong [OF hs(2), of "\<lambda>l. l ! i"] by simp
  have "map kb_height (keygens_of (sc_out sc)) = hs"
    using arg_cong [OF hs(2), of length] ks assms(4) by (intro nth_equalityI) auto
  with h show "map kb_height (keygens_of (sc_out sc)) = filter (\<lambda>h. chain h \<noteq> None) [1..sc_current sc]" by simp
  assume "b \<in> set (keygens_of (sc_out sc))"
  then have "Some b \<in> set (map chain hs)" unfolding hs(2) [symmetric] by simp
  then show "length (kb_keygens b) = 1" using assms(4) by auto
qed

text \<open>The relayer reports every key generation of its chain, once and in order: when the
  scanner has followed the chain up to some height with a node that answers every query, and the signer
  has processed exactly the blocks that the scanner handed over and is still running, then the keys it has
  reported carry the heights of the keygen blocks up to that height, in ascending order, each once,
  and the bridge chain has accepted exactly one transaction for every report and registration.\<close>

lemma relayer_reports_all:
  assumes "scanKeygenBlock hx scans (newBridgeScanner blockUrl stateUrl) = Ret sc"
    and "\<And>http. http \<in> polls scans \<Longrightarrow> faithful hx stateUrl chain http"
    and "\<forall>http\<in>polls scans. getRegisterKeygen hx http stateUrl \<noteq> Ret (Inl ErrConnectionRefused)"
    and "\<And>h b. chain h = Some b \<Longrightarrow> kb_height b = h \<and> length (kb_keygens b) = 1"
    and "processKeygen sx hx x net es (fst (newSigner t blockUrl stateUrl cfg)) = Ret (False, s)"
    and "received es = map (\<lambda>b. (kb_height b, kb_keygens b)) (keygens_of (sc_out sc))"
    and "event_addresses es \<subseteq> {Inr (cf_RelayerAddress cfg)}"
  shows "map fst (sg_pools s) = filter (\<lambda>h. chain h \<noteq> None) [1..sc_current sc] \<and>
    length (bc_accepted (sg_client s)) = length (sg_pools s) + length (sg_registered s)"
proof -
  note sc = scanner_heights [OF assms(1-4)]
  have "concat (map (\<lambda>(h, vs). replicate (length vs) h) (map (\<lambda>b. (kb_height b, kb_keygens b)) (keygens_of (sc_out sc)))) =
      map kb_height (keygens_of (sc_out sc))"
    by (rule concat_single) (rule sc(2))
  with processKeygen_reported [OF assms(5)] assms(6,7) sc(1) show ?thesis
    by (simp add: reported_def relayer_def newSigner_def newBridgeClient_def)
qed

section \<open>The property on a concrete input\<close>

text \<open>A chain of ten blocks with a keygen in the last one.\<close>

definition sample_http10 :: http_ext where
  "sample_http10 = sample_http\<lparr>x_json_keygen := (\<lambda>b. Inr (Some \<lparr>kbr_code = (if b = [1] then 0 else 5), kbr_index = ''i'',
     kbr_height = itoa 10, kbr_keygens = [\<lparr>ke_id = ''k'', ke_type = 0, ke_members = [''c'', ''a'', ''b'']\<rparr>]\<rparr>))\<rparr>"

definition sample_client10 :: http_client where
  "sample_client10 m url body =
     (if url = ''b/abci_info'' then Inr (str_bytes (itoa 10))
      else if url = keygen_block_url ''s'' 10 then Inr [1] else Inr [5])"

definition sample_chain10 :: "int \<Rightarrow> keygen_block option" where
  "sample_chain10 h = (if h = 10 then Some \<lparr>kb_index = ''k'', kb_height = 10, kb_keygens = [sample_keygen_value]\<rparr> else None)"

lemma sample_height10: "getCurrentHeight sample_http10 sample_client10 ''b'' = Ret (Inr 10)"
  by (simp add: getCurrentHeight_def get_json_def sample_http10_def sample_http_def keygen_block_url_def
      sample_client10_def parseInt64_itoa int64_def)

lemma sample_queries10:
  "getKeygenBlock sample_http10 sample_client10 ''s'' h = Ret (case sample_chain10 h of None \<Rightarrow> Inl ErrNotFoundKeyGenBlock | Some b \<Rightarrow> Inr b)"
  "getRegisterKeygen sample_http10 sample_client10 ''s'' = Ret (Inl ErrNotFoundKeyGenBlock)"
proof -
  have "keygen_block_url ''s'' h = keygen_block_url ''s'' 10 \<longleftrightarrow> h = 10" using keygen_block_url_inject by blast
  then show "getKeygenBlock sample_http10 sample_client10 ''s'' h =
      Ret (case sample_chain10 h of None \<Rightarrow> Inl ErrNotFoundKeyGenBlock | Some b \<Rightarrow> Inr b)"
    by (simp add: getKeygenBlock_def get_json_def sample_http10_def sample_http_def sample_client10_def sample_chain10_def
        sample_keygen_value_def parseInt64_itoa int64_def) (simp add: keygen_block_url_def)
  show "getRegisterKeygen sample_http10 sample_client10 ''s'' = Ret (Inl ErrNotFoundKeyGenBlock)"
    by (simp add: getRegisterKeygen_def get_json_def sample_http10_def sample_http_def sample_client10_def keygen_block_url_def)
qed

text \<open>The signer does not query keygen blocks.\<close>

lemma sample_process10:
  "processKeygenReq sx sample_http10 x net env run h req s = processKeygenReq sx sample_http x net env run h req s"
proof -
  have h: "getCurrentHeight sample_http10 = getCurrentHeight sample_http"
    by (intro ext) (simp add: getCurrentHeight_def sample_http10_def)
  have a: "getAccountInfo sample_http10 = getAccountInfo sample_http"
    by (intro ext) (simp add: getAccountInfo_def sample_http10_def)
  show ?thesis
    unfolding processKeygenReq_calls sendKeygenToBridgeNetwork_def sendKeygenTx_def sendTx_def broadcastTx_def
      refresh_account_def settle_def getAccountNumberAndSequenceNumber_def h a by (rule refl)
qed

lemma sample_scan10:
  "scanKeygenBlock sample_http10 (map ScPoll [sample_client10, sample_client10, sample_client10, sample_client10, sample_client10,
      sample_client10, sample_client10, sample_client10, sample_client10, sample_client10]) (newBridgeScanner ''b'' ''s'') =
   Ret \<lparr>sc_current = 10, sc_registered = False, sc_blockUrl = ''b'', sc_stateUrl = ''s'',
     sc_out = [SKeygen \<lparr>kb_index = ''k'', kb_height = 10, kb_keygens = [sample_keygen_value]\<rparr>]\<rparr>"
  by (simp add: scan_poll_def scanner_height_def scan_register_def newBridgeScanner_def sample_height10 sample_queries10
      sample_chain10_def Let_def)

lemma relayer_reports_all_sample:
  "\<exists>s. processKeygen sample_bridge sample_http10 sample_tss no_network
       [GotKeygen 10 [(sample_sign_env, sample_keygen_call, sample_keygen_value)]] sample_node_signer = Ret (False, s) \<and>
     map fst (sg_pools s) = [10] \<and> length (bc_accepted (sg_client s)) = 1 + length (sg_registered s)"
proof -
  let ?es = "[GotKeygen 10 [(sample_sign_env, sample_keygen_call, sample_keygen_value)]]"
  obtain s where s: "processKeygenReq sample_bridge sample_http sample_tss no_network sample_sign_env sample_keygen_call 10
       sample_keygen_value sample_node_signer = Ret s" "sg_pools s = [(10, ''pool'')]"
    using sample_processKeygenReq by blast
  have n: "fst (newSigner sample_server ''b'' ''s'' sample_cfg) = sample_node_signer"
    by (simp add: newSigner_def sample_node_signer_def)
  have r: "processKeygen sample_bridge sample_http10 sample_tss no_network ?es (fst (newSigner sample_server ''b'' ''s'' sample_cfg)) =
      Ret (False, s)"
    using s(1) by (simp add: n sample_process10)
  have "event_addresses ?es \<subseteq> {Inr (cf_RelayerAddress sample_cfg)}"
    by (simp add: sample_sign_env_def sample_env_def sample_cfg_def newBridgeClientConfig_def chain_client_config.extend_def
        newChainClientConfig_def)
  moreover have "received ?es = map (\<lambda>b. (kb_height b, kb_keygens b))
      (keygens_of [SKeygen \<lparr>kb_index = ''k'', kb_height = 10, kb_keygens = [sample_keygen_value]\<rparr>])" by simp
  moreover have "kb_height b = h \<and> length (kb_keygens b) = 1" if "sample_chain10 h = Some b" for h b
    using that by (auto simp: sample_chain10_def split: if_splits)
  moreover have "polls (map ScPoll [sample_client10, sample_client10, sample_client10, sample_client10, sample_client10,
      sample_client10, sample_client10, sample_client10, sample_client10, sample_client10]) = {sample_client10}" by simp
  ultimately have "length (bc_accepted (sg_client s)) = length (sg_pools s) + length (sg_registered s)"
    using relayer_reports_all [OF sample_scan10 _ _ _ r, of sample_chain10] by (simp add: faithful_def sample_queries10)
  with r s(2) show ?thesis by (simp add: n)
qed

end
