(* ===== verification/Signer_Loops.thy ===== *)
theory Signer_Loops
  imports Bridge_Node "HOL-Library.Sublist"
begin

text \<open>
  \<open>Signer.Start\<close> (\<open>network/signer.go\<close>): the scanner and the goroutines that run \<open>processKeygen\<close> on its two
  unbuffered channels.  Start launches the loop twice.  What the loops share is guarded: \<open>Keygen\<close> holds
  \<open>tssKeyGenLocker\<close> for the whole call and \<open>broadcast\<close> holds \<open>broadcastLock\<close>, so a pass of a loop is a sequence of
  sections between which the other loop may run.  A loop whose \<open>RemoteSign\<close> failed writes the registration back
  to the channel it reads from, and waits there until the other loop takes it.
\<close>

section \<open>The loops and the channels\<close>

text \<open>Where a loop is: waiting in its select, with a registration to sign, with its signature, in the send that
  returns a registration to the channel, or with the rest of a keygen block, before and after a key generation.\<close>

datatype loop =
    LIdle
  | LSign register_keygen
  | LRegister bytes bytes
  | LRequeue register_keygen
  | LBlock int "keygen_value list"
  | LReport int keygen_value string blame_info "keygen_value list"

text \<open>The node: what the loops share, the loops, and what the scanner has yet to write.  A panic in any
  goroutine stops the node.\<close>

record signer_node =
  nd_signer :: signer
  nd_loops :: "loop list"
  nd_offers :: "scan_output list"
  nd_panic :: "string option"

definition start_loops :: "nat \<Rightarrow> scan_output list \<Rightarrow> signer \<Rightarrow> signer_node" where
  "start_loops n offers s = \<lparr>nd_signer = s, nd_loops = replicate n LIdle, nd_offers = offers, nd_panic = None\<rparr>"

text \<open>The next section of a loop that does not wait for a channel.\<close>

fun loop_section ::
  "bridge_ext \<Rightarrow> 'e http_ext_scheme \<Rightarrow> 'f tss_ext_scheme \<Rightarrow> network \<Rightarrow> signer_env \<Rightarrow> keygen_call \<Rightarrow> loop \<Rightarrow> signer
     \<Rightarrow> (loop \<times> signer) outcome" where
  "loop_section sx hx x net env run (LSign r) s =
     out_bind (sign_section sx env r) (\<lambda>a. Ret (case a of
         None \<Rightarrow> (LRequeue r, s\<lparr>sg_requeued := sg_requeued s @ [r]\<rparr>)
       | Some (data, sig) \<Rightarrow> (LRegister data sig, s)))"
| "loop_section sx hx x net env run (LRegister data sig) s =
     out_bind (register_section sx hx env data sig s) (\<lambda>s'. Ret (LIdle, s'))"
| "loop_section sx hx x net env run (LBlock h []) s = Ret (LIdle, s)"
| "loop_section sx hx x net env run (LBlock h (req # reqs)) s =
     out_bind (keygen_section sx x net run h req s) (\<lambda>((pk, blame), s'). Ret (LReport h req pk blame reqs, s'))"
| "loop_section sx hx x net env run (LReport h req pk blame reqs) s =
     out_bind (report_section sx hx env h req pk blame s) (\<lambda>s'. Ret (LBlock h reqs, s'))"
| "loop_section sx hx x net env run l s = Ret (l, s)"

definition waits :: "loop \<Rightarrow> bool" where
  "waits l \<longleftrightarrow> (case l of LIdle \<Rightarrow> True | LRequeue r \<Rightarrow> True | _ \<Rightarrow> False)"

definition set_loop :: "nat \<Rightarrow> loop \<Rightarrow> signer_node \<Rightarrow> signer_node" where
  "set_loop i l n = n\<lparr>nd_loops := (nd_loops n)[i := l]\<rparr>"

definition after_section :: "nat \<Rightarrow> (loop \<times> signer) outcome \<Rightarrow> signer_node \<Rightarrow> signer_node" where
  "after_section i res n =
     (case res of
        Panic m \<Rightarrow> n\<lparr>nd_panic := Some m\<rparr>
      | Ret (l, s) \<Rightarrow> set_loop i l (n\<lparr>nd_signer := s\<rparr>))"

definition at_loop :: "signer_node \<Rightarrow> nat \<Rightarrow> loop \<Rightarrow> bool" where
  "at_loop n i l \<longleftrightarrow> nd_panic n = None \<and> i < length (nd_loops n) \<and> nd_loops n ! i = l"

text \<open>A step: a loop receives what the scanner writes or what another loop returns, or runs its next section,
  in any surroundings of the set \<open>E\<close>.\<close>

inductive node_step ::
  "signer_env set \<Rightarrow> bridge_ext \<Rightarrow> 'e http_ext_scheme \<Rightarrow> 'f tss_ext_scheme \<Rightarrow> network \<Rightarrow> signer_node \<Rightarrow> signer_node \<Rightarrow> bool"
  for E sx hx x net where
  receive_block: "at_loop n i LIdle \<Longrightarrow> nd_offers n = SKeygen b # offers \<Longrightarrow>
    node_step E sx hx x net n (set_loop i (LBlock (kb_height b) (kb_keygens b)) (n\<lparr>nd_offers := offers\<rparr>))"
| receive_register: "at_loop n i LIdle \<Longrightarrow> nd_offers n = SRegister r # offers \<Longrightarrow>
    node_step E sx hx x net n (set_loop i (LSign r) (n\<lparr>nd_offers := offers\<rparr>))"
| receive_requeued: "at_loop n i LIdle \<Longrightarrow> at_loop n j (LRequeue r) \<Longrightarrow>
    node_step E sx hx x net n (set_loop i (LSign r) (set_loop j LIdle n))"
| run_section: "at_loop n i l \<Longrightarrow> \<not> waits l \<Longrightarrow> env \<in> E \<Longrightarrow>
    node_step E sx hx x net n (after_section i (loop_section sx hx x net env run l (nd_signer n)) n)"

text \<open>Nothing is left to do.\<close>

definition node_quiet :: "signer_node \<Rightarrow> bool" where
  "node_quiet n \<longleftrightarrow> nd_offers n = [] \<and> (\<forall>l\<in>set (nd_loops n). l = LIdle)"

inductive_cases node_stepE: "node_step E sx hx x net n n'"

lemma at_loopD: "at_loop n i l \<Longrightarrow> nd_panic n = None \<and> i < length (nd_loops n) \<and> nd_loops n ! i = l"
  by (simp add: at_loop_def)

lemma set_loop_simps [simp]:
  "nd_signer (set_loop i l n) = nd_signer n" "nd_offers (set_loop i l n) = nd_offers n"
  "nd_panic (set_loop i l n) = nd_panic n" "nd_loops (set_loop i l n) = (nd_loops n)[i := l]"
  by (simp_all add: set_loop_def)

lemma after_section_simps [simp]:
  "after_section i (Panic m) n = n\<lparr>nd_panic := Some m\<rparr>" "after_section i (Ret (l, s)) n = set_loop i l (n\<lparr>nd_signer := s\<rparr>)"
  by (simp_all add: after_section_def)

section \<open>What the loops hold\<close>

text \<open>A quantity of the loops, summed over them, changes with the loop that moves.\<close>

definition loop_total :: "(loop \<Rightarrow> 'b::comm_monoid_add) \<Rightarrow> signer_node \<Rightarrow> 'b" where
  "loop_total f n = sum_list (map f (nd_loops n))"

lemma sum_list_update_add:
  "i < length xs \<Longrightarrow> sum_list (map f (xs[i := y])) + f (xs ! i) = sum_list (map f xs) + f y"
  for f :: "'a \<Rightarrow> 'b::comm_monoid_add"
proof (induction xs arbitrary: i)
  case (Cons x xs)
  then show ?case by (cases i) (simp_all add: ac_simps)
qed simp

lemma loop_total_set_loop:
  assumes "at_loop n i l"
  shows "loop_total f (set_loop i l' n) + f l = loop_total f n + f l'"
  using at_loopD [OF assms] sum_list_update_add [of i "nd_loops n" f l'] by (simp add: loop_total_def)

lemma loop_total_update [simp]: "loop_total f (n\<lparr>nd_signer := s\<rparr>) = loop_total f n" "loop_total f (n\<lparr>nd_offers := os\<rparr>) = loop_total f n"
  by (simp_all add: loop_total_def)

lemma at_loop_update [simp]:
  "at_loop (n\<lparr>nd_signer := s\<rparr>) i l = at_loop n i l" "at_loop (n\<lparr>nd_offers := os\<rparr>) i l = at_loop n i l"
  by (simp_all add: at_loop_def)

lemma at_loop_set_loop: "at_loop n i l \<Longrightarrow> at_loop n j l' \<Longrightarrow> i \<noteq> j \<Longrightarrow> at_loop (set_loop j m n) i l"
  by (simp add: at_loop_def)

lemma loop_total_handover:
  assumes "at_loop n i l" "at_loop n j m" "l \<noteq> m"
  shows "loop_total f (set_loop i l' (set_loop j m' n)) + f l + f m = loop_total f n + f l' + f m'"
proof -
  have "i \<noteq> j" using assms by (auto simp: at_loop_def)
  then have "at_loop (set_loop j m' n) i l" by (intro at_loop_set_loop [OF assms(1,2)])
  from loop_total_set_loop [OF this, of f l'] loop_total_set_loop [OF assms(2), of f m'] show ?thesis
    by (simp add: ac_simps)
qed

text \<open>Registrations on their way to a signature, and the heights of the keygen requests that are not reported yet.\<close>

definition holds :: "loop \<Rightarrow> nat" where
  "holds l = (case l of LSign r \<Rightarrow> 1 | LRequeue r \<Rightarrow> 1 | _ \<Rightarrow> 0)"

definition pending :: "loop \<Rightarrow> int multiset" where
  "pending l = (case l of
       LBlock h reqs \<Rightarrow> replicate_mset (length reqs) h
     | LReport h req pk blame reqs \<Rightarrow> replicate_mset (Suc (length reqs)) h
     | _ \<Rightarrow> {#})"

definition offered :: "scan_output list \<Rightarrow> int multiset" where
  "offered offers = sum_list (map (\<lambda>b. replicate_mset (length (kb_keygens b)) (kb_height b)) (keygens_of offers))"

lemma loop_simps [simp]:
  "holds LIdle = 0" "holds (LSign r) = 1" "holds (LRegister d g) = 0" "holds (LRequeue r) = 1" "holds (LBlock h reqs) = 0"
  "holds (LReport h req pk b reqs) = 0"
  "pending LIdle = {#}" "pending (LSign r) = {#}" "pending (LRegister d g) = {#}" "pending (LRequeue r) = {#}"
  "pending (LBlock h reqs) = replicate_mset (length reqs) h"
  "pending (LReport h req pk b reqs) = replicate_mset (Suc (length reqs)) h"
  "waits LIdle" "waits (LRequeue r)" "\<not> waits (LSign r)" "\<not> waits (LRegister d g)" "\<not> waits (LBlock h reqs)"
  "\<not> waits (LReport h req pk b reqs)"
  by (simp_all add: holds_def pending_def waits_def)

lemma offered_simps [simp]:
  "offered [] = {#}" "offered (SRegister r # os) = offered os"
  "offered (SKeygen b # os) = replicate_mset (length (kb_keygens b)) (kb_height b) + offered os"
  by (simp_all add: offered_def)

lemma loop_section_Ret:
  assumes "loop_section sx hx x net env run l s = Ret (l', s')" "\<not> waits l"
  obtains (signed) r a where "l = LSign r" "sign_section sx env r = Ret a" "s' = (if a = None then s\<lparr>sg_requeued := sg_requeued s @ [r]\<rparr> else s)"
      "l' = (case a of None \<Rightarrow> LRequeue r | Some (d, g) \<Rightarrow> LRegister d g)"
  | (registered) d g where "l = LRegister d g" "register_section sx hx env d g s = Ret s'" "l' = LIdle"
  | (finished) h where "l = LBlock h []" "l' = LIdle" "s' = s"
  | (keygen) h req reqs pk blame where "l = LBlock h (req # reqs)" "keygen_section sx x net run h req s = Ret ((pk, blame), s')"
      "l' = LReport h req pk blame reqs"
  | (report) h req reqs pk blame where "l = LReport h req pk blame reqs" "report_section sx hx env h req pk blame s = Ret s'"
      "l' = LBlock h reqs"
proof (cases l)
  case (LSign r)
  with assms obtain a where "sign_section sx env r = Ret a" by (auto simp: out_bind_Ret_iff)
  with LSign assms show ?thesis by (intro signed [of r a]) (cases a, auto)+
next
  case (LBlock h reqs)
  with assms show ?thesis
    by (cases reqs) (auto simp: out_bind_Ret_iff intro: finished keygen)
qed (use assms registered report in \<open>auto simp: out_bind_Ret_iff\<close>)

section \<open>Two loops are never stuck\<close>

text \<open>At most one registration is on its way, because the scanner writes one.\<close>

definition one_flight :: "nat \<Rightarrow> signer_node \<Rightarrow> bool" where
  "one_flight k n \<longleftrightarrow> length (nd_loops n) = k \<and> length (registers_of (nd_offers n)) + loop_total holds n \<le> 1"

lemma one_flight_step:
  assumes "one_flight k n" "node_step E sx hx x net n n'"
  shows "one_flight k n'"
  using assms(2)
proof (cases rule: node_step.cases)
  case (receive_block i b offers)
  then show ?thesis using assms(1) loop_total_set_loop [of "n\<lparr>nd_offers := offers\<rparr>" i LIdle holds] by (simp add: one_flight_def)
next
  case (receive_register i r offers)
  then show ?thesis
    using assms(1) loop_total_set_loop [of "n\<lparr>nd_offers := offers\<rparr>" i LIdle holds "LSign r"] by (simp add: one_flight_def)
next
  case (receive_requeued i j r)
  then show ?thesis
    using assms(1) loop_total_handover [OF receive_requeued(2,3), of holds "LSign r" LIdle] by (simp add: one_flight_def)
next
  case (run_section i l env run)
  show ?thesis
  proof (cases "loop_section sx hx x net env run l (nd_signer n)")
    case (Ret v)
    obtain l' s' where v: "v = (l', s')" by fastforce
    have "holds l' \<le> holds l" using Ret v run_section(3) by (auto elim!: loop_section_Ret split: option.splits)
    with run_section v Ret show ?thesis
      using assms(1) loop_total_set_loop [of "n\<lparr>nd_signer := s'\<rparr>" i l holds l'] by (simp add: one_flight_def)
  qed (use run_section assms(1) in \<open>simp add: one_flight_def loop_total_def\<close>)
qed

interpretation flight: step_rel "node_step E sx hx x net" "one_flight k" for E sx hx x net k
  by unfold_locales (rule one_flight_step)

lemma all_requeued:
  assumes "\<forall>l\<in>set ls. waits l \<and> l \<noteq> LIdle"
  shows "sum_list (map holds ls) = length ls"
  using assms by (induction ls) (auto simp: waits_def holds_def split: loop.splits)

lemma node_progress:
  assumes "one_flight k n" "2 \<le> k" "nd_panic n = None" "E \<noteq> {}"
  shows "node_quiet n \<or> (\<exists>n'. node_step E sx hx x net n n')"
proof (cases "\<forall>l\<in>set (nd_loops n). waits l")
  case False
  then obtain i where i: "i < length (nd_loops n)" "\<not> waits (nd_loops n ! i)" by (auto simp: in_set_conv_nth)
  obtain env where "env \<in> E" using assms(4) by blast
  then have "node_step E sx hx x net n (after_section i (loop_section sx hx x net env run (nd_loops n ! i) (nd_signer n)) n)" for run
    using i assms(3) by (intro node_step.run_section) (simp_all add: at_loop_def)
  then show ?thesis by blast
next
  case wait: True
  have "\<not> (\<forall>l\<in>set (nd_loops n). l \<noteq> LIdle)"
    using all_requeued [of "nd_loops n"] wait assms(1,2) by (auto simp: one_flight_def loop_total_def)
  then obtain i where i: "at_loop n i LIdle" using assms(3) by (auto simp: at_loop_def in_set_conv_nth)
  show ?thesis
  proof (cases "nd_offers n")
    case (Cons off offers)
    then show ?thesis using i by (cases off) (auto intro: node_step.receive_block node_step.receive_register)
  next
    case Nil
    show ?thesis
    proof (cases "\<exists>l\<in>set (nd_loops n). l \<noteq> LIdle")
      case True
      then obtain j where j: "j < length (nd_loops n)" "waits (nd_loops n ! j)" "nd_loops n ! j \<noteq> LIdle"
        using wait by (metis in_set_conv_nth)
      then obtain r where "at_loop n j (LRequeue r)"
        using assms(3) by (cases "nd_loops n ! j") (auto simp: at_loop_def)
      with i show ?thesis by (auto intro: node_step.receive_requeued)
    qed (use Nil in \<open>auto simp: node_quiet_def\<close>)
  qed
qed

lemma one_flight_start:
  "length (registers_of offers) \<le> 1 \<Longrightarrow> one_flight k (start_loops k offers s)"
  by (simp add: one_flight_def start_loops_def loop_total_def sum_list_replicate)

lemma scanner_one_register:
  "scanKeygenBlock x es (newBridgeScanner blockUrl stateUrl) = Ret sc \<Longrightarrow> length (registers_of (sc_out sc)) \<le> 1"
  by (drule scanKeygenBlock_one) (auto simp: one_register_def newBridgeScanner_def)

text \<open>One loop alone is stuck as soon as the signing of a registration fails.\<close>

lemma one_loop_stuck:
  assumes "nd_loops n = [LRequeue r]"
  shows "\<not> node_step E sx hx x net n n'"
proof
  assume "node_step E sx hx x net n n'"
  then show False using assms by (auto simp: at_loop_def elim!: node_stepE)
qed

section \<open>Every key generation is reported once\<close>

definition reported_or_pending :: "int multiset \<Rightarrow> string \<Rightarrow> signer_node \<Rightarrow> bool" where
  "reported_or_pending hs R n \<longleftrightarrow>
     relayer (nd_signer n) = R \<and>
     mset (map fst (sg_pools (nd_signer n))) + offered (nd_offers n) + loop_total pending n = hs \<and>
     length (bc_accepted (sg_client (nd_signer n))) =
       length (sg_pools (nd_signer n)) + length (sg_registered (nd_signer n))"

lemma loop_section_reported:
  assumes "loop_section sx hx x net env run l s = Ret (l', s')" "\<not> waits l" "ce_address (sx_chain env) = Inr (relayer s)"
  obtains hs where "reported hs s s'" "mset hs + pending l' = pending l"
  using assms(1,2)
proof (cases rule: loop_section_Ret)
  case (signed r a)
  then show ?thesis by (intro that [of "[]"]) (auto simp: reported_def relayer_def split: option.splits)
next
  case (registered d g)
  then show ?thesis using register_section_reported assms(3) by (intro that [of "[]"]) auto
next
  case (finished h)
  then show ?thesis by (intro that [of "[]"]) (auto simp: reported_def)
next
  case (keygen h req reqs pk blame)
  then show ?thesis using keygen_section_reported by (intro that [of "[]"]) auto
next
  case (report h req reqs pk blame)
  then show ?thesis using report_section_reported assms(3) by (intro that [of "[h]"]) auto
qed

lemma reported_or_pending_step:
  assumes "reported_or_pending hs R n" "node_step E sx hx x net n n'" "\<And>env. env \<in> E \<Longrightarrow> ce_address (sx_chain env) = Inr R"
  shows "reported_or_pending hs R n'"
  using assms(2)
proof (cases rule: node_step.cases)
  case (receive_block i b offers)
  then show ?thesis
    using assms(1) loop_total_set_loop [of "n\<lparr>nd_offers := offers\<rparr>" i LIdle pending "LBlock (kb_height b) (kb_keygens b)"]
    by (simp add: reported_or_pending_def ac_simps)
next
  case (receive_register i r offers)
  then show ?thesis
    using assms(1) loop_total_set_loop [of "n\<lparr>nd_offers := offers\<rparr>" i LIdle pending "LSign r"]
    by (simp add: reported_or_pending_def)
next
  case (receive_requeued i j r)
  then show ?thesis
    using assms(1) loop_total_handover [OF receive_requeued(2,3), of pending "LSign r" LIdle]
    by (simp add: reported_or_pending_def)
next
  case (run_section i l env run)
  show ?thesis
  proof (cases "loop_section sx hx x net env run l (nd_signer n)")
    case (Ret v)
    obtain l' s' where v: "v = (l', s')" by fastforce
    have "ce_address (sx_chain env) = Inr (relayer (nd_signer n))"
      using assms(1,3) run_section(4) by (simp add: reported_or_pending_def)
    then obtain hs' where hs': "reported hs' (nd_signer n) s'" "mset hs' + pending l' = pending l"
      using loop_section_reported [OF Ret [unfolded v] run_section(3)] by blast
    have t: "loop_total pending (set_loop i l' (n\<lparr>nd_signer := s'\<rparr>)) + pending l = loop_total pending n + pending l'"
      using loop_total_set_loop [of "n\<lparr>nd_signer := s'\<rparr>" i l pending l'] run_section(2) by simp
    then have "loop_total pending (set_loop i l' (n\<lparr>nd_signer := s'\<rparr>)) + mset hs' = loop_total pending n"
      unfolding hs'(2) [symmetric] by (simp add: ac_simps)
    with run_section v Ret hs'(1) assms(1) show ?thesis
      by (auto simp: reported_or_pending_def reported_def ac_simps)
  qed (use run_section assms(1) in \<open>simp add: reported_or_pending_def loop_total_def\<close>)
qed

text \<open>The addresses are those of the surroundings, so the invariant is one of the step relation on them.\<close>

definition relayer_envs :: "string \<Rightarrow> signer_env set" where
  "relayer_envs R = {env. ce_address (sx_chain env) = Inr R}"

interpretation reports: step_rel "node_step (relayer_envs R) sx hx x net" "reported_or_pending hs R" for sx hx x net hs R
  by unfold_locales (rule reported_or_pending_step, auto simp: relayer_envs_def)

lemma node_step_mono:
  assumes "node_step E sx hx x net n n'" "E \<subseteq> F"
  shows "node_step F sx hx x net n n'"
  using assms(1)
proof (cases rule: node_step.cases)
  case (run_section i l env run)
  then show ?thesis using assms(2) by (auto intro: node_step.run_section)
qed (auto intro: node_step.intros)

lemma node_steps_mono:
  assumes "(node_step E sx hx x net ^^ m) n n'" "E \<subseteq> F"
  shows "(node_step F sx hx x net ^^ m) n n'"
  using assms by (induction m arbitrary: n') (auto intro: node_step_mono)

lemma reported_or_pending_reach:
  assumes "(node_step E sx hx x net)\<^sup>*\<^sup>* n n'" "reported_or_pending hs R n"
    and "\<And>env. env \<in> E \<Longrightarrow> ce_address (sx_chain env) = Inr R"
  shows "reported_or_pending hs R n'"
proof -
  have "E \<subseteq> relayer_envs R" using assms(3) by (auto simp: relayer_envs_def)
  then have "(node_step (relayer_envs R) sx hx x net)\<^sup>*\<^sup>* n n'"
    using mono_rtranclp [of "node_step E sx hx x net" "node_step (relayer_envs R) sx hx x net"] assms(1)
    by (blast intro: node_step_mono)
  then show ?thesis using assms(2) by (rule reports.reach_inv)
qed

lemma offered_single:
  "(\<And>b. b \<in> set (keygens_of out) \<Longrightarrow> length (kb_keygens b) = 1) \<Longrightarrow> offered out = mset (map kb_height (keygens_of out))"
  unfolding offered_def by (induction out rule: keygens_of.induct) auto

lemma sum_list_all_empty: "(\<And>x. x \<in> set xs \<Longrightarrow> x = {#}) \<Longrightarrow> sum_list xs = {#}"
  by (induction xs) auto

lemma sum_list_replicate_empty: "sum_list (replicate k {#}) = {#}"
  by (rule sum_list_all_empty) auto

lemma distinct_submset:
  assumes "distinct ys" "mset xs \<subseteq># mset ys"
  shows "distinct xs"
proof -
  obtain M where "mset ys = mset xs + M" using assms(2) by (metis subset_mset.le_iff_add)
  moreover obtain zs where "M = mset zs" by (metis ex_mset)
  ultimately have "mset ys = mset (xs @ zs)" by simp
  with assms(1) have "distinct (xs @ zs)" by (metis mset_eq_imp_distinct_iff)
  then show ?thesis by simp
qed

section \<open>The loops come to rest\<close>

text \<open>The sections and receives that are left when no signing fails.\<close>

definition work_left :: "loop \<Rightarrow> nat" where
  "work_left l = (case l of LIdle \<Rightarrow> 0 | LSign r \<Rightarrow> 2 | LRegister d g \<Rightarrow> 1 | LRequeue r \<Rightarrow> 3
     | LBlock h reqs \<Rightarrow> 2 * length reqs + 1 | LReport h req pk b reqs \<Rightarrow> 2 * length reqs + 2)"

definition offer_work :: "scan_output list \<Rightarrow> nat" where
  "offer_work offers = sum_list (map (\<lambda>b. 2 * length (kb_keygens b) + 2) (keygens_of offers)) + 3 * length (registers_of offers)"

definition node_work :: "signer_node \<Rightarrow> nat" where
  "node_work n = (if nd_panic n = None then 1 + offer_work (nd_offers n) + loop_total work_left n else 0)"

definition signing_envs :: "bridge_ext \<Rightarrow> signer_env set" where
  "signing_envs sx = {env. \<forall>r. sign_section sx env r \<noteq> Ret None}"

lemma loop_section_work:
  assumes "loop_section sx hx x net env run l s = Ret (l', s')" "\<not> waits l" "env \<in> signing_envs sx"
  shows "work_left l' < work_left l"
  using assms(1,2)
proof (cases rule: loop_section_Ret)
  case (signed r a)
  then obtain d g where "a = Some (d, g)" using assms(3) by (cases a) (auto simp: signing_envs_def)
  with signed show ?thesis by (auto simp: work_left_def)
qed (auto simp: work_left_def)

lemma node_work_step:
  assumes "node_step (signing_envs sx) sx hx x net n n'"
  shows "node_work n' < node_work n"
  using assms
proof (cases rule: node_step.cases)
  case (receive_block i b offers)
  then show ?thesis
    using loop_total_set_loop [of "n\<lparr>nd_offers := offers\<rparr>" i LIdle work_left "LBlock (kb_height b) (kb_keygens b)"]
    by (auto simp: node_work_def offer_work_def work_left_def at_loop_def)
next
  case (receive_register i r offers)
  then show ?thesis
    using loop_total_set_loop [of "n\<lparr>nd_offers := offers\<rparr>" i LIdle work_left "LSign r"]
    by (auto simp: node_work_def offer_work_def work_left_def at_loop_def)
next
  case (receive_requeued i j r)
  then show ?thesis
    using loop_total_handover [OF receive_requeued(2,3), of work_left "LSign r" LIdle]
    by (auto simp: node_work_def work_left_def at_loop_def)
next
  case (run_section i l env run)
  show ?thesis
  proof (cases "loop_section sx hx x net env run l (nd_signer n)")
    case (Ret v)
    obtain l' s' where v: "v = (l', s')" by fastforce
    have "work_left l' < work_left l"
      by (rule loop_section_work [OF Ret [unfolded v] run_section(3,4)])
    then show ?thesis
      using loop_total_set_loop [of "n\<lparr>nd_signer := s'\<rparr>" i l work_left l'] run_section v Ret
      by (auto simp: node_work_def at_loop_def)
  qed (use run_section in \<open>auto simp: node_work_def at_loop_def\<close>)
qed

interpretation rest: counted_steps "node_step (signing_envs sx) sx hx x net" "\<lambda>k n. k + node_work n \<le> w" for sx hx x net w
  by unfold_locales (use node_work_step in fastforce)

section \<open>Sequence numbers\<close>

lemma sendTx_client:
  assumes "sendTx x env what m b = Ret (e, b')"
  shows "b' = b \<or> (\<exists>msgs r. broadcastTx x env msgs b = Ret (r, b'))"
  using assms by (cases m) (auto simp: sendTx_def out_bind_Ret_iff)

lemma loop_section_client:
  assumes "loop_section sx hx x net env run l s = Ret (l', s')" "\<not> waits l"
  shows "sg_client s' = sg_client s \<or> (\<exists>msgs r. broadcastTx hx (sx_chain env) msgs (sg_client s) = Ret (r, sg_client s'))"
  using assms
proof (cases rule: loop_section_Ret)
  case (registered d g)
  then show ?thesis
    by (auto simp: register_section_def sendRegisterKeygenToBridgeNetwork_def sendRegisterKeygenTx_def out_bind_Ret_iff
        split: sum.splits if_splits option.splits dest!: sendTx_client)
next
  case (report h req reqs pk blame)
  then show ?thesis
    by (auto simp: report_section_def sendKeygenToBridgeNetwork_def sendKeygenTx_def out_bind_Ret_iff
        split: sum.splits if_splits option.splits dest!: sendTx_client)
qed (auto simp: keygen_section_def out_bind_Ret_iff split: option.splits if_splits)

definition seq_inv :: "bridge_config \<Rightarrow> nat \<Rightarrow> signer_node \<Rightarrow> bool" where
  "seq_inv cfg k n \<longleftrightarrow> (k < 2 ^ 63 \<longrightarrow> seq_ok k (sg_client (nd_signer n)) \<and> bc_cfg (sg_client (nd_signer n)) = cfg)"

lemma seq_ok_mono: "seq_ok k b \<Longrightarrow> k \<le> m \<Longrightarrow> seq_ok m b"
  by (simp add: seq_ok_def)

lemma seq_inv_step:
  assumes "seq_inv cfg k n" "node_step E sx hx x net n n'" "\<And>env. env \<in> E \<Longrightarrow> calm_env hx (cf_Stateurl cfg) (sx_chain env)"
  shows "seq_inv cfg (Suc k) n'"
proof -
  have same: "seq_inv cfg (Suc k) n'" if "sg_client (nd_signer n') = sg_client (nd_signer n)"
    using assms(1) that seq_ok_mono [of k _ "Suc k"] by (auto simp: seq_inv_def)
  show ?thesis
    using assms(2)
  proof (cases rule: node_step.cases)
    case (run_section i l env run)
    show ?thesis
    proof (cases "loop_section sx hx x net env run l (nd_signer n)")
      case (Ret v)
      obtain l' s' where v: "v = (l', s')" by fastforce
      have n': "nd_signer n' = s'" using run_section(1) Ret v by simp
      from loop_section_client [OF Ret [unfolded v] run_section(3)] show ?thesis
      proof
        assume "\<exists>msgs r. broadcastTx hx (sx_chain env) msgs (sg_client (nd_signer n)) = Ret (r, sg_client s')"
        then obtain msgs r where b: "broadcastTx hx (sx_chain env) msgs (sg_client (nd_signer n)) = Ret (r, sg_client s')" by blast
        show ?thesis unfolding seq_inv_def
        proof
          assume k: "Suc k < 2 ^ 63"
          with assms(1) have "seq_ok k (sg_client (nd_signer n)) \<and> bc_cfg (sg_client (nd_signer n)) = cfg" by (simp add: seq_inv_def)
          then show "seq_ok (Suc k) (sg_client (nd_signer n')) \<and> bc_cfg (sg_client (nd_signer n')) = cfg"
            using broadcastTx_seq [OF b, of k] assms(3) [OF run_section(4)] k n' by auto
        qed
      qed (use same n' in simp)
    qed (use same run_section in simp)
  qed (use same in simp_all)
qed

definition calm_envs :: "'e http_ext_scheme \<Rightarrow> bridge_config \<Rightarrow> signer_env set" where
  "calm_envs hx cfg = {env. calm_env hx (cf_Stateurl cfg) (sx_chain env)}"

interpretation sequences: counted_steps "node_step (calm_envs hx cfg) sx hx x net" "seq_inv cfg" for hx sx x net cfg
  by unfold_locales (rule seq_inv_step, auto simp: calm_envs_def)

lemma seq_inv_reach:
  assumes "(node_step E sx hx x net ^^ m) n n'" "seq_inv cfg 0 n"
    and "\<And>env. env \<in> E \<Longrightarrow> calm_env hx (cf_Stateurl cfg) (sx_chain env)"
  shows "seq_inv cfg m n'"
proof -
  have "(node_step (calm_envs hx cfg) sx hx x net ^^ m) n n'"
    by (rule node_steps_mono [OF assms(1)]) (auto simp: calm_envs_def assms(3))
  from sequences.inv_steps [OF this assms(2)] show ?thesis by simp
qed

section \<open>One loop is a schedule of the node\<close>

text \<open>The surroundings of the events that \<open>processKeygen\<close> receives, and what a scanner writes for them.\<close>

fun event_envs :: "signer_event list \<Rightarrow> signer_env set" where
  "event_envs [] = {}"
| "event_envs (GotRegister env r # es) = insert env (event_envs es)"
| "event_envs (GotKeygen h reqs # es) = fst ` set reqs \<union> event_envs es"
| "event_envs (SignerStop # es) = event_envs es"

fun offers_of :: "signer_event list \<Rightarrow> scan_output list" where
  "offers_of [] = []"
| "offers_of (GotRegister env r # es) = SRegister r # offers_of es"
| "offers_of (GotKeygen h reqs # es) =
     SKeygen \<lparr>kb_index = [], kb_height = h, kb_keygens = map (\<lambda>(env, run, req). req) reqs\<rparr> # offers_of es"
| "offers_of (SignerStop # es) = []"

definition first_loop :: "nat \<Rightarrow> loop \<Rightarrow> scan_output list \<Rightarrow> signer \<Rightarrow> signer_node" where
  "first_loop k l offers s = \<lparr>nd_signer = s, nd_loops = l # replicate k LIdle, nd_offers = offers, nd_panic = None\<rparr>"

lemma first_loop_section:
  assumes "loop_section sx hx x net env run l s = Ret (l', s')" "\<not> waits l" "env \<in> E"
  shows "node_step E sx hx x net (first_loop k l offers s) (first_loop k l' offers s')"
proof -
  have "node_step E sx hx x net (first_loop k l offers s)
      (after_section 0 (loop_section sx hx x net env run l (nd_signer (first_loop k l offers s))) (first_loop k l offers s))"
    by (rule node_step.run_section) (simp_all add: at_loop_def first_loop_def assms(2,3))
  then show ?thesis using assms(1) by (simp add: first_loop_def set_loop_def)
qed

lemma first_loop_receive:
  "node_step E sx hx x net (first_loop k LIdle (SKeygen b # offers) s) (first_loop k (LBlock (kb_height b) (kb_keygens b)) offers s)"
  "node_step E sx hx x net (first_loop k LIdle (SRegister r # offers) s) (first_loop k (LSign r) offers s)"
proof -
  have i: "at_loop (first_loop k LIdle off s) 0 LIdle" for off by (simp add: at_loop_def first_loop_def)
  show "node_step E sx hx x net (first_loop k LIdle (SKeygen b # offers) s) (first_loop k (LBlock (kb_height b) (kb_keygens b)) offers s)"
    using node_step.receive_block [OF i, of "SKeygen b # offers" b offers E sx hx x net] by (simp add: first_loop_def set_loop_def)
  show "node_step E sx hx x net (first_loop k LIdle (SRegister r # offers) s) (first_loop k (LSign r) offers s)"
    using node_step.receive_register [OF i, of "SRegister r # offers" r offers E sx hx x net] by (simp add: first_loop_def set_loop_def)
qed

lemma first_loop_block:
  assumes "processKeygenBlock sx hx x net h reqs s = Ret s'" "fst ` set reqs \<subseteq> E" "env0 \<in> E"
  shows "(node_step E sx hx x net)\<^sup>*\<^sup>* (first_loop k (LBlock h (map (\<lambda>(env, run, req). req) reqs)) offers s)
    (first_loop k LIdle offers s')"
  using assms
proof (induction sx hx x net h reqs s rule: processKeygenBlock.induct)
  case (1 sx hx x net h s)
  then show ?case using first_loop_section [of sx hx x net env0 run "LBlock h []" s LIdle s E for run] by auto
next
  case (2 sx hx x net h env run req reqs s)
  let ?reqs = "map (\<lambda>(env, run, req). req) reqs"
  obtain pk blame s1 s2 where s: "keygen_section sx x net run h req s = Ret ((pk, blame), s1)"
    "report_section sx hx env h req pk blame s1 = Ret s2" "processKeygenBlock sx hx x net h reqs s2 = Ret s'"
    using "2.prems"(1) by (auto simp: processKeygenReq_sections out_bind_Ret_iff)
  have env: "env \<in> E" using "2.prems"(2) by simp
  have "node_step E sx hx x net (first_loop k (LBlock h (req # ?reqs)) offers s) (first_loop k (LReport h req pk blame ?reqs) offers s1)"
    by (rule first_loop_section [of _ _ _ _ env run]) (simp_all add: s(1) env)
  moreover have "node_step E sx hx x net (first_loop k (LReport h req pk blame ?reqs) offers s1) (first_loop k (LBlock h ?reqs) offers s2)"
    by (rule first_loop_section [of _ _ _ _ env run]) (simp_all add: s(2) env)
  ultimately show ?case using "2.IH" [OF s(3)] "2.prems"(2,3) by (auto intro: converse_rtranclp_into_rtranclp)
qed

lemma first_loop_register:
  assumes "processRegister sx hx env r s = Ret s'" "sg_requeued s' = sg_requeued s" "env \<in> E"
  shows "(node_step E sx hx x net)\<^sup>*\<^sup>* (first_loop k (LSign r) offers s) (first_loop k LIdle offers s')"
proof -
  obtain a where a: "sign_section sx env r = Ret a" using assms(1) by (auto simp: processRegister_sections out_bind_Ret_iff)
  obtain d g where d: "a = Some (d, g)" "register_section sx hx env d g s = Ret s'"
    using assms(1,2) a by (cases a) (auto simp: processRegister_sections)
  have "node_step E sx hx x net (first_loop k (LSign r) offers s) (first_loop k (LRegister d g) offers s)" for run :: keygen_call
    by (rule first_loop_section [of _ _ _ _ env run]) (simp_all add: a d assms(3))
  moreover have "node_step E sx hx x net (first_loop k (LRegister d g) offers s) (first_loop k LIdle offers s')" for run :: keygen_call
    by (rule first_loop_section [of _ _ _ _ env run]) (simp_all add: d assms(3))
  ultimately show ?thesis by (meson r_into_rtranclp rtranclp_trans)
qed

lemma section_requeued:
  "keygen_section sx x net run h req s = Ret (a, s') \<Longrightarrow> sg_requeued s' = sg_requeued s"
  "report_section sx hx env h req pk blame s = Ret s' \<Longrightarrow> sg_requeued s' = sg_requeued s"
  "register_section sx hx env d g s = Ret s' \<Longrightarrow> sg_requeued s' = sg_requeued s"
  by (auto simp: keygen_section_def report_section_def register_section_def out_bind_Ret_iff
      split: option.splits sum.splits if_splits)

lemma processRegister_requeued:
  assumes "processRegister sx hx env r s = Ret s'"
  shows "prefix (sg_requeued s) (sg_requeued s')"
proof -
  obtain a where "sign_section sx env r = Ret a" using assms by (auto simp: processRegister_sections out_bind_Ret_iff)
  with assms show ?thesis by (cases a) (auto simp: processRegister_sections dest: section_requeued(3))
qed

lemma processKeygenBlock_requeued:
  assumes "processKeygenBlock sx hx x net h reqs s = Ret s'"
  shows "sg_requeued s' = sg_requeued s"
  using assms
proof (induction sx hx x net h reqs s rule: processKeygenBlock.induct)
  case (2 sx hx x net h env run req reqs s)
  obtain pk blame s1 s2 where s: "keygen_section sx x net run h req s = Ret ((pk, blame), s1)"
    "report_section sx hx env h req pk blame s1 = Ret s2" "processKeygenBlock sx hx x net h reqs s2 = Ret s'"
    using "2.prems" by (auto simp: processKeygenReq_sections out_bind_Ret_iff)
  show ?case using "2.IH" [OF s(3)] section_requeued(1) [OF s(1)] section_requeued(2) [OF s(2)] by simp
qed simp

lemma processKeygen_requeued:
  assumes "processKeygen sx hx x net es s = Ret (b, s')"
  shows "prefix (sg_requeued s) (sg_requeued s')"
  using assms
proof (induction sx hx x net es s rule: processKeygen.induct)
  case (3 sx hx x net env r es s)
  then obtain s1 where s1: "processRegister sx hx env r s = Ret s1" "processKeygen sx hx x net es s1 = Ret (b, s')"
    by (auto simp: out_bind_Ret_iff)
  show ?case using processRegister_requeued [OF s1(1)] "3.IH" [OF s1(2)] by (rule prefix_order.trans)
next
  case (4 sx hx x net h reqs es s)
  then obtain s1 where s1: "processKeygenBlock sx hx x net h reqs s = Ret s1" "processKeygen sx hx x net es s1 = Ret (b, s')"
    by (auto simp: out_bind_Ret_iff)
  show ?case using processKeygenBlock_requeued [OF s1(1)] "4.IH" [OF s1(2)] by simp
qed simp_all

lemma first_loop_events:
  assumes "processKeygen sx hx x net es s = Ret (False, s')" "sg_requeued s' = sg_requeued s"
    and "event_envs es \<subseteq> E" "env0 \<in> E"
  shows "(node_step E sx hx x net)\<^sup>*\<^sup>* (first_loop k LIdle (offers_of es) s) (first_loop k LIdle [] s')"
  using assms
proof (induction sx hx x net es s rule: processKeygen.induct)
  case (3 sx hx x net env r es s)
  obtain s1 where s1: "processRegister sx hx env r s = Ret s1" "processKeygen sx hx x net es s1 = Ret (False, s')"
    using "3.prems"(1) by (auto simp: out_bind_Ret_iff)
  have q: "sg_requeued s1 = sg_requeued s" "sg_requeued s' = sg_requeued s1"
    using prefix_order.antisym [of "sg_requeued s" "sg_requeued s1"] processRegister_requeued [OF s1(1)]
      processKeygen_requeued [OF s1(2)] "3.prems"(2) by simp_all
  have env: "env \<in> E" using "3.prems"(3) by simp
  have "(node_step E sx hx x net)\<^sup>*\<^sup>* (first_loop k LIdle (offers_of (GotRegister env r # es)) s) (first_loop k LIdle (offers_of es) s1)"
    using first_loop_receive(2) [of E sx hx x net k r "offers_of es" s] first_loop_register [OF s1(1) q(1) env, where k = k and offers = "offers_of es" and x = x and net = net]
    by (simp add: converse_rtranclp_into_rtranclp)
  then show ?case using "3.IH" [OF s1(2) q(2)] "3.prems"(3,4) by (auto intro: rtranclp_trans)
next
  case (4 sx hx x net h reqs es s)
  obtain s1 where s1: "processKeygenBlock sx hx x net h reqs s = Ret s1" "processKeygen sx hx x net es s1 = Ret (False, s')"
    using "4.prems"(1) by (auto simp: out_bind_Ret_iff)
  have q: "sg_requeued s1 = sg_requeued s" using processKeygenBlock_requeued [OF s1(1)] .
  have envs: "fst ` set reqs \<subseteq> E" using "4.prems"(3) by simp
  let ?b = "\<lparr>kb_index = [], kb_height = h, kb_keygens = map (\<lambda>(env, run, req). req) reqs\<rparr>"
  have "(node_step E sx hx x net)\<^sup>*\<^sup>* (first_loop k LIdle (offers_of (GotKeygen h reqs # es)) s) (first_loop k LIdle (offers_of es) s1)"
    using first_loop_receive(1) [of E sx hx x net k ?b "offers_of es" s] first_loop_block [OF s1(1) envs "4.prems"(4), where k = k and offers = "offers_of es"]
    by (simp add: converse_rtranclp_into_rtranclp)
  moreover have "sg_requeued s' = sg_requeued s1" using q "4.prems"(2) by simp
  then have "(node_step E sx hx x net)\<^sup>*\<^sup>* (first_loop k LIdle (offers_of es) s1) (first_loop k LIdle [] s')"
    using "4.IH" [OF s1(2)] "4.prems"(3,4) by simp
  ultimately show ?case by (rule rtranclp_trans)
qed simp_all

section \<open>The properties\<close>

text \<open>C10. The two loops of \<open>Start\<close> are never stuck: in every state that they and the scanner can reach, either
  the node has stopped in a panic, or nothing is left to do (every offer is taken, every loop waits in its
  select), or some goroutine can move; in particular a loop that writes a registration back to the
  channel it reads from is always relieved by the other, however often the signing fails.\<close>

theorem loops_never_stuck:
  assumes "scanKeygenBlock hx scans (newBridgeScanner blockUrl stateUrl) = Ret sc"
    and "(node_step E sx hx' x net)\<^sup>*\<^sup>* (start_loops 2 (sc_out sc) s) n" "nd_panic n = None" "E \<noteq> {}"
  shows "node_quiet n \<or> (\<exists>n'. node_step E sx hx' x net n n')"
proof -
  have "length (registers_of (sc_out sc)) \<le> 1" by (rule scanner_one_register [OF assms(1)])
  then have "one_flight 2 n" by (intro flight.reach_inv [OF assms(2)] one_flight_start)
  then show ?thesis by (rule node_progress) (simp_all add: assms(3,4))
qed

text \<open>C9. However many loops there are and however their sections interleave, the relayer reports every key
  generation exactly once, as long as the node the scanner asks behaves: every answer for a block is the block, that
  there is none, or the refusal code (\<open>faithful\<close>), no registration query is refused (a refused one makes the
  scanner offer its block a second time), and a keygen block carries its own height and one request.  Then, on a
  node whose own address is always the configured relayer's, at every moment the heights of the reported keys are distinct
  heights of keygen blocks that the scanner has passed, the bridge chain has accepted exactly one transaction for
  every report and registration, and when nothing is left to do all of these blocks are reported.\<close>

theorem loops_report_once:
  assumes "scanKeygenBlock hx scans (newBridgeScanner blockUrl stateUrl) = Ret sc"
    and "\<And>http. http \<in> polls scans \<Longrightarrow> faithful hx stateUrl chain http"
    and "\<forall>http\<in>polls scans. getRegisterKeygen hx http stateUrl \<noteq> Ret (Inl ErrConnectionRefused)"
    and "\<And>h b. chain h = Some b \<Longrightarrow> kb_height b = h \<and> length (kb_keygens b) = 1"
    and "(node_step E sx hx' x net)\<^sup>*\<^sup>* (start_loops k (sc_out sc) (fst (newSigner t blockUrl stateUrl cfg))) n"
    and "\<And>env. env \<in> E \<Longrightarrow> ce_address (sx_chain env) = Inr (cf_RelayerAddress cfg)"
  shows "mset (map fst (sg_pools (nd_signer n))) \<subseteq># mset (filter (\<lambda>h. chain h \<noteq> None) [1..sc_current sc]) \<and>
    distinct (map fst (sg_pools (nd_signer n))) \<and>
    length (bc_accepted (sg_client (nd_signer n))) =
      length (sg_pools (nd_signer n)) + length (sg_registered (nd_signer n)) \<and>
    (node_quiet n \<longrightarrow> mset (map fst (sg_pools (nd_signer n))) = mset (filter (\<lambda>h. chain h \<noteq> None) [1..sc_current sc]))"
proof -
  let ?hs = "mset (filter (\<lambda>h. chain h \<noteq> None) [1..sc_current sc])" and ?R = "cf_RelayerAddress cfg"
  note sc = scanner_heights [OF assms(1-4)]
  have "reported_or_pending ?hs ?R (start_loops k (sc_out sc) (fst (newSigner t blockUrl stateUrl cfg)))"
    using sc(1) offered_single [OF sc(2)]
    by (simp add: reported_or_pending_def start_loops_def newSigner_def newBridgeClient_def relayer_def loop_total_def
        sum_list_replicate_empty flip: mset_map)
  then have inv: "reported_or_pending ?hs ?R n"
    by (rule reported_or_pending_reach [OF assms(5) _ assms(6)])
  then have le: "mset (map fst (sg_pools (nd_signer n))) \<subseteq># ?hs"
    using mset_subset_eq_add_left [of "mset (map fst (sg_pools (nd_signer n)))" "offered (nd_offers n) + loop_total pending n"]
    by (simp add: reported_or_pending_def add.assoc)
  have "distinct (filter (\<lambda>h. chain h \<noteq> None) [1..sc_current sc])" by simp
  then have "distinct (map fst (sg_pools (nd_signer n)))" using le by (rule distinct_submset)
  moreover have "mset (map fst (sg_pools (nd_signer n))) = ?hs" if "node_quiet n"
  proof -
    have "loop_total pending n = {#}" using that unfolding loop_total_def node_quiet_def by (intro sum_list_all_empty) auto
    then show ?thesis using inv that by (simp add: reported_or_pending_def node_quiet_def)
  qed
  ultimately show ?thesis using inv le by (simp add: reported_or_pending_def)
qed

text \<open>C14. The loops come to rest: as long as the signing queue answers every registration, a run of the loops on
  what the scanner offers has at most one step more than the offers are worth (two for every request and
  two for every block, three for a registration), and a run that cannot be continued has either
  taken and finished everything or ended in a panic.\<close>

theorem loops_come_to_rest:
  assumes "scanKeygenBlock hx scans (newBridgeScanner blockUrl stateUrl) = Ret sc"
    and "(node_step E sx hx' x net ^^ m) (start_loops 2 (sc_out sc) s) n" "E \<subseteq> signing_envs sx" "E \<noteq> {}"
  shows "m \<le> offer_work (sc_out sc) + 1 \<and>
    ((\<nexists>n'. node_step E sx hx' x net n n') \<longrightarrow> node_quiet n \<or> nd_panic n \<noteq> None)"
proof -
  let ?start = "start_loops 2 (sc_out sc) s"
  have "node_work ?start = offer_work (sc_out sc) + 1"
    by (simp add: node_work_def start_loops_def loop_total_def work_left_def sum_list_replicate)
  moreover have "m + node_work n \<le> node_work ?start"
    using rest.inv_steps [OF node_steps_mono [OF assms(2,3)], of 0 "node_work ?start"] by simp
  moreover have "one_flight 2 n"
  proof (rule flight.reach_inv)
    show "(node_step E sx hx' x net)\<^sup>*\<^sup>* ?start n" using assms(2) by (rule relpowp_imp_rtranclp)
    show "one_flight 2 ?start" by (rule one_flight_start [OF scanner_one_register [OF assms(1)]])
  qed
  ultimately show ?thesis using node_progress [of 2 n E sx hx' x net] assms(4) by auto
qed

text \<open>C24. The lock of the client is enough: however the sections of the loops interleave, no two transactions
  that the client gets accepted carry the same sequence number; over any run of fewer than 2^63 steps, with any mixture
  of failures and with blocks arriving in between, the sequence numbers of the accepted broadcasts are strictly
  increasing, provided that the bridge node refuses none as a bad sequence (code 32) and never reports a
  negative one.\<close>

theorem loops_sequences:
  assumes "(node_step E sx hx x net ^^ m) (start_loops k offers (fst (newSigner t blockUrl stateUrl cfg))) n" "m < 2 ^ 63"
    and "\<And>env. env \<in> E \<Longrightarrow> calm_env hx (cf_Stateurl cfg) (sx_chain env)"
  shows "sorted_wrt (<) (map fst (bc_accepted (sg_client (nd_signer n))))"
proof -
  have "seq_inv cfg 0 (start_loops k offers (fst (newSigner t blockUrl stateUrl cfg)))"
    by (simp add: seq_inv_def seq_ok_def start_loops_def newSigner_def newBridgeClient_def)
  then have "seq_inv cfg m n" by (rule seq_inv_reach [OF assms(1) _ assms(3)])
  with assms(2) show ?thesis by (simp add: seq_inv_def seq_ok_def)
qed

text \<open>The loop of one goroutine is a schedule of the node: what \<open>processKeygen\<close> does with the events it
  receives, when it neither stops nor returns a registration, the node does as well, with any number of
  loops of which only the first moves, on the offers that carry these events and in their surroundings; it ends with
  every loop waiting and the same signer.\<close>

lemma loops_refine_processKeygen:
  assumes "processKeygen sx hx x net es s = Ret (False, s')" "sg_requeued s' = sg_requeued s" "event_envs es \<subseteq> E" "E \<noteq> {}"
  shows "(node_step E sx hx x net)\<^sup>*\<^sup>* (start_loops (Suc k) (offers_of es) s) (start_loops (Suc k) [] s')"
proof -
  have "start_loops (Suc k) offers s = first_loop k LIdle offers s" for offers s
    by (simp add: start_loops_def first_loop_def)
  moreover obtain env0 where "env0 \<in> E" using assms(4) by blast
  ultimately show ?thesis using first_loop_events [OF assms(1-3)] by simp
qed

section \<open>The properties on concrete inputs\<close>

text \<open>A registration whose signing times out: the loop returns it, and the other one can take it.\<close>

definition sample_httpR :: http_ext where
  "sample_httpR = sample_http\<lparr>x_json_keygen := (\<lambda>b. Inr (Some \<lparr>kbr_code = 5, kbr_index = [], kbr_height = [], kbr_keygens = []\<rparr>)),
     x_json_register := (\<lambda>b. Inr (Some \<lparr>rgr_code = 0,
       rgr_entries = [\<lparr>re_index = ''i'', re_height = itoa 1, re_members = [''a''], re_pool = ''pool''\<rparr>]\<rparr>))\<rparr>"

definition sample_register :: register_keygen where
  "sample_register = \<lparr>rk_index = ''i'', rk_height = 1, rk_members = [''a''], rk_pool = ''pool''\<rparr>"

lemma sample_scanR:
  "scanKeygenBlock sample_httpR [ScPoll sample_client] (newBridgeScanner ''b'' ''s'') =
   Ret \<lparr>sc_current = 1, sc_registered = True, sc_blockUrl = ''b'', sc_stateUrl = ''s'', sc_out = [SRegister sample_register]\<rparr>"
proof -
  have h: "getCurrentHeight sample_httpR sample_client ''b'' = Ret (Inr 2)"
    by (simp add: getCurrentHeight_def get_json_def sample_httpR_def sample_http_def sample_client_def keygen_block_url_def
        parseInt64_itoa int64_def)
  have k: "getKeygenBlock sample_httpR sample_client ''s'' 1 = Ret (Inl ErrNotFoundKeyGenBlock)"
    by (simp add: getKeygenBlock_def get_json_def sample_httpR_def sample_http_def sample_client_def)
  have r: "getRegisterKeygen sample_httpR sample_client ''s'' = Ret (Inr sample_register)"
    by (simp add: getRegisterKeygen_def get_json_def sample_httpR_def sample_http_def sample_client_def keygen_block_url_def
        parseInt64_itoa int64_def sample_register_def)
  show ?thesis by (simp add: scan_poll_def scanner_height_def scan_register_def newBridgeScanner_def h k r Let_def)
qed

lemma sample_sign_fails: "sign_section sample_bridge sample_sign_env sample_register = Ret None"
  by (simp add: sign_section_def sample_bridge_def sample_register_def remoteSign_def remote_task_def sample_sign_env_def
      sign_answer_def str_bytes_def)

theorem loops_never_stuck_witness:
  "\<exists>n. (node_step {sample_sign_env} sample_bridge sample_http sample_tss no_network)\<^sup>*\<^sup>*
      (start_loops 2 [SRegister sample_register] sample_node_signer) n \<and>
    nd_loops n = [LRequeue sample_register, LIdle] \<and>
    (\<exists>n'. node_step {sample_sign_env} sample_bridge sample_http sample_tss no_network n n')"
proof -
  let ?s = "sample_node_signer\<lparr>sg_requeued := sg_requeued sample_node_signer @ [sample_register]\<rparr>"
  let ?n = "first_loop 1 (LRequeue sample_register) [] ?s"
  let ?S = "node_step {sample_sign_env} sample_bridge sample_http sample_tss no_network"
  have "?S (first_loop 1 LIdle [SRegister sample_register] sample_node_signer) (first_loop 1 (LSign sample_register) [] sample_node_signer)"
    by (rule first_loop_receive(2))
  moreover have "?S (first_loop 1 (LSign sample_register) [] sample_node_signer) ?n"
    by (rule first_loop_section [of _ _ _ _ sample_sign_env sample_keygen_call]) (simp_all add: sample_sign_fails)
  ultimately have r: "?S\<^sup>*\<^sup>* (start_loops 2 [SRegister sample_register] sample_node_signer) ?n"
    by (simp add: start_loops_def first_loop_def numeral_2_eq_2)
  have "node_quiet ?n \<or> (\<exists>n'. ?S ?n n')"
    using loops_never_stuck [OF sample_scanR, of "{sample_sign_env}" sample_bridge sample_http sample_tss no_network
        sample_node_signer ?n] r by (simp add: first_loop_def)
  moreover have "\<not> node_quiet ?n" by (simp add: node_quiet_def first_loop_def)
  ultimately show ?thesis using r by (intro exI [of _ ?n]) (simp add: first_loop_def)
qed

text \<open>The surroundings in which every signing is answered, with the empty signature of a node outside the committee.\<close>

definition sample_answer_env :: signer_env where
  "sample_answer_env = sample_sign_env\<lparr>sx_answer := (\<lambda>t. Some \<lparr>rs_r = [], rs_s = [], rs_recovery = [], rs_err = None\<rparr>)\<rparr>"

lemma sample_answer_report:
  "report_section sx hx sample_answer_env h req pk blame s = report_section sx hx sample_sign_env h req pk blame s"
proof -
  have f: "sx_chain sample_answer_env = sx_chain sample_sign_env" "sx_time sample_answer_env = sx_time sample_sign_env"
    by (simp_all add: sample_answer_env_def)
  show ?thesis unfolding report_section_def f by (rule refl)
qed

text \<open>The block of the sample chain of ten blocks, in four steps.\<close>

lemma sample_four_steps:
  "\<exists>s. (node_step {sample_answer_env} sample_bridge sample_http sample_tss no_network ^^ 4)
      (start_loops 2 [SKeygen \<lparr>kb_index = ''k'', kb_height = 10, kb_keygens = [sample_keygen_value]\<rparr>] sample_node_signer)
      (start_loops 2 [] s) \<and> sg_pools s = [(10, ''pool'')]"
proof -
  let ?S = "node_step {sample_answer_env} sample_bridge sample_http sample_tss no_network" and ?v = "sample_keygen_value"
  obtain s where s: "processKeygenReq sample_bridge sample_http sample_tss no_network sample_sign_env sample_keygen_call 10
       ?v sample_node_signer = Ret s" "sg_pools s = [(10, ''pool'')]"
    using sample_processKeygenReq by blast
  then obtain pk blame s1 where p: "keygen_section sample_bridge sample_tss no_network sample_keygen_call 10 ?v sample_node_signer =
      Ret ((pk, blame), s1)" "report_section sample_bridge sample_http sample_answer_env 10 ?v pk blame s1 = Ret s"
    by (auto simp: processKeygenReq_sections out_bind_Ret_iff sample_answer_report)
  let ?b = "\<lparr>kb_index = ''k'', kb_height = 10, kb_keygens = [?v]\<rparr>"
  have 1: "?S (first_loop 1 LIdle [SKeygen ?b] sample_node_signer) (first_loop 1 (LBlock 10 [?v]) [] sample_node_signer)"
    using first_loop_receive(1) [of _ _ _ _ _ 1 ?b "[]" sample_node_signer] by simp
  have 2: "?S (first_loop 1 (LBlock 10 [?v]) [] sample_node_signer) (first_loop 1 (LReport 10 ?v pk blame []) [] s1)"
    by (rule first_loop_section [of _ _ _ _ sample_answer_env sample_keygen_call]) (simp_all add: p)
  have 3: "?S (first_loop 1 (LReport 10 ?v pk blame []) [] s1) (first_loop 1 (LBlock 10 []) [] s)"
    by (rule first_loop_section [of _ _ _ _ sample_answer_env sample_keygen_call]) (simp_all add: p)
  have 4: "?S (first_loop 1 (LBlock 10 []) [] s) (first_loop 1 LIdle [] s)"
    by (rule first_loop_section [of _ _ _ _ sample_answer_env sample_keygen_call]) simp_all
  have "start_loops 2 offers s = first_loop 1 LIdle offers s" for offers s
    by (simp add: start_loops_def first_loop_def numeral_2_eq_2)
  moreover have "(?S ^^ 4) (first_loop 1 LIdle [SKeygen ?b] sample_node_signer) (first_loop 1 LIdle [] s)"
    using 1 2 3 4 by (auto simp: eval_nat_numeral)
  ultimately show ?thesis using s(2) by (intro exI [of _ s]) simp
qed

theorem loops_report_once_witness:
  "\<exists>n. (node_step {sample_answer_env} sample_bridge sample_http sample_tss no_network ^^ 4)
      (start_loops 2 [SKeygen \<lparr>kb_index = ''k'', kb_height = 10, kb_keygens = [sample_keygen_value]\<rparr>] sample_node_signer) n \<and>
    node_quiet n \<and> map fst (sg_pools (nd_signer n)) = [10] \<and>
    mset (map fst (sg_pools (nd_signer n))) = mset (filter (\<lambda>h. sample_chain10 h \<noteq> None) [1..10]) \<and>
    length (bc_accepted (sg_client (nd_signer n))) = 1 + length (sg_registered (nd_signer n))"
proof -
  let ?S = "node_step {sample_answer_env} sample_bridge sample_http sample_tss no_network"
  let ?offers = "[SKeygen \<lparr>kb_index = ''k'', kb_height = 10, kb_keygens = [sample_keygen_value]\<rparr>]"
  obtain s where s: "(?S ^^ 4) (start_loops 2 ?offers sample_node_signer) (start_loops 2 [] s)" "sg_pools s = [(10, ''pool'')]"
    using sample_four_steps by blast
  have n: "fst (newSigner sample_server ''b'' ''s'' sample_cfg) = sample_node_signer"
    by (simp add: newSigner_def sample_node_signer_def)
  have q: "node_quiet (start_loops 2 [] s)" by (simp add: node_quiet_def start_loops_def)
  have a: "ce_address (sx_chain env) = Inr (cf_RelayerAddress sample_cfg)" if "env \<in> {sample_answer_env}" for env
    using that by (simp add: sample_answer_env_def sample_sign_env_def sample_env_def sample_cfg_def newBridgeClientConfig_def
        chain_client_config.extend_def newChainClientConfig_def)
  have f: "faithful sample_http10 ''s'' sample_chain10 http"
    "getRegisterKeygen sample_http10 http ''s'' \<noteq> Ret (Inl ErrConnectionRefused)"
    if "http \<in> polls (map ScPoll [sample_client10, sample_client10, sample_client10, sample_client10, sample_client10,
      sample_client10, sample_client10, sample_client10, sample_client10, sample_client10])" for http
    using that by (simp_all add: faithful_def sample_queries10)
  have c: "kb_height b = h \<and> length (kb_keygens b) = 1" if "sample_chain10 h = Some b" for h b
    using that by (auto simp: sample_chain10_def split: if_splits)
  have r: "?S\<^sup>*\<^sup>* (start_loops 2 ?offers sample_node_signer) (start_loops 2 [] s)" using s(1) by (rule relpowp_imp_rtranclp)
  have "length (bc_accepted (sg_client (nd_signer (start_loops 2 [] s)))) =
      length (sg_pools (nd_signer (start_loops 2 [] s))) + length (sg_registered (nd_signer (start_loops 2 [] s))) \<and>
    (node_quiet (start_loops 2 [] s) \<longrightarrow> mset (map fst (sg_pools (nd_signer (start_loops 2 [] s)))) =
      mset (filter (\<lambda>h. sample_chain10 h \<noteq> None) [1..10]))"
    using loops_report_once [OF sample_scan10 f(1) _ c, of "{sample_answer_env}" sample_bridge sample_http sample_tss no_network 2
        sample_server sample_cfg "start_loops 2 [] s"] f(2) r a unfolding n by simp
  then show ?thesis using s q by (intro exI [of _ "start_loops 2 [] s"]) (simp add: start_loops_def)
qed

theorem loops_come_to_rest_witness:
  "\<exists>n. (node_step {sample_answer_env} sample_bridge sample_http sample_tss no_network ^^ 4)
      (start_loops 2 [SKeygen \<lparr>kb_index = ''k'', kb_height = 10, kb_keygens = [sample_keygen_value]\<rparr>] sample_node_signer) n \<and>
    (4 :: nat) \<le> offer_work [SKeygen \<lparr>kb_index = ''k'', kb_height = 10, kb_keygens = [sample_keygen_value]\<rparr>] + 1 \<and>
    ((\<nexists>n'. node_step {sample_answer_env} sample_bridge sample_http sample_tss no_network n n') \<longrightarrow> node_quiet n \<or> nd_panic n \<noteq> None)"
proof -
  have e: "{sample_answer_env} \<subseteq> signing_envs sample_bridge"
    by (auto simp: signing_envs_def sample_answer_env_def sample_sign_env_def sign_section_def sample_bridge_def remoteSign_def
        remote_task_def sign_answer_def)
  obtain s where s: "(node_step {sample_answer_env} sample_bridge sample_http sample_tss no_network ^^ 4)
      (start_loops 2 [SKeygen \<lparr>kb_index = ''k'', kb_height = 10, kb_keygens = [sample_keygen_value]\<rparr>] sample_node_signer)
      (start_loops 2 [] s)"
    using sample_four_steps by blast
  from loops_come_to_rest [OF sample_scan10 _ e, where hx' = sample_http and x = sample_tss and net = no_network and m = 4
      and s = sample_node_signer and n = "start_loops 2 [] s"] s
  show ?thesis by (intro exI [of _ "start_loops 2 [] s"]) simp
qed

theorem loops_sequences_witness:
  "\<exists>n. (node_step {sample_answer_env} sample_bridge sample_http sample_tss no_network ^^ 4)
      (start_loops 2 [SKeygen \<lparr>kb_index = ''k'', kb_height = 10, kb_keygens = [sample_keygen_value]\<rparr>] sample_node_signer) n \<and>
    sg_pools (nd_signer n) = [(10, ''pool'')] \<and> sorted_wrt (<) (map fst (bc_accepted (sg_client (nd_signer n))))"
proof -
  have n: "fst (newSigner sample_server ''b'' ''s'' sample_cfg) = sample_node_signer"
    by (simp add: newSigner_def sample_node_signer_def)
  have c: "calm_env sample_http (cf_Stateurl sample_cfg) (sx_chain env)" if "env \<in> {sample_answer_env}" for env
    using that sample_calm [of 0] by (simp add: sample_answer_env_def sample_sign_env_def sample_cfg_fields)
  obtain s where s: "(node_step {sample_answer_env} sample_bridge sample_http sample_tss no_network ^^ 4)
      (start_loops 2 [SKeygen \<lparr>kb_index = ''k'', kb_height = 10, kb_keygens = [sample_keygen_value]\<rparr>] sample_node_signer)
      (start_loops 2 [] s)" "sg_pools s = [(10, ''pool'')]"
    using sample_four_steps by blast
  have "sorted_wrt (<) (map fst (bc_accepted (sg_client (nd_signer (start_loops 2 [] s)))))"
    using loops_sequences [OF _ _ c, where E = "{sample_answer_env}" and sx = sample_bridge and x = sample_tss and net = no_network
        and m = 4 and k = 2 and t = sample_server and blockUrl = "''b''" and stateUrl = "''s''" and n = "start_loops 2 [] s"
        and offers = "[SKeygen \<lparr>kb_index = ''k'', kb_height = 10, kb_keygens = [sample_keygen_value]\<rparr>]"] s(1)
    unfolding n by simp
  with s show ?thesis by (intro exI [of _ "start_loops 2 [] s"]) (simp add: start_loops_def)
qed

lemma loops_refine_processKeygen_sample:
  "\<exists>s. sg_pools s = [(10, ''pool'')] \<and> (node_step {sample_sign_env} sample_bridge sample_http sample_tss no_network)\<^sup>*\<^sup>*
      (start_loops 2 (offers_of [GotKeygen 10 [(sample_sign_env, sample_keygen_call, sample_keygen_value)]]) sample_node_signer)
      (start_loops 2 [] s)"
proof -
  let ?es = "[GotKeygen 10 [(sample_sign_env, sample_keygen_call, sample_keygen_value)]]"
  obtain s where s: "processKeygenReq sample_bridge sample_http sample_tss no_network sample_sign_env sample_keygen_call 10
       sample_keygen_value sample_node_signer = Ret s" "sg_pools s = [(10, ''pool'')]"
    using sample_processKeygenReq by blast
  have r: "processKeygen sample_bridge sample_http sample_tss no_network ?es sample_node_signer = Ret (False, s)"
    using s(1) by simp
  have "processKeygenBlock sample_bridge sample_http sample_tss no_network 10
      [(sample_sign_env, sample_keygen_call, sample_keygen_value)] sample_node_signer = Ret s"
    using s(1) by simp
  from processKeygenBlock_requeued [OF this]
  have "(node_step {sample_sign_env} sample_bridge sample_http sample_tss no_network)\<^sup>*\<^sup>*
      (start_loops (Suc 1) (offers_of ?es) sample_node_signer) (start_loops (Suc 1) [] s)"
    by (intro loops_refine_processKeygen [OF r]) simp_all
  then show ?thesis using s(2) by (intro exI [of _ s]) (simp add: numeral_2_eq_2)
qed

end
