(* ===== verification/Tss_Delivery.thy ===== *)
theory Tss_Delivery
  imports Tss_Props
begin

text \<open>
  Both ends of a message: what \<open>sendBulkMsg\<close> of one node puts on the wire and what \<open>ProcessOneMessage\<close> of
  another node does with it.  The coders and the signature scheme are parameters; of them it is assumed
  that the encodings of this message decode to it and that the sender's signatures verify under the
  key of its party id.
\<close>

section \<open>What is on the wire\<close>

definition wire_of :: "string \<Rightarrow> bulk_wire_msg list \<Rightarrow> bytes \<Rightarrow> bytes \<Rightarrow> wire_message" where
  "wire_of rty l buf sig = \<lparr>wm_routing = bk_routing (hd l), wm_round = rty, wm_msg = buf, wm_sig = sig\<rparr>"

definition decodes :: "'e common_ext_scheme \<Rightarrow> string \<Rightarrow> bulk_wire_msg list \<Rightarrow> tss_state \<Rightarrow> bool" where
  "decodes x rty l t \<longleftrightarrow>
     (\<forall>buf sig wb. x_marshal_bulk x l = Inr buf \<and> generateSignature x buf (t_msgID t) (t_privateKey t) = Inr sig \<and>
        x_marshal_wire x (wire_of rty l buf sig) = Inr wb \<longrightarrow>
        x_unmarshal_bulk x buf = Inr l \<and> x_unmarshal_wire x wb = Inr (wire_of rty l buf sig))"

definition key_pair :: "'e common_ext_scheme \<Rightarrow> bytes \<Rightarrow> bytes \<Rightarrow> bool" where
  "key_pair x sk pk \<longleftrightarrow> (\<forall>m s. x_sign x sk m = Inr s \<longrightarrow> x_verify x pk m s)"

lemma sendBulkMsg_sent:
  assumes "sendBulkMsg x rty ty l t = Ret (None, t')" "t_channel t" "decodes x rty l t"
    and "key_pair x (t_privateKey t) pk"
  obtains buf sig wb rt where "t_sent t' = t_sent t @ [\<lparr>b_wrapped = \<lparr>w_type = ty, w_msgid = t_msgID t, w_payload = wb\<rparr>,
      b_peers = (if r_to rt = [] then t_p2pPeers t else lookup_peers (t_partyIDtoP2PID t) (r_to rt))\<rparr>]"
    and "bk_routing (hd l) = Some rt" "x_unmarshal_bulk x buf = Inr l" "x_unmarshal_wire x wb = Inr (wire_of rty l buf sig)"
    and "verifySignature x pk buf sig (t_msgID t)" "x_marshal_bulk x l = Inr buf"
proof -
  from assms(1) obtain m0 l' where l: "l = m0 # l'" by (cases l) (auto simp: sendBulkMsg_def)
  from assms(1) l obtain buf where buf: "x_marshal_bulk x l = Inr buf"
    by (cases "x_marshal_bulk x l") (auto simp: sendBulkMsg_def)
  from assms(1) l buf obtain sig where sig: "generateSignature x buf (t_msgID t) (t_privateKey t) = Inr sig"
    by (cases "generateSignature x buf (t_msgID t) (t_privateKey t)") (auto simp: sendBulkMsg_def)
  have hd: "wire_of rty l buf sig = \<lparr>wm_routing = bk_routing m0, wm_round = rty, wm_msg = buf, wm_sig = sig\<rparr>"
    by (simp add: wire_of_def l)
  from assms(1) l buf sig obtain wb where wb: "x_marshal_wire x (wire_of rty l buf sig) = Inr wb"
    unfolding hd by (cases "x_marshal_wire x \<lparr>wm_routing = bk_routing m0, wm_round = rty, wm_msg = buf, wm_sig = sig\<rparr>")
      (auto simp: sendBulkMsg_def)
  from assms(1,2) l buf sig wb [unfolded hd] obtain rt where rt: "bk_routing m0 = Some rt"
    "t_sent t' = t_sent t @ [\<lparr>b_wrapped = \<lparr>w_type = ty, w_msgid = t_msgID t, w_payload = wb\<rparr>,
      b_peers = (if r_to rt = [] then t_p2pPeers t else lookup_peers (t_partyIDtoP2PID t) (r_to rt))\<rparr>]"
    by (auto simp: sendBulkMsg_def out_bind_Ret_iff renderToP2P_def deref_def split: option.splits)
  have "x_unmarshal_bulk x buf = Inr l" "x_unmarshal_wire x wb = Inr (wire_of rty l buf sig)"
    using assms(3) buf sig wb by (auto simp: decodes_def)
  moreover have "verifySignature x pk buf sig (t_msgID t)"
    using assms(4) sig by (simp add: key_pair_def generateSignature_def verifySignature_def)
  ultimately show ?thesis using that rt l buf by simp
qed

section \<open>A unicast\<close>

text \<open>C22. A unicast arrives: the bulk message that one node sends to another is accepted there, and every
  entry is handed to the receiver's party exactly once, with the sender's bytes and under the
  sender's party id, whatever the schedule of the workers, provided that both run the same ceremony, the
  receiver knows the sender's key and peer and the entries are new to it and good.\<close>

theorem unicast_delivered:
  assumes "sendBulkMsg x rty ty l t = Ret (None, t')" "t_channel t" "ty = TSSKeyGenMsg \<or> ty = TSSKeySignMsg"
    and "decodes x rty l t" "key_pair x (t_privateKey t) (pid_key q)"
    and "bk_routing (hd l) = Some rt" "\<not> r_broadcast rt" "r_from rt = Some p"
    and "t_partyInfo s = Some pi" "t_msgID s = t_msgID t" "mget (pi_id_map pi) (pid_id p) = Some q"
    and "mget (t_partyIDtoP2PID s) (pid_id p) = Some d" "t_culprits s = []"
    and "\<And>bm. bm \<in> set l \<Longrightarrow> good_entry x pi q bm" "distinct (map (job_share x \<circ> bulk_job pi q) l)"
    and "accepted_set (t_blameMgr s) \<inter> job_share x ` bulk_job pi q ` set l = {}"
  shows "\<exists>m s'. t_sent t' = t_sent t @ [m] \<and>
    processOneMessage x env (Some (b_wrapped m)) peer s = Ret (None, s') \<and>
    mset (t_calls s') = mset (t_calls s) + mset (map (job_call \<circ> bulk_job pi q) l) \<and>
    accepted_set (t_blameMgr s') = accepted_set (t_blameMgr s) \<union> job_share x ` bulk_job pi q ` set l \<and>
    t_unConfirmed s' = t_unConfirmed s \<and> m_blame (t_blameMgr s') = m_blame (t_blameMgr s)"
proof -
  obtain buf sig wb rt' where w: "t_sent t' = t_sent t @ [\<lparr>b_wrapped = \<lparr>w_type = ty, w_msgid = t_msgID t, w_payload = wb\<rparr>,
      b_peers = (if r_to rt' = [] then t_p2pPeers t else lookup_peers (t_partyIDtoP2PID t) (r_to rt'))\<rparr>]"
    "bk_routing (hd l) = Some rt'" "x_unmarshal_bulk x buf = Inr l" "x_unmarshal_wire x wb = Inr (wire_of rty l buf sig)"
    "verifySignature x (pid_key q) buf sig (t_msgID t)"
    by (rule sendBulkMsg_sent [OF assms(1,2,4,5)])
  let ?w = "wire_of rty l buf sig"
  have rt: "wm_routing ?w = Some rt" and msg: "wm_msg ?w = buf" "wm_sig ?w = sig"
    using assms(6) by (simp_all add: wire_of_def)
  have bulk: "x_unmarshal_bulk x (wm_msg ?w) = Inr l" using w(3) msg by simp
  obtain s' where s': "updateLocal x (re_picks env) (Some ?w) s = Ret (None, s')"
    "mset (t_calls s') = mset (t_calls s) + mset (map (job_call \<circ> bulk_job pi q) l)"
    "accepted_set (t_blameMgr s') = accepted_set (t_blameMgr s) \<union> job_share x ` bulk_job pi q ` set l"
    "t_unConfirmed s' = t_unConfirmed s" "m_blame (t_blameMgr s') = m_blame (t_blameMgr s)"
    using updateLocal_good [OF assms(9) rt assms(8,11,12) bulk assms(14,13,15,16), of "re_picks env"] by blast
  have "processTSSMsg x env (Some ?w) ty False s = Ret (None, s')"
    using assms(7-11) w(5) rt msg s'(1) by (simp add: processTSSMsg_def)
  then have "processOneMessage x env (Some \<lparr>w_type = ty, w_msgid = t_msgID t, w_payload = wb\<rparr>) peer s = Ret (None, s')"
    using assms(3) w(4) by (simp add: processOneMessage_def)
  then show ?thesis using w(1) s'
    by (intro exI [of _ "\<lparr>b_wrapped = \<lparr>w_type = ty, w_msgid = t_msgID t, w_payload = wb\<rparr>,
      b_peers = (if r_to rt' = [] then t_p2pPeers t else lookup_peers (t_partyIDtoP2PID t) (r_to rt'))\<rparr>"] exI [of _ s']) simp
qed

section \<open>A broadcast\<close>

text \<open>The confirmation that a receiver sends to the others.\<close>

definition confirmation :: "'e common_ext_scheme \<Rightarrow> msg_type \<Rightarrow> string \<Rightarrow> bytes \<Rightarrow> tss_state \<Rightarrow> peer_id \<Rightarrow> broadcast_msg \<Rightarrow> bool" where
  "confirmation x ty key buf s d c \<longleftrightarrow>
     w_type (b_wrapped c) = getBroadcastMessageType ty \<and> w_msgid (b_wrapped c) = t_msgID s \<and>
     b_peers c = filter (\<lambda>el. el \<noteq> d) (t_p2pPeers s) \<and>
     x_marshal_confirm x \<lparr>c_p2pid = [], c_key = key, c_hash = bytesToHashString x buf\<rparr> = Inr (w_payload (b_wrapped c))"

lemma mput_twice: "mput k v (mput k v m) = mput k v m"
  by (induction m) (auto simp: mput_def)

text \<open>The cache entry of a message that only the node itself has confirmed.\<close>

definition held_item :: "'e common_ext_scheme \<Rightarrow> wire_message \<Rightarrow> tss_state \<Rightarrow> cache_item" where
  "held_item x w s = updateConfirmList (t_localPeerID s) (bytesToHashString x (wm_msg w))
     (newLocalCacheItem (Some w) (bytesToHashString x (wm_msg w)))"

lemma held_item_simps [simp]:
  "ci_msg (held_item x w s) = Some w" "ci_hash (held_item x w s) = bytesToHashString x (wm_msg w)"
  "ci_confirmed (held_item x w s) = [(t_localPeerID s, bytesToHashString x (wm_msg w))]"
  by (simp_all add: held_item_def updateConfirmList_def newLocalCacheItem_def mput_def)

lemma broadcast_first_copy:
  assumes "sendBulkMsg x rty ty l t = Ret (None, t')" "t_channel t" "ty = TSSKeyGenMsg \<or> ty = TSSKeySignMsg"
    and "decodes x rty l t" "key_pair x (t_privateKey t) (pid_key q)"
    and "bk_routing (hd l) = Some rt" "r_broadcast rt" "r_from rt = Some p"
    and "t_partyInfo s = Some pi" "t_msgID s = t_msgID t" "mget (pi_id_map pi) (pid_id p) = Some q"
    and "mget (t_partyIDtoP2PID s) (pid_id p) = Some d" "t_channel s"
    and "tryGetLocalCacheItem (cache_key (pid_id p) rty) s = None"
    and "getThreshold (int (length (pi_id_map pi))) = Inr th" "1 < th"
    and "filter (\<lambda>el. el \<noteq> d) (t_p2pPeers s) \<noteq> []"
    and "\<And>buf. x_marshal_bulk x l = Inr buf \<Longrightarrow>
      \<exists>b. x_marshal_confirm x \<lparr>c_p2pid = [], c_key = cache_key (pid_id p) rty, c_hash = bytesToHashString x buf\<rparr> = Inr b"
  obtains m w c where "t_sent t' = t_sent t @ [m]" "wm_routing w = Some rt" "wm_round w = rty"
    "x_marshal_bulk x l = Inr (wm_msg w)" "x_unmarshal_bulk x (wm_msg w) = Inr l"
    "confirmation x ty (cache_key (pid_id p) rty) (wm_msg w) s d c"
    "processOneMessage x env (Some (b_wrapped m)) peer s = Ret (None,
       updateLocalUnconfirmedMessages (cache_key (pid_id p) rty) (held_item x w s) (s\<lparr>t_sent := t_sent s @ [c]\<rparr>))"
proof -
  obtain buf sig wb rt' where w: "t_sent t' = t_sent t @ [\<lparr>b_wrapped = \<lparr>w_type = ty, w_msgid = t_msgID t, w_payload = wb\<rparr>,
      b_peers = (if r_to rt' = [] then t_p2pPeers t else lookup_peers (t_partyIDtoP2PID t) (r_to rt'))\<rparr>]"
    "bk_routing (hd l) = Some rt'" "x_unmarshal_bulk x buf = Inr l" "x_unmarshal_wire x wb = Inr (wire_of rty l buf sig)"
    "verifySignature x (pid_key q) buf sig (t_msgID t)" "x_marshal_bulk x l = Inr buf"
    by (rule sendBulkMsg_sent [OF assms(1,2,4,5)])
  let ?w = "wire_of rty l buf sig" and ?k = "cache_key (pid_id p) rty" and ?h = "bytesToHashString x buf"
  have rt: "wm_routing ?w = Some rt" and msg: "wm_msg ?w = buf" "wm_sig ?w = sig" "wm_round ?w = rty"
    using assms(6) by (simp_all add: wire_of_def)
  obtain cb where cb: "x_marshal_confirm x \<lparr>c_p2pid = [], c_key = ?k, c_hash = ?h\<rparr> = Inr cb" using assms(18) w(6) by blast
  let ?c = "\<lparr>b_wrapped = \<lparr>w_type = getBroadcastMessageType ty, w_msgid = t_msgID s, w_payload = cb\<rparr>,
      b_peers = filter (\<lambda>el. el \<noteq> d) (t_p2pPeers s)\<rparr>"
  let ?s1 = "s\<lparr>t_sent := t_sent s @ [?c]\<rparr>" and ?item = "held_item x ?w s"
  let ?s2 = "updateLocalUnconfirmedMessages ?k ?item ?s1"
  have b: "receiverBroadcastHashToPeers x ?w ty s = Ret (None, ?s1)"
    using assms(8,12,13,17) cb rt msg
    by (simp add: receiverBroadcastHashToPeers_def broadcastHashToPeers_def renderToP2P_def)
  have get: "tryGetLocalCacheItem ?k ?s1 = None" using assms(14) by (simp add: tryGetLocalCacheItem_def)
  have hc: "hashCheck x (re_freq env) (t_partyIDtoP2PID ?s2) ?item th = Ret (Some ErrNotEnoughPeer, ?item)"
    using assms(8,12,16) rt
    by (simp add: hashCheck_def totalConfirmParty_def updateLocalUnconfirmedMessages_def)
  have idem: "updateLocalUnconfirmedMessages ?k ?item ?s2 = ?s2"
    by (simp add: updateLocalUnconfirmedMessages_def mput_twice)
  have "applyShare x env ?item th ?k ty ?s2 = Ret (None, ?s2)"
    using hc rt by (simp add: applyShare_def idem)
  then have "processTSSMsg x env (Some ?w) ty False s = Ret (None, ?s2)"
    using assms(7-11,15) w(5) rt msg b get by (simp add: processTSSMsg_def Let_def held_item_def)
  then have "processOneMessage x env (Some \<lparr>w_type = ty, w_msgid = t_msgID t, w_payload = wb\<rparr>) peer s = Ret (None, ?s2)"
    using assms(3) w(4) by (simp add: processOneMessage_def)
  moreover have "confirmation x ty ?k buf s d ?c" using cb by (simp add: confirmation_def)
  ultimately show ?thesis using w(1,3,6) rt msg
    by (intro that [of "\<lparr>b_wrapped = \<lparr>w_type = ty, w_msgid = t_msgID t, w_payload = wb\<rparr>,
      b_peers = (if r_to rt' = [] then t_p2pPeers t else lookup_peers (t_partyIDtoP2PID t) (r_to rt'))\<rparr>" ?w ?c]) simp_all
qed

section \<open>The properties on concrete inputs\<close>

text \<open>The sender is party \<open>1\<close>, the receiver party \<open>0\<close> of the sample ceremony.\<close>

definition sample_sender :: tss_state where
  "sample_sender = sample_start\<lparr>t_localPeerID := ''b'', t_privateKey := [98], t_p2pPeers := [''a'', ''c'', ''d'']\<rparr>"

lemma sample_sender_sends:
  "\<exists>t'. sendBulkMsg sample_wf KEYGEN2aUnicast TSSKeyGenMsg (map sample_entry [1, 2]) sample_sender = Ret (None, t')"
  "decodes sample_wf KEYGEN2aUnicast (map sample_entry [1, 2]) sample_sender"
  "key_pair sample_wf (t_privateKey sample_sender) (pid_key (sample_party 1))" "t_channel sample_sender"
  by (simp_all add: sendBulkMsg_def generateSignature_def decodes_def key_pair_def wire_of_def sample_sender_def
      sample_start_def sample_entry_def sample_wf_def sample_common_defs sample_party_def)

theorem unicast_delivered_witness:
  "\<exists>t' (m :: broadcast_msg) s'. sendBulkMsg sample_wf KEYGEN2aUnicast TSSKeyGenMsg (map sample_entry [1, 2]) sample_sender = Ret (None, t') \<and>
     processOneMessage sample_wf \<lparr>re_freq = rev, re_freq_req = rev, re_picks = (\<lambda>n. [n])\<rparr> (Some (b_wrapped m)) ''b'' sample_start
       = Ret (None, s') \<and> size (mset (t_calls s')) = 2"
proof -
  obtain t' where r: "sendBulkMsg sample_wf KEYGEN2aUnicast TSSKeyGenMsg (map sample_entry [1, 2]) sample_sender = Ret (None, t')"
    using sample_sender_sends(1) by blast
  have rt: "bk_routing (hd (map sample_entry [1, 2])) = Some \<lparr>r_from = Some (sample_party 1), r_to = [], r_broadcast = False\<rparr>"
    by (simp add: sample_entry_def)
  have rf: "\<not> r_broadcast \<lparr>r_from = Some (sample_party 1), r_to = [], r_broadcast = False\<rparr>" "r_from \<lparr>r_from = Some (sample_party 1), r_to = [], r_broadcast = False\<rparr> = Some (sample_party 1)"
    by simp_all
  have st: "t_msgID sample_start = t_msgID sample_sender" "mget (pi_id_map sample_info) (pid_id (sample_party 1)) = Some (sample_party 1)"
    "mget (t_partyIDtoP2PID sample_start) (pid_id (sample_party 1)) = Some ''b''"
    using sample_start_state by (simp_all add: sample_sender_def)
  have good: "good_entry sample_wf sample_info (sample_party 1) bm" if "bm \<in> set (map sample_entry [1, 2])" for bm
    using that sample_good_entry(1) [of 1] sample_good_entry(1) [of 2] by auto
  have dis: "distinct (map (job_share sample_wf \<circ> bulk_job sample_info (sample_party 1)) (map sample_entry [1, 2]))"
    by (simp add: sample_good_entry(2) [where c = 1, simplified] sample_good_entry(2) [where c = 2, simplified])
  have fr: "accepted_set (t_blameMgr sample_start) \<inter> job_share sample_wf ` bulk_job sample_info (sample_party 1) `
      set (map sample_entry [1, 2]) = {}" by (simp add: sample_start_state)
  obtain m :: broadcast_msg and s' where "processOneMessage sample_wf \<lparr>re_freq = rev, re_freq_req = rev, re_picks = (\<lambda>n. [n])\<rparr>
      (Some (b_wrapped m)) ''b'' sample_start = Ret (None, s')"
    "mset (t_calls s') = mset (t_calls sample_start) +
      mset (map (job_call \<circ> bulk_job sample_info (sample_party 1)) (map sample_entry [1, 2]))"
    using unicast_delivered [OF r sample_sender_sends(4) disjI1 [OF refl] sample_sender_sends(2,3) rt rf
        sample_start_state(1) st sample_start_state(2) good dis fr, where env = "\<lparr>re_freq = rev, re_freq_req = rev, re_picks = (\<lambda>n. [n])\<rparr>" and peer = "''b''"] by blast
  then show ?thesis using r by (intro exI [of _ t'] exI [of _ m] exI [of _ s']) (simp add: sample_start_def)
qed

text \<open>For a broadcast the decoded routing is that of a broadcast of party \<open>1\<close>.\<close>

definition sample_bcast :: bulk_wire_msg where
  "sample_bcast = \<lparr>bk_msg = [1], bk_ident = ''m'',
     bk_routing = Some \<lparr>r_from = Some (sample_party 1), r_to = [], r_broadcast = True\<rparr>\<rparr>"

definition sample_bwf :: common_ext where
  "sample_bwf = sample_wf\<lparr>x_unmarshal_bulk := (\<lambda>b. Inr [sample_bcast]),
     x_unmarshal_wire := (\<lambda>b. Inr (wire_of KEYGEN1 [sample_bcast] b (98 # b)))\<rparr>"

lemma sample_bcast_sends:
  "\<exists>t'. sendBulkMsg sample_bwf KEYGEN1 TSSKeyGenMsg [sample_bcast] sample_sender = Ret (None, t')"
  "decodes sample_bwf KEYGEN1 [sample_bcast] sample_sender"
  "key_pair sample_bwf (t_privateKey sample_sender) (pid_key (sample_party 1))" "\<exists>b. x_marshal_confirm sample_bwf c = Inr b"
  by (simp_all add: sendBulkMsg_def generateSignature_def decodes_def key_pair_def wire_of_def sample_sender_def
      sample_start_def sample_bcast_def sample_bwf_def sample_wf_def sample_common_defs sample_party_def)

end
