(* ===== verification/Broadcast_Flow.thy ===== *)
theory Broadcast_Flow
  imports Tss_Delivery
begin

text \<open>
  A broadcast from end to end (\<open>common/tss.go\<close>): the first copy is stored with the node's own confirmation,
  the confirmations of the other nodes are counted, and the one that reaches the threshold hands the
  shares to the parties.
\<close>

section \<open>One confirmation\<close>

text \<open>The entry of a broadcast that waits for confirmations, and a message that confirms it with a hash.\<close>

definition held :: "'e common_ext_scheme \<Rightarrow> string \<Rightarrow> wire_message \<Rightarrow> (string, string) gomap \<Rightarrow> tss_state \<Rightarrow> bool" where
  "held x key w cl s \<longleftrightarrow> wf_map cl \<and>
     tryGetLocalCacheItem key s = Some \<lparr>ci_msg = Some w, ci_hash = bytesToHashString x (wm_msg w), ci_confirmed = cl\<rparr>"

definition confirms :: "'e common_ext_scheme \<Rightarrow> string \<Rightarrow> string \<Rightarrow> wrapped_message \<Rightarrow> bool" where
  "confirms x key hash wm \<longleftrightarrow> (w_type wm = TSSKeyGenVerMsg \<or> w_type wm = TSSKeySignVerMsg) \<and>
     (\<exists>cm. x_unmarshal_confirm x (w_payload wm) = Inr cm \<and> c_key cm = key \<and> c_hash cm = hash)"

text \<open>The fields of the state that stay the same while a broadcast waits.\<close>

definition same_ceremony :: "tss_state \<Rightarrow> tss_state \<Rightarrow> bool" where
  "same_ceremony s s' \<longleftrightarrow> t_partyInfo s' = t_partyInfo s \<and> t_partyIDtoP2PID s' = t_partyIDtoP2PID s \<and>
     t_calls s' = t_calls s \<and> t_blameMgr s' = t_blameMgr s \<and> t_culprits s' = t_culprits s \<and>
     t_sent s' = t_sent s"

lemma same_ceremony_refl: "same_ceremony s s"
  by (simp add: same_ceremony_def)

lemma same_ceremony_trans: "same_ceremony s s1 \<Longrightarrow> same_ceremony s1 s' \<Longrightarrow> same_ceremony s s'"
  by (simp add: same_ceremony_def)

text \<open>Who the broadcast is from, for a node that runs the ceremony.\<close>

definition from_party :: "party_info \<Rightarrow> wire_message \<Rightarrow> party_id \<Rightarrow> party_id \<Rightarrow> peer_id \<Rightarrow> tss_state \<Rightarrow> bool" where
  "from_party pi w p q d s \<longleftrightarrow> (\<exists>rt. wm_routing w = Some rt \<and> r_from rt = Some p \<and> r_broadcast rt) \<and>
     t_partyInfo s = Some pi \<and> mget (pi_id_map pi) (pid_id p) = Some q \<and> mget (t_partyIDtoP2PID s) (pid_id p) = Some d"

lemma from_party_same: "from_party pi w p q d s \<Longrightarrow> same_ceremony s s' \<Longrightarrow> from_party pi w p q d s'"
  by (simp add: from_party_def same_ceremony_def)

lemma confirm_step:
  assumes "held x key w cl s" "from_party pi w p q d s" "confirms x key g wm" "mget cl c = None"
    and "getThreshold (int (length (pi_id_map pi))) = Inr th"
  shows "processOneMessage x env (Some wm) c s =
    applyShare x env \<lparr>ci_msg = Some w, ci_hash = bytesToHashString x (wm_msg w), ci_confirmed = mput c g cl\<rparr> th key (w_type wm)
      (updateLocalUnconfirmedMessages key
        \<lparr>ci_msg = Some w, ci_hash = bytesToHashString x (wm_msg w), ci_confirmed = mput c g cl\<rparr> s)"
proof -
  obtain cm where cm: "x_unmarshal_confirm x (w_payload wm) = Inr cm" "c_key cm = key" "c_hash cm = g"
    using assms(3) by (auto simp: confirms_def)
  have ty: "\<not> (w_type wm = TSSKeyGenMsg \<or> w_type wm = TSSKeySignMsg)" "w_type wm = TSSKeyGenVerMsg \<or> w_type wm = TSSKeySignVerMsg"
    using assms(3) by (auto simp: confirms_def msg_type_defs)
  have it: "tryGetLocalCacheItem key s = Some \<lparr>ci_msg = Some w, ci_hash = bytesToHashString x (wm_msg w), ci_confirmed = cl\<rparr>"
    using assms(1) by (simp add: held_def)
  have "checkDupAndUpdateVerMsg cm c s = (True, cm\<lparr>c_p2pid := c\<rparr>)"
    using it assms(4) cm(2) by (simp add: checkDupAndUpdateVerMsg_def)
  then have "processOneMessage x env (Some wm) c s = processVerMsg x env (Some (cm\<lparr>c_p2pid := c\<rparr>)) (w_type wm) s"
    using ty cm(1) unfolding processOneMessage_def by simp
  also have "\<dots> = applyShare x env \<lparr>ci_msg = Some w, ci_hash = bytesToHashString x (wm_msg w), ci_confirmed = mput c g cl\<rparr> th key
      (w_type wm) (updateLocalUnconfirmedMessages key
        \<lparr>ci_msg = Some w, ci_hash = bytesToHashString x (wm_msg w), ci_confirmed = mput c g cl\<rparr> s)"
    using it cm assms(2,5) by (simp add: processVerMsg_def from_party_def updateConfirmList_def Let_def)
  finally show ?thesis .
qed

lemma mput_held: "held x key w cl s \<Longrightarrow> wf_map (mput c g cl)"
  by (simp add: held_def)

lemma confirm_counted:
  assumes "held x key w cl s" "from_party pi w p q d s" "confirms x key g wm" "mget cl c = None"
    and "getThreshold (int (length (pi_id_map pi))) = Inr th" "int (length cl) + 1 < th"
  obtains s' where "processOneMessage x env (Some wm) c s = Ret (None, s')" "held x key w (mput c g cl) s'" "same_ceremony s s'"
proof -
  let ?item = "\<lparr>ci_msg = Some w, ci_hash = bytesToHashString x (wm_msg w), ci_confirmed = mput c g cl\<rparr>"
  let ?s1 = "updateLocalUnconfirmedMessages key ?item s"
  obtain rt where rt: "wm_routing w = Some rt" "r_from rt = Some p" using assms(2) by (auto simp: from_party_def)
  have "length (mput c g cl) = Suc (length cl)"
    using assms(1,4) by (simp add: length_mput held_def)
  then have "hashCheck x (re_freq env) (t_partyIDtoP2PID ?s1) ?item th = Ret (Some ErrNotEnoughPeer, ?item)"
    using rt assms(2,6) by (simp add: hashCheck_def totalConfirmParty_def from_party_def updateLocalUnconfirmedMessages_def)
  then have "applyShare x env ?item th key (w_type wm) ?s1 = Ret (None, ?s1)"
    using rt by (simp add: applyShare_def updateLocalUnconfirmedMessages_def mput_twice)
  then have "processOneMessage x env (Some wm) c s = Ret (None, ?s1)"
    using confirm_step [OF assms(1-5)] by simp
  moreover have "held x key w (mput c g cl) ?s1"
    using mput_held [OF assms(1)] by (simp add: held_def tryGetLocalCacheItem_def updateLocalUnconfirmedMessages_def)
  moreover have "same_ceremony s ?s1" by (simp add: same_ceremony_def updateLocalUnconfirmedMessages_def)
  ultimately show ?thesis by (rule that)
qed

text \<open>The entries of the broadcast can be applied: they are good and new to the node.\<close>

definition applicable :: "'e common_ext_scheme \<Rightarrow> party_info \<Rightarrow> party_id \<Rightarrow> bulk_wire_msg list \<Rightarrow> wire_message \<Rightarrow> tss_state \<Rightarrow> bool" where
  "applicable x pi q l w s \<longleftrightarrow> x_unmarshal_bulk x (wm_msg w) = Inr l \<and> (\<forall>bm\<in>set l. good_entry x pi q bm) \<and>
     distinct (map (job_share x \<circ> bulk_job pi q) l) \<and> t_culprits s = [] \<and>
     accepted_set (t_blameMgr s) \<inter> job_share x ` bulk_job pi q ` set l = {}"

lemma applicable_same: "applicable x pi q l w s \<Longrightarrow> same_ceremony s s' \<Longrightarrow> applicable x pi q l w s'"
  by (simp add: applicable_def same_ceremony_def)

text \<open>The shares of the broadcast have reached their parties, each once.\<close>

definition delivered ::
  "'e common_ext_scheme \<Rightarrow> string \<Rightarrow> party_info \<Rightarrow> party_id \<Rightarrow> bulk_wire_msg list \<Rightarrow> tss_state \<Rightarrow> tss_state \<Rightarrow> bool" where
  "delivered x key pi q l s s' \<longleftrightarrow>
     mset (t_calls s') = mset (t_calls s) + mset (map (job_call \<circ> bulk_job pi q) l) \<and>
     accepted_set (t_blameMgr s') = accepted_set (t_blameMgr s) \<union> job_share x ` bulk_job pi q ` set l \<and>
     tryGetLocalCacheItem key s' = None \<and> m_blame (t_blameMgr s') = m_blame (t_blameMgr s)"

lemma delivered_same: "same_ceremony s s1 \<Longrightarrow> delivered x key pi q l s1 s' \<Longrightarrow> delivered x key pi q l s s'"
  by (simp add: delivered_def same_ceremony_def)

lemma confirm_applied:
  assumes "held x key w cl s" "from_party pi w p q d s" "confirms x key g wm" "mget cl c = None"
    and "getThreshold (int (length (pi_id_map pi))) = Inr th" "th \<le> int (length cl) + 1"
    and "valid_env env" "mget (mput c g cl) (x_peer_string x d) = None"
    and "th - 1 \<le> int (votes (mput c g cl) (bytesToHashString x (wm_msg w)))"
    and "\<forall>h. h \<noteq> bytesToHashString x (wm_msg w) \<longrightarrow> votes (mput c g cl) h < votes (mput c g cl) (bytesToHashString x (wm_msg w))"
    and "applicable x pi q l w s"
  shows "\<exists>s'. processOneMessage x env (Some wm) c s = Ret (None, s') \<and> delivered x key pi q l s s'"
proof -
  let ?cl = "mput c g cl" and ?h = "bytesToHashString x (wm_msg w)"
  let ?item = "\<lparr>ci_msg = Some w, ci_hash = ?h, ci_confirmed = ?cl\<rparr>"
  let ?s1 = "updateLocalUnconfirmedMessages key ?item s"
  let ?s2 = "with_mgr (\<lambda>m. m\<lparr>m_roundMgr := roundMgr_Set key w (m_roundMgr m)\<rparr>) ?s1"
  obtain rt where rt: "wm_routing w = Some rt" "r_from rt = Some p" using assms(2) by (auto simp: from_party_def)
  have len: "length ?cl = Suc (length cl)" using assms(1,4) by (simp add: length_mput held_def)
  have s1: "t_partyIDtoP2PID ?s1 = t_partyIDtoP2PID s" by (simp add: updateLocalUnconfirmedMessages_def)
  have ne: "?cl \<noteq> []" using len by auto
  have hc: "hashCheck x (re_freq env) (t_partyIDtoP2PID ?s1) ?item th = Ret (None, ?item)"
    unfolding s1
  proof (rule hashCheck_majority_accepts)
    show "mset (re_freq env l) = mset l" for l using assms(7) by (simp add: valid_env_def)
    show "wm_routing w = Some rt" "r_from rt = Some p" by (rule rt)+
    show "mget (t_partyIDtoP2PID s) (pid_id p) = Some d" using assms(2) by (simp add: from_party_def)
  qed (use assms(6,8-10) len ne mput_held [OF assms(1)] in simp_all)
  have acc: "accepted_set (t_blameMgr ?s2) = accepted_set (t_blameMgr s)" "m_blame (t_blameMgr ?s2) = m_blame (t_blameMgr s)"
    by (simp_all add: with_mgr_def accepted_set_def checkMsgDuplication_def updateLocalUnconfirmedMessages_def)
  have s2: "t_partyInfo ?s2 = Some pi" "mget (t_partyIDtoP2PID ?s2) (pid_id p) = Some d" "t_culprits ?s2 = []"
    "mget (pi_id_map pi) (pid_id p) = Some q" "t_calls ?s2 = t_calls s" "t_unConfirmed ?s2 = mput key ?item (t_unConfirmed s)"
    using assms(2,11) by (simp_all add: with_mgr_def updateLocalUnconfirmedMessages_def from_party_def applicable_def)
  have ap: "x_unmarshal_bulk x (wm_msg w) = Inr l" "\<And>bm. bm \<in> set l \<Longrightarrow> good_entry x pi q bm"
    "distinct (map (job_share x \<circ> bulk_job pi q) l)"
    "accepted_set (t_blameMgr ?s2) \<inter> job_share x ` bulk_job pi q ` set l = {}"
    using assms(11) acc(1) by (simp_all add: applicable_def)
  obtain s3 where s3: "updateLocal x (re_picks env) (Some w) ?s2 = Ret (None, s3)"
    "mset (t_calls s3) = mset (t_calls ?s2) + mset (map (job_call \<circ> bulk_job pi q) l)"
    "accepted_set (t_blameMgr s3) = accepted_set (t_blameMgr ?s2) \<union> job_share x ` bulk_job pi q ` set l"
    "t_unConfirmed s3 = t_unConfirmed ?s2" "m_blame (t_blameMgr s3) = m_blame (t_blameMgr ?s2)"
    using updateLocal_good [OF s2(1) rt s2(4,2) ap(1,2) s2(3) ap(3,4), of "re_picks env"] by blast
  have same: "updateLocalUnconfirmedMessages key ?item ?s1 = ?s1"
    by (simp add: updateLocalUnconfirmedMessages_def mput_twice)
  have "applyShare x env ?item th key (w_type wm) ?s1 = Ret (None, removeKey key s3)"
    using hc s3(1) rt same by (simp add: applyShare_def)
  then have "processOneMessage x env (Some wm) c s = Ret (None, removeKey key s3)"
    using confirm_step [OF assms(1-5)] by simp
  moreover have "delivered x key pi q l s (removeKey key s3)"
    using s3(2-5) acc s2(5) by (simp add: delivered_def removeKey_def tryGetLocalCacheItem_def)
  ultimately show ?thesis by blast
qed

section \<open>The confirmations of a run\<close>

text \<open>What the loop receives: the environment, the payload and the sender of each message, with the hash it confirms.\<close>

type_synonym confirm_event = "run_env \<times> bytes \<times> string \<times> string"

definition confirm_events :: "confirm_event list \<Rightarrow> inbound_event list" where
  "confirm_events evs = map (\<lambda>(env, pl, c, g). InMessage env pl c) evs"

definition confirmed_by :: "confirm_event list \<Rightarrow> (string, string) gomap \<Rightarrow> (string, string) gomap" where
  "confirmed_by evs cl = fold (\<lambda>(env, pl, c, g). mput c g) evs cl"

definition confirm_ok :: "'e common_ext_scheme \<Rightarrow> string \<Rightarrow> confirm_event \<Rightarrow> bool" where
  "confirm_ok x key = (\<lambda>(env, pl, c, g). valid_env env \<and> (\<exists>wm. x_unmarshal_wrapped x pl = Inr wm \<and> confirms x key g wm))"

definition confirmer :: "confirm_event \<Rightarrow> string" where
  "confirmer = (\<lambda>(env, pl, c, g). c)"

lemma confirm_simps [simp]:
  "confirm_events [] = []" "confirm_events ((env, pl, c, g) # evs) = InMessage env pl c # confirm_events evs"
  "confirmed_by [] cl = cl" "confirmed_by ((env, pl, c, g) # evs) cl = confirmed_by evs (mput c g cl)"
  "confirmer (env, pl, c, g) = c"
  by (simp_all add: confirm_events_def confirmed_by_def confirmer_def)

lemma inbound_one:
  assumes "x_unmarshal_wrapped x pl = Inr wm" "processOneMessage x env (Some wm) c s = Ret (e, s1)"
  shows "processInboundMessages x (InMessage env pl c # es) s = processInboundMessages x es s1"
  using assms by simp

lemma confirms_waiting:
  assumes "held x key w cl s" "from_party pi w p q d s" "\<forall>ev\<in>set evs. confirm_ok x key ev"
    and "getThreshold (int (length (pi_id_map pi))) = Inr th" "int (length cl) + int (length evs) < th"
    and "distinct (map confirmer evs)" "\<forall>ev\<in>set evs. mget cl (confirmer ev) = None"
  shows "\<exists>s'. processInboundMessages x (confirm_events evs) s = Ret s' \<and> held x key w (confirmed_by evs cl) s' \<and>
    same_ceremony s s' \<and> length (confirmed_by evs cl) = length cl + length evs"
  using assms
proof (induction evs arbitrary: cl s)
  case Nil
  then show ?case by (simp add: same_ceremony_refl)
next
  case (Cons ev evs)
  obtain env pl c g where ev: "ev = (env, pl, c, g)" by (cases ev)
  obtain wm where wm: "x_unmarshal_wrapped x pl = Inr wm" "confirms x key g wm"
    using Cons.prems(3) ev by (auto simp: confirm_ok_def)
  have c: "mget cl c = None" "int (length cl) + 1 < th" using Cons.prems(5,7) ev by simp_all
  obtain s1 where s1: "processOneMessage x env (Some wm) c s = Ret (None, s1)" "held x key w (mput c g cl) s1" "same_ceremony s s1"
    by (rule confirm_counted [OF Cons.prems(1,2) wm(2) c(1) Cons.prems(4) c(2)])
  have len: "length (mput c g cl) = Suc (length cl)" using Cons.prems(1) c(1) by (simp add: length_mput held_def)
  have "\<exists>s'. processInboundMessages x (confirm_events evs) s1 = Ret s' \<and> held x key w (confirmed_by evs (mput c g cl)) s' \<and>
      same_ceremony s1 s' \<and> length (confirmed_by evs (mput c g cl)) = length (mput c g cl) + length evs"
  proof (rule Cons.IH [OF s1(2) from_party_same [OF Cons.prems(2) s1(3)] _ Cons.prems(4)])
    show "\<forall>e\<in>set evs. mget (mput c g cl) (confirmer e) = None" using Cons.prems(6,7) ev by auto
  qed (use Cons.prems(3,5,6) len ev in auto)
  then show ?case
    using inbound_one [OF wm(1) s1(1)] same_ceremony_trans [OF s1(3)] len ev by auto
qed

lemma confirm_events_append:
  "processInboundMessages x (confirm_events as) s = Ret s1 \<Longrightarrow>
     processInboundMessages x (confirm_events as @ es) s = processInboundMessages x es s1"
proof (induction as arbitrary: s)
  case (Cons a as)
  obtain env pl c g where a: "a = (env, pl, c, g)" by (cases a)
  show ?case
  proof (cases "x_unmarshal_wrapped x pl")
    case (Inr wm)
    then obtain e s' where "processOneMessage x env (Some wm) c s = Ret (e, s')" "processInboundMessages x (confirm_events as) s' = Ret s1"
      using Cons.prems a by (auto simp: out_bind_Ret_iff)
    with Inr a Cons.IH show ?thesis by simp
  qed (use Cons a in simp)
qed simp

lemma confirmed_by_None:
  "mget (confirmed_by evs m) k = None \<longleftrightarrow> mget m k = None \<and> k \<notin> confirmer ` set evs"
proof (induction evs arbitrary: m)
  case (Cons ev evs)
  obtain env pl c g where "ev = (env, pl, c, g)" by (cases ev)
  with Cons show ?case by simp
qed simp

text \<open>When the last confirmation brings the number of voters to the threshold, and a majority of them has
  the hash of the message, the message is applied; before, nothing is.\<close>

lemma confirms_applied:
  assumes "held x key w cl s" "from_party pi w p q d s" "\<forall>ev\<in>set (evs @ [(env, pl, c, g)]). confirm_ok x key ev"
    and "getThreshold (int (length (pi_id_map pi))) = Inr th" "int (length cl) + int (length evs) + 1 = th"
    and "distinct (map confirmer (evs @ [(env, pl, c, g)]))" "\<forall>ev\<in>set (evs @ [(env, pl, c, g)]). mget cl (confirmer ev) = None"
    and "mget (confirmed_by (evs @ [(env, pl, c, g)]) cl) (x_peer_string x d) = None"
    and "th - 1 \<le> int (votes (confirmed_by (evs @ [(env, pl, c, g)]) cl) (bytesToHashString x (wm_msg w)))"
    and "\<forall>h. h \<noteq> bytesToHashString x (wm_msg w) \<longrightarrow> votes (confirmed_by (evs @ [(env, pl, c, g)]) cl) h <
      votes (confirmed_by (evs @ [(env, pl, c, g)]) cl) (bytesToHashString x (wm_msg w))"
    and "applicable x pi q l w s"
  shows "\<exists>s'. processInboundMessages x (confirm_events (evs @ [(env, pl, c, g)])) s = Ret s' \<and> delivered x key pi q l s s'"
proof -
  have snoc: "confirmed_by (evs @ [(env, pl, c, g)]) cl = mput c g (confirmed_by evs cl)"
    "confirm_events (evs @ [(env, pl, c, g)]) = confirm_events evs @ [InMessage env pl c]"
    by (simp_all add: confirmed_by_def confirm_events_def)
  have pre: "\<forall>ev\<in>set evs. confirm_ok x key ev" "int (length cl) + int (length evs) < th" "distinct (map confirmer evs)"
    "\<forall>ev\<in>set evs. mget cl (confirmer ev) = None"
    using assms(3,5-7) by simp_all
  obtain s1 where s1: "processInboundMessages x (confirm_events evs) s = Ret s1" "held x key w (confirmed_by evs cl) s1"
    "same_ceremony s s1" "length (confirmed_by evs cl) = length cl + length evs"
    using confirms_waiting [OF assms(1,2) pre(1) assms(4) pre(2-4)] by blast
  obtain wm where wm: "x_unmarshal_wrapped x pl = Inr wm" "confirms x key g wm" "valid_env env"
    using assms(3) by (auto simp: confirm_ok_def)
  have new: "mget (confirmed_by evs cl) c = None" using assms(6,7) by (auto simp: confirmed_by_None)
  have th: "th \<le> int (length (confirmed_by evs cl)) + 1" using s1(4) assms(5) by simp
  have "\<exists>s'. processOneMessage x env (Some wm) c s1 = Ret (None, s') \<and> delivered x key pi q l s1 s'"
    by (rule confirm_applied [OF s1(2) from_party_same [OF assms(2) s1(3)] wm(2) new assms(4) th wm(3)
        assms(8-10) [unfolded snoc(1)] applicable_same [OF assms(11) s1(3)]])
  then obtain s' where s': "processOneMessage x env (Some wm) c s1 = Ret (None, s')" "delivered x key pi q l s1 s'" by blast
  have "processInboundMessages x (confirm_events (evs @ [(env, pl, c, g)])) s = Ret s'"
    unfolding snoc(2) using confirm_events_append [OF s1(1)] wm(1) s'(1) by simp
  then show ?thesis using delivered_same [OF s1(3) s'(2)] by blast
qed

lemma votes_unanimous:
  assumes "wf_map m" "\<And>k g. mget m k = Some g \<Longrightarrow> g = h"
  shows "votes m h = length m" "g \<noteq> h \<Longrightarrow> votes m g = 0"
proof -
  have "p \<in> fst ` set m \<longleftrightarrow> mget m p = Some h" for p
    using assms(2) mget_None_iff [of m p] by (cases "mget m p") auto
  then have "{p. mget m p = Some h} = fst ` set m" by blast
  then show "votes m h = length m" using length_wf_map [OF assms(1)] by (simp add: votes_def)
  show "votes m g = 0" if "g \<noteq> h"
  proof -
    have "{p. mget m p = Some g} = {}" using assms(2) that by blast
    then show ?thesis by (simp add: votes_def)
  qed
qed

section \<open>A broadcast from end to end\<close>

text \<open>The confirmation that another node of the ceremony sends for the same bytes, as it arrives here.\<close>

definition honest_confirm :: "'e common_ext_scheme \<Rightarrow> msg_type \<Rightarrow> string \<Rightarrow> bytes \<Rightarrow> peer_id \<Rightarrow> confirm_event \<Rightarrow> bool" where
  "honest_confirm x ty key buf d = (\<lambda>(env, pl, c, g). valid_env env \<and> g = bytesToHashString x buf \<and>
     (\<exists>m sj. x_unmarshal_wrapped x pl = Inr (b_wrapped m) \<and> confirmation x ty key buf sj d m))"

lemma honest_confirm_ok:
  assumes "honest_confirm x ty key buf d ev" "ty = TSSKeyGenMsg \<or> ty = TSSKeySignMsg"
    and "\<And>c b. x_marshal_confirm x c = Inr b \<Longrightarrow> x_unmarshal_confirm x b = Inr c"
  shows "confirm_ok x key ev"
proof -
  obtain env pl c g where ev: "ev = (env, pl, c, g)" by (cases ev)
  obtain m sj where m: "valid_env env" "g = bytesToHashString x buf" "x_unmarshal_wrapped x pl = Inr (b_wrapped m)"
    "confirmation x ty key buf sj d m"
    using assms(1) ev by (auto simp: honest_confirm_def)
  have "x_unmarshal_confirm x (w_payload (b_wrapped m)) = Inr \<lparr>c_p2pid = [], c_key = key, c_hash = bytesToHashString x buf\<rparr>"
    using m(4) by (intro assms(3)) (simp add: confirmation_def)
  moreover have "getBroadcastMessageType ty = TSSKeyGenVerMsg \<or> getBroadcastMessageType ty = TSSKeySignVerMsg"
    using assms(2) by (auto simp: getBroadcastMessageType_def msg_type_defs)
  ultimately show ?thesis
    using m ev by (auto simp: confirm_ok_def confirms_def confirmation_def)
qed

lemma confirmed_by_unanimous:
  assumes "\<forall>ev\<in>set evs. honest_confirm x ty key buf d ev" "\<And>k g. mget cl k = Some g \<Longrightarrow> g = bytesToHashString x buf"
  shows "mget (confirmed_by evs cl) k = Some g \<Longrightarrow> g = bytesToHashString x buf"
  using assms
proof (induction evs arbitrary: cl)
  case (Cons ev evs)
  obtain env pl c h where ev: "ev = (env, pl, c, h)" by (cases ev)
  have "h = bytesToHashString x buf" using Cons.prems(2) ev by (simp add: honest_confirm_def)
  then have "\<And>k g. mget (mput c h cl) k = Some g \<Longrightarrow> g = bytesToHashString x buf"
    using Cons.prems(3) by (simp split: if_splits)
  with Cons.IH [of "mput c h cl"] Cons.prems(1,2) ev show ?case by simp
qed simp

lemma wf_confirmed_by: "wf_map cl \<Longrightarrow> wf_map (confirmed_by evs cl)"
proof (induction evs arbitrary: cl)
  case (Cons ev evs)
  then show ?case by (cases ev) simp
qed simp

lemma length_confirmed_by:
  assumes "wf_map cl" "distinct (map confirmer evs)" "\<forall>ev\<in>set evs. mget cl (confirmer ev) = None"
  shows "length (confirmed_by evs cl) = length cl + length evs"
  using assms
proof (induction evs arbitrary: cl)
  case (Cons ev evs)
  obtain env pl c g where ev: "ev = (env, pl, c, g)" by (cases ev)
  have "\<forall>e\<in>set evs. mget (mput c g cl) (confirmer e) = None" using Cons.prems(2,3) ev by auto
  with Cons.IH [of "mput c g cl"] Cons.prems ev show ?case by (simp add: length_mput)
qed simp

text \<open>The honest confirmations of a broadcast that the node itself has confirmed: it waits for the threshold and is
  then delivered.\<close>

lemma honest_confirms_deliver:
  assumes "held x key w cl s" "from_party pi w p q d s" "\<forall>ev\<in>set evs. honest_confirm x ty key (wm_msg w) d ev"
    and "ty = TSSKeyGenMsg \<or> ty = TSSKeySignMsg" "\<And>c b. x_marshal_confirm x c = Inr b \<Longrightarrow> x_unmarshal_confirm x b = Inr c"
    and "getThreshold (int (length (pi_id_map pi))) = Inr th" "int (length cl) + int (length evs) = th"
    and "distinct (map confirmer evs)" "\<forall>ev\<in>set evs. mget cl (confirmer ev) = None" "evs \<noteq> []"
    and "\<And>k g. mget cl k = Some g \<Longrightarrow> g = bytesToHashString x (wm_msg w)"
    and "mget cl (x_peer_string x d) = None" "x_peer_string x d \<notin> confirmer ` set evs" "applicable x pi q l w s"
  shows "\<exists>s'. processInboundMessages x (confirm_events evs) s = Ret s' \<and> delivered x key pi q l s s'"
proof -
  let ?cl = "confirmed_by evs cl" and ?h = "bytesToHashString x (wm_msg w)"
  have ok: "\<forall>ev\<in>set evs. confirm_ok x key ev" using assms(3-5) honest_confirm_ok by blast
  have wf: "wf_map cl" using assms(1) by (simp add: held_def)
  have all: "g = ?h" if "mget ?cl k = Some g" for k g by (rule confirmed_by_unanimous [OF assms(3,11) that])
  note v = votes_unanimous [OF wf_confirmed_by [OF wf, of evs] all]
  have len: "int (length ?cl) = th" using length_confirmed_by [OF wf assms(8,9)] assms(7) by simp
  have "0 < length evs" using assms(10) by simp
  then have pos: "0 < length ?cl" using length_confirmed_by [OF wf assms(8,9)] by simp
  have maj: "th - 1 \<le> int (votes ?cl ?h)" "\<forall>g. g \<noteq> ?h \<longrightarrow> votes ?cl g < votes ?cl ?h"
    using v len pos by auto
  have own: "mget ?cl (x_peer_string x d) = None" using assms(12,13) by (simp add: confirmed_by_None)
  obtain es ev where "evs = es @ [ev]" using assms(10) by (metis rev_exhaust)
  moreover obtain env pl c g where "ev = (env, pl, c, g)" by (cases ev)
  ultimately have evs: "evs = es @ [(env, pl, c, g)]" by simp
  show ?thesis
    using confirms_applied [OF assms(1,2) ok [unfolded evs] assms(6) _ assms(8,9) [unfolded evs] own [unfolded evs]
        maj [unfolded evs] assms(14)] assms(7) evs by simp
qed

lemma honest_prefix_waits:
  assumes "held x key w cl s" "from_party pi w p q d s" "\<forall>ev\<in>set evs. honest_confirm x ty key (wm_msg w) d ev"
    and "ty = TSSKeyGenMsg \<or> ty = TSSKeySignMsg" "\<And>c b. x_marshal_confirm x c = Inr b \<Longrightarrow> x_unmarshal_confirm x b = Inr c"
    and "getThreshold (int (length (pi_id_map pi))) = Inr th" "int (length cl) + int (length evs) = th"
    and "distinct (map confirmer evs)" "\<forall>ev\<in>set evs. mget cl (confirmer ev) = None" "n < length evs"
  shows "\<exists>s'. processInboundMessages x (confirm_events (take n evs)) s = Ret s' \<and> t_calls s' = t_calls s"
proof -
  have "\<forall>ev\<in>set evs. confirm_ok x key ev" using assms(3-5) honest_confirm_ok by blast
  then have ok: "\<forall>ev\<in>set (take n evs). confirm_ok x key ev" by (auto dest: in_set_takeD)
  have d: "int (length cl) + int (length (take n evs)) < th" "distinct (map confirmer (take n evs))"
    "\<forall>ev\<in>set (take n evs). mget cl (confirmer ev) = None"
    using assms(7-10) by (auto simp: take_map [symmetric] dest: in_set_takeD)
  from confirms_waiting [OF assms(1,2) ok assms(6) d] show ?thesis by (auto simp: same_ceremony_def)
qed

lemma held_item_eq:
  "held_item x w s = \<lparr>ci_msg = Some w, ci_hash = bytesToHashString x (wm_msg w),
     ci_confirmed = [(t_localPeerID s, bytesToHashString x (wm_msg w))]\<rparr>"
  by (simp add: held_item_def updateConfirmList_def newLocalCacheItem_def mput_def)

text \<open>C11. A broadcast arrives when enough others confirm it, and not before.  Take a node that knows nothing of
  the message and gets its first copy from a party of its ceremony, then one confirmation after the other,
  nothing in between, all of the same hash and from different nodes other than itself and the sender, until with
  its own they are the \<open>threshold\<close> of \<open>GetThreshold\<close>, above one.  The first copy is stored with the node's own
  confirmation, which it sends to everybody but the sender, and no share is handed to a party while fewer than
  \<open>threshold\<close> nodes have confirmed; the confirmation that reaches the threshold hands every entry to its party
  exactly once, with the bytes the sender signed and under the sender's party id, whatever the schedules, and
  forgets the message.  The sender's keys are supposed to fit, encodings to be decodable, the entries to be good
  and new to the node, and no culprit to be known to it; disagreeing confirmations are not covered.\<close>

theorem broadcast_delivered:
  assumes "sendBulkMsg x rty ty l t = Ret (None, t')" "t_channel t" "ty = TSSKeyGenMsg \<or> ty = TSSKeySignMsg"
    and "decodes x rty l t" "key_pair x (t_privateKey t) (pid_key q)"
    and "bk_routing (hd l) = Some rt" "r_broadcast rt" "r_from rt = Some p"
    and "t_partyInfo s = Some pi" "t_msgID s = t_msgID t" "mget (pi_id_map pi) (pid_id p) = Some q"
    and "mget (t_partyIDtoP2PID s) (pid_id p) = Some d" "t_channel s"
    and "tryGetLocalCacheItem (cache_key (pid_id p) rty) s = None"
    and "getThreshold (int (length (pi_id_map pi))) = Inr th" "1 < th"
    and "filter (\<lambda>el. el \<noteq> d) (t_p2pPeers s) \<noteq> []"
    and "\<And>buf. x_marshal_bulk x l = Inr buf \<Longrightarrow>
      \<exists>b. x_marshal_confirm x \<lparr>c_p2pid = [], c_key = cache_key (pid_id p) rty, c_hash = bytesToHashString x buf\<rparr> = Inr b"
    and "\<And>c b. x_marshal_confirm x c = Inr b \<Longrightarrow> x_unmarshal_confirm x b = Inr c" "x_marshal_bulk x l = Inr buf"
    and "\<forall>ev\<in>set evs. honest_confirm x ty (cache_key (pid_id p) rty) buf d ev" "1 + int (length evs) = th"
    and "distinct (x_peer_string x d # t_localPeerID s # map confirmer evs)"
    and "\<And>bm. bm \<in> set l \<Longrightarrow> good_entry x pi q bm" "distinct (map (job_share x \<circ> bulk_job pi q) l)" "t_culprits s = []"
    and "accepted_set (t_blameMgr s) \<inter> job_share x ` bulk_job pi q ` set l = {}"
  shows "\<exists>m c s1 s2. t_sent t' = t_sent t @ [m] \<and> processOneMessage x env (Some (b_wrapped m)) peer s = Ret (None, s1) \<and>
    t_sent s1 = t_sent s @ [c] \<and> confirmation x ty (cache_key (pid_id p) rty) buf s d c \<and> t_calls s1 = t_calls s \<and>
    (\<forall>n < length evs. \<exists>s'. processInboundMessages x (confirm_events (take n evs)) s1 = Ret s' \<and> t_calls s' = t_calls s) \<and>
    processInboundMessages x (confirm_events evs) s1 = Ret s2 \<and> delivered x (cache_key (pid_id p) rty) pi q l s s2"
proof -
  let ?k = "cache_key (pid_id p) rty"
  obtain m w c where m: "t_sent t' = t_sent t @ [m]" "wm_routing w = Some rt" "x_marshal_bulk x l = Inr (wm_msg w)"
    "x_unmarshal_bulk x (wm_msg w) = Inr l" "confirmation x ty ?k (wm_msg w) s d c"
    "processOneMessage x env (Some (b_wrapped m)) peer s = Ret (None,
       updateLocalUnconfirmedMessages ?k (held_item x w s) (s\<lparr>t_sent := t_sent s @ [c]\<rparr>))"
    using broadcast_first_copy [OF assms(1-18)] by metis
  let ?h = "bytesToHashString x (wm_msg w)" and ?cl = "[(t_localPeerID s, bytesToHashString x (wm_msg w))]"
  let ?s1 = "updateLocalUnconfirmedMessages ?k (held_item x w s) (s\<lparr>t_sent := t_sent s @ [c]\<rparr>)"
  have buf: "buf = wm_msg w" using m(3) assms(20) by simp
  have 1: "held x ?k w ?cl ?s1"
    by (simp add: held_def wf_map_def tryGetLocalCacheItem_def updateLocalUnconfirmedMessages_def held_item_eq)
  have 2: "from_party pi w p q d ?s1"
    using m(2) assms(7-9,11,12) by (simp add: from_party_def updateLocalUnconfirmedMessages_def)
  have 3: "applicable x pi q l w ?s1"
    using m(4) assms(24-27) by (simp add: applicable_def updateLocalUnconfirmedMessages_def)
  have ev: "\<forall>ev\<in>set evs. honest_confirm x ty ?k (wm_msg w) d ev" using assms(21) buf by simp
  have ne: "evs \<noteq> []" using assms(16,22) by auto
  have "t_localPeerID s \<notin> confirmer ` set evs" using assms(23) by simp
  then have "confirmer ev \<noteq> t_localPeerID s" if "ev \<in> set evs" for ev using imageI [OF that, of confirmer] by metis
  then have new: "\<forall>ev\<in>set evs. mget ?cl (confirmer ev) = None" "mget ?cl (x_peer_string x d) = None"
    "x_peer_string x d \<notin> confirmer ` set evs" "distinct (map confirmer evs)"
    using assms(23) by simp_all
  have th: "int (length ?cl) + int (length evs) = th" using assms(22) by simp
  have mine: "g = ?h" if "mget ?cl k = Some g" for k g using that by (simp split: if_splits)
  have "\<exists>s'. processInboundMessages x (confirm_events evs) ?s1 = Ret s' \<and> delivered x ?k pi q l ?s1 s'"
    by (rule honest_confirms_deliver [OF 1 2 ev assms(3) _ assms(15) th new(4,1) ne _ new(2,3) 3]) (erule assms(19) mine)+
  then obtain s2 where s2: "processInboundMessages x (confirm_events evs) ?s1 = Ret s2" "delivered x ?k pi q l ?s1 s2" by blast
  have "\<exists>s'. processInboundMessages x (confirm_events (take n evs)) ?s1 = Ret s' \<and> t_calls s' = t_calls s" if "n < length evs" for n
    using honest_prefix_waits [OF 1 2 ev assms(3) _ assms(15) th new(4,1) that] assms(19)
    by (auto simp: updateLocalUnconfirmedMessages_def)
  moreover have "delivered x ?k pi q l s s2" using s2(2) by (simp add: delivered_def updateLocalUnconfirmedMessages_def)
  ultimately show ?thesis
    using m(1,5,6) s2(1) buf
    by (intro exI [of _ m] exI [of _ c] exI [of _ ?s1] exI [of _ s2]) (simp add: updateLocalUnconfirmedMessages_def)
qed

text \<open>Once a broadcast is applied its entry is gone, so the next confirmation of it starts a new one; with
  a threshold of two that single confirmation already counts as a majority, and the node asks its sender for
  a share it has.\<close>

lemma late_confirmation_requests:
  assumes "tryGetLocalCacheItem key s = None" "t_partyInfo s = Some pi" "getThreshold (int (length (pi_id_map pi))) = Inr th"
    and "th \<le> 2" "valid_env env" "confirms x key g wm" "x_peer_decode x c = Inr q" "t_channel s"
    and "\<And>m. \<exists>b. x_marshal_control x m = Inr b"
  shows "\<exists>s' m. processOneMessage x env (Some wm) c s = Ret (None, s') \<and> t_sent s' = t_sent s @ [m] \<and>
    w_type (b_wrapped m) = TSSControlMsg \<and> b_peers m = [q] \<and> shareMgr_has (m_shareMgr (t_blameMgr s')) g = Some ()"
proof -
  obtain cm where cm: "x_unmarshal_confirm x (w_payload wm) = Inr cm" "c_key cm = key" "c_hash cm = g"
    using assms(6) by (auto simp: confirms_def)
  have ty: "\<not> (w_type wm = TSSKeyGenMsg \<or> w_type wm = TSSKeySignMsg)" "w_type wm = TSSKeyGenVerMsg \<or> w_type wm = TSSKeySignVerMsg"
    using assms(6) by (auto simp: confirms_def msg_type_defs)
  let ?item = "\<lparr>ci_msg = None, ci_hash = g, ci_confirmed = [(c, g)]\<rparr>"
  let ?s1 = "updateLocalUnconfirmedMessages key ?item s"
  have p: "processOneMessage x env (Some wm) c s = processVerMsg x env (Some (cm\<lparr>c_p2pid := c\<rparr>)) (w_type wm) s"
    using ty cm(1,2) assms(1) unfolding processOneMessage_def by (simp add: checkDupAndUpdateVerMsg_def)
  have v: "processVerMsg x env (Some (cm\<lparr>c_p2pid := c\<rparr>)) (w_type wm) s = Ret (requestShareFromPeer x (re_freq_req env) ?item th key (w_type wm) ?s1)"
    using assms(1-3) cm by (simp add: processVerMsg_def updateConfirmList_def newLocalCacheItem_def mput_def Let_def)
  have "re_freq_req env [(g, 1)] = [(g, 1)]"
    using assms(5) by (auto simp: valid_env_def dest: spec [of _ "[(g, 1)]"])
  then have h: "getMsgHash (re_freq_req env) ?item th = Inr g"
    using assms(4) by (simp add: getMsgHash_def getHighestFreq_def mput_def)
  obtain ty' where r: "requestShareFromPeer x (re_freq_req env) ?item th key (w_type wm) ?s1 =
      processRequestMsgFromPeer x [q] (Some \<lparr>tc_req_hash = g, tc_req_key = key, tc_req_type = ty', tc_msg = None\<rparr>) True
        (with_mgr (\<lambda>m. m\<lparr>m_shareMgr := shareMgr_Set g (m_shareMgr m)\<rparr>) ?s1)"
    using h ty(2) assms(7) by (auto simp: requestShareFromPeer_def Let_def msg_type_defs)
  obtain b where b: "x_marshal_control x (Some \<lparr>tc_req_hash = g, tc_req_key = key, tc_req_type = ty', tc_msg = None\<rparr>) = Inr b"
    using assms(9) by blast
  have "shareMgr_has (shareMgr_Set g m) g = Some ()" for m by (simp add: shareMgr_has_eq shareMgr_Set_def)
  then show ?thesis
    unfolding p v r using b assms(8)
    by (simp add: processRequestMsgFromPeer_def with_mgr_def updateLocalUnconfirmedMessages_def renderToP2P_def)
qed

section \<open>The property on a concrete input\<close>

text \<open>Party \<open>1\<close> broadcasts, party \<open>0\<close> receives, party \<open>2\<close> confirms; of the coders only the texts of this run matter.\<close>

definition sample_confirm :: confirm_message where
  "sample_confirm = \<lparr>c_p2pid = [], c_key = cache_key (pid_id (sample_party 1)) KEYGEN1, c_hash = bytesToHashString sample_bwf [1]\<rparr>"

definition sample_flow :: common_ext where
  "sample_flow = sample_bwf\<lparr>x_marshal_confirm := (\<lambda>c. if c = sample_confirm then Inr [9] else Inl (ErrExt ''json'')),
     x_unmarshal_confirm := (\<lambda>b. Inr sample_confirm)\<rparr>"

lemma sample_flow_hash: "bytesToHashString sample_flow = bytesToHashString sample_bwf"
  by (intro ext) (simp add: sample_flow_def bytesToHashString_def)

lemma sample_flow_sends:
  "\<exists>t'. sendBulkMsg sample_flow KEYGEN1 TSSKeyGenMsg [sample_bcast] sample_sender = Ret (None, t')"
  "decodes sample_flow KEYGEN1 [sample_bcast] sample_sender"
  "key_pair sample_flow (t_privateKey sample_sender) (pid_key (sample_party 1))" "x_marshal_bulk sample_flow [sample_bcast] = Inr [1]"
  by (simp_all add: sendBulkMsg_def generateSignature_def decodes_def key_pair_def wire_of_def sample_sender_def
      sample_start_def sample_bcast_def sample_flow_def sample_bwf_def sample_wf_def sample_common_defs sample_party_def)

lemma sample_flow_good:
  "good_entry sample_flow sample_info (sample_party 1) sample_bcast"
  by (auto simp: good_entry_def good_job_def job_round_def bulk_job_def newJob_def sample_bcast_def
      sample_info_def getMsgRound_def sample_flow_def sample_bwf_def sample_wf_def sample_common_defs sample_party_def nat_digits_sample)

definition sample_event :: confirm_event where
  "sample_event = (\<lparr>re_freq = rev, re_freq_req = rev, re_picks = (\<lambda>n. [n])\<rparr>, TSSKeyGenVerMsg # [9], ''c'', bytesToHashString sample_flow [1])"

lemma sample_event_honest:
  "honest_confirm sample_flow TSSKeyGenMsg (cache_key (pid_id (sample_party 1)) KEYGEN1) [1] ''b'' sample_event"
proof -
  let ?m = "\<lparr>b_wrapped = \<lparr>w_type = TSSKeyGenVerMsg, w_msgid = [], w_payload = [9]\<rparr>, b_peers = [''c'', ''d'']\<rparr>"
  have "x_unmarshal_wrapped sample_flow (TSSKeyGenVerMsg # [9]) = Inr (b_wrapped ?m)"
    by (simp add: sample_flow_def sample_bwf_def sample_wf_def sample_common_defs)
  moreover have "confirmation sample_flow TSSKeyGenMsg (cache_key (pid_id (sample_party 1)) KEYGEN1) [1] sample_start ''b'' ?m"
    unfolding confirmation_def sample_flow_hash
    by (simp add: getBroadcastMessageType_def sample_start_def sample_flow_def sample_confirm_def)
  moreover have "valid_env \<lparr>re_freq = rev, re_freq_req = rev, re_picks = (\<lambda>n. [n])\<rparr>" by (simp add: valid_env_def)
  ultimately show ?thesis unfolding honest_confirm_def sample_event_def prod.case sample_flow_hash
    by (intro conjI exI [of _ ?m] exI [of _ sample_start]) (rule refl | assumption)+
qed

lemma sample_flow_state:
  "t_channel sample_sender" "t_msgID sample_start = t_msgID sample_sender"
  "mget (pi_id_map sample_info) (pid_id (sample_party 1)) = Some (sample_party 1)"
  "mget (t_partyIDtoP2PID sample_start) (pid_id (sample_party 1)) = Some ''b''" "t_channel sample_start"
  "tryGetLocalCacheItem (cache_key (pid_id (sample_party 1)) KEYGEN1) sample_start = None"
  "filter (\<lambda>el. el \<noteq> ''b'') (t_p2pPeers sample_start) \<noteq> []" "t_calls sample_start = []"
  using sample_start_state by (simp_all add: sample_sender_def sample_start_def tryGetLocalCacheItem_def)

lemma sample_flow_confirm:
  "x_marshal_bulk sample_flow [sample_bcast] = Inr buf \<Longrightarrow> \<exists>b. x_marshal_confirm sample_flow
     \<lparr>c_p2pid = [], c_key = cache_key (pid_id (sample_party 1)) KEYGEN1, c_hash = bytesToHashString sample_flow buf\<rparr> = Inr b"
  "x_marshal_confirm sample_flow c = Inr b \<Longrightarrow> x_unmarshal_confirm sample_flow b = Inr c"
  using sample_flow_sends(4) unfolding sample_flow_hash
  by (simp add: sample_flow_def sample_confirm_def) (simp add: sample_flow_def split: if_splits)

lemma sample_flow_events:
  "\<forall>ev\<in>set [sample_event]. honest_confirm sample_flow TSSKeyGenMsg (cache_key (pid_id (sample_party 1)) KEYGEN1) [1] ''b'' ev"
  "1 + int (length [sample_event]) = 2"
  "distinct (x_peer_string sample_flow ''b'' # t_localPeerID sample_start # map confirmer [sample_event])"
  using sample_event_honest
  by (simp_all add: sample_event_def sample_start_def sample_flow_def sample_bwf_def sample_wf_def sample_common_defs)

theorem broadcast_delivered_witness:
  "\<exists>(m :: broadcast_msg) s1 s2. processOneMessage sample_flow \<lparr>re_freq = rev, re_freq_req = rev, re_picks = (\<lambda>n. [n])\<rparr> (Some (b_wrapped m)) ''b''
      sample_start = Ret (None, s1) \<and> t_calls s1 = [] \<and>
    processInboundMessages sample_flow (confirm_events [sample_event]) s1 = Ret s2 \<and> length (t_calls s2) = 1"
proof -
  obtain t' where r: "sendBulkMsg sample_flow KEYGEN1 TSSKeyGenMsg [sample_bcast] sample_sender = Ret (None, t')"
    using sample_flow_sends(1) by blast
  have rt: "bk_routing (hd [sample_bcast]) = Some \<lparr>r_from = Some (sample_party 1), r_to = [], r_broadcast = True\<rparr>"
    by (simp add: sample_bcast_def)
  have rf: "r_broadcast \<lparr>r_from = Some (sample_party 1), r_to = [], r_broadcast = True\<rparr>" "r_from \<lparr>r_from = Some (sample_party 1), r_to = [], r_broadcast = True\<rparr> = Some (sample_party 1)"
    by simp_all
  have th: "getThreshold (int (length (pi_id_map sample_info))) = Inr 2" "1 < (2::int)"
    using getThreshold_int [of 4] by (simp_all add: sample_info_def sample_ids_def)
  have good: "good_entry sample_flow sample_info (sample_party 1) bm" if "bm \<in> set [sample_bcast]" for bm
    using that sample_flow_good by simp
  have fr: "distinct (map (job_share sample_flow \<circ> bulk_job sample_info (sample_party 1)) [sample_bcast])"
    "accepted_set (t_blameMgr sample_start) \<inter> job_share sample_flow ` bulk_job sample_info (sample_party 1) ` set [sample_bcast] = {}"
    by (simp_all add: sample_start_state)
  obtain m :: broadcast_msg and s1 s2 where run: "processOneMessage sample_flow \<lparr>re_freq = rev, re_freq_req = rev, re_picks = (\<lambda>n. [n])\<rparr>
      (Some (b_wrapped m)) ''b'' sample_start = Ret (None, s1)" "t_calls s1 = t_calls sample_start"
    "processInboundMessages sample_flow (confirm_events [sample_event]) s1 = Ret s2"
    and d: "delivered sample_flow (cache_key (pid_id (sample_party 1)) KEYGEN1) sample_info (sample_party 1) [sample_bcast] sample_start s2"
    using broadcast_delivered [OF r sample_flow_state(1) disjI1 [OF refl] sample_flow_sends(2,3) rt rf
        sample_start_state(1) sample_flow_state(2-6) th sample_flow_state(7) sample_flow_confirm sample_flow_sends(4)
        sample_flow_events good fr(1) sample_start_state(2) fr(2),
        where env = "\<lparr>re_freq = rev, re_freq_req = rev, re_picks = (\<lambda>n. [n])\<rparr>" and peer = "''b''"] by blast
  have "mset (t_calls s2) = mset (map (job_call \<circ> bulk_job sample_info (sample_party 1)) [sample_bcast])"
    using d sample_flow_state(8) by (simp add: delivered_def)
  then have "length (t_calls s2) = 1" by (metis length_map list.size(3,4) mset_eq_length One_nat_def add.right_neutral add_Suc_right)
  with run sample_flow_state(8) show ?thesis by (intro exI [of _ m] exI [of _ s1] exI [of _ s2]) simp
qed

end
