(* ===== verification/Bench.thy ===== *)
theory Bench
  imports Storage
begin

text \<open>
  The two benchmark tools: \<open>cmd/tss-benchgen/main.go\<close> generates the shares of a key and writes a file for each,
  \<open>cmd/tss-benchsign/main.go\<close> reads them and signs with growing quorums.  The local parties of tss-lib run in
  goroutines; the loop of a tool is a run over what it receives from them, and the updates that it hands
  on are logged.  Durations are arguments; what is printed besides the summary is left out.
\<close>

section \<open>External functions\<close>

text \<open>The part of \<open>keygen.LocalPartySaveData\<close> that the tools read.\<close>

record share_data =
  sh_id :: nat \<comment> \<open>\<open>ShareID\<close>\<close>
  sh_pub :: "nat \<times> nat" \<comment> \<open>\<open>ECDSAPub\<close>\<close>
  sh_rest :: bytes

record bench_ext = conv_ext +
  x_marshal_share :: "share_data \<Rightarrow> bytes res"
  x_unmarshal_share :: "bytes \<Rightarrow> share_data res"
  x_original_index :: "share_data \<Rightarrow> int res"
  x_ecdsa_verify :: "nat \<times> nat \<Rightarrow> bytes \<Rightarrow> nat \<Rightarrow> nat \<Rightarrow> bool"
  x_btcec_verify :: "nat \<times> nat \<Rightarrow> bytes \<Rightarrow> nat \<Rightarrow> nat \<Rightarrow> bool"
  x_test_parties :: "int \<Rightarrow> party_id list" \<comment> \<open>\<open>tss.GenerateTestPartyIDs\<close>\<close>
  x_log_level :: "string \<Rightarrow> goerr option"
  x_signing_party :: "party_id list \<Rightarrow> party_id \<Rightarrow> int \<Rightarrow> share_data \<Rightarrow> unit outcome"
    \<comment> \<open>\<open>signing.NewLocalParty\<close> with its peer context and threshold\<close>
  x_print_int :: "int \<Rightarrow> string" \<comment> \<open>\<open>%d\<close> of a \<open>message.Printer\<close>\<close>

section \<open>The loop of both tools\<close>

record bench_msg =
  bn_to :: "int list option" \<comment> \<open>the indices of the receivers, \<open>None\<close> for a broadcast\<close>
  bn_from :: int

datatype 'r bench_event = BnError | BnMessage bench_msg | BnEnd 'r

definition setUp :: "'e bench_ext_scheme \<Rightarrow> string \<Rightarrow> unit outcome" where
  "setUp x level = (case x_log_level x level of None \<Rightarrow> Ret () | Some e \<Rightarrow> Panic ''SetLogLevel'')"

text \<open>The calls of \<open>updater\<close> for a message, as the positions of the parties.  Of several receivers only
  the first is served.\<close>

definition bench_route :: "party_id list \<Rightarrow> bench_msg \<Rightarrow> (nat \<times> bench_msg) list outcome" where
  "bench_route parties msg =
     (case bn_to msg of
        None \<Rightarrow> Ret (map (\<lambda>i. (i, msg)) (filter (\<lambda>i. pid_index (parties ! i) \<noteq> bn_from msg) [0..<length parties]))
      | Some [] \<Rightarrow> Panic ''index out of range''
      | Some (d # ds) \<Rightarrow>
         (if d = bn_from msg then Panic ''party tried to send a message to itself''
          else if 0 \<le> d \<and> d < int (length parties) then Ret [(nat d, msg)]
          else Panic ''index out of range''))"

definition makeKeyGenDataFilePath :: "string \<Rightarrow> int \<Rightarrow> string" where
  "makeKeyGenDataFilePath dir partyIndex = dir @ ''/keygen_data_'' @ itoa partyIndex @ ''.json''"

section \<open>tss-benchgen\<close>

text \<open>The file is created empty before the data is encoded.\<close>

definition tryWriteKeyGenDataFile ::
  "'e bench_ext_scheme \<Rightarrow> string \<Rightarrow> int \<Rightarrow> share_data \<Rightarrow> file_system \<Rightarrow> file_system outcome" where
  "tryWriteKeyGenDataFile x dir index data fs =
     (let fixtureFileName = makeKeyGenDataFilePath dir index in
      if os_Stat fs fixtureFileName = None \<and> fixtureFileName \<notin> set (fs_dirs fs) then Ret fs
      else (case writeFile fixtureFileName [] fs of
          (Some e, fs1) \<Rightarrow> Panic ''unable to open fixture file for writing''
        | (None, fs1) \<Rightarrow>
           (case x_marshal_share x data of
              Inl e \<Rightarrow> Panic ''unable to marshal save data for fixture file''
            | Inr bz \<Rightarrow>
               (case writeFile fixtureFileName bz fs1 of
                  (Some e, fs2) \<Rightarrow> Panic ''unable to write to fixture file''
                | (None, fs2) \<Rightarrow> Ret fs2))))"

record bench_state =
  bn_fs :: file_system
  bn_updates :: "(nat \<times> bench_msg) list"
  bn_expected :: nat
  bn_received :: int
  bn_progress :: "nat list" \<comment> \<open>the percentages displayed\<close>
  bn_ended :: nat

definition setUpProgress :: "int \<Rightarrow> bench_state \<Rightarrow> bench_state" where
  "setUpProgress n st = st\<lparr>bn_expected := nat (4 * (n - 1)), bn_received := -1\<rparr>"

text \<open>The percentage in binary64; a division by zero is infinite, and the minimum with one is taken.\<close>

definition progress_percent :: "nat \<Rightarrow> nat \<Rightarrow> nat" where
  "progress_percent received expected =
     (let quot = (if expected = 0 then (1, 1) else f64_div_nat (f64_of_nat received) expected);
          progress = (if snd quot < fst quot then (1, 1) else quot);
          percent = f64_mul_nat progress 100
      in fst percent div snd percent)"

definition incrementAndDisplayProgress :: "bench_state \<Rightarrow> bench_state" where
  "incrementAndDisplayProgress st =
     (let received = bn_received st + 1 in
      st\<lparr>bn_received := received,
         bn_progress := bn_progress st @ [if 0 < received then progress_percent (nat received) (bn_expected st) else 0]\<rparr>)"

fun runKeyGen_loop ::
  "'e bench_ext_scheme \<Rightarrow> string \<Rightarrow> party_id list \<Rightarrow> share_data bench_event list \<Rightarrow> bench_state \<Rightarrow> bench_state outcome option" where
  "runKeyGen_loop x dir parties [] st = None"
| "runKeyGen_loop x dir parties (BnError # es) st = Some (Panic ''keygen error'')"
| "runKeyGen_loop x dir parties (BnMessage msg # es) st =
     (case bench_route parties msg of
        Panic m \<Rightarrow> Some (Panic m)
      | Ret us \<Rightarrow> runKeyGen_loop x dir parties es
          (incrementAndDisplayProgress (st\<lparr>bn_updates := bn_updates st @ us\<rparr>)))"
| "runKeyGen_loop x dir parties (BnEnd save # es) st =
     (case x_original_index x save of
        Inl e \<Rightarrow> Some (Panic ''OriginalIndex'')
      | Inr index \<Rightarrow>
         (case tryWriteKeyGenDataFile x dir index save (bn_fs st) of
            Panic m \<Rightarrow> Some (Panic m)
          | Ret fs \<Rightarrow>
             (let st1 = st\<lparr>bn_fs := fs, bn_ended := bn_ended st + 1\<rparr> in
              if bn_ended st1 = length parties then
                (if x_on_curve x (fst (sh_pub save)) (snd (sh_pub save)) then Some (Ret st1)
                 else Some (Panic ''public key must be on curve, but it was not''))
              else runKeyGen_loop x dir parties es st1)))"

definition runKeyGen ::
  "'e bench_ext_scheme \<Rightarrow> string \<Rightarrow> int \<Rightarrow> int \<Rightarrow> share_data bench_event list \<Rightarrow> file_system \<Rightarrow> bench_state outcome option" where
  "runKeyGen x dir t n es fs =
     (case setUp x ''error'' of
        Panic m \<Rightarrow> Some (Panic m)
      | Ret _ \<Rightarrow> runKeyGen_loop x dir (x_test_parties x n) es
          (setUpProgress n \<lparr>bn_fs = fs, bn_updates = [], bn_expected = 0, bn_received = 0, bn_progress = [], bn_ended = 0\<rparr>))"

text \<open>The exit code of \<open>main\<close> and the files it leaves; \<open>usage\<close> exits with 2.\<close>

definition benchgen_main ::
  "'e bench_ext_scheme \<Rightarrow> int \<Rightarrow> int \<Rightarrow> string list \<Rightarrow> share_data bench_event list \<Rightarrow> file_system \<Rightarrow> (nat \<times> file_system) outcome option" where
  "benchgen_main x quorum parties args es fs =
     (if parties \<le> 0 \<or> quorum \<le> 1 \<or> parties < quorum then Some (Ret (1, fs))
      else (case args of
          [] \<Rightarrow> Some (Ret (2, fs))
        | dir # _ \<Rightarrow>
           (if os_Stat fs dir \<noteq> Some ErrNotExist then Some (Ret (1, fs))
            else (case fs_mkdir_err fs dir of
                Some e \<Rightarrow> Some (Panic ''Mkdir'')
              | None \<Rightarrow>
                 (case runKeyGen x dir (quorum - 1) parties es (fs\<lparr>fs_dirs := dir # fs_dirs fs\<rparr>) of
                    None \<Rightarrow> None
                  | Some (Panic m) \<Rightarrow> Some (Panic m)
                  | Some (Ret st) \<Rightarrow> Some (Ret (0, bn_fs st)))))))"

section \<open>tss-benchsign\<close>

text \<open>The shares with the indices of the list; the length passed to \<open>make\<close> may not be negative.\<close>

fun load_keys :: "'e bench_ext_scheme \<Rightarrow> string \<Rightarrow> int list \<Rightarrow> file_system \<Rightarrow> share_data list res" where
  "load_keys x dir [] fs = Inr []"
| "load_keys x dir (i # is) fs =
     (case readFile fs (makeKeyGenDataFilePath dir i) of
        Inl e \<Rightarrow> Inl (ErrWrap ''could not open the test fixture for party'' e)
      | Inr bz \<Rightarrow>
         (case x_unmarshal_share x bz of
            Inl e \<Rightarrow> Inl (ErrWrap ''could not unmarshal fixture data for party'' e)
          | Inr key \<Rightarrow>
             (case load_keys x dir is fs of Inl e \<Rightarrow> Inl e | Inr keys \<Rightarrow> Inr (key # keys))))"

definition share_parties :: "'e bench_ext_scheme \<Rightarrow> nat \<Rightarrow> int \<Rightarrow> share_data list \<Rightarrow> party_id list" where
  "share_parties x fresh start keys =
     map (\<lambda>(i, key). let pMoniker = itoa (int i + start + 1) in
            x_new_party x (fresh + i) pMoniker pMoniker (sh_id key)) (zip [0..<length keys] keys)"

definition loadKeyGenData ::
  "'e bench_ext_scheme \<Rightarrow> nat \<Rightarrow> string \<Rightarrow> int \<Rightarrow> int option \<Rightarrow> file_system \<Rightarrow> (share_data list \<times> party_id list) res outcome" where
  "loadKeyGenData x fresh dir qty optionalStart fs =
     (if qty < 0 then Panic ''makeslice: cap out of range''
      else let start = (case optionalStart of None \<Rightarrow> 0 | Some i \<Rightarrow> i) in
        Ret (case load_keys x dir [start..qty - 1] fs of
               Inl e \<Rightarrow> Inl e
             | Inr keys \<Rightarrow> Inr (keys, x_sort_parties x (share_parties x fresh start keys))))"

fun sign_parties :: "'e bench_ext_scheme \<Rightarrow> party_id list \<Rightarrow> int \<Rightarrow> (party_id \<times> share_data) list \<Rightarrow> unit outcome" where
  "sign_parties x ids t [] = Ret ()"
| "sign_parties x ids t ((p, key) # ps) =
     (case x_signing_party x ids p t key of Panic m \<Rightarrow> Panic m | Ret _ \<Rightarrow> sign_parties x ids t ps)"

text \<open>The loop of \<open>runSign\<close>: both checks are made on the signature that arrives last.\<close>

fun runSign_loop ::
  "'e bench_ext_scheme \<Rightarrow> party_id list \<Rightarrow> share_data list \<Rightarrow> bytes \<Rightarrow> (bytes \<times> bytes) bench_event list
   \<Rightarrow> nat \<Rightarrow> (nat \<times> bench_msg) list \<Rightarrow> (nat \<times> bench_msg) list outcome option" where
  "runSign_loop x ids keys msg [] ended us = None"
| "runSign_loop x ids keys msg (BnError # es) ended us = Some (Panic ''signing error'')"
| "runSign_loop x ids keys msg (BnMessage m # es) ended us =
     (case bench_route ids m of
        Panic e \<Rightarrow> Some (Panic e)
      | Ret us' \<Rightarrow> runSign_loop x ids keys msg es ended (us @ us'))"
| "runSign_loop x ids keys msg (BnEnd sig # es) ended us =
     (if ended + 1 = length ids then
        (let pk = sh_pub (hd keys); r = be_nat (fst sig); s = be_nat (snd sig) in
         if \<not> x_ecdsa_verify x pk msg r s then Some (Panic ''ECDSA signature verification did not pass'')
         else if \<not> x_btcec_verify x pk msg r s then Some (Panic ''ECDSA signature verification 2 did not pass'')
         else Some (Ret us))
      else runSign_loop x ids keys msg es (ended + 1) us)"

definition runSign ::
  "'e bench_ext_scheme \<Rightarrow> nat \<Rightarrow> nat \<Rightarrow> string \<Rightarrow> int \<Rightarrow> (bytes \<times> bytes) bench_event list \<Rightarrow> file_system
   \<Rightarrow> (nat \<times> bench_msg) list outcome option" where
  "runSign x fresh msg dir t es fs =
     (case setUp x ''warn'' of
        Panic m \<Rightarrow> Some (Panic m)
      | Ret _ \<Rightarrow>
         (let q = t + 1 in
          case loadKeyGenData x fresh dir q None fs of
            Panic m \<Rightarrow> Some (Panic m)
          | Ret (Inl e) \<Rightarrow> Some (Panic ''loadKeyGenData'')
          | Ret (Inr (keys, signPIDs)) \<Rightarrow>
             (if int (length keys) \<noteq> q \<or> int (length signPIDs) \<noteq> q then Some (Panic ''wanted keys'')
              else (case sign_parties x signPIDs t (zip signPIDs keys) of
                  Panic m \<Rightarrow> Some (Panic m)
                | Ret _ \<Rightarrow> runSign_loop x signPIDs keys (nat_be msg) es 0 []))))"

text \<open>The quorums of a run and the runs; a run of \<open>runSign\<close> is named by its run and its quorum, its duration is
  in milliseconds.\<close>

record bench_runs =
  br_events :: "nat \<Rightarrow> int \<Rightarrow> (bytes \<times> bytes) bench_event list"
  br_msg :: "nat \<Rightarrow> int \<Rightarrow> nat"
  br_ms :: "nat \<Rightarrow> int \<Rightarrow> nat"

fun bench_quorums ::
  "'e bench_ext_scheme \<Rightarrow> bench_runs \<Rightarrow> nat \<Rightarrow> string \<Rightarrow> nat \<Rightarrow> int list \<Rightarrow> file_system \<Rightarrow> (int \<times> nat) list outcome option" where
  "bench_quorums x br fresh dir run [] fs = Some (Ret [])"
| "bench_quorums x br fresh dir run (q # qs) fs =
     (case runSign x fresh (br_msg br run q) dir (q - 1) (br_events br run q) fs of
        None \<Rightarrow> None
      | Some (Panic m) \<Rightarrow> Some (Panic m)
      | Some (Ret _) \<Rightarrow>
         (case bench_quorums x br fresh dir run qs fs of
            None \<Rightarrow> None
          | Some (Panic m) \<Rightarrow> Some (Panic m)
          | Some (Ret rs) \<Rightarrow> Some (Ret ((q, br_ms br run q) # rs))))"

fun bench_all_runs ::
  "'e bench_ext_scheme \<Rightarrow> bench_runs \<Rightarrow> nat \<Rightarrow> string \<Rightarrow> int list \<Rightarrow> nat list \<Rightarrow> file_system \<Rightarrow> (int \<times> nat) list list outcome option" where
  "bench_all_runs x br fresh dir qs [] fs = Some (Ret [])"
| "bench_all_runs x br fresh dir qs (run # runs) fs =
     (case bench_quorums x br fresh dir run qs fs of
        None \<Rightarrow> None
      | Some (Panic m) \<Rightarrow> Some (Panic m)
      | Some (Ret rs) \<Rightarrow>
         (case bench_all_runs x br fresh dir qs runs fs of
            None \<Rightarrow> None
          | Some (Panic m) \<Rightarrow> Some (Panic m)
          | Some (Ret rss) \<Rightarrow> Some (Ret (rs # rss))))"

text \<open>The header and the rows of the table.\<close>

definition summary_row :: "'e bench_ext_scheme \<Rightarrow> (int \<times> nat) list list \<Rightarrow> nat \<Rightarrow> int \<Rightarrow> string list" where
  "summary_row x results q quorum =
     (let ms = (\<lambda>d. x_print_int x (int d) @ '' ms''); ds = map (\<lambda>r. snd (r ! q)) results in
      x_print_int x quorum # map ms ds @ [ms (sum_list ds div length results)])"

definition printSummary :: "'e bench_ext_scheme \<Rightarrow> (int \<times> nat) list list \<Rightarrow> (string list \<times> string list list) outcome" where
  "printSummary x results =
     (case results of
        [] \<Rightarrow> Panic ''index out of range''
      | first # _ \<Rightarrow>
         (if list_ex (\<lambda>r. length r < length first) results then Panic ''index out of range''
          else Ret (''Quorum'' # map (\<lambda>run. ''Run '' @ itoa (int run + 1)) [0..<length results] @ [''Mean''],
                    map (\<lambda>(q, r). summary_row x results q (fst r)) (zip [0..<length first] first))))"

text \<open>The exit code of \<open>main\<close> and the table when it prints one.\<close>

definition benchsign_main ::
  "'e bench_ext_scheme \<Rightarrow> bench_runs \<Rightarrow> nat \<Rightarrow> int \<Rightarrow> int \<Rightarrow> int \<Rightarrow> string list \<Rightarrow> file_system
   \<Rightarrow> (nat \<times> (string list \<times> string list list) option) outcome option" where
  "benchsign_main x br fresh startQuorum endQuorum runs args fs =
     (if endQuorum \<le> 1 \<or> runs < 1 \<or> endQuorum < startQuorum then Some (Ret (1, None))
      else (case args of
          [] \<Rightarrow> Some (Ret (2, None))
        | dir # _ \<Rightarrow>
           (if os_Stat fs dir \<noteq> None \<or> dir \<notin> set (fs_dirs fs) then Some (Ret (1, None))
            else if os_Stat fs (makeKeyGenDataFilePath dir (endQuorum - 1)) = Some ErrNotExist then Some (Ret (1, None))
            else (case bench_all_runs x br fresh dir [startQuorum..endQuorum] [0..<nat runs] fs of
                None \<Rightarrow> None
              | Some (Panic m) \<Rightarrow> Some (Panic m)
              | Some (Ret results) \<Rightarrow>
                 (case printSummary x results of
                    Panic m \<Rightarrow> Some (Panic m)
                  | Ret table \<Rightarrow> Some (Ret (0, Some table)))))))"

section \<open>The shares that are written are read back\<close>

fun bench_ends :: "'r bench_event list \<Rightarrow> 'r list" where
  "bench_ends [] = []"
| "bench_ends (BnEnd r # es) = r # bench_ends es"
| "bench_ends (e # es) = bench_ends es"

text \<open>What the directory holds after the shares of \<open>ds\<close> were written over the file system \<open>fs0\<close>.\<close>

definition shares_saved :: "'e bench_ext_scheme \<Rightarrow> string \<Rightarrow> file_system \<Rightarrow> share_data list \<Rightarrow> file_system \<Rightarrow> bool" where
  "shares_saved x dir fs0 ds fs \<longleftrightarrow>
     calm fs \<and> fs_dirs fs = fs_dirs fs0 \<and>
     (\<forall>d\<in>set ds. \<exists>i b. x_original_index x d = Inr i \<and> x_marshal_share x d = Inr b
        \<and> fs_lookup fs (makeKeyGenDataFilePath dir i) = Some b) \<and>
     (\<forall>i. (\<forall>d\<in>set ds. x_original_index x d \<noteq> Inr i) \<longrightarrow> fs_lookup fs (makeKeyGenDataFilePath dir i) = None)"

lemma data_path_inject [simp]: "makeKeyGenDataFilePath dir i = makeKeyGenDataFilePath dir j \<longleftrightarrow> i = j"
  by (simp add: makeKeyGenDataFilePath_def)

lemma writeFile_done:
  assumes "writeFile p b fs = (None, fs1)"
  shows "fs1 = fs_put p b fs"
  using assms by (simp add: writeFile_def split: option.splits prod.splits)

lemma fs_put_simps [simp]:
  "fs_lookup (fs_put p b fs) p' = (if p' = p then Some b else fs_lookup fs p')"
  "fs_dirs (fs_put p b fs) = fs_dirs fs"
  "calm (fs_put p b fs) = calm fs"
  by (simp_all add: fs_put_def fs_lookup_def calm_def mget_mput)

lemma tryWrite_new:
  assumes "tryWriteKeyGenDataFile x dir i d fs = Ret fs1" "fs_lookup fs (makeKeyGenDataFilePath dir i) = None"
    and "makeKeyGenDataFilePath dir i \<notin> set (fs_dirs fs)" "calm fs"
  obtains b where "x_marshal_share x d = Inr b" "fs_dirs fs1 = fs_dirs fs" "calm fs1"
    "\<And>p. fs_lookup fs1 p = (if p = makeKeyGenDataFilePath dir i then Some b else fs_lookup fs p)"
proof -
  have new: "os_Stat fs (makeKeyGenDataFilePath dir i) \<noteq> None"
    using assms(2-4) by (simp add: os_Stat_def calm_def)
  obtain fs2 b where w: "writeFile (makeKeyGenDataFilePath dir i) [] fs = (None, fs2)" "x_marshal_share x d = Inr b"
    "writeFile (makeKeyGenDataFilePath dir i) b fs2 = (None, fs1)"
    using assms(1) new by (auto simp: tryWriteKeyGenDataFile_def Let_def split: prod.splits option.splits sum.splits)
  show thesis
    by (rule that [OF w(2)])
      (use assms(4) in \<open>simp_all add: writeFile_done [OF w(3)] writeFile_done [OF w(1)]\<close>)
qed

lemma shares_saved_write:
  assumes "shares_saved x dir fs0 ds fs" "x_original_index x d = Inr i" "\<forall>d'\<in>set ds. x_original_index x d' \<noteq> Inr i"
    and "makeKeyGenDataFilePath dir i \<notin> set (fs_dirs fs0)" "tryWriteKeyGenDataFile x dir i d fs = Ret fs1"
  shows "shares_saved x dir fs0 (ds @ [d]) fs1"
proof -
  have "fs_lookup fs (makeKeyGenDataFilePath dir i) = None" "makeKeyGenDataFilePath dir i \<notin> set (fs_dirs fs)" "calm fs"
    using assms(1,3,4) by (simp_all add: shares_saved_def)
  from tryWrite_new [OF assms(5) this] obtain b where b: "x_marshal_share x d = Inr b" "fs_dirs fs1 = fs_dirs fs" "calm fs1"
    "\<And>p. fs_lookup fs1 p = (if p = makeKeyGenDataFilePath dir i then Some b else fs_lookup fs p)" by blast
  have "\<exists>j c. x_original_index x e = Inr j \<and> x_marshal_share x e = Inr c
      \<and> fs_lookup fs1 (makeKeyGenDataFilePath dir j) = Some c" if "e \<in> set (ds @ [d])" for e
  proof (cases "e = d")
    case True
    then show ?thesis using assms(2) b by simp
  next
    case False
    with that assms(1) obtain j c where "e \<in> set ds" "x_original_index x e = Inr j" "x_marshal_share x e = Inr c"
      "fs_lookup fs (makeKeyGenDataFilePath dir j) = Some c" unfolding shares_saved_def by auto
    then show ?thesis using assms(3) b(4) by auto
  qed
  then show ?thesis using assms(1,2) b by (simp add: shares_saved_def)
qed

lemma incrementAndDisplay_keeps [simp]:
  "bn_fs (incrementAndDisplayProgress st) = bn_fs st" "bn_ended (incrementAndDisplayProgress st) = bn_ended st"
  by (simp_all add: incrementAndDisplayProgress_def Let_def)

lemma runKeyGen_loop_saves:
  assumes "runKeyGen_loop x dir ps es st = Some (Ret st')" "shares_saved x dir fs0 ds (bn_fs st)"
    and "bn_ended st = length ds" "distinct (map (x_original_index x) (ds @ bench_ends es))"
    and "\<And>i. makeKeyGenDataFilePath dir i \<notin> set (fs_dirs fs0)"
  shows "\<exists>rs. set rs \<subseteq> set (bench_ends es) \<and> shares_saved x dir fs0 (ds @ rs) (bn_fs st')
    \<and> length (ds @ rs) = length ps \<and> distinct (map (x_original_index x) (ds @ rs))"
  using assms(1-4)
proof (induction es arbitrary: st ds)
  case (Cons e es)
  show ?case
  proof (cases e)
    case (BnMessage msg)
    then show ?thesis using Cons.prems Cons.IH [of _ ds] by (auto split: outcome.splits)
  next
    case (BnEnd d)
    obtain i where i: "x_original_index x d = Inr i" using Cons.prems(1) BnEnd by (auto split: sum.splits)
    obtain fs1 where w: "tryWriteKeyGenDataFile x dir i d (bn_fs st) = Ret fs1"
      using Cons.prems(1) BnEnd i by (auto split: outcome.splits)
    have fresh: "\<forall>d'\<in>set ds. x_original_index x d' \<noteq> Inr i" using Cons.prems(4) BnEnd i by force
    have saved: "shares_saved x dir fs0 (ds @ [d]) fs1"
      by (rule shares_saved_write [OF Cons.prems(2) i fresh assms(5) w])
    let ?st = "st\<lparr>bn_fs := fs1, bn_ended := bn_ended st + 1\<rparr>"
    show ?thesis
    proof (cases "Suc (length ds) = length ps")
      case True
      then have "st' = ?st" using Cons.prems(1,3) BnEnd i w by (auto simp: Let_def split: if_splits)
      then show ?thesis using True saved Cons.prems(4) BnEnd by (intro exI [of _ "[d]"]) simp
    next
      case False
      then have "runKeyGen_loop x dir ps es ?st = Some (Ret st')" using Cons.prems(1,3) BnEnd i w by (simp add: Let_def)
      then obtain rs where "set rs \<subseteq> set (bench_ends es)" "shares_saved x dir fs0 ((ds @ [d]) @ rs) (bn_fs st')"
        "length ((ds @ [d]) @ rs) = length ps" "distinct (map (x_original_index x) ((ds @ [d]) @ rs))"
        using Cons.IH [of ?st "ds @ [d]"] saved Cons.prems(3,4) BnEnd by auto
      then show ?thesis using BnEnd by (intro exI [of _ "d # rs"]) auto
    qed
  qed (use Cons.prems in simp)
qed simp

lemma load_keys_saved:
  assumes "calm fs" "\<And>i. i \<in> set is \<Longrightarrow> x_original_index x (key i) = Inr i \<and> (\<exists>b. x_unmarshal_share x b = Inr (key i)
      \<and> fs_lookup fs (makeKeyGenDataFilePath dir i) = Some b)"
  shows "load_keys x dir is fs = Inr (map key is)"
  using assms(2)
proof (induction "is")
  case (Cons i "is")
  obtain b where "x_unmarshal_share x b = Inr (key i)" "fs_lookup fs (makeKeyGenDataFilePath dir i) = Some b"
    using Cons.prems [of i] by auto
  moreover have "load_keys x dir is fs = Inr (map key is)" using Cons by simp
  ultimately show ?case using assms(1) by (simp add: readFile_def calm_def)
qed simp

lemma all_indices_held:
  assumes "length ds = n" "distinct (map f ds)" "\<And>d. d \<in> set ds \<Longrightarrow> \<exists>i\<in>{0..<int n}. f d = Inr i" "i \<in> {0..<int n}"
  shows "\<exists>d\<in>set ds. f d = Inr i"
proof -
  have "set (map f ds) \<subseteq> Inr ` {0..<int n}" using assms(3) by fastforce
  moreover have "card (set (map f ds)) = card (Inr ` {0..<int n})"
    using distinct_card [OF assms(2)] assms(1) by (simp add: card_image)
  ultimately have "set (map f ds) = Inr ` {0..<int n}" by (intro card_subset_eq) auto
  then have "Inr i \<in> set (map f ds)" using assms(4) by blast
  then show ?thesis by auto
qed

lemma runKeyGen_holds_all:
  assumes "runKeyGen x dir t n es fs = Some (Ret st)" "calm fs"
    and "\<And>i. makeKeyGenDataFilePath dir i \<notin> set (fs_dirs fs) \<and> fs_lookup fs (makeKeyGenDataFilePath dir i) = None"
    and "length (x_test_parties x n) = nat n" "distinct (map (x_original_index x) (bench_ends es))"
    and "\<And>d. d \<in> set (bench_ends es) \<Longrightarrow> \<exists>i\<in>{0..<n}. x_original_index x d = Inr i"
  obtains ds where "set ds \<subseteq> set (bench_ends es)" "shares_saved x dir fs ds (bn_fs st)"
    "\<And>i. i \<in> {0..<n} \<Longrightarrow> \<exists>d\<in>set ds. x_original_index x d = Inr i"
proof -
  have "shares_saved x dir fs [] fs" using assms(2,3) by (simp add: shares_saved_def)
  moreover obtain st0 where "runKeyGen_loop x dir (x_test_parties x n) es st0 = Some (Ret st)" "bn_fs st0 = fs" "bn_ended st0 = 0"
    using assms(1) by (fastforce simp: runKeyGen_def setUpProgress_def split: outcome.splits)
  ultimately obtain ds where ds: "set ds \<subseteq> set (bench_ends es)" "shares_saved x dir fs ds (bn_fs st)"
    "length ds = nat n" "distinct (map (x_original_index x) ds)"
    using runKeyGen_loop_saves [of x dir "x_test_parties x n" es st0 st fs "[]"] assms(3-5) by auto
  show thesis
  proof (rule that [OF ds(1,2)])
    fix i assume "i \<in> {0..<n}"
    then show "\<exists>d\<in>set ds. x_original_index x d = Inr i"
      using all_indices_held [OF ds(3,4), of i] ds(1) assms(6) by (cases "0 \<le> n") auto
  qed
qed

lemma share_parties_keys:
  assumes "party_lib x"
  shows "map (be_nat \<circ> pid_key) (share_parties x fresh start keys) = map sh_id keys"
  using assms by (intro nth_equalityI) (auto simp: share_parties_def party_lib_def Let_def)

text \<open>\<open>main\<close> demands a quorum above one in its message but does not check it: with the quorum 0
  no signature is awaited, and the signing never ends.\<close>

lemma runSign_loop_no_parties: "runSign_loop x [] keys msg es ended us \<noteq> Some (Ret us')"
  by (induction es arbitrary: ended us rule: bench_ends.induct) (auto split: outcome.splits)

lemma runSign_quorum_zero:
  assumes "length (x_sort_parties x []) = 0"
  shows "runSign x fresh msg dir (-1) es fs \<noteq> Some (Ret us)"
  using assms by (auto simp: runSign_def loadKeyGenData_def share_parties_def runSign_loop_no_parties split: outcome.splits)

lemma benchsign_never_ends:
  assumes "length (x_sort_parties x []) = 0" "1 < n" "0 < r" "dir \<in> set (fs_dirs fs)" "calm fs"
    and "fs_lookup fs (makeKeyGenDataFilePath dir (n - 1)) \<noteq> None"
  shows "benchsign_main x br fresh 0 n r [dir] fs \<noteq> Some (Ret (0, Some table))"
proof -
  have "bench_quorums x br fresh dir run [0..n] fs \<noteq> Some (Ret rs)" for run rs
    using assms(2) runSign_quorum_zero [OF assms(1), of fresh "br_msg br run 0" dir "br_events br run 0" fs]
    by (subst upto_rec1) (auto split: option.splits outcome.splits)
  moreover have "[0..<nat r] = 0 # [1..<nat r]" using assms(3) upt_conv_Cons by simp
  ultimately show ?thesis using assms(2-6)
    by (auto simp: benchsign_main_def split: option.splits outcome.splits)
qed

text \<open>C37. The two benchmark tools fit together: when the generation of \<open>n\<close> shares into a directory without
  share files has ended, every quorum of at most \<open>n\<close> shares can be loaded from it.  The shares that are
  loaded are those that the parties produced, in the order of their indices, and the party ids handed to
  the signing parties are paired with their own shares, although only the ids are sorted: the
  ids of the shares ascend with their indices.\<close>

theorem bench_shares_load:
  assumes "runKeyGen x dir t n es fs = Some (Ret st)" "calm fs"
    and "\<And>i. makeKeyGenDataFilePath dir i \<notin> set (fs_dirs fs) \<and> fs_lookup fs (makeKeyGenDataFilePath dir i) = None"
    and "length (x_test_parties x n) = nat n" "distinct (map (x_original_index x) (bench_ends es))"
    and index: "\<And>d. d \<in> set (bench_ends es) \<Longrightarrow> \<exists>i\<in>{0..<n}. x_original_index x d = Inr i"
    and ascend: "\<And>d e i j. \<lbrakk>d \<in> set (bench_ends es); e \<in> set (bench_ends es); x_original_index x d = Inr i;
      x_original_index x e = Inr j; i < j\<rbrakk> \<Longrightarrow> sh_id d < sh_id e"
    and json: "\<And>d b. x_marshal_share x d = Inr b \<Longrightarrow> x_unmarshal_share x b = Inr d"
    and lib: "party_lib x" "\<And>ps. sorted (map (be_nat \<circ> pid_key) ps) \<Longrightarrow> map pid_key (x_sort_parties x ps) = map pid_key ps"
    and q: "0 \<le> q" "q \<le> n"
  shows "\<exists>keys pids. loadKeyGenData x fresh dir q None (bn_fs st) = Ret (Inr (keys, pids))
    \<and> length keys = nat q \<and> (\<forall>i<nat q. keys ! i \<in> set (bench_ends es) \<and> x_original_index x (keys ! i) = Inr (int i))
    \<and> map (be_nat \<circ> pid_key) pids = map sh_id keys"
proof -
  obtain ds where ds: "set ds \<subseteq> set (bench_ends es)" "shares_saved x dir fs ds (bn_fs st)"
    "\<And>i. i \<in> {0..<n} \<Longrightarrow> \<exists>d\<in>set ds. x_original_index x d = Inr i"
    using runKeyGen_holds_all [OF assms(1-5) index] by blast
  then obtain key where key: "\<And>i. i \<in> {0..<n} \<Longrightarrow> key i \<in> set ds \<and> x_original_index x (key i) = Inr i" by metis
  let ?is = "[0..q - 1]"
  have "load_keys x dir ?is (bn_fs st) = Inr (map key ?is)"
  proof (rule load_keys_saved)
    fix i assume "i \<in> set ?is"
    then have k: "key i \<in> set ds" "x_original_index x (key i) = Inr i" using key [of i] q by auto
    with ds(2) obtain b where "x_marshal_share x (key i) = Inr b" "fs_lookup (bn_fs st) (makeKeyGenDataFilePath dir i) = Some b"
      by (fastforce simp: shares_saved_def)
    with k json show "x_original_index x (key i) = Inr i \<and> (\<exists>b. x_unmarshal_share x b = Inr (key i)
      \<and> fs_lookup (bn_fs st) (makeKeyGenDataFilePath dir i) = Some b)" by blast
  qed (use ds(2) in \<open>simp add: shares_saved_def\<close>)
  moreover have held: "map key ?is ! i \<in> set (bench_ends es) \<and> x_original_index x (map key ?is ! i) = Inr (int i)"
    if "i < nat q" for i using that key [of "int i"] ds(1) q by auto
  moreover have "sorted (map sh_id (map key ?is))"
    unfolding sorted_iff_nth_mono_less using held ascend by (force intro: less_imp_le)
  then have "map (be_nat \<circ> pid_key) (x_sort_parties x (share_parties x fresh 0 (map key ?is))) = map sh_id (map key ?is)"
    using share_parties_keys [OF lib(1)] lib(2) by (metis map_map)
  ultimately show ?thesis using q(1) by (simp add: loadKeyGenData_def)
qed

definition sample_bench :: bench_ext where
  "sample_bench = conv_ext.extend sample_conv \<lparr>
     x_marshal_share = (\<lambda>d. if d = \<lparr>sh_id = sh_id d, sh_pub = (1, 10), sh_rest = []\<rparr> \<and> sh_id d < 256 then Inr [of_nat (sh_id d)]
       else Inl (ErrExt ''json'')),
     x_unmarshal_share = (\<lambda>b. case b of [c] \<Rightarrow> Inr \<lparr>sh_id = unat c, sh_pub = (1, 10), sh_rest = []\<rparr> | _ \<Rightarrow> Inl (ErrExt ''json'')),
     x_original_index = (\<lambda>d. Inr (int (sh_id d) - 10)),
     x_ecdsa_verify = (\<lambda>pk m r s. True), x_btcec_verify = (\<lambda>pk m r s. True),
     x_test_parties = (\<lambda>n. map (\<lambda>i. \<lparr>pid_ref = i, pid_id = [], pid_moniker = [], pid_key = [], pid_index = int i\<rparr>) [0..<nat n]),
     x_log_level = (\<lambda>l. None), x_signing_party = (\<lambda>ids p t key. Ret ()), x_print_int = itoa\<rparr>"

lemma sample_bench_lib:
  "party_lib sample_bench"
  "sorted (map (be_nat \<circ> pid_key) ps) \<Longrightarrow> map pid_key (x_sort_parties sample_bench ps) = map pid_key ps"
  using party_lib_sample by (simp_all add: party_lib_def sample_bench_def sample_conv_def conv_ext.defs comp_def sort_key_id_if_sorted)

definition sample_shares :: "share_data bench_event list" where
  "sample_shares = [BnEnd \<lparr>sh_id = 11, sh_pub = (1, 10), sh_rest = []\<rparr>,
     BnMessage \<lparr>bn_to = None, bn_from = 1\<rparr>, BnEnd \<lparr>sh_id = 10, sh_pub = (1, 10), sh_rest = []\<rparr>]"

lemma sample_keygen_ends:
  "\<exists>st. runKeyGen sample_bench ''/d'' 1 2 sample_shares sample_fs = Some (Ret st)"
  by (simp add: runKeyGen_def sample_shares_def sample_bench_def sample_conv_def conv_ext.defs setUp_def bench_route_def
      tryWriteKeyGenDataFile_def Let_def sample_fs_def os_Stat_def writeFile_def fs_put_def fs_lookup_def
      setUpProgress_def incrementAndDisplayProgress_def progress_percent_def)

theorem bench_shares_load_witness:
  "\<exists>st keys pids. runKeyGen sample_bench ''/d'' 1 2 sample_shares sample_fs = Some (Ret st) \<and>
     loadKeyGenData sample_bench 0 ''/d'' 2 None (bn_fs st) = Ret (Inr (keys, pids)) \<and>
     length keys = 2 \<and> map (be_nat \<circ> pid_key) pids = map sh_id keys"
proof -
  obtain st where st: "runKeyGen sample_bench ''/d'' 1 2 sample_shares sample_fs = Some (Ret st)"
    using sample_keygen_ends by blast
  have ends: "bench_ends sample_shares = [\<lparr>sh_id = 11, sh_pub = (1, 10), sh_rest = []\<rparr>, \<lparr>sh_id = 10, sh_pub = (1, 10), sh_rest = []\<rparr>]"
    by (simp add: sample_shares_def)
  have "\<exists>keys pids. loadKeyGenData sample_bench 0 ''/d'' 2 None (bn_fs st) = Ret (Inr (keys, pids))
    \<and> length keys = nat 2 \<and> (\<forall>i<nat 2. keys ! i \<in> set (bench_ends sample_shares) \<and> x_original_index sample_bench (keys ! i) = Inr (int i))
    \<and> map (be_nat \<circ> pid_key) pids = map sh_id keys"
    by (rule bench_shares_load [OF st calm_sample _ _ _ _ _ _ sample_bench_lib])
      (auto simp: ends sample_fs_def makeKeyGenDataFilePath_def fs_lookup_def sample_bench_def conv_ext.defs
        unat_of_nat take_bit_nat_eq_self split: if_splits)
  with st show ?thesis by auto
qed

end
