(* ===== verification/Client_Context.thy ===== *)
theory Client_Context
  imports Bridge_Client
begin

text \<open>
  The client context of \<open>network/bridge_client.go\<close> (\<open>AccountAddress\<close>, \<open>GetContext\<close>): which account and which
  node a transaction goes through.  Theory \<open>Bridge_Client\<close> takes what the SDK answers during one
  broadcast as given; here the answers are those of a context that the client builds from its keys and its
  configuration.  The constructors of the two messages, \<open>types.NewMsgTssPool\<close> and
  \<open>types.NewMsgRegisterTssPool\<close>, are parameters where the messages are sent.
\<close>

section \<open>The account\<close>

record account_ext = keyring_ext +
  x_key :: "nat \<Rightarrow> string \<Rightarrow> nat res" \<comment> \<open>the record of a name in a key ring\<close>
  x_record_pub :: "nat \<Rightarrow> bytes res" \<comment> \<open>its \<open>GetPubKey\<close>\<close>
  x_acc_address :: "bytes \<Rightarrow> bytes"
  x_bech32 :: "bytes \<Rightarrow> string" \<comment> \<open>\<open>AccAddress.String\<close>\<close>

definition accountAddress :: "'e account_ext_scheme \<Rightarrow> keys \<Rightarrow> bytes res" where
  "accountAddress x k =
     (case x_key x (k_kb k) (k_signerName k) of
        Inl e \<Rightarrow> Inl e
      | Inr t \<Rightarrow> (case x_record_pub x t of Inl e \<Rightarrow> Inl e | Inr a \<Rightarrow> Inr (x_acc_address x a)))"

section \<open>The context\<close>

record client_context =
  cx_Keyring :: nat
  cx_ChainID :: string
  cx_HomeDir :: string
  cx_FromName :: string
  cx_FromAddress :: bytes
  cx_BroadcastMode :: string
  cx_NodeURI :: string
  cx_Client :: nat

record context_ext = account_ext +
  x_rpc_new :: "string \<Rightarrow> string \<Rightarrow> nat res" \<comment> \<open>\<open>rpchttp.New\<close>\<close>
  x_build :: "client_context \<Rightarrow> bridge_msg list \<Rightarrow> 64 word \<Rightarrow> 64 word \<Rightarrow> nat res"
  x_sign :: "client_context \<Rightarrow> string \<Rightarrow> nat \<Rightarrow> nat res"
  x_tx_encode :: "nat \<Rightarrow> bytes res"
  x_tx_json :: "nat \<Rightarrow> bytes res"
  x_broadcast_tx :: "client_context \<Rightarrow> bytes \<Rightarrow> commit res"

text \<open>An error of \<open>AccountAddress\<close> leaves the sender empty.\<close>

definition getContext :: "'e context_ext_scheme \<Rightarrow> keys \<Rightarrow> bridge_config \<Rightarrow> client_context outcome" where
  "getContext x k cfg =
     (let address = (case accountAddress x k of Inl e \<Rightarrow> [] | Inr a \<Rightarrow> a) in
      case x_rpc_new x (cf_RpcUrl cfg) ''/websocket'' of
        Inl e \<Rightarrow> Panic ''rpchttp.New''
      | Inr client \<Rightarrow> Ret \<lparr>cx_Keyring = k_kb k, cx_ChainID = cf_ChainId cfg, cx_HomeDir = [], cx_FromName = cf_SignerName cfg,
          cx_FromAddress = address, cx_BroadcastMode = ''sync'', cx_NodeURI = cf_RpcUrl cfg, cx_Client = client\<rparr>)"

text \<open>What the outside does during a broadcast of a client with these keys: every call goes through its context.\<close>

definition broadcast_env :: "'e context_ext_scheme \<Rightarrow> http_client \<Rightarrow> keys \<Rightarrow> bridge_config \<Rightarrow> chain_env" where
  "broadcast_env x http k cfg =
     (let no_context = ErrExt ''no context''; ctx = getContext x k cfg in
      \<lparr>ce_http = http,
       ce_address = (case accountAddress x k of Inl e \<Rightarrow> Inl e | Inr a \<Rightarrow> Inr (x_bech32 x a)),
       ce_rpc = (case ctx of Panic m \<Rightarrow> Some no_context | Ret c \<Rightarrow> None),
       ce_build = (\<lambda>msgs an sn. case ctx of Panic m \<Rightarrow> Inl no_context | Ret c \<Rightarrow> x_build x c msgs an sn),
       ce_sign = (\<lambda>b. case ctx of Panic m \<Rightarrow> Inl no_context | Ret c \<Rightarrow> x_sign x c (cx_FromName c) b),
       ce_encode = x_tx_encode x, ce_json = x_tx_json x,
       ce_broadcast = (\<lambda>tx. case ctx of Panic m \<Rightarrow> Inl no_context | Ret c \<Rightarrow> x_broadcast_tx x c tx)\<rparr>)"

lemma broadcast_env_address:
  "ce_address (broadcast_env x http k cfg) = Inr a \<longleftrightarrow> (\<exists>t p. x_key x (k_kb k) (k_signerName k) = Inr t
     \<and> x_record_pub x t = Inr p \<and> a = x_bech32 x (x_acc_address x p))"
  by (auto simp: broadcast_env_def accountAddress_def Let_def split: sum.splits)

lemma broadcast_env_rpc: "ce_rpc (broadcast_env x http k cfg) \<noteq> None \<longleftrightarrow> (\<exists>e. x_rpc_new x (cf_RpcUrl cfg) ''/websocket'' = Inl e)"
  by (auto simp: broadcast_env_def getContext_def Let_def split: sum.splits)

text \<open>The address of the node does not change between its broadcasts: the hypothesis of the properties of
  the relayer holds of all of them as soon as it holds of one.\<close>

lemma address_of_keys: "ce_address (broadcast_env x http k cfg) = ce_address (broadcast_env x http' k cfg')"
  by (simp add: broadcast_env_def Let_def)

text \<open>A malformed RPC address is not an error of a broadcast: it stops the node at its first transaction,
  after the account was read.\<close>

lemma bad_rpc_url_panics:
  assumes "x_rpc_new cx (cf_RpcUrl cfg) ''/websocket'' = Inl e"
    and "getCurrentHeight x http (cf_BlockUrl (bc_cfg b)) = Ret (Inr h)"
    and "refresh_account x (broadcast_env cx http k cfg) h b = Ret (Inr b1)"
  shows "broadcastTx x (broadcast_env cx http k cfg) msgs b = Panic ''rpchttp.New''"
proof -
  have "ce_http (broadcast_env cx http k cfg) = http" by (simp add: broadcast_env_def Let_def)
  moreover obtain e' where "ce_rpc (broadcast_env cx http k cfg) = Some e'"
    using assms(1) broadcast_env_rpc by blast
  ultimately show ?thesis using assms(2,3) by (simp add: broadcastTx_def build_tx_def Let_def)
qed

text \<open>A key ring without the signer's key refuses every broadcast at a new block.\<close>

lemma unknown_signer_refused:
  assumes "x_key cx (k_kb k) (k_signerName k) = Inl e" "bc_currentBlockHeight b < h"
    and "getCurrentHeight x http (cf_BlockUrl (bc_cfg b)) = Ret (Inr h)"
  shows "\<exists>e'. broadcastTx x (broadcast_env cx http k cfg) msgs b = Ret (Inl e', b)"
  using assms by (simp add: broadcastTx_def refresh_account_def getAccountNumberAndSequenceNumber_def
      broadcast_env_def accountAddress_def Let_def)

end
