(* ===== verification/Node_Services.thy ===== *)
theory Node_Services
  imports Chain_Clients Storage
begin

text \<open>
  The smaller services of a node: the export of the peer addresses (\<open>p2p/peer_address.go\<close>), the unused block
  scanner (\<open>network/block_scanner.go\<close>), the observer that starts the chains (\<open>network/observer.go\<close>), and the
  two goroutines of a Bitcoin client (\<open>Start\<close>, \<open>ProcessTxsIn\<close> of \<open>network/chain/btc.go\<close>), which meet
  in the unbuffered channel of the deposits.
\<close>

section \<open>Peer addresses\<close>

text \<open>The peer store of the host: the peers in the order in which \<open>Peers\<close> returns them.\<close>

record peer_store =
  ps_peers :: "peer_id list"
  ps_addrs :: "peer_id \<Rightarrow> string list"

definition exportPeerAddress :: "peer_store \<Rightarrow> (peer_id, string list) gomap" where
  "exportPeerAddress ps = foldl (\<lambda>addressBook el. mput el (ps_addrs ps el) addressBook) [] (ps_peers ps)"

lemma export_foldl:
  "mget (foldl (\<lambda>m el. mput el (f el) m) m ps) p = (if p \<in> set ps then Some (f p) else mget m p)"
  by (induction ps arbitrary: m) auto

lemma exportPeerAddress_get: "mget (exportPeerAddress ps) p = (if p \<in> set (ps_peers ps) then Some (ps_addrs ps p) else None)"
  by (simp add: exportPeerAddress_def export_foldl)

lemma addr_records_member:
  assumes "mget m p = Some addrs" "a \<in> set addrs" "\<not> str_contains a ''127.0.0.1''"
  shows "a @ ''/p2p/'' @ x_peer_string x p \<in> set (addr_records x m)"
  using assms by (induction x m rule: addr_records.induct) (auto split: if_splits)

text \<open>Every address of a known peer that is not a loopback address survives a restart: it is exported, saved, and
  read back by the next process.\<close>

lemma exported_address_read_back:
  assumes "calm fs" "saveAddressBook x folder (exportPeerAddress ps) fs = (None, fs1)"
    and "\<And>r. r \<in> set (addr_records x (exportPeerAddress ps)) \<Longrightarrow> newline \<notin> set r \<and> x_multiaddr x r = Inr r"
    and "p \<in> set (ps_peers ps)" "a \<in> set (ps_addrs ps p)" "\<not> str_contains a ''127.0.0.1''"
  shows "\<exists>rs. retrieveP2PAddresses x folder fs1 = Inr rs \<and> a @ ''/p2p/'' @ x_peer_string x p \<in> set rs"
  using address_book_roundtrip [OF assms(1-3)] addr_records_member [OF _ assms(5,6), of "exportPeerAddress ps" p x]
    exportPeerAddress_get [of ps p] assms(4) by simp

section \<open>The block scanner\<close>

record block_scanner =
  bk_blockUrl :: string
  bk_stateUrl :: string
  bk_currentBlock :: int

definition newBlockScanner :: "string \<Rightarrow> string \<Rightarrow> block_scanner" where
  "newBlockScanner blockUrl stateUrl = \<lparr>bk_blockUrl = blockUrl, bk_stateUrl = stateUrl, bk_currentBlock = 0\<rparr>"

text \<open>A pass of the loop finds \<open>stopCh\<close> closed, which does not end it, or polls the height.  \<open>None\<close>: the loop
  is still running after these passes.\<close>

datatype block_pass = BkStopped | BkPoll http_client

fun scanBlocks :: "'e http_ext_scheme \<Rightarrow> block_scanner \<Rightarrow> block_pass list \<Rightarrow> goerr outcome option" where
  "scanBlocks x b [] = None"
| "scanBlocks x b (BkStopped # es) = scanBlocks x b es"
| "scanBlocks x b (BkPoll http # es) =
     (let nextBlock = bk_currentBlock b + 1 in
      case getCurrentHeight x http (bk_blockUrl b) of
        Panic m \<Rightarrow> Some (Panic m)
      | Ret (Inl e) \<Rightarrow> Some (Ret e)
      | Ret (Inr chainCurrentHeight) \<Rightarrow> scanBlocks x b es)"

text \<open>Only a failing poll ends the loop: neither the heights of the chain nor a stop do.\<close>

lemma scanBlocks_runs:
  "scanBlocks x b es = None \<longleftrightarrow> (\<forall>http. BkPoll http \<in> set es \<longrightarrow> (\<exists>h. getCurrentHeight x http (bk_blockUrl b) = Ret (Inr h)))"
proof (induction es)
  case (Cons e es)
  show ?case
  proof (cases e)
    case (BkPoll http)
    then show ?thesis using Cons by (auto split: outcome.splits sum.splits)
  qed (use Cons in auto)
qed simp

section \<open>The observer\<close>

datatype chain_routine = RunScan chain_client | RunProcessTxsIn chain_client

definition chain_Start :: "chain_client \<Rightarrow> chain_routine list \<times> goerr option" where
  "chain_Start c = ([RunScan c, RunProcessTxsIn c], None)"

definition newObserver :: "(string, chain_client) gomap \<Rightarrow> (string, chain_client) gomap res" where
  "newObserver cs = Inr cs"

text \<open>The goroutines in the order of one range over the map; the errors of the chains are dropped.\<close>

definition observer_Start :: "(string, chain_client) gomap \<Rightarrow> chain_routine list \<times> goerr option" where
  "observer_Start cs = (concat (map (\<lambda>(k, v). fst (chain_Start v)) cs), None)"

lemma observer_starts_each:
  assumes "(k, c) \<in> set cs"
  shows "RunScan c \<in> set (fst (observer_Start cs))" "RunProcessTxsIn c \<in> set (fst (observer_Start cs))"
  using assms by (force simp: observer_Start_def chain_Start_def)+

section \<open>The goroutines of a Bitcoin client\<close>

text \<open>\<open>Scan\<close> has the deposits of \<open>pp_scan\<close> still to write, one at a time to an unbuffered channel; \<open>ProcessTxsIn\<close> prints
  what it receives until it finds \<open>stopCh\<close> closed.  Nothing writes to \<open>UnshieldTxsQueue\<close>.\<close>

record btc_pipe =
  pp_scan :: "shield_tx_data list"
  pp_reading :: bool
  pp_stopped :: bool
  pp_printed :: "shield_tx_data list"

inductive pipe_step :: "btc_pipe \<Rightarrow> btc_pipe \<Rightarrow> bool" where
  handover: "\<lbrakk>pp_reading p; pp_scan p = d # ds\<rbrakk> \<Longrightarrow> pipe_step p (p\<lparr>pp_scan := ds, pp_printed := pp_printed p @ [d]\<rparr>)"
| stop_reading: "\<lbrakk>pp_reading p; pp_stopped p\<rbrakk> \<Longrightarrow> pipe_step p (p\<lparr>pp_reading := False\<rparr>)"

inductive_cases pipe_stepE: "pipe_step p p'"

definition start_pipe :: "base_chain \<Rightarrow> bool \<Rightarrow> btc_pipe" where
  "start_pipe b stopped = \<lparr>pp_scan = ch_shields b, pp_reading = True, pp_stopped = stopped, pp_printed = []\<rparr>"

definition pipe_holds :: "shield_tx_data list \<Rightarrow> bool \<Rightarrow> nat \<Rightarrow> btc_pipe \<Rightarrow> bool" where
  "pipe_holds all stopped n p \<longleftrightarrow> pp_printed p @ pp_scan p = all \<and> pp_stopped p = stopped \<and> (pp_reading p \<or> stopped)
     \<and> n = length (pp_printed p) + (if pp_reading p then 0 else 1)"

lemma pipe_holds_step: "pipe_holds all stopped n p \<Longrightarrow> pipe_step p p' \<Longrightarrow> pipe_holds all stopped (Suc n) p'"
  by (auto simp: pipe_holds_def elim!: pipe_stepE)

interpretation pipe: counted_steps pipe_step "pipe_holds all stopped" for all stopped
  by unfold_locales (rule pipe_holds_step)

lemma start_pipe_holds: "pipe_holds (ch_shields b) stopped 0 (start_pipe b stopped)"
  by (simp add: pipe_holds_def start_pipe_def)

lemma pipe_bounded:
  assumes "(pipe_step ^^ k) (start_pipe b stopped) p"
  shows "k \<le> Suc (length (ch_shields b))"
proof -
  have h: "pipe_holds (ch_shields b) stopped k p" using pipe.inv_steps [OF assms start_pipe_holds] by simp
  then have "length (pp_printed p) \<le> length (ch_shields b)" unfolding pipe_holds_def by (metis length_append le_add1)
  then show ?thesis using h by (auto simp: pipe_holds_def split: if_splits)
qed

text \<open>Every deposit that the scan reports is printed, in order, unless the client is stopped; a client that is stopped
  with a deposit left leaves its scan blocked for ever.\<close>

lemma pipe_prints_all:
  assumes "pipe_step\<^sup>*\<^sup>* (start_pipe b stopped) p" "\<nexists>p'. pipe_step p p'"
  shows "pp_printed p @ pp_scan p = ch_shields b" and "\<not> stopped \<Longrightarrow> pp_printed p = ch_shields b"
proof -
  obtain n where n: "pipe_holds (ch_shields b) stopped n p"
    using pipe.inv_reach [OF assms(1) start_pipe_holds] by auto
  then show "pp_printed p @ pp_scan p = ch_shields b" by (simp add: pipe_holds_def)
  have "pp_scan p = []" if "pp_reading p" using assms(2) handover [OF that] by (cases "pp_scan p") auto
  then show "pp_printed p = ch_shields b" if "\<not> stopped" using n that by (auto simp: pipe_holds_def)
qed

lemma stopped_scan_blocks: "\<not> pp_reading p \<Longrightarrow> \<nexists>p'. pipe_step p p'"
  by (auto elim: pipe_stepE)

end
