(* ===== verification/Message_Enums.thy ===== *)
theory Message_Enums
  imports Signature_Notifier
begin

text \<open>
  What the source relies on in the generated files \<open>messages/join_party.pb.go\<close> and
  \<open>messages/signature_notifier.pb.go\<close>: the numbers and names of the two enumerations, and the getters, which read
  a nil message as the zero message.  The numbers order the enumerations, as Go's comparison does.
\<close>

section \<open>The response of a leader\<close>

fun response_Number :: "response_type \<Rightarrow> int" where
  "response_Number RespUnknown = 0"
| "response_Number RespSuccess = 1"
| "response_Number RespTimeout = 2"
| "response_Number RespLeaderNotReady = 3"
| "response_Number RespUnknownPeer = 4"

definition response_name :: "(int, string) gomap" where
  "response_name = [(0, ''Unknown''), (1, ''Success''), (2, ''Timeout''), (3, ''LeaderNotReady''), (4, ''UnknownPeer'')]"

definition response_value :: "(string, int) gomap" where
  "response_value = [(''Unknown'', 0), (''Success'', 1), (''Timeout'', 2), (''LeaderNotReady'', 3), (''UnknownPeer'', 4)]"

definition all_responses :: "response_type list" where
  "all_responses = [RespUnknown, RespSuccess, RespTimeout, RespLeaderNotReady, RespUnknownPeer]"

lemma in_all_responses [simp]: "r \<in> set all_responses"
  by (cases r) (simp_all add: all_responses_def)

definition response_of_Number :: "int \<Rightarrow> response_type option" where
  "response_of_Number n = find (\<lambda>r. response_Number r = n) all_responses"

interpretation response_codec: codec response_Number response_of_Number "\<lambda>_. True"
proof
  show "response_of_Number (response_Number r) = Some r" for r
    by (cases r) (simp_all add: response_of_Number_def all_responses_def)
qed

instantiation response_type :: linorder
begin

definition less_eq_response_type :: "response_type \<Rightarrow> response_type \<Rightarrow> bool" where
  "less_eq_response_type a b \<longleftrightarrow> response_Number a \<le> response_Number b"

definition less_response_type :: "response_type \<Rightarrow> response_type \<Rightarrow> bool" where
  "less_response_type a b \<longleftrightarrow> response_Number a < response_Number b"

instance
proof
  show "a = b" if "a \<le> b" "b \<le> a" for a b :: response_type
    by (rule response_codec.enc_inject) (use that in \<open>simp_all add: less_eq_response_type_def\<close>)
qed (auto simp: less_eq_response_type_def less_response_type_def)

end

text \<open>Both maps are inverse to each other, and name exactly the constants.\<close>

lemma response_names: "mget response_value s = Some n \<longleftrightarrow> mget response_name n = Some s"
  by (auto simp: response_value_def response_name_def)

lemma response_named: "map_option response_Number (response_of_Number n) = (if mget response_name n = None then None else Some n)"
  by (auto simp: response_of_Number_def all_responses_def response_name_def)

lemma all_responses_sorted: "sorted_wrt (<) all_responses"
  by (simp add: all_responses_def less_response_type_def)

definition leader_comm_zero :: leader_comm where
  "leader_comm_zero = \<lparr>lc_id = [], lc_msg_type = [], lc_type = RespUnknown, lc_peers = []\<rparr>"

definition leader_GetID :: "leader_comm option \<Rightarrow> string" where
  "leader_GetID x = (case x of Some c \<Rightarrow> lc_id c | None \<Rightarrow> [])"

definition leader_GetMsgType :: "leader_comm option \<Rightarrow> string" where
  "leader_GetMsgType x = (case x of Some c \<Rightarrow> lc_msg_type c | None \<Rightarrow> [])"

definition leader_GetType :: "leader_comm option \<Rightarrow> response_type" where
  "leader_GetType x = (case x of Some c \<Rightarrow> lc_type c | None \<Rightarrow> RespUnknown)"

definition leader_GetPeerIDs :: "leader_comm option \<Rightarrow> string list" where
  "leader_GetPeerIDs x = (case x of Some c \<Rightarrow> lc_peers c | None \<Rightarrow> [])"

lemmas leader_getters = leader_GetID_def leader_GetMsgType_def leader_GetType_def leader_GetPeerIDs_def

lemma nil_leader_comm:
  "leader_GetID None = leader_GetID (Some leader_comm_zero)" "leader_GetMsgType None = leader_GetMsgType (Some leader_comm_zero)"
  "leader_GetType None = leader_GetType (Some leader_comm_zero)" "leader_GetPeerIDs None = leader_GetPeerIDs (Some leader_comm_zero)"
  by (simp_all add: leader_getters leader_comm_zero_def)

text \<open>A message without a type is no answer of a leader: the zero type is below every type that the leader sends.\<close>

lemma zero_response_least: "leader_GetType None \<le> r"
  by (cases r) (simp_all add: leader_getters less_eq_response_type_def)

section \<open>The status of a signature\<close>

fun keysign_Number :: "keysign_status \<Rightarrow> int" where
  "keysign_Number KsUnknown = 0"
| "keysign_Number KsSuccess = 1"
| "keysign_Number KsFailed = 2"

definition keysign_name :: "(int, string) gomap" where
  "keysign_name = [(0, ''Unknown''), (1, ''Success''), (2, ''Failed'')]"

definition keysign_value :: "(string, int) gomap" where
  "keysign_value = [(''Unknown'', 0), (''Success'', 1), (''Failed'', 2)]"

definition keysign_of_Number :: "int \<Rightarrow> keysign_status option" where
  "keysign_of_Number n = find (\<lambda>r. keysign_Number r = n) [KsUnknown, KsSuccess, KsFailed]"

interpretation keysign_codec: codec keysign_Number keysign_of_Number "\<lambda>_. True"
proof
  show "keysign_of_Number (keysign_Number r) = Some r" for r by (cases r) (simp_all add: keysign_of_Number_def)
qed

instantiation keysign_status :: linorder
begin

definition less_eq_keysign_status :: "keysign_status \<Rightarrow> keysign_status \<Rightarrow> bool" where
  "less_eq_keysign_status a b \<longleftrightarrow> keysign_Number a \<le> keysign_Number b"

definition less_keysign_status :: "keysign_status \<Rightarrow> keysign_status \<Rightarrow> bool" where
  "less_keysign_status a b \<longleftrightarrow> keysign_Number a < keysign_Number b"

instance
proof
  show "a = b" if "a \<le> b" "b \<le> a" for a b :: keysign_status
    by (rule keysign_codec.enc_inject) (use that in \<open>simp_all add: less_eq_keysign_status_def\<close>)
qed (auto simp: less_eq_keysign_status_def less_keysign_status_def)

end

lemma keysign_names: "mget keysign_value s = Some n \<longleftrightarrow> mget keysign_name n = Some s"
  by (auto simp: keysign_value_def keysign_name_def)

definition keysign_GetID :: "keysign_msg option \<Rightarrow> string" where
  "keysign_GetID x = (case x of Some m \<Rightarrow> km_id m | None \<Rightarrow> [])"

definition keysign_GetSignatures :: "keysign_msg option \<Rightarrow> bytes list" where
  "keysign_GetSignatures x = (case x of Some m \<Rightarrow> km_signatures m | None \<Rightarrow> [])"

definition keysign_GetKeysignStatus :: "keysign_msg option \<Rightarrow> keysign_status" where
  "keysign_GetKeysignStatus x = (case x of Some m \<Rightarrow> km_status m | None \<Rightarrow> KsUnknown)"

text \<open>A nil message does not report a signature.\<close>

lemma nil_keysign_msg: "keysign_GetKeysignStatus None < KsSuccess" "keysign_GetSignatures None = []" "keysign_GetID None = []"
  by (simp_all add: keysign_GetKeysignStatus_def keysign_GetSignatures_def keysign_GetID_def less_keysign_status_def)

end
