(* ===== verification/Cli_Flags.thy ===== *)
theory Cli_Flags
  imports Node
begin

text \<open>
  \<open>parseFlags\<close> of \<open>cmd/tss/main.go\<close>: the command line that the node had before its configuration was
  read from a file.  \<open>main\<close> no longer calls it, which is why the folder of the key shares keeps its zero
  value there (theory \<open>Node\<close>).  The flags are those of \<open>config.go\<close> under other names and defaults; the
  global variables of the package are the general fields of the record.
\<close>

text \<open>The names of the flags, with the names that theory \<open>Node\<close> has for the variables they set.\<close>

definition cli_names :: "(string, string) gomap" where
  "cli_names = [(''tss-port'', ''tss_addr''), (''h'', ''h''), (''pretty-log'', ''pretty_log''), (''home'', ''base_folder''),
     (''gentimeout'', ''gentimeout''), (''signtimeout'', ''signtimeout''), (''preparamtimeout'', ''preparamtimeout''),
     (''enablemonitor'', ''enablemonitor''), (''rendezvous'', ''rendezvous''), (''p2p-port'', ''p2p_port''),
     (''external-ip'', ''external-ip''), (''peer'', ''peer''), (''bridge_block_url'', ''bridge_block_url''),
     (''bridge_state_url'', ''bridge_state_url''), (''bridge_signer_name'', ''bridge_signer_name''),
     (''bridge_signer_password'', ''bridge_signer_password''), (''bridge_relayer_address'', ''bridge_relayer_address''),
     (''bridge_rpc_url'', ''bridge_rpc_url'')]"

text \<open>The values after the registration; \<open>getenv\<close> is the environment.\<close>

definition cli_defaults :: "(string \<Rightarrow> string) \<Rightarrow> config" where
  "cli_defaults getenv =
     \<lparr>cfg_TssAddr = ''127.0.0.1:8080'', cfg_Help = False, cfg_LogLevel = [], cfg_PrettyLog = False, cfg_BaseFolder = [],
      cfg_Bridge = Some \<lparr>bs_BlockUrl = ''http://localhost:26657'', bs_StateUrl = ''http://localhost:1317'',
        bs_RpcUrl = ''tcp://127.0.0.1:26657'', bs_RelayerAddress = ''bridge1t00hhfcwn8ja9cv64yzal9mdcjepyc53w9y0ms'',
        bs_SignerName = getenv ''SIGNER_NAME'', bs_SignerPasswd = getenv ''SIGNER_PASSWD''\<rparr>,
      cfg_Chains = [],
      cfg_Tss = Some \<lparr>tc_PartyTimeout = 0, tc_KeyGenTimeout = 30 * second, tc_KeySignTimeout = 30 * second,
        tc_PreParamTimeout = 300 * second, tc_EnableMonitor = True\<rparr>,
      cfg_P2p = Some \<lparr>pp_RendezvousString = ''Asgard'', pp_Port = 6668, pp_BootstrapPeers = [], pp_ExternalIP = []\<rparr>\<rparr>"

text \<open>\<open>None\<close>: a flag is unknown or its value does not fit, and the process exits.\<close>

fun cli_parse :: "(string \<Rightarrow> string res) \<Rightarrow> (string \<times> flag_value) list \<Rightarrow> config \<Rightarrow> config option" where
  "cli_parse maddr [] c = Some c"
| "cli_parse maddr ((n, v) # as) c =
     (case mget cli_names n of
        None \<Rightarrow> None
      | Some m \<Rightarrow> (case set_flag maddr ''rendezvous'' m v c of None \<Rightarrow> None | Some c1 \<Rightarrow> cli_parse maddr as c1))"

definition parseFlags :: "(string \<Rightarrow> string res) \<Rightarrow> (string \<Rightarrow> string) \<Rightarrow> (string \<times> flag_value) list \<Rightarrow> config option outcome" where
  "parseFlags maddr getenv args =
     out_bind (flag_vars (map fst cli_names) []) (\<lambda>_. Ret (cli_parse maddr args (cli_defaults getenv)))"

text \<open>The names are constants without a clash, so unlike \<open>readFromFlag\<close>, which takes one from the
  configuration, the registration never panics.\<close>

lemma parseFlags_registers: "parseFlags maddr getenv args = Ret (cli_parse maddr args (cli_defaults getenv))"
  by (simp add: parseFlags_def cli_names_def flag_var_def)

definition sections_there :: "config \<Rightarrow> bool" where
  "sections_there c \<longleftrightarrow> cfg_Tss c \<noteq> None \<and> cfg_P2p c \<noteq> None \<and> cfg_Bridge c \<noteq> None"

lemma set_flag_sections:
  assumes "set_flag maddr rv n v c = Some c1"
  shows "sections_there c1 \<and> cfg_Chains c1 = cfg_Chains c"
  using assms by (auto simp: sections_there_def set_flag_def set_general_def split: option.splits flag_value.splits if_splits)

lemma cli_parse_sections:
  "cli_parse maddr args c = Some c1 \<Longrightarrow> sections_there c \<Longrightarrow> sections_there c1 \<and> cfg_Chains c1 = cfg_Chains c"
proof (induction maddr args c rule: cli_parse.induct)
  case (2 maddr n v as c)
  then obtain m c2 where m: "mget cli_names n = Some m" "set_flag maddr ''rendezvous'' m v c = Some c2" "cli_parse maddr as c2 = Some c1"
    by (auto split: option.splits)
  with "2.IH" [OF m(1,2,3)] set_flag_sections [OF m(2)] show ?case by simp
qed simp

text \<open>Whatever the command line, the three sections are there and no chain is configured.\<close>

lemma parseFlags_complete:
  assumes "parseFlags maddr getenv args = Ret (Some c)"
  shows "sections_there c \<and> cfg_Chains c = []"
proof -
  have "sections_there (cli_defaults getenv)" "cfg_Chains (cli_defaults getenv) = []"
    by (simp_all add: sections_there_def cli_defaults_def)
  then show ?thesis using cli_parse_sections [of maddr args "cli_defaults getenv" c] assms by (simp add: parseFlags_registers)
qed

text \<open>The folder given last is the folder of the key shares.\<close>

lemma cli_parse_append:
  "cli_parse maddr (as @ bs) c = (case cli_parse maddr as c of None \<Rightarrow> None | Some c1 \<Rightarrow> cli_parse maddr bs c1)"
  by (induction maddr as c rule: cli_parse.induct) (auto split: option.splits)

lemma parseFlags_home:
  assumes "parseFlags maddr getenv args = Ret (Some c)"
  shows "parseFlags maddr getenv (args @ [(''home'', FvString folder)]) = Ret (Some (c\<lparr>cfg_BaseFolder := folder\<rparr>))"
  using assms parseFlags_complete [OF assms]
  by (auto simp: parseFlags_registers cli_parse_append cli_names_def set_flag_def set_general_def sections_there_def)

end
