(* ===== verification/Spec2Isabelle.thy ===== *)
theory Spec2Isabelle
  imports Communication Chain_Clients Recovery Committee Signer_Loops Broadcast_Flow Bench Client_Context Node_Services Message_Enums Cli_Flags
begin

text \<open>
  A verification development for go-tss, a threshold signature node for ECDSA: the nodes of a
  committee generate a shared key and sign with it, and a node of the bridge network drives both
  from what it reads on its chain.

  \<^bold>\<open>The parts and how they meet.\<close>  A request (\<open>Keygen\<close>, \<open>KeySign\<close>, package \<open>tss\<close>) becomes an id that
  names the committee.  Under this id the nodes meet (\<open>p2p/party_coordinator.go\<close>): a leader chosen by a hash
  counts the requests and answers all of them with the party.  Then the messages of the tss-lib parties
  are exchanged through \<open>common.TssCommon\<close>: outgoing messages are collected in bulks, signed and
  broadcast; incoming ones are checked, broadcasts are confirmed by a majority of hashes, and the shares are
  given to the parties by a pool of workers; what goes wrong is attributed by the policies of
  package \<open>blame\<close>.  A new key is stored (\<open>storage\<close>); signatures are also sent to the nodes that do not
  sign (\<open>keysign/signature_notifier.go\<close>).  Above this, the bridge node (\<open>network\<close>) scans its chain
  for key generations, signs tasks in batches and reports the results in transactions; \<open>cmd/tss\<close> offers the
  same calls over HTTP, and \<open>cmd/tss-recovery\<close> rebuilds a key from the share files.

  \<^bold>\<open>The theories.\<close>
    \<^item> \<open>Tss_Prelude\<close>: strings, bytes, Go maps (association lists whose order is one order of \<open>range\<close>),
      errors as values (\<open>res\<close>), panics as values (\<open>outcome\<close>).  \<open>Tss_Interfaces\<close>: the locales (keyed
      store, codec, step invariant, monotone step, step relation, counted steps, quorum), interpreted in
      the theory of the component that provides them.  \<open>Clock\<close>: events with their times, and the run that a
      \<open>select\<close> with a timer makes of them.  \<open>Go_Std\<close>, \<open>Go_Sort\<close>: what the source uses of Go's library (hex,
      base64, big-endian integers, binary64 arithmetic, \<open>sort.SliceStable\<close>).
    \<^item> \<open>Messages\<close> and \<open>Message_Enums\<close> (\<open>messages\<close>), \<open>Conversion\<close> and \<open>Committee\<close> (\<open>conversion\<close>), \<open>Blame\<close> (\<open>blame\<close>).
    \<^item> \<open>Tss_State\<close>, \<open>Tss_Common\<close>: \<open>common/tss.go\<close>, \<open>common/tss_helper.go\<close>, \<open>common/local_cache_item.go\<close>.
      The record \<open>tss_state\<close> is \<open>TssCommon\<close>; every method is a function from the state to its result.
      \<open>Tss_Safety\<close>, \<open>Hash_Agreement\<close>, \<open>Tss_Props\<close>, \<open>Tss_Delivery\<close>, \<open>Broadcast_Flow\<close>: its invariant and
      properties, both ends of a message, and a broadcast with its confirmations.
    \<^item> \<open>Stream_Helper\<close>, \<open>Party_Coordinator\<close>, \<open>Join_Props\<close>, \<open>Communication\<close>: package \<open>p2p\<close>.
    \<^item> \<open>Ceremony\<close>, \<open>Keygen\<close>, \<open>Keysign\<close>, \<open>Signature_Notifier\<close>: packages \<open>keygen\<close> and \<open>keysign\<close>; \<open>Storage\<close>:
      package \<open>storage\<close>; \<open>Tss_Server\<close>, \<open>Tss_KeySign\<close>: package \<open>tss\<close> with \<open>monitor\<close>.
    \<^item> \<open>Net_Http\<close> (\<open>network/http\<close>), \<open>Bridge_Client\<close> and \<open>Client_Context\<close> (\<open>network/bridge_client.go\<close>),
      \<open>Bridge_Scanner\<close>, \<open>Net_Keysign\<close>, \<open>Net_Signer\<close>, \<open>Signer_Sections\<close>, \<open>Bridge_Node\<close>, \<open>Signer_Loops\<close> (\<open>network\<close>):
      a pass of the signer's loop as a function, its critical sections, a run of one loop, and the two
      loops that \<open>Signer.Start\<close> launches with the scanner, as a step relation over these sections.
    \<^item> \<open>Chain_Clients\<close> (\<open>network/chain\<close>, \<open>network/btcprocessors\<close>), \<open>Node_Services\<close> (the export of the peer addresses,
      the observer, the goroutines of a Bitcoin client, the unused block scanner), \<open>Http_Server\<close>
      (\<open>cmd/tss/tss_http.go\<close>), \<open>Node\<close> and \<open>Cli_Flags\<close> (\<open>config\<close>, \<open>cmd/tss/main.go\<close>), \<open>Recovery\<close> (\<open>cmd/tss-recovery\<close>), \<open>Bench\<close>
      (\<open>cmd/tss-benchgen\<close>, \<open>cmd/tss-benchsign\<close>).

  \<^bold>\<open>Conventions.\<close>  Third-party functions (tss-lib, libp2p, Cosmos SDK, tendermint, btcd, JSON and protobuf
  coders) are the fields of the records named \<open>..._ext\<close>, which extend one another along the imports;
  what a theorem needs of them is a hypothesis of it, named in its text (\<open>party_lib\<close>: tss-lib keeps and sorts
  the party ids it is given; \<open>calm\<close>: the reads of the store do not fail; round trips of the coders), and each such
  theorem has a witness at a concrete instance.  Nothing is supposed about what the decoders make of
  bytes that come from outside.  Error texts keep their
  constant part.  A nil dereference, an index out of range and the closing of a closed channel are
  \<open>Panic\<close>.  A goroutine that waits is a function over the list of the events it receives; \<open>None\<close>
  means that the list ends before the wait does.  A wait group is waited for by a function that goes on until
  each of its goroutines has ended: in \<open>commFinish\<close> the select over the five seconds and the completion channel
  closes \<open>commStopChan\<close>, only then does the message loop return (\<open>FinExit\<close>), the starts of the parties return on
  their own (\<open>FinStarted\<close>), and the call goes on when all of that has happened; in \<open>senderWait\<close> the sending
  goroutine of a join ends only when it sees \<open>done\<close> closed (\<open>WSender\<close>).  A timer is made anew wherever the loop makes
  it: theory \<open>Clock\<close> merges arrivals at given times with the timers, and the termination properties say how long
  the arrivals can hold a wait up.  No fuel is chosen anywhere, every other recursion is
  structural.  Goroutines that share state under locks (the loops of the signer) and goroutines that meet in an
  unbuffered channel (a Bitcoin client) are inductive step relations; that they come to rest is a bound on the
  number of their steps.  Nothing in the source closes the signer's \<open>stopCh\<close>, so its loops have no stop step.  Where Go leaves an order open (range over a map, workers, goroutines) the order is an
  argument, over which the theorems quantify.  Integers that travel between nodes keep their width where it
  matters (the length header of a frame, sequence numbers, \<open>ParseInt\<close>); counters bounded by the
  size of a committee are \<open>int\<close>.

  \<^bold>\<open>What the lemmas show.\<close>  The message loop keeps the invariant \<open>tss_in\<close>: only signed shares count, and the one
  panic left is a nil dereference that takes a bulk message signed by a party of the ceremony with an entry
  without routing or sender.  A broadcast is accepted on a majority of confirmations, and for committees in which
  two majorities meet no two nodes accept different ones.  A leader forms a quorum of the committee and the members
  that join hold the same party.  \<open>Keygen\<close> and \<open>KeySign\<close> return in bounded time; a reported key
  is stored; a signature that is answered verifies or stems from the own ceremony, and belongs to
  its message, through the batches of the bridge node down to the answer of each task.  The blame policies
  spare the node itself and name exactly the missing parties of a batch of one.  Frames (read through a buffer that is dropped with what it has read ahead), local states,
  key files and \<open>ParseInt\<close> are round trips.  The bridge client never has two accepted transactions with one sequence
  number; the scanner delivers the keygen blocks in order as long as it is answered, and the relayer then reports each of them once.  For the two
  loops of the signer this is shown over every interleaving of their sections: they never block each other for ever, each
  keygen block is reported once, the node comes to rest after a bounded number of steps, its accepted transactions
  have ascending sequence numbers.  The steps of one loop are the pass that the functional model describes (a
  check of the two models against each other).
  A broadcast is followed from its first copy through the confirmations to the parties.  The shares that the
  benchmark generator writes are those that the signing benchmark loads.  Some theorems state defects as the code has them
  (a node without messages to sign hangs, a blame stops the signer before anything is sent).

  \<^bold>\<open>Not modelled.\<close>  Logging; the cryptography; libp2p's transport, discovery and resource limits; the HTTP
  transport; durations and gauges; generated protobuf code beyond its data, enumerations and getters; the reading of the configuration file
  and the parsing of the command line, which are libraries; the goroutines that are only started (each is modelled as the run
  of its own loop); the reporter of libp2p's resource manager, which only logs; the constants that set the bech32
  prefixes; the test doubles.
\<close>

end
